(* ===== verification/Ark_Prelude.thy ===== *)
theory Ark_Prelude imports Main "HOL-Library.Multiset" "HOL-Library.Char_ord" "HOL-Library.List_Lexorder" begin

text \<open>
  The shared base of the development: the result type that stands for Rust's \<open>Result\<close>, the
  traversals \<open>iter().map(f).collect::<Result<Vec<_>>>()\<close> and \<open>try_for_each\<close>, the ordered map
  that stands for \<open>BTreeMap\<close>, and the collections of simplification rules the component
  theories extend.
\<close>

named_theorems ark_simps \<open>equations of the model's operations that proofs unfold together\<close>
named_theorems ark_intros \<open>preservation lemmas of the component invariants\<close>

section \<open>Results\<close>

text \<open>
  A \<open>Result<T, E>\<close> is a value of the sum type, with the error on the left. \<open>rbind\<close> is the \<open>?\<close>
  operator followed by the rest of the function body.
\<close>

fun rbind :: "'e + 'a \<Rightarrow> ('a \<Rightarrow> 'e + 'b) \<Rightarrow> 'e + 'b" where
  "rbind (Inl e) f = Inl e"
| "rbind (Inr x) f = f x"

lemma rbind_cong [fundef_cong]:
  "m = n \<Longrightarrow> (\<And>x. n = Inr x \<Longrightarrow> f x = g x) \<Longrightarrow> rbind m f = rbind n g"
  by (cases n) auto

lemma rbind_eq_Inr [simp]: "rbind m f = Inr y \<longleftrightarrow> (\<exists>x. m = Inr x \<and> f x = Inr y)"
  by (cases m) auto

lemma rbind_eq_Inl: "rbind m f = Inl e \<longleftrightarrow> m = Inl e \<or> (\<exists>x. m = Inr x \<and> f x = Inl e)"
  by (cases m) auto

lemma rbind_assoc: "rbind (rbind m f) g = rbind m (\<lambda>x. rbind (f x) g)"
  by (cases m) auto

lemma rbind_Inr_right [simp]: "rbind m Inr = m"
  by (cases m) auto

lemma rbind_split:
  "P (rbind m f) \<longleftrightarrow> (\<forall>e. m = Inl e \<longrightarrow> P (Inl e)) \<and> (\<forall>x. m = Inr x \<longrightarrow> P (f x))"
  by (cases m) auto

text \<open>\<open>collect\<close> into a \<open>Result<Vec<_>>\<close>: the first error wins, otherwise every value in order.\<close>

fun traverse :: "('a \<Rightarrow> 'e + 'b) \<Rightarrow> 'a list \<Rightarrow> 'e + 'b list" where
  "traverse f [] = Inr []"
| "traverse f (x # xs) = rbind (f x) (\<lambda>y. rbind (traverse f xs) (\<lambda>ys. Inr (y # ys)))"

lemma traverse_Inr_length: "traverse f xs = Inr ys \<Longrightarrow> length ys = length xs"
  by (induction xs arbitrary: ys) auto

lemma traverse_Inr_iff:
  "traverse f xs = Inr ys \<longleftrightarrow> list_all2 (\<lambda>x y. f x = Inr y) xs ys"
  by (induction xs arbitrary: ys) (auto simp: list_all2_Cons1)

lemma traverse_total: "(\<And>x. x \<in> set xs \<Longrightarrow> \<exists>y. f x = Inr y) \<Longrightarrow> \<exists>ys. traverse f xs = Inr ys"
  by (induction xs) auto

text \<open>\<open>try_for_each\<close> over a mutable state: stop at the first error.\<close>

fun fold_result :: "('a \<Rightarrow> 's \<Rightarrow> 'e + 's) \<Rightarrow> 'a list \<Rightarrow> 's \<Rightarrow> 'e + 's" where
  "fold_result f [] s = Inr s"
| "fold_result f (x # xs) s = rbind (f x s) (fold_result f xs)"

lemma fold_result_append:
  "fold_result f (xs @ ys) s = rbind (fold_result f xs s) (fold_result f ys)"
  by (induction xs arbitrary: s) (auto simp: rbind_assoc intro!: rbind_cong)

lemma fold_result_invariant:
  assumes "fold_result f xs s = Inr t" and "I s"
    and "\<And>x u v. x \<in> set xs \<Longrightarrow> f x u = Inr v \<Longrightarrow> I u \<Longrightarrow> I v"
  shows "I t"
  using assms by (induction xs arbitrary: s) auto

lemma fold_result_cong [fundef_cong]:
  "xs = ys \<Longrightarrow> s = t \<Longrightarrow> (\<And>x u. x \<in> set ys \<Longrightarrow> f x u = g x u) \<Longrightarrow> fold_result f xs s = fold_result g ys t"
proof -
  have "(\<And>x u. x \<in> set zs \<Longrightarrow> f x u = g x u) \<Longrightarrow> fold_result f zs r = fold_result g zs r" for zs r
    by (induction zs arbitrary: r) (auto intro!: rbind_cong)
  then show "xs = ys \<Longrightarrow> s = t \<Longrightarrow> (\<And>x u. x \<in> set ys \<Longrightarrow> f x u = g x u) \<Longrightarrow> fold_result f xs s = fold_result g ys t"
    by simp
qed

lemma fold_result_agree:
  assumes "fold_result f xs s \<noteq> Inl e" and "\<And>x u. x \<in> set xs \<Longrightarrow> f x u \<noteq> Inl e \<Longrightarrow> g x u = f x u"
  shows "fold_result g xs s = fold_result f xs s"
  using assms
proof (induction xs arbitrary: s)
  case (Cons x xs)
  have "f x s \<noteq> Inl e" using Cons.prems(1) by auto
  then have gf: "g x s = f x s" using Cons.prems(2) by simp
  show ?case
  proof (cases "f x s")
    case (Inr u)
    with Cons.prems have "fold_result f xs u \<noteq> Inl e" by simp
    from Cons.IH [OF this] Cons.prems(2) Inr gf show ?thesis by simp
  qed (simp add: gf)
qed simp

lemma fold_result_no_error:
  "(\<And>x u. x \<in> set xs \<Longrightarrow> f x u \<noteq> Inl e) \<Longrightarrow> fold_result f xs s \<noteq> Inl e"
  by (induction xs arbitrary: s) (auto simp: rbind_eq_Inl)

text \<open>\<open>Option::and_then\<close>\<close>

definition opt_bind :: "'a option \<Rightarrow> ('a \<Rightarrow> 'b option) \<Rightarrow> 'b option" where
  "opt_bind x f = (case x of None \<Rightarrow> None | Some a \<Rightarrow> f a)"

section \<open>Printing and parsing\<close>

text \<open>\<open>bool::from_str\<close> and \<open>format!\<close> of a number.\<close>

definition parse_bool :: "string \<Rightarrow> bool option" where
  "parse_bool s = (if s = ''true'' then Some True else if s = ''false'' then Some False else None)"

definition show_bool :: "bool \<Rightarrow> string" where
  "show_bool b = (if b then ''true'' else ''false'')"

lemma parse_show_bool [simp]: "parse_bool (show_bool b) = Some b"
  by (simp add: parse_bool_def show_bool_def)

lemma show_bool_eq [simp]: "show_bool b = ''true'' \<longleftrightarrow> b" "show_bool b = ''false'' \<longleftrightarrow> \<not> b"
  by (simp_all add: show_bool_def)

fun show_nat :: "nat \<Rightarrow> string" where
  "show_nat n = (if n < 10 then [char_of (48 + n)] else show_nat (n div 10) @ [char_of (48 + n mod 10)])"

declare show_nat.simps [simp del]

section \<open>Ordered maps\<close>

text \<open>
  A \<open>BTreeMap\<close> is its list of entries in the order of the keys, which is the order in which
  \<open>iter\<close>, \<open>values\<close> and \<open>into_values\<close> yield them.
\<close>

fun bt_insert :: "'k::linorder \<Rightarrow> 'v \<Rightarrow> ('k \<times> 'v) list \<Rightarrow> ('k \<times> 'v) list" where
  "bt_insert k v [] = [(k, v)]"
| "bt_insert k v ((k', v') # m) =
     (if k < k' then (k, v) # (k', v') # m
      else if k = k' then (k, v) # m
      else (k', v') # bt_insert k v m)"

fun bt_remove :: "'k \<Rightarrow> ('k \<times> 'v) list \<Rightarrow> ('k \<times> 'v) list" where
  "bt_remove k [] = []"
| "bt_remove k ((k', v') # m) = (if k = k' then m else (k', v') # bt_remove k m)"

definition bt_lookup :: "('k \<times> 'v) list \<Rightarrow> 'k \<Rightarrow> 'v option" where
  "bt_lookup = map_of"

definition bt_of_list :: "('k::linorder \<times> 'v) list \<Rightarrow> ('k \<times> 'v) list" where
  "bt_of_list kvs = fold (\<lambda>(k, v) m. bt_insert k v m) kvs []"

definition bt_wf :: "('k::linorder \<times> 'v) list \<Rightarrow> bool" where
  "bt_wf m \<longleftrightarrow> sorted_wrt (<) (map fst m)"

lemma bt_lookup_Nil [simp]: "bt_lookup [] k = None"
  by (simp add: bt_lookup_def)

lemma bt_lookup_Cons [simp]:
  "bt_lookup ((k', v) # m) k = (if k = k' then Some v else bt_lookup m k)"
  by (simp add: bt_lookup_def)

lemma bt_wf_Nil [simp]: "bt_wf []"
  by (simp add: bt_wf_def)

lemma bt_wf_Cons: "bt_wf ((k, v) # m) \<longleftrightarrow> (\<forall>k' \<in> fst ` set m. k < k') \<and> bt_wf m"
  by (auto simp: bt_wf_def)

lemma bt_wf_ConsD: "bt_wf (p # m) \<Longrightarrow> bt_wf m"
  by (auto simp: bt_wf_def)

lemma fst_set_bt_insert: "fst ` set (bt_insert k v m) = insert k (fst ` set m)"
  by (induction k v m rule: bt_insert.induct) (simp_all add: insert_commute)

lemma bt_wf_insert [simp, ark_intros]: "bt_wf m \<Longrightarrow> bt_wf (bt_insert k v m)"
  by (induction k v m rule: bt_insert.induct) (fastforce simp: bt_wf_Cons fst_set_bt_insert)+

lemma bt_lookup_None_iff: "bt_lookup m k = None \<longleftrightarrow> k \<notin> fst ` set m"
  by (simp add: bt_lookup_def map_of_eq_None_iff)

lemma bt_lookup_insert:
  "bt_lookup (bt_insert k v m) k' = (if k' = k then Some v else bt_lookup m k')"
  by (induction m) auto

lemma fst_set_bt_remove: "bt_wf m \<Longrightarrow> fst ` set (bt_remove k m) = fst ` set m - {k}"
proof (induction m)
  case Nil
  then show ?case by simp
next
  case (Cons p m)
  obtain a b where p: "p = (a, b)" by fastforce
  from Cons.prems have "a \<notin> fst ` set m" and "bt_wf m"
    by (auto simp: p bt_wf_Cons)
  with Cons.IH show ?case by (cases "a = k") (simp_all add: p insert_Diff_if)
qed

lemma bt_wf_remove [simp, ark_intros]: "bt_wf m \<Longrightarrow> bt_wf (bt_remove k m)"
  by (induction k m rule: bt_remove.induct) (auto simp: bt_wf_Cons fst_set_bt_remove)

lemma bt_lookup_remove:
  "bt_wf m \<Longrightarrow> bt_lookup (bt_remove k m) k' = (if k' = k then None else bt_lookup m k')"
proof (induction m)
  case Nil
  then show ?case by simp
next
  case (Cons p m)
  obtain a b where p: "p = (a, b)" by fastforce
  from Cons.prems have "bt_lookup m a = None"
    by (auto simp: p bt_wf_Cons bt_lookup_None_iff)
  with Cons show ?case by (auto simp: p bt_wf_Cons)
qed

lemma bt_wf_of_list [simp, ark_intros]: "bt_wf (bt_of_list kvs)"
proof -
  have "bt_wf m \<Longrightarrow> bt_wf (fold (\<lambda>(k, v) m. bt_insert k v m) kvs m)"
    for m
    by (induction kvs arbitrary: m) auto
  then show ?thesis by (simp add: bt_of_list_def)
qed

text \<open>Collecting entries into a map keeps, for every key, the last value given for it.\<close>

lemma bt_lookup_of_list: "bt_lookup (bt_of_list kvs) k = map_of (rev kvs) k"
proof -
  have "bt_lookup (fold (\<lambda>(k, v) m. bt_insert k v m) kvs m) k
      = (case map_of (rev kvs) k of None \<Rightarrow> bt_lookup m k | Some v \<Rightarrow> Some v)"
    for m
    by (induction kvs arbitrary: m)
      (auto simp: bt_lookup_insert map_add_def split: option.splits)
  then show ?thesis by (simp add: bt_of_list_def split: option.split)
qed

lemma bt_wf_distinct: "bt_wf m \<Longrightarrow> distinct (map fst m)"
  by (simp add: bt_wf_def strict_sorted_iff)

lemma bt_lookup_Some_iff: "bt_wf m \<Longrightarrow> bt_lookup m k = Some v \<longleftrightarrow> (k, v) \<in> set m"
  by (simp add: bt_lookup_def bt_wf_distinct)

text \<open>What an insertion changes in a sum over the values of a map.\<close>

lemma sum_bt_insert:
  fixes f :: "'v \<Rightarrow> 'a multiset"
  assumes "bt_wf m"
  shows "sum_list (map (\<lambda>p. f (snd p)) (bt_insert k v m)) + (case bt_lookup m k of None \<Rightarrow> {#} | Some w \<Rightarrow> f w)
    = f v + sum_list (map (\<lambda>p. f (snd p)) m)"
  using assms
proof (induction k v m rule: bt_insert.induct)
  case (1 k v)
  then show ?case by simp
next
  case (2 k v k' v' m)
  have "k < k' \<Longrightarrow> bt_lookup m k = None"
    using "2.prems" by (force simp: bt_wf_Cons bt_lookup_None_iff)
  with 2 show ?case by (auto simp: bt_wf_Cons ac_simps)
qed

lemma set_bt_insert: "bt_wf m \<Longrightarrow> set (bt_insert k v m) = insert (k, v) {p \<in> set m. fst p \<noteq> k}"
  by (induction k v m rule: bt_insert.induct) (force simp: bt_wf_Cons)+

lemma set_map_filter: "set (List.map_filter f xs) = {y. \<exists>x \<in> set xs. f x = Some y}"
  by (induction xs) (auto split: option.split)

text \<open>A \<open>BTreeSet\<close> is its sorted list of elements.\<close>

definition bt_set :: "'k::linorder list \<Rightarrow> 'k list" where
  "bt_set ks = sort (remdups ks)"

lemma set_bt_set [simp]: "set (bt_set ks) = set ks"
  by (simp add: bt_set_def)

lemma bt_set_eq_sorted_list: "bt_set ks = sorted_list_of_set (set ks)"
  by (simp add: bt_set_def sorted_list_of_set_sort_remdups)

lemma sorted_bt_set [simp]: "sorted (bt_set ks)" "distinct (bt_set ks)"
  by (simp_all add: bt_set_def)

section \<open>Interfaces\<close>

text \<open>
  What a client of a keyed store relies on, whatever the store is made of: the laws of looking
  up after a put or a delete, under an invariant that both keep.
\<close>

locale keyed_store =
  fixes lookup :: "'m \<Rightarrow> 'k \<Rightarrow> 'v option"
    and put :: "'k \<Rightarrow> 'v \<Rightarrow> 'm \<Rightarrow> 'm"
    and delete :: "'k \<Rightarrow> 'm \<Rightarrow> 'm"
    and inv :: "'m \<Rightarrow> bool"
  assumes lookup_put: "inv m \<Longrightarrow> lookup (put k v m) k' = (if k' = k then Some v else lookup m k')"
    and lookup_delete: "inv m \<Longrightarrow> lookup (delete k m) k' = (if k' = k then None else lookup m k')"
    and inv_put: "inv m \<Longrightarrow> inv (put k v m)"
    and inv_delete: "inv m \<Longrightarrow> inv (delete k m)"
begin

lemma delete_after_put:
  "inv m \<Longrightarrow> lookup (delete k (put k v m)) k' = (if k' = k then None else lookup m k')"
  by (simp add: lookup_delete lookup_put inv_put)

lemma put_put_same:
  "inv m \<Longrightarrow> lookup (put k v (put k w m)) k' = lookup (put k v m) k'"
  by (simp add: lookup_put inv_put)

lemma put_commute:
  "inv m \<Longrightarrow> a \<noteq> b \<Longrightarrow> lookup (put a v (put b w m)) k = lookup (put b w (put a v m)) k"
  by (simp add: lookup_put inv_put)

lemma dom_put: "inv m \<Longrightarrow> dom (lookup (put k v m)) = insert k (dom (lookup m))"
  by (auto simp: lookup_put dom_def)

lemma dom_delete: "inv m \<Longrightarrow> dom (lookup (delete k m)) = dom (lookup m) - {k}"
  by (auto simp: lookup_delete dom_def)

end

interpretation btree: keyed_store bt_lookup bt_insert bt_remove bt_wf
  by unfold_locales (simp_all add: bt_lookup_insert bt_lookup_remove)

end
