(* ===== verification/Dep_Graph.thy ===== *)
theory Dep_Graph imports Ark_Prelude begin

text \<open>
  The pipeline search of \<open>crates/kubegraph/dependency/graph/src/lib.rs\<close>: a breadth-first search
  for chains of nodes that turn the features of the claim's source into those of its sink. The
  definitions follow \<open>Graph::build_pipeline\<close>: the seed loop over all nodes, the work queue, the
  expansion loop with its three exits. The lemmas show that the search terminates, that every
  pipeline it returns solves the claim, that it finds one whenever there is one, and that its
  first answer is a shortest one.
\<close>

section \<open>Model\<close>

text \<open>The trait \<open>Node\<close>: what its three methods return, beside the node itself.\<close>

record ('n, 'f) node =
  nd_item :: 'n
  is_final :: bool
  provided :: "'f list"
  requirements :: "'f list"

type_synonym ('n, 'f) graph = "('n, 'f) node list"
type_synonym ('n, 'f) pipeline = "('n, 'f) node list"

definition add_node :: "('n, 'f) node \<Rightarrow> ('n, 'f) graph \<Rightarrow> ('n, 'f) graph" where
  "add_node node nodes = nodes @ [node]"

record claim_options =
  fastest :: bool
  max_depth :: "nat option"

definition default_claim_options :: claim_options where
  "default_claim_options = \<lparr>fastest = True, max_depth = None\<rparr>"

record 'f claim =
  opts :: claim_options
  claim_src :: "'f list"
  claim_sink :: "'f list"

record 'f visit_state =
  features :: "'f set"
  travelled :: "nat list"

text \<open>\<open>ContainsAll::contains_all\<close>, on the set of the items the receiver holds.\<close>

definition contains_all :: "'f set \<Rightarrow> 'f list \<Rightarrow> bool" where
  "contains_all have required \<longleftrightarrow> list_all (\<lambda>item. item \<in> have) required"

text \<open>
  The first loop of \<open>build_pipeline\<close>, over the enumerated nodes: \<open>Inl\<close> is its early return with
  one pipeline, \<open>Inr\<close> the pipelines and the work queue it leaves.
\<close>

fun seed_loop :: "'f claim \<Rightarrow> (nat \<times> ('n, 'f) node) list \<Rightarrow> ('n, 'f) pipeline list \<Rightarrow>
    'f visit_state list \<Rightarrow>
    ('n, 'f) pipeline + ('n, 'f) pipeline list \<times> 'f visit_state list" where
  "seed_loop c [] ps q = Inr (ps, q)"
| "seed_loop c ((i, sink) # rest) ps q =
     (if \<not> contains_all (set (claim_src c)) (requirements sink) then seed_loop c rest ps q
      else if contains_all (set (claim_src c) \<union> set (provided sink)) (claim_sink c) then
        (if fastest (opts c) then Inl [sink] else seed_loop c rest (ps @ [[sink]]) q)
      else seed_loop c rest ps
        (q @ [\<lparr>features = set (claim_src c) \<union> set (provided sink), travelled = [i]\<rparr>]))"

text \<open>The body of the \<open>while let\<close> loop for one state: the loop over every node as the next sink.\<close>

fun expand_loop :: "'f claim \<Rightarrow> ('n, 'f) graph \<Rightarrow> 'f visit_state \<Rightarrow>
    (nat \<times> ('n, 'f) node) list \<Rightarrow> ('n, 'f) pipeline list \<Rightarrow> 'f visit_state list \<Rightarrow>
    ('n, 'f) pipeline + ('n, 'f) pipeline list \<times> 'f visit_state list" where
  "expand_loop c nodes s [] ps q = Inr (ps, q)"
| "expand_loop c nodes s ((i, sink) # rest) ps q =
     (if i \<in> set (travelled s) \<or> \<not> contains_all (features s) (requirements sink)
      then expand_loop c nodes s rest ps q
      else
        (let provided' = features s \<union> set (provided sink) in
         if contains_all provided' (claim_sink c) then
           (let pipeline = map (\<lambda>index. nodes ! index) (travelled s) @ [sink] in
            if fastest (opts c) then Inl pipeline
            else expand_loop c nodes s rest (ps @ [pipeline]) q)
         else if (case max_depth (opts c) of None \<Rightarrow> False
                  | Some d \<Rightarrow> d \<le> length (travelled s) + 1)
           then expand_loop c nodes s rest ps q
         else if is_final sink then expand_loop c nodes s rest ps q
         else expand_loop c nodes s rest ps
           (q @ [\<lparr>features = provided', travelled = travelled s @ [i]\<rparr>])))"

text \<open>The states one expansion can push: used by the termination argument of the search.\<close>

lemma expand_loop_pushes:
  assumes "expand_loop c nodes s ins ps q = Inr (ps', q')"
  shows "\<exists>new. q' = q @ new \<and> length new \<le> length ins \<and>
    (\<forall>t \<in> set new. \<exists>i \<in> fst ` set ins. i \<notin> set (travelled s) \<and> travelled t = travelled s @ [i])"
  using assms
  by (induction c nodes s ins ps q rule: expand_loop.induct)
    (simp_all add: Let_def split: if_splits option.splits, fastforce+)

text \<open>
  The weight of the queue: a state that has visited all but \<open>k\<close> nodes counts \<open>(n + 1) ^ k\<close>, which
  is more than all the states its expansion can push.
\<close>

definition state_weight :: "nat \<Rightarrow> 'f visit_state \<Rightarrow> nat" where
  "state_weight n s = (n + 1) ^ card ({..<n} - set (travelled s))"

definition queue_weight :: "nat \<Rightarrow> 'f visit_state list \<Rightarrow> nat" where
  "queue_weight n q = sum_list (map (state_weight n) q)"

lemma queue_weight_append [simp]: "queue_weight n (p @ q) = queue_weight n p + queue_weight n q"
  by (simp add: queue_weight_def)

lemma queue_weight_Cons [simp]: "queue_weight n (s # q) = state_weight n s + queue_weight n q"
  by (simp add: queue_weight_def)

lemma queue_weight_bound:
  "(\<And>t. t \<in> set q \<Longrightarrow> state_weight n t \<le> w) \<Longrightarrow> queue_weight n q \<le> length q * w"
  by (induction q) (fastforce simp: queue_weight_def)+

lemma expand_loop_weight:
  assumes "expand_loop c nodes s (enumerate 0 nodes) ps q = Inr (ps', q')"
  shows "queue_weight (length nodes) q' < state_weight (length nodes) s + queue_weight (length nodes) q"
proof -
  define n where "n = length nodes"
  define U where "U = {..<n} - set (travelled s)"
  from expand_loop_pushes [OF assms] obtain new where q': "q' = q @ new"
    and len: "length new \<le> n"
    and new: "\<And>t. t \<in> set new \<Longrightarrow> \<exists>i \<in> U. travelled t = travelled s @ [i]"
    by (fastforce simp: n_def U_def in_set_enumerate_eq)
  have fin: "finite U" by (simp add: U_def)
  have child: "state_weight n t \<le> (n + 1) ^ (card U - 1)" if "t \<in> set new" for t
  proof -
    from new [OF that] obtain i where i: "i \<in> U" and t: "travelled t = travelled s @ [i]"
      by blast
    have "{..<n} - set (travelled t) = U - {i}" by (auto simp: t U_def)
    with i fin show ?thesis by (simp add: state_weight_def)
  qed
  have "queue_weight n new < (n + 1) ^ card U"
  proof (cases "new = []")
    case True
    then show ?thesis by (simp add: queue_weight_def)
  next
    case False
    then obtain t where "t \<in> set new" by (cases new) auto
    with new have "U \<noteq> {}" by blast
    with fin have "card U = Suc (card U - 1)" by (simp add: card_gt_0_iff)
    then have pow: "(n + 1) ^ card U = (n + 1) * (n + 1) ^ (card U - 1)"
      by (metis power_Suc)
    have "queue_weight n new \<le> length new * (n + 1) ^ (card U - 1)"
      by (rule queue_weight_bound) (rule child)
    also have "\<dots> \<le> n * (n + 1) ^ (card U - 1)"
      using len by (simp add: mult_le_mono1)
    also have "\<dots> < (n + 1) ^ card U"
      by (subst pow) simp
    finally show ?thesis .
  qed
  then show ?thesis by (simp add: q' n_def state_weight_def U_def)
qed

text \<open>The \<open>while let Some(_) = states.pop_front()\<close> loop and what follows it.\<close>

function visit_loop :: "'f claim \<Rightarrow> ('n, 'f) graph \<Rightarrow> ('n, 'f) pipeline list \<Rightarrow>
    'f visit_state list \<Rightarrow> ('n, 'f) pipeline list option" where
  "visit_loop c nodes ps [] = (if ps = [] then None else Some ps)"
| "visit_loop c nodes ps (s # q) =
     (case expand_loop c nodes s (enumerate 0 nodes) ps q of
        Inl pipeline \<Rightarrow> Some [pipeline]
      | Inr (ps', q') \<Rightarrow> visit_loop c nodes ps' q')"
  by pat_completeness auto
termination
  by (relation "measure (\<lambda>(c, nodes, ps, q). queue_weight (length nodes) q)")
    (auto dest: expand_loop_weight)

definition build_pipeline :: "('n, 'f) graph \<Rightarrow> 'f claim \<Rightarrow> ('n, 'f) pipeline list option" where
  "build_pipeline nodes c =
     (if claim_sink c = [] \<or> contains_all (set (claim_src c)) (claim_sink c) then Some []
      else case seed_loop c (enumerate 0 nodes) [] [] of
             Inl pipeline \<Rightarrow> Some [pipeline]
           | Inr (ps, q) \<Rightarrow> visit_loop c nodes ps q)"

section \<open>What a pipeline has to do\<close>

text \<open>
  The specification, independent of the search: a chain is feasible from a set of features when
  every node finds its requirements among them and what the nodes before it provide.
\<close>

fun feasible :: "'f set \<Rightarrow> ('n, 'f) pipeline \<Rightarrow> bool" where
  "feasible F [] = True"
| "feasible F (p # ps) = (set (requirements p) \<subseteq> F \<and> feasible (F \<union> set (provided p)) ps)"

definition features_after :: "'f set \<Rightarrow> ('n, 'f) pipeline \<Rightarrow> 'f set" where
  "features_after F ps = F \<union> (\<Union>p \<in> set ps. set (provided p))"

definition reaches :: "'f claim \<Rightarrow> ('n, 'f) pipeline \<Rightarrow> bool" where
  "reaches c ps \<longleftrightarrow> set (claim_sink c) \<subseteq> features_after (set (claim_src c)) ps"

definition solves :: "'f claim \<Rightarrow> ('n, 'f) pipeline \<Rightarrow> bool" where
  "solves c ps \<longleftrightarrow> feasible (set (claim_src c)) ps \<and> reaches c ps"

definition at :: "('n, 'f) graph \<Rightarrow> nat list \<Rightarrow> ('n, 'f) pipeline" where
  "at nodes is = map (\<lambda>i. nodes ! i) is"

definition valid_indices :: "('n, 'f) graph \<Rightarrow> nat list \<Rightarrow> bool" where
  "valid_indices nodes is \<longleftrightarrow> distinct is \<and> set is \<subseteq> {..<length nodes}"

text \<open>
  The chains the search keeps working on: feasible, not yet at the sink at any prefix, and with no
  final node after the first.
\<close>

definition open_path :: "'f claim \<Rightarrow> ('n, 'f) graph \<Rightarrow> nat list \<Rightarrow> bool" where
  "open_path c nodes is \<longleftrightarrow> is \<noteq> [] \<and> valid_indices nodes is \<and>
     feasible (set (claim_src c)) (at nodes is) \<and> \<not> reaches c (at nodes is) \<and>
     (\<forall>i \<in> set (tl is). \<not> is_final (nodes ! i))"

definition goal_path :: "'f claim \<Rightarrow> ('n, 'f) graph \<Rightarrow> nat list \<Rightarrow> bool" where
  "goal_path c nodes is \<longleftrightarrow> is \<noteq> [] \<and> valid_indices nodes is \<and> solves c (at nodes is) \<and>
     (butlast is \<noteq> [] \<longrightarrow> open_path c nodes (butlast is))"

lemma contains_all_iff [simp]: "contains_all F xs \<longleftrightarrow> set xs \<subseteq> F"
  by (auto simp: contains_all_def list_all_iff)

lemma at_simps [simp]:
  "at nodes [] = []" "at nodes (i # is) = nodes ! i # at nodes is"
  "at nodes (is @ js) = at nodes is @ at nodes js"
  by (simp_all add: at_def)

lemma length_at [simp]: "length (at nodes is) = length is"
  by (simp add: at_def)

lemma feasible_append:
  "feasible F (ps @ qs) \<longleftrightarrow> feasible F ps \<and> feasible (features_after F ps) qs"
  by (induction ps arbitrary: F) (auto simp: features_after_def Un_assoc)

lemma features_after_append [simp]:
  "features_after F (ps @ qs) = features_after (features_after F ps) qs"
  by (auto simp: features_after_def)

lemma features_after_simps [simp]:
  "features_after F [] = F"
  "features_after F (p # ps) = features_after (F \<union> set (provided p)) ps"
  by (auto simp: features_after_def)

lemma features_after_mono: "F \<subseteq> features_after F ps"
  by (auto simp: features_after_def)

lemma reaches_append: "reaches c ps \<Longrightarrow> reaches c (ps @ qs)"
  unfolding reaches_def features_after_append using features_after_mono by fastforce

section \<open>Soundness\<close>

definition sound_state :: "'f claim \<Rightarrow> ('n, 'f) graph \<Rightarrow> 'f visit_state \<Rightarrow> bool" where
  "sound_state c nodes s \<longleftrightarrow> open_path c nodes (travelled s) \<and>
     features s = features_after (set (claim_src c)) (at nodes (travelled s))"

definition sound_pipeline :: "'f claim \<Rightarrow> ('n, 'f) graph \<Rightarrow> ('n, 'f) pipeline \<Rightarrow> bool" where
  "sound_pipeline c nodes p \<longleftrightarrow> (\<exists>is. goal_path c nodes is \<and> p = at nodes is)"

definition enumerates :: "(nat \<times> ('n, 'f) node) list \<Rightarrow> ('n, 'f) graph \<Rightarrow> bool" where
  "enumerates ins nodes \<longleftrightarrow> (\<forall>(i, nd) \<in> set ins. i < length nodes \<and> nodes ! i = nd)"

lemma enumerates_enumerate [simp]: "enumerates (enumerate 0 nodes) nodes"
  by (auto simp: enumerates_def in_set_enumerate_eq)

lemma fst_set_enumerate: "fst ` set (enumerate 0 xs) = {..<length xs}"
  by (metis add_0 atLeast_upt map_fst_enumerate set_map)

lemma enumerates_Cons [simp]:
  "enumerates ((i, nd) # ins) nodes \<longleftrightarrow> i < length nodes \<and> nodes ! i = nd \<and> enumerates ins nodes"
  by (auto simp: enumerates_def)

lemma valid_indices_snoc [simp]:
  "valid_indices nodes (is @ [i]) \<longleftrightarrow> valid_indices nodes is \<and> i \<notin> set is \<and> i < length nodes"
  by (auto simp: valid_indices_def)

text \<open>The two ways an open path grows by a node whose requirements are met.\<close>

lemma open_path_snoc:
  assumes "sound_state c nodes s" and "i < length nodes" and "i \<notin> set (travelled s)"
    and "set (requirements (nodes ! i)) \<subseteq> features s"
  shows "goal_path c nodes (travelled s @ [i]) \<longleftrightarrow>
      set (claim_sink c) \<subseteq> features s \<union> set (provided (nodes ! i))"
    and "open_path c nodes (travelled s @ [i]) \<longleftrightarrow>
      \<not> set (claim_sink c) \<subseteq> features s \<union> set (provided (nodes ! i)) \<and> \<not> is_final (nodes ! i)"
proof -
  from assms(1) have op: "open_path c nodes (travelled s)"
    and F: "features_after (set (claim_src c)) (at nodes (travelled s)) = features s"
    by (auto simp: sound_state_def)
  have r: "reaches c (at nodes (travelled s @ [i])) \<longleftrightarrow>
      set (claim_sink c) \<subseteq> features s \<union> set (provided (nodes ! i))"
    by (simp add: reaches_def F)
  show "goal_path c nodes (travelled s @ [i]) \<longleftrightarrow>
      set (claim_sink c) \<subseteq> features s \<union> set (provided (nodes ! i))"
    using op assms(2-4) r
    by (auto simp: goal_path_def solves_def open_path_def feasible_append F)
  show "open_path c nodes (travelled s @ [i]) \<longleftrightarrow>
      \<not> set (claim_sink c) \<subseteq> features s \<union> set (provided (nodes ! i)) \<and> \<not> is_final (nodes ! i)"
    using op assms(2-4) r by (auto simp: open_path_def feasible_append F)
qed

lemma sound_state_child:
  "sound_state c nodes s \<Longrightarrow> open_path c nodes (travelled s @ [i]) \<Longrightarrow>
   sound_state c nodes \<lparr>features = features s \<union> set (provided (nodes ! i)), travelled = travelled s @ [i]\<rparr>"
  by (simp add: sound_state_def)

lemma expand_loop_sound:
  assumes "sound_state c nodes s" and "enumerates ins nodes"
    and "\<forall>p \<in> set ps. sound_pipeline c nodes p" and "\<forall>t \<in> set q. sound_state c nodes t"
  shows "case expand_loop c nodes s ins ps q of
      Inl p \<Rightarrow> sound_pipeline c nodes p \<and> length p = Suc (length (travelled s))
    | Inr (ps', q') \<Rightarrow> (\<forall>p \<in> set ps'. sound_pipeline c nodes p) \<and> (\<forall>t \<in> set q'. sound_state c nodes t)"
  using assms
proof (induction c nodes s ins ps q rule: expand_loop.induct)
  case (1 c nodes s ps q)
  then show ?case by simp
next
  case (2 c nodes s i sink rest ps q)
  show ?case
  proof (cases "i \<in> set (travelled s) \<or> \<not> set (requirements sink) \<subseteq> features s")
    case True
    with 2 show ?thesis by auto
  next
    case False
    from 2(7) have i: "i < length nodes" "nodes ! i = sink" by auto
    note grow = open_path_snoc [OF 2(6) i(1), unfolded i(2)]
    show ?thesis
    proof (cases "set (claim_sink c) \<subseteq> features s \<union> set (provided sink)")
      case True
      with False grow(1) i have "sound_pipeline c nodes (at nodes (travelled s) @ [sink])"
        by (auto simp: sound_pipeline_def intro!: exI [of _ "travelled s @ [i]"])
      with True False 2 show ?thesis by (auto simp: Let_def at_def)
    next
      case no: False
      with False grow(2) sound_state_child [OF 2(6), of i] i
      have "\<not> is_final sink \<Longrightarrow> sound_state c nodes
          \<lparr>features = features s \<union> set (provided sink), travelled = travelled s @ [i]\<rparr>"
        by auto
      with no False 2 show ?thesis by (auto simp: Let_def split: option.split)
    qed
  qed
qed

lemma expand_loop_Inl: "expand_loop c nodes s ins ps q = Inl p \<Longrightarrow> fastest (opts c)"
  by (induction c nodes s ins ps q rule: expand_loop.induct)
    (auto simp: Let_def split: if_splits option.splits)

lemma expand_loop_fastest:
  "expand_loop c nodes s ins ps q = Inr (ps', q') \<Longrightarrow> fastest (opts c) \<Longrightarrow> ps' = ps"
  by (induction c nodes s ins ps q rule: expand_loop.induct)
    (auto simp: Let_def split: if_splits option.splits)

lemma seed_loop_fastest: "seed_loop c ins ps q = Inr (ps', q') \<Longrightarrow> fastest (opts c) \<Longrightarrow> ps' = ps"
  by (induction c ins ps q rule: seed_loop.induct) (auto split: if_splits)

lemma seed_loop_Inl: "seed_loop c ins ps q = Inl p \<Longrightarrow> fastest (opts c)"
  by (induction c ins ps q rule: seed_loop.induct) (auto split: if_splits)

lemma seed_loop_sound:
  assumes "enumerates ins nodes" and "\<not> set (claim_sink c) \<subseteq> set (claim_src c)"
    and "\<forall>p \<in> set ps. sound_pipeline c nodes p \<and> length p = 1"
    and "\<forall>t \<in> set q. sound_state c nodes t \<and> length (travelled t) = 1"
  shows "case seed_loop c ins ps q of
      Inl p \<Rightarrow> sound_pipeline c nodes p \<and> length p = 1
    | Inr (ps', q') \<Rightarrow> (\<forall>p \<in> set ps'. sound_pipeline c nodes p \<and> length p = 1) \<and>
        (\<forall>t \<in> set q'. sound_state c nodes t \<and> length (travelled t) = 1)"
  using assms
proof (induction c ins ps q rule: seed_loop.induct)
  case (1 c ps q)
  then show ?case by simp
next
  case (2 c i sink rest ps q)
  from 2(4) have i: "i < length nodes" "nodes ! i = sink" by auto
  have goal: "set (requirements sink) \<subseteq> set (claim_src c) \<Longrightarrow>
      set (claim_sink c) \<subseteq> set (claim_src c) \<union> set (provided sink) \<Longrightarrow>
      sound_pipeline c nodes [sink]"
    using i by (auto simp: sound_pipeline_def goal_path_def solves_def reaches_def valid_indices_def
        intro!: exI [of _ "[i]"])
  have seed: "set (requirements sink) \<subseteq> set (claim_src c) \<Longrightarrow>
      \<not> set (claim_sink c) \<subseteq> set (claim_src c) \<union> set (provided sink) \<Longrightarrow>
      sound_state c nodes \<lparr>features = set (claim_src c) \<union> set (provided sink), travelled = [i]\<rparr>"
    using i by (auto simp: sound_state_def open_path_def reaches_def valid_indices_def)
  from 2 goal seed show ?case by (auto simp del: subset_Un_eq)
qed

lemma visit_loop_sound:
  assumes "visit_loop c nodes ps q = Some rs"
    and "\<forall>p \<in> set ps. sound_pipeline c nodes p" and "\<forall>t \<in> set q. sound_state c nodes t"
  shows "rs \<noteq> [] \<and> (\<forall>p \<in> set rs. sound_pipeline c nodes p)"
  using assms
proof (induction c nodes ps q rule: visit_loop.induct)
  case (1 c nodes ps)
  then show ?case by (auto split: if_splits)
next
  case (2 c nodes ps s q)
  have step: "case expand_loop c nodes s (enumerate 0 nodes) ps q of
      Inl p \<Rightarrow> sound_pipeline c nodes p \<and> length p = Suc (length (travelled s))
    | Inr (ps', q') \<Rightarrow> (\<forall>p \<in> set ps'. sound_pipeline c nodes p) \<and> (\<forall>t \<in> set q'. sound_state c nodes t)"
    using 2(3,4) by (intro expand_loop_sound) auto
  show ?case
  proof (cases "expand_loop c nodes s (enumerate 0 nodes) ps q")
    case (Inl p)
    with step 2(2) show ?thesis by auto
  next
    case (Inr r)
    obtain ps' q' where r: "r = (ps', q')" by fastforce
    show ?thesis
      using step 2(2) by (intro 2(1) [OF Inr r [symmetric]]) (auto simp: Inr r)
  qed
qed

section \<open>Completeness\<close>

text \<open>What one expansion finds, when no depth bound cuts it short.\<close>

lemma expand_loop_complete:
  assumes "expand_loop c nodes s ins ps q = Inr (ps', q')"
    and "sound_state c nodes s" and "enumerates ins nodes" and "max_depth (opts c) = None"
  shows "set ps \<subseteq> set ps' \<and> set q \<subseteq> set q' \<and>
    (\<forall>i \<in> fst ` set ins.
      (goal_path c nodes (travelled s @ [i]) \<longrightarrow>
         \<not> fastest (opts c) \<and> at nodes (travelled s @ [i]) \<in> set ps') \<and>
      (open_path c nodes (travelled s @ [i]) \<longrightarrow> (\<exists>t \<in> set q'. travelled t = travelled s @ [i])))"
  using assms
proof (induction c nodes s ins ps q rule: expand_loop.induct)
  case (1 c nodes s ps q)
  then show ?case by simp
next
  case (2 c nodes s i sink rest ps q)
  from 2(8) have i: "i < length nodes" "nodes ! i = sink" by auto
  have only: "goal_path c nodes (travelled s @ [i]) \<or> open_path c nodes (travelled s @ [i]) \<Longrightarrow>
      i \<notin> set (travelled s) \<and> set (requirements sink) \<subseteq> features s"
    using 2(7) i
    by (auto simp: goal_path_def open_path_def solves_def feasible_append sound_state_def)
  let ?child = "\<lparr>features = features s \<union> set (provided sink), travelled = travelled s @ [i]\<rparr>"
  show ?case
  proof (cases "i \<in> set (travelled s) \<or> \<not> set (requirements sink) \<subseteq> features s")
    case True
    with 2(6) have "expand_loop c nodes s rest ps q = Inr (ps', q')" by auto
    with 2(1) 2(7-9) True only show ?thesis by auto
  next
    case new: False
    note grow = open_path_snoc [OF 2(7) i(1), unfolded i(2)]
    show ?thesis
    proof (cases "set (claim_sink c) \<subseteq> features s \<union> set (provided sink)")
      case True
      with new grow have no: "\<not> open_path c nodes (travelled s @ [i])" by auto
      from 2(6) True new have nf: "\<not> fastest (opts c)" and
        "expand_loop c nodes s rest (ps @ [at nodes (travelled s) @ [sink]]) q = Inr (ps', q')"
        by (auto simp: Let_def at_def split: if_splits)
      with 2(2) [OF _ refl _ refl] 2(7-9) new True
      have "set (ps @ [at nodes (travelled s) @ [sink]]) \<subseteq> set ps' \<and> set q \<subseteq> set q' \<and>
        (\<forall>i \<in> fst ` set rest.
          (goal_path c nodes (travelled s @ [i]) \<longrightarrow>
             \<not> fastest (opts c) \<and> at nodes (travelled s @ [i]) \<in> set ps') \<and>
          (open_path c nodes (travelled s @ [i]) \<longrightarrow> (\<exists>t \<in> set q'. travelled t = travelled s @ [i])))"
        by (auto simp: at_def)
      with no nf i show ?thesis by auto
    next
      case no: False
      with new grow have g: "\<not> goal_path c nodes (travelled s @ [i])"
        and o: "open_path c nodes (travelled s @ [i]) \<longleftrightarrow> \<not> is_final sink" by auto
      show ?thesis
      proof (cases "is_final sink")
        case True
        with 2(6) 2(9) no new have "expand_loop c nodes s rest ps q = Inr (ps', q')"
          by (simp add: Let_def)
        with 2(4) [OF _ refl] 2(7-9) no new True g o show ?thesis by auto
      next
        case False
        with 2(6) 2(9) no new have "expand_loop c nodes s rest ps (q @ [?child]) = Inr (ps', q')"
          by (simp add: Let_def)
        with 2(5) [OF _ refl] 2(7-9) no new False
        have IH: "set ps \<subseteq> set ps' \<and> set (q @ [?child]) \<subseteq> set q' \<and>
          (\<forall>i \<in> fst ` set rest.
            (goal_path c nodes (travelled s @ [i]) \<longrightarrow>
               \<not> fastest (opts c) \<and> at nodes (travelled s @ [i]) \<in> set ps') \<and>
            (open_path c nodes (travelled s @ [i]) \<longrightarrow> (\<exists>t \<in> set q'. travelled t = travelled s @ [i])))"
          by simp
        then have "?child \<in> set q'" by auto
        then have "\<exists>t \<in> set q'. travelled t = travelled s @ [i]" by (rule rev_bexI) simp
        with IH g show ?thesis by auto
      qed
    qed
  qed
qed

lemma seed_loop_complete:
  assumes "seed_loop c ins ps q = Inr (ps', q')" and "enumerates ins nodes"
    and "\<not> set (claim_sink c) \<subseteq> set (claim_src c)"
  shows "set ps \<subseteq> set ps' \<and> set q \<subseteq> set q' \<and>
    (\<forall>i \<in> fst ` set ins.
      (goal_path c nodes [i] \<longrightarrow> \<not> fastest (opts c) \<and> at nodes [i] \<in> set ps') \<and>
      (open_path c nodes [i] \<longrightarrow> (\<exists>t \<in> set q'. travelled t = [i])))"
  using assms
proof (induction c ins ps q rule: seed_loop.induct)
  case (1 c ps q)
  then show ?case by simp
next
  case (2 c i sink rest ps q)
  from 2(5) have i: "i < length nodes" "nodes ! i = sink" by auto
  have g: "goal_path c nodes [i] \<longleftrightarrow> set (requirements sink) \<subseteq> set (claim_src c) \<and>
      set (claim_sink c) \<subseteq> set (claim_src c) \<union> set (provided sink)"
    using i by (auto simp: goal_path_def solves_def reaches_def valid_indices_def)
  have o: "open_path c nodes [i] \<longleftrightarrow> set (requirements sink) \<subseteq> set (claim_src c) \<and>
      \<not> set (claim_sink c) \<subseteq> set (claim_src c) \<union> set (provided sink)"
    using i by (auto simp: open_path_def reaches_def valid_indices_def)
  let ?child = "\<lparr>features = set (claim_src c) \<union> set (provided sink), travelled = [i]\<rparr>"
  consider "\<not> set (requirements sink) \<subseteq> set (claim_src c)" | "goal_path c nodes [i]" | "open_path c nodes [i]"
    using g o by blast
  then show ?case
  proof cases
    case 1
    with 2 g o show ?thesis by auto
  next
    case goal: 2
    with 2 g o i show ?thesis by (auto split: if_splits)
  next
    case 3
    have "set ps \<subseteq> set ps' \<and> set (q @ [?child]) \<subseteq> set q' \<and>
      (\<forall>i \<in> fst ` set rest.
        (goal_path c nodes [i] \<longrightarrow> \<not> fastest (opts c) \<and> at nodes [i] \<in> set ps') \<and>
        (open_path c nodes [i] \<longrightarrow> (\<exists>t \<in> set q'. travelled t = [i])))"
      using 2(3) 2(4-6) 3 g o by simp
    moreover from this have "?child \<in> set q'" by auto
    then have "\<exists>t \<in> set q'. travelled t = [i]" by (rule rev_bexI) simp
    ultimately show ?thesis using 3 g o by auto
  qed
qed

text \<open>A path to a goal is in sight when the queue holds one of its proper prefixes.\<close>

definition in_sight :: "'f visit_state list \<Rightarrow> nat list \<Rightarrow> bool" where
  "in_sight q g \<longleftrightarrow> (\<exists>s \<in> set q. \<exists>k. 0 < k \<and> k < length g \<and> travelled s = take k g)"

lemma open_path_take:
  assumes "open_path c nodes is" and "0 < k"
  shows "open_path c nodes (take k is)"
proof -
  have split: "at nodes is = at nodes (take k is) @ at nodes (drop k is)"
    by (metis append_take_drop_id at_simps(3))
  have "set (tl (take k is)) \<subseteq> set (tl is)"
    using assms(2) by (cases k) (auto simp: tl_take dest: in_set_takeD)
  moreover have "valid_indices nodes (take k is)"
    using assms(1) by (auto simp: open_path_def valid_indices_def dest: in_set_takeD)
  moreover have "feasible (set (claim_src c)) (at nodes (take k is))"
    using assms(1) split by (auto simp: open_path_def feasible_append)
  moreover have "\<not> reaches c (at nodes (take k is))"
    using assms(1) split reaches_append by (metis open_path_def)
  ultimately show ?thesis using assms by (auto simp: open_path_def)
qed

lemma goal_path_take:
  "goal_path c nodes g \<Longrightarrow> 0 < k \<Longrightarrow> k < length g \<Longrightarrow> open_path c nodes (take k g)"
  using open_path_take [of c nodes "butlast g" k]
  by (cases "butlast g = []") (auto simp: goal_path_def take_butlast dest: arg_cong [of _ _ length])

lemma expand_keeps_sight:
  assumes "expand_loop c nodes s (enumerate 0 nodes) ps q = Inr (ps', q')"
    and "sound_state c nodes s" and "max_depth (opts c) = None"
    and "goal_path c nodes g" and "in_sight (s # q) g"
  shows "in_sight q' g \<or> (\<not> fastest (opts c) \<and> at nodes g \<in> set ps')"
proof -
  note E = expand_loop_complete [OF assms(1,2) enumerates_enumerate assms(3)]
  from assms(5) obtain t k where t: "t = s \<or> t \<in> set q" "travelled t = take k g"
    and k: "0 < k" "k < length g"
    by (auto simp: in_sight_def)
  show ?thesis
  proof (cases "t = s")
    case False
    with t k E show ?thesis by (auto simp: in_sight_def)
  next
    case True
    with t k have snoc: "travelled s @ [g ! k] = take (Suc k) g"
      by (simp add: take_Suc_conv_app_nth)
    have "g ! k < length nodes"
      using assms(4) nth_mem [OF k(2)] by (auto simp: goal_path_def valid_indices_def)
    then have mem: "g ! k \<in> fst ` set (enumerate 0 nodes)"
      by (simp add: fst_set_enumerate)
    show ?thesis
    proof (cases "Suc k = length g")
      case True
      with snoc assms(4) mem E show ?thesis by fastforce
    next
      case False
      with k have "open_path c nodes (take (Suc k) g)"
        using assms(4) by (intro goal_path_take) auto
      with mem E snoc obtain u where "u \<in> set q'" "travelled u = take (Suc k) g"
        by fastforce
      with False k have "in_sight q' g"
        by (auto simp: in_sight_def intro!: bexI [of _ u] exI [of _ "Suc k"])
      then show ?thesis ..
    qed
  qed
qed

lemma visit_loop_complete:
  assumes "goal_path c nodes g" and "max_depth (opts c) = None"
    and "\<forall>t \<in> set q. sound_state c nodes t"
    and "in_sight q g \<or> (\<not> fastest (opts c) \<and> at nodes g \<in> set ps)"
    and "\<forall>p \<in> set ps. sound_pipeline c nodes p"
  shows "\<exists>rs. visit_loop c nodes ps q = Some rs \<and> (\<not> fastest (opts c) \<longrightarrow> at nodes g \<in> set rs)"
  using assms
proof (induction c nodes ps q rule: visit_loop.induct)
  case (1 c nodes ps)
  then show ?case by (auto simp: in_sight_def)
next
  case (2 c nodes ps s q)
  have step: "case expand_loop c nodes s (enumerate 0 nodes) ps q of
      Inl p \<Rightarrow> sound_pipeline c nodes p \<and> length p = Suc (length (travelled s))
    | Inr (ps', q') \<Rightarrow> (\<forall>p \<in> set ps'. sound_pipeline c nodes p) \<and> (\<forall>t \<in> set q'. sound_state c nodes t)"
    using 2(4,6) by (intro expand_loop_sound) auto
  show ?case
  proof (cases "expand_loop c nodes s (enumerate 0 nodes) ps q")
    case (Inl p)
    have "fastest (opts c)" by (rule expand_loop_Inl [OF Inl])
    with Inl show ?thesis by auto
  next
    case (Inr r)
    obtain ps' q' where r: "r = (ps', q')" by fastforce
    have s: "sound_state c nodes s" using 2(4) by simp
    have "in_sight q' g \<or> (\<not> fastest (opts c) \<and> at nodes g \<in> set ps')"
    proof (cases "in_sight (s # q) g")
      case True
      then show ?thesis using expand_keeps_sight [OF Inr [unfolded r] s 2(3,2)] by blast
    next
      case False
      with 2(5) expand_loop_complete [OF Inr [unfolded r] s enumerates_enumerate 2(3)]
      show ?thesis by auto
    qed
    then show ?thesis
      using step by (simp add: Inr r, intro 2(1) [OF Inr r [symmetric] 2(2,3)]) (auto simp: Inr r)
  qed
qed

section \<open>The results of the search\<close>

lemma build_pipeline_cases [consumes 2, case_names seed visit]:
  assumes "claim_sink c \<noteq> []" and "\<not> set (claim_sink c) \<subseteq> set (claim_src c)"
  obtains (seed) p where "build_pipeline nodes c = Some [p]" and "sound_pipeline c nodes p"
      and "length p = 1" and "fastest (opts c)"
  | (visit) ps q where "build_pipeline nodes c = visit_loop c nodes ps q"
      and "seed_loop c (enumerate 0 nodes) [] [] = Inr (ps, q)"
      and "\<forall>p \<in> set ps. sound_pipeline c nodes p \<and> length p = 1"
      and "\<forall>t \<in> set q. sound_state c nodes t \<and> length (travelled t) = 1"
proof (cases "seed_loop c (enumerate 0 nodes) [] []")
  case (Inl p)
  with seed_loop_sound [of "enumerate 0 nodes" nodes c "[]" "[]"] assms seed_loop_Inl [OF Inl]
  show ?thesis by (intro seed) (auto simp: build_pipeline_def)
next
  case (Inr r)
  obtain ps q where r: "r = (ps, q)" by fastforce
  from seed_loop_sound [of "enumerate 0 nodes" nodes c "[]" "[]"] assms(2)
  have "\<forall>p \<in> set ps. sound_pipeline c nodes p \<and> length p = 1"
    and "\<forall>t \<in> set q. sound_state c nodes t \<and> length (travelled t) = 1"
    by (auto simp: Inr r)
  then show ?thesis using assms Inr r by (intro visit) (auto simp: build_pipeline_def)
qed

lemma not_trivial_sink: "\<not> set (claim_sink c) \<subseteq> set (claim_src c) \<Longrightarrow> claim_sink c \<noteq> []"
  by auto

lemma build_pipeline_sound_pipelines:
  assumes "build_pipeline nodes c = Some ps" and "\<not> set (claim_sink c) \<subseteq> set (claim_src c)"
  shows "ps \<noteq> [] \<and> (\<forall>p \<in> set ps. sound_pipeline c nodes p)"
  using not_trivial_sink [OF assms(2)] assms(2)
proof (cases rule: build_pipeline_cases [where nodes = nodes])
  case (seed p)
  with assms show ?thesis by auto
next
  case (visit qs q)
  with assms(1) visit_loop_sound [of c nodes qs q ps] show ?thesis by auto
qed

lemma seeds_in_sight:
  assumes "seed_loop c (enumerate 0 nodes) [] [] = Inr (ps, q)" and "goal_path c nodes g"
    and "\<not> set (claim_sink c) \<subseteq> set (claim_src c)"
  shows "in_sight q g \<or> (\<not> fastest (opts c) \<and> at nodes g \<in> set ps \<and> length g = 1)"
proof -
  note S = seed_loop_complete [OF assms(1) enumerates_enumerate assms(3)]
  from assms(2) obtain i h where g: "g = i # h" by (auto simp: goal_path_def neq_Nil_conv)
  with assms(2) have i: "i \<in> fst ` set (enumerate 0 nodes)"
    by (auto simp: goal_path_def valid_indices_def fst_set_enumerate)
  show ?thesis
  proof (cases "h = []")
    case True
    with S i assms(2) g show ?thesis by auto
  next
    case False
    then have "open_path c nodes (take 1 g)"
      using assms(2) g by (intro goal_path_take) auto
    with S i g obtain t where "t \<in> set q" "travelled t = [i]" by auto
    with False g have "in_sight q g"
      by (auto simp: in_sight_def intro!: bexI [of _ t] exI [of _ 1])
    then show ?thesis ..
  qed
qed

lemma build_pipeline_finds:
  assumes "goal_path c nodes g" and "max_depth (opts c) = None"
    and "\<not> set (claim_sink c) \<subseteq> set (claim_src c)"
  shows "\<exists>ps. build_pipeline nodes c = Some ps \<and> (\<not> fastest (opts c) \<longrightarrow> at nodes g \<in> set ps)"
  using not_trivial_sink [OF assms(3)] assms(3)
proof (cases rule: build_pipeline_cases [where nodes = nodes])
  case (seed p)
  then show ?thesis by auto
next
  case (visit qs q)
  with visit_loop_complete [OF assms(1,2), of q qs] seeds_in_sight [OF visit(2) assms(1,3)]
  show ?thesis by auto
qed

text \<open>Every solving chain has a prefix the search can find.\<close>

lemma goal_path_exists:
  assumes "valid_indices nodes is" and "solves c (at nodes is)"
    and "\<forall>i \<in> set (tl (butlast is)). \<not> is_final (nodes ! i)"
    and "\<not> set (claim_sink c) \<subseteq> set (claim_src c)"
  shows "\<exists>k \<le> length is. goal_path c nodes (take k is)"
proof -
  define k where "k = (LEAST k. reaches c (at nodes (take k is)))"
  have all: "reaches c (at nodes (take (length is) is))"
    using assms(2) by (simp add: solves_def)
  then have k: "reaches c (at nodes (take k is))" and k_le: "k \<le> length is"
    unfolding k_def by (rule LeastI, rule Least_le)
  have least: "\<not> reaches c (at nodes (take j is))" if "j < k" for j
    using that not_less_Least unfolding k_def by blast
  have k0: "0 < k" using k assms(4) by (cases k) (auto simp: reaches_def)
  have feas: "feasible (set (claim_src c)) (at nodes (take j is))" for j
    using assms(2) unfolding solves_def
    by (metis append_take_drop_id at_simps(3) feasible_append)
  have valid: "valid_indices nodes (take j is)" for j
    using assms(1) by (auto simp: valid_indices_def dest: in_set_takeD)
  have "set (tl (take (k - 1) is)) \<subseteq> set (tl (butlast is))"
  proof -
    have "take (k - 1) is = take (k - 1) (butlast is)"
      using k_le k0 by (simp add: take_butlast)
    then show ?thesis by (metis drop_Suc drop_take set_take_subset take_tl tl_take)
  qed
  with assms(3) have fin: "\<forall>i \<in> set (tl (take (k - 1) is)). \<not> is_final (nodes ! i)" by blast
  have "butlast (take k is) = take (k - 1) is"
    using k_le by (simp add: butlast_take)
  moreover have "k - 1 < k" using k0 by simp
  ultimately have "goal_path c nodes (take k is)"
    using k k0 k_le feas valid fin least
    by (auto simp: goal_path_def solves_def open_path_def)
  with k_le show ?thesis by blast
qed

section \<open>Shortest answers and the depth bound\<close>

text \<open>The work queue of a breadth-first search: lengths ascend and span at most two levels.\<close>

definition levels :: "'f visit_state list \<Rightarrow> bool" where
  "levels q \<longleftrightarrow> sorted (map (\<lambda>t. length (travelled t)) q) \<and>
     (\<forall>s \<in> set q. \<forall>t \<in> set q. length (travelled t) \<le> Suc (length (travelled s)))"

lemma levels_expand:
  assumes "levels (s # q)" and "expand_loop c nodes s ins ps q = Inr (ps', q')"
  shows "levels q'"
proof -
  from expand_loop_pushes [OF assms(2)] obtain new where q': "q' = q @ new"
    and new: "\<And>t. t \<in> set new \<Longrightarrow> length (travelled t) = Suc (length (travelled s))"
    by fastforce
  from assms(1) have q: "\<And>t. t \<in> set q \<Longrightarrow> length (travelled s) \<le> length (travelled t) \<and>
      length (travelled t) \<le> Suc (length (travelled s))"
    by (auto simp: levels_def)
  have "sorted (map (\<lambda>t. length (travelled t)) new)"
    using new by (auto simp: sorted_iff_nth_mono)
  with assms(1) new q show ?thesis
    by (fastforce simp: levels_def q' sorted_append)
qed

lemma visit_loop_shortest:
  assumes "visit_loop c nodes ps q = Some rs" and "fastest (opts c)" and "ps = []"
    and "max_depth (opts c) = None" and "\<forall>t \<in> set q. sound_state c nodes t" and "levels q"
    and "goal_path c nodes g" and "in_sight q g"
  shows "\<exists>p. rs = [p] \<and> length p \<le> length g"
  using assms
proof (induction c nodes ps q rule: visit_loop.induct)
  case (1 c nodes ps)
  then show ?case by (auto simp: in_sight_def)
next
  case (2 c nodes ps s q)
  have step: "case expand_loop c nodes s (enumerate 0 nodes) ps q of
      Inl p \<Rightarrow> sound_pipeline c nodes p \<and> length p = Suc (length (travelled s))
    | Inr (ps', q') \<Rightarrow> (\<forall>p \<in> set ps'. sound_pipeline c nodes p) \<and> (\<forall>t \<in> set q'. sound_state c nodes t)"
    using 2(4,6) by (intro expand_loop_sound) auto
  show ?case
  proof (cases "expand_loop c nodes s (enumerate 0 nodes) ps q")
    case (Inl p)
    from 2(9) obtain t k where "t \<in> set (s # q)" "travelled t = take k g" "k < length g"
      by (auto simp: in_sight_def)
    moreover have "length (travelled s) \<le> length (travelled t)" if "t \<in> set (s # q)" for t
      using that 2(7) by (auto simp: levels_def)
    ultimately have "Suc (length (travelled s)) \<le> length g"
      by (metis Suc_leI le_less_trans length_take min.strict_order_iff min.commute)
    with Inl step 2(2) show ?thesis by auto
  next
    case (Inr r)
    obtain ps' q' where r: "r = (ps', q')" by fastforce
    have s: "sound_state c nodes s" using 2(6) by simp
    have "ps' = []" using expand_loop_fastest [OF Inr [unfolded r] 2(3)] 2(4) by simp
    moreover have "in_sight q' g"
      using expand_keeps_sight [OF Inr [unfolded r] s 2(5,8,9)] 2(3) by blast
    moreover have "levels q'" by (rule levels_expand [OF 2(7) Inr [unfolded r]])
    ultimately show ?thesis
      using step 2(2-9) Inr by (intro 2(1) [OF Inr r [symmetric]]) (auto simp: r)
  qed
qed

definition within_depth :: "nat \<Rightarrow> 'f visit_state \<Rightarrow> bool" where
  "within_depth d s \<longleftrightarrow> Suc (length (travelled s)) \<le> max d 2"

lemma within_depth_child:
  "\<not> d \<le> length (travelled s) + 1 \<Longrightarrow> within_depth d \<lparr>features = F, travelled = travelled s @ [i]\<rparr>"
  by (simp add: within_depth_def)

lemma expand_loop_depth:
  assumes "within_depth d s" and "max_depth (opts c) = Some d"
    and "\<forall>p \<in> set ps. length p \<le> max d 2" and "\<forall>t \<in> set q. within_depth d t"
  shows "case expand_loop c nodes s ins ps q of
      Inl p \<Rightarrow> length p \<le> max d 2
    | Inr (ps', q') \<Rightarrow> (\<forall>p \<in> set ps'. length p \<le> max d 2) \<and> (\<forall>t \<in> set q'. within_depth d t)"
  using assms
proof (induction c nodes s ins ps q rule: expand_loop.induct)
  case (1 c nodes s ps q)
  then show ?case by simp
next
  case (2 c nodes s i sink rest ps q)
  have len: "Suc (length (travelled s)) \<le> max d 2"
    using 2(6) by (simp add: within_depth_def)
  consider "i \<in> set (travelled s) \<or> \<not> contains_all (features s) (requirements sink)"
    | "\<not> (i \<in> set (travelled s) \<or> \<not> contains_all (features s) (requirements sink))"
      "contains_all (features s \<union> set (provided sink)) (claim_sink c)"
    | "\<not> (i \<in> set (travelled s) \<or> \<not> contains_all (features s) (requirements sink))"
      "\<not> contains_all (features s \<union> set (provided sink)) (claim_sink c)"
    by blast
  then show ?case
  proof cases
    case 1
    with 2(1,6-9) show ?thesis by (simp del: contains_all_iff)
  next
    case goal: 2
    with 2(2) [OF _ refl _ refl] 2(6-9) len show ?thesis
      by (simp del: contains_all_iff max.bounded_iff le_max_iff_disj add: Let_def)
  next
    case no: 3
    show ?thesis
    proof (cases "d \<le> length (travelled s) + 1 \<or> is_final sink")
      case True
      with no 2(3,4) [OF _ refl] 2(6-9) show ?thesis
        by (auto simp del: contains_all_iff max.bounded_iff le_max_iff_disj simp: Let_def)
    next
      case False
      with no 2(5) [OF _ refl] 2(6-9) within_depth_child [of d s "features s \<union> set (provided sink)" i] show ?thesis
        by (simp del: contains_all_iff max.bounded_iff le_max_iff_disj add: Let_def)
    qed
  qed
qed

lemma visit_loop_depth:
  assumes "visit_loop c nodes ps q = Some rs" and "max_depth (opts c) = Some d"
    and "\<forall>p \<in> set ps. length p \<le> max d 2" and "\<forall>t \<in> set q. within_depth d t"
  shows "\<forall>p \<in> set rs. length p \<le> max d 2"
  using assms
proof (induction c nodes ps q rule: visit_loop.induct)
  case (1 c nodes ps)
  then show ?case by (auto split: if_splits)
next
  case (2 c nodes ps s q)
  have step: "case expand_loop c nodes s (enumerate 0 nodes) ps q of
      Inl p \<Rightarrow> length p \<le> max d 2
    | Inr (ps', q') \<Rightarrow> (\<forall>p \<in> set ps'. length p \<le> max d 2) \<and> (\<forall>t \<in> set q'. within_depth d t)"
    using 2(3-5) by (intro expand_loop_depth) auto
  show ?case
  proof (cases "expand_loop c nodes s (enumerate 0 nodes) ps q")
    case (Inl p)
    with step 2(2) show ?thesis by auto
  next
    case (Inr r)
    obtain ps' q' where r: "r = (ps', q')" by fastforce
    show ?thesis
      using step 2(2,3) by (intro 2(1) [OF Inr r [symmetric]]) (auto simp: Inr r)
  qed
qed

section \<open>Properties\<close>

text \<open>The packages of \<open>tests/simple.rs\<close>, on which the witnesses evaluate the search.\<close>

definition pkg :: "string \<Rightarrow> string list \<Rightarrow> string list \<Rightarrow> (string, string) node" where
  "pkg name prov req = \<lparr>nd_item = name, is_final = False, provided = prov, requirements = req\<rparr>"

definition example_packages :: "(string, string) graph" where
  "example_packages =
     [pkg ''A'' [''a''] [], pkg ''B'' [''b''] [''a''], pkg ''C'' [''c''] [''b''],
      pkg ''D'' [''d''] [''b''], pkg ''E'' [''e''] [''b'', ''c'', ''d''],
      pkg ''F'' [''c'', ''d'', ''e''] [''b'']]"

definition example_claim :: "claim_options \<Rightarrow> string claim" where
  "example_claim os = \<lparr>opts = os, claim_src = [''a''], claim_sink = [''e'']\<rparr>"

lemma example_search:
  "build_pipeline example_packages (example_claim default_claim_options) =
     Some [[pkg ''B'' [''b''] [''a''], pkg ''F'' [''c'', ''d'', ''e''] [''b'']]]"
  by (simp add: build_pipeline_def example_packages_def example_claim_def pkg_def
      default_claim_options_def Let_def)

text \<open>
  C1: every pipeline \<open>build_pipeline\<close> returns for a claim that is not met at once solves the claim:
  it visits distinct nodes of the graph, each finds its requirements among the source's features
  and what the nodes before it provide, the last one completes the sink's features and no earlier
  one does, and no node strictly inside the chain is final.
\<close>

theorem build_pipeline_sound:
  assumes "build_pipeline nodes c = Some ps" and "\<not> set (claim_sink c) \<subseteq> set (claim_src c)"
  shows "ps \<noteq> [] \<and> (\<forall>p \<in> set ps. \<exists>is. p = at nodes is \<and> valid_indices nodes is \<and> solves c p \<and>
    \<not> reaches c (butlast p) \<and> (\<forall>i \<in> set (tl (butlast is)). \<not> is_final (nodes ! i)))"
proof (intro conjI ballI)
  note sound = build_pipeline_sound_pipelines [OF assms]
  then show "ps \<noteq> []" by blast
  fix p
  assume "p \<in> set ps"
  with sound obtain "is" where g: "goal_path c nodes is" and p: "p = at nodes is"
    by (auto simp: sound_pipeline_def)
  have "\<not> reaches c (butlast p) \<and> (\<forall>i \<in> set (tl (butlast is)). \<not> is_final (nodes ! i))"
    using g assms(2) p by (cases "butlast is = []")
      (auto simp: goal_path_def open_path_def reaches_def at_def map_butlast [symmetric])
  with g p show "\<exists>is. p = at nodes is \<and> valid_indices nodes is \<and> solves c p \<and>
    \<not> reaches c (butlast p) \<and> (\<forall>i \<in> set (tl (butlast is)). \<not> is_final (nodes ! i))"
    by (auto simp: goal_path_def)
qed

theorem build_pipeline_sound_witness:
  "\<exists>ps. build_pipeline example_packages (example_claim default_claim_options) = Some ps \<and> ps \<noteq> []"
  using build_pipeline_sound [OF example_search] example_search
  by (simp add: example_claim_def)

text \<open>
  C2: without a depth bound the search is complete: whenever some chain of distinct nodes, none of
  them final strictly inside it, solves the claim, \<open>build_pipeline\<close> returns at least one pipeline;
  and in the exhaustive mode (\<open>fastest\<close> off) the pipelines it returns are exactly the minimal
  solving chains.
\<close>

theorem build_pipeline_complete:
  assumes "valid_indices nodes is" and "solves c (at nodes is)"
    and "\<forall>i \<in> set (tl (butlast is)). \<not> is_final (nodes ! i)"
    and "\<not> set (claim_sink c) \<subseteq> set (claim_src c)" and "max_depth (opts c) = None"
  shows "\<exists>ps. build_pipeline nodes c = Some ps \<and> ps \<noteq> [] \<and>
    (\<not> fastest (opts c) \<longrightarrow> set ps = at nodes ` {g. goal_path c nodes g})"
proof -
  obtain k where "goal_path c nodes (take k is)"
    using goal_path_exists [OF assms(1-4)] by blast
  then obtain ps where ps: "build_pipeline nodes c = Some ps"
    using build_pipeline_finds assms(4,5) by blast
  have "ps \<noteq> []" and sub: "set ps \<subseteq> at nodes ` {g. goal_path c nodes g}"
    using build_pipeline_sound_pipelines [OF ps assms(4)] by (auto simp: sound_pipeline_def)
  moreover have "at nodes g \<in> set ps" if "goal_path c nodes g" "\<not> fastest (opts c)" for g
    using build_pipeline_finds [OF that(1) assms(5,4)] ps that(2) by simp
  ultimately show ?thesis using ps by blast
qed

theorem build_pipeline_complete_witness:
  "\<exists>ps. build_pipeline example_packages (example_claim \<lparr>fastest = False, max_depth = None\<rparr>) = Some ps \<and> ps \<noteq> []"
proof -
  let ?c = "example_claim \<lparr>fastest = False, max_depth = None\<rparr>"
  have "valid_indices example_packages [1, 5]" "solves ?c (at example_packages [1, 5])"
    "\<forall>i \<in> set (tl (butlast [1, 5])). \<not> is_final (example_packages ! i)"
    "\<not> set (claim_sink ?c) \<subseteq> set (claim_src ?c)" "max_depth (opts ?c) = None"
    by (simp_all add: valid_indices_def solves_def reaches_def example_packages_def
        example_claim_def pkg_def)
  from build_pipeline_complete [OF this] show ?thesis by blast
qed

text \<open>
  C3: in the default mode (first answer wins, no depth bound) the answer is a single pipeline, and
  no chain of distinct nodes without a final node inside that solves the claim is shorter.
\<close>

theorem build_pipeline_shortest:
  assumes "build_pipeline nodes c = Some ps" and "fastest (opts c)" and "max_depth (opts c) = None"
    and "\<not> set (claim_sink c) \<subseteq> set (claim_src c)"
    and "valid_indices nodes is" and "solves c (at nodes is)"
    and "\<forall>i \<in> set (tl (butlast is)). \<not> is_final (nodes ! i)"
  shows "\<exists>p. ps = [p] \<and> length p \<le> length is"
proof -
  obtain k where k: "k \<le> length is" "goal_path c nodes (take k is)"
    using goal_path_exists [OF assms(5-7,4)] by blast
  then have "1 \<le> k" by (auto simp: goal_path_def intro: Suc_leI)
  show ?thesis
    using not_trivial_sink [OF assms(4)] assms(4)
  proof (cases rule: build_pipeline_cases [where nodes = nodes])
    case (seed p)
    with assms(1) k(1) \<open>1 \<le> k\<close> show ?thesis by auto
  next
    case (visit qs q)
    have "qs = []" using seed_loop_fastest [OF visit(2) assms(2)] .
    moreover have "in_sight q (take k is)"
      using seeds_in_sight [OF visit(2) k(2) assms(4)] assms(2) by blast
    moreover have "levels q"
      using visit(4) by (auto simp: levels_def sorted_iff_nth_mono)
    ultimately obtain p where "ps = [p]" "length p \<le> length (take k is)"
      using visit_loop_shortest [of c nodes qs q ps "take k is"] visit(1,4) assms(1-3) k(2) by auto
    with k(1) show ?thesis by auto
  qed
qed

theorem build_pipeline_shortest_witness:
  "\<exists>p. [[pkg ''B'' [''b''] [''a''], pkg ''F'' [''c'', ''d'', ''e''] [''b'']]] = [p] \<and>
     length p \<le> length [1, 2, 3, 4::nat]"
  by (rule build_pipeline_shortest [OF example_search])
    (simp_all add: valid_indices_def solves_def reaches_def example_packages_def
      example_claim_def pkg_def default_claim_options_def)

text \<open>
  A depth bound \<open>d\<close> limits the length of every returned pipeline to \<open>max d 2\<close>: the seed loop
  queues every startable node whatever the bound, so a bound below two does not take effect.
\<close>

theorem build_pipeline_depth_bound:
  assumes "build_pipeline nodes c = Some ps" and "max_depth (opts c) = Some d" and "p \<in> set ps"
  shows "length p \<le> max d 2"
proof (cases "set (claim_sink c) \<subseteq> set (claim_src c)")
  case True
  with assms show ?thesis by (simp add: build_pipeline_def)
next
  case False
  show ?thesis
    using not_trivial_sink [OF False] False
  proof (cases rule: build_pipeline_cases [where nodes = nodes])
    case (seed p')
    with assms show ?thesis by auto
  next
    case (visit qs q)
    then show ?thesis
      using visit_loop_depth [of c nodes qs q ps d] assms
      by (auto simp: within_depth_def le_max_iff_disj)
  qed
qed

theorem build_pipeline_depth_bound_witness:
  "build_pipeline example_packages (example_claim \<lparr>fastest = True, max_depth = Some 1\<rparr>) =
     Some [[pkg ''B'' [''b''] [''a''], pkg ''F'' [''c'', ''d'', ''e''] [''b'']]] \<and>
   length [pkg ''B'' [''b''] [''a''], pkg ''F'' [''c'', ''d'', ''e''] [''b'']] \<le> max 1 2"
proof -
  have r: "build_pipeline example_packages (example_claim \<lparr>fastest = True, max_depth = Some 1\<rparr>) =
     Some [[pkg ''B'' [''b''] [''a''], pkg ''F'' [''c'', ''d'', ''e''] [''b'']]]"
    by (simp add: build_pipeline_def example_packages_def example_claim_def pkg_def Let_def)
  then show ?thesis
    using build_pipeline_depth_bound [OF r, of 1] by (simp add: example_claim_def)
qed

end
