(* ===== verification/Dep_Merge.thy ===== *)
theory Dep_Merge imports Ark_Prelude "HOL-Library.Sublist" begin

text \<open>
  The merging of pipelines of \<open>crates/kubegraph/dependency/graph/src/merge.rs\<close>: pipelines that end
  in the same nodes share these nodes. \<open>merge_pipelines\<close> inserts every pipeline, back to front, in
  a trie of reversed pipelines and then takes the trie apart with a work stack and a stack of
  pending nodes. The lemmas show that the loop with its mutable stack computes a structural
  recursion on the trie, that a link always points to an earlier output, that no node is lost, and
  that every input pipeline can be read off the output by following the links.
\<close>

section \<open>Model\<close>

text \<open>\<open>GraphPipelineMergedNode\<close> and \<open>ReversedNode\<close>; the map of a node is its ordered entries.\<close>

datatype 't merged = Item "'t list" | Next nat

datatype ('k, 't) rnode = RNode (neighbors: "'t list") (prevs: "('k \<times> ('k, 't) rnode) list")

definition empty_rnode :: "('k, 't) rnode" where
  "empty_rnode = RNode [] []"

definition new_rnode :: "'t \<Rightarrow> ('k, 't) rnode" where
  "new_rnode node = RNode [node] []"

text \<open>The entry \<open>resolve\<close> returns a reference to: a new node, or the one there with the first node
  of a pipeline added to its neighbors.\<close>

definition resolve :: "('t \<Rightarrow> 'k) \<Rightarrow> 't \<Rightarrow> bool \<Rightarrow> ('k \<times> ('k, 't) rnode) list \<Rightarrow> ('k, 't) rnode" where
  "resolve key node is_first ps =
     (case bt_lookup ps (key node) of
        None \<Rightarrow> new_rnode node
      | Some entry \<Rightarrow>
          (if is_first then RNode (neighbors entry @ [node]) (prevs entry) else entry))"

text \<open>
  The inner loop of \<open>merge_pipelines\<close> over one reversed pipeline: the cursor moves into the entry
  it has resolved, so the new entry is stored back on the way out.
\<close>

fun insert_reversed :: "('t \<Rightarrow> 'k::linorder) \<Rightarrow> 't list \<Rightarrow> ('k, 't) rnode \<Rightarrow> ('k, 't) rnode" where
  "insert_reversed key [] t = t"
| "insert_reversed key (x # xs) t =
     RNode (neighbors t)
       (bt_insert (key x) (insert_reversed key xs (resolve key x (xs = []) (prevs t))) (prevs t))"

definition build_trie :: "('t \<Rightarrow> 'k::linorder) \<Rightarrow> 't list list \<Rightarrow> ('k, 't) rnode" where
  "build_trie key ps = fold (\<lambda>nodes t. insert_reversed key (rev nodes) t) ps empty_rnode"

text \<open>
  The loop over \<open>stack.iter_mut().rev()\<close>: the stack is given from its top. It yields the nodes of
  the new pipeline and the stack it leaves.
\<close>

fun flush :: "nat \<Rightarrow> 't merged list \<Rightarrow> 't merged list \<times> 't merged list" where
  "flush p [] = ([], [])"
| "flush p (Item ns # rest) = (case flush p rest of (nodes, rest') \<Rightarrow> (Item ns # nodes, Next p # rest'))"
| "flush p (Next i # rest) = ([Next i], Next i # rest)"

fun node_count :: "('k, 't) rnode \<Rightarrow> nat" where
  "node_count (RNode ns ps) = Suc (sum_list (map (\<lambda>p. node_count (snd p)) ps))"

definition forest_count :: "('k, 't) rnode list \<Rightarrow> nat" where
  "forest_count ts = sum_list (map node_count ts)"

lemma sum_list_map_rev: "sum_list (map f (rev xs)) = sum_list (map f xs)"
  for f :: "'a \<Rightarrow> nat"
  by (simp add: rev_map [symmetric] sum_list_rev)

lemma node_count_forest: "node_count (RNode ns ps) = Suc (forest_count (rev (map snd ps)))"
  by (simp add: forest_count_def sum_list_map_rev comp_def)

lemma node_count_pos [simp]: "0 < node_count t"
  by (cases t) simp

text \<open>
  \<open>into_disaggregated\<close>: the work stack holds cursors (a depth and a node) and is given from its
  top, so the values of a map are pushed with the last one on top.
\<close>

definition push_cursors :: "nat \<Rightarrow> ('k \<times> ('k, 't) rnode) list \<Rightarrow> (nat \<times> ('k, 't) rnode) list \<Rightarrow>
    (nat \<times> ('k, 't) rnode) list" where
  "push_cursors depth ps work = map (\<lambda>node. (depth, node)) (rev (map snd ps)) @ work"

function disaggregate :: "(nat \<times> ('k, 't) rnode) list \<Rightarrow> 't merged list \<Rightarrow> 't merged list list \<Rightarrow>
    't merged list list" where
  "disaggregate [] stack pipelines = pipelines"
| "disaggregate ((depth, RNode ns ps) # work) stack pipelines =
     (let stack1 = take depth stack @ [Item ns] in
      if length ps \<noteq> 1 then
        (case flush (length pipelines) (rev stack1) of (nodes, flushed) \<Rightarrow>
           disaggregate (push_cursors (length stack1) ps work) (rev flushed) (pipelines @ [nodes]))
      else disaggregate (push_cursors (length stack1) ps work) stack1 pipelines)"
  by pat_completeness auto
termination
  by (relation "measure (\<lambda>(work, stack, pipelines). forest_count (map snd work))")
    (auto simp: push_cursors_def forest_count_def comp_def sum_list_map_rev rev_map)

definition into_disaggregated :: "('k, 't) rnode \<Rightarrow> 't merged list list" where
  "into_disaggregated t = disaggregate (push_cursors 0 (prevs t) []) [] []"

definition merge_pipelines :: "('t \<Rightarrow> 'k::linorder) \<Rightarrow> 't list list \<Rightarrow> 't merged list list" where
  "merge_pipelines key ps = into_disaggregated (build_trie key ps)"

section \<open>A structural account of the loop\<close>

text \<open>
  \<open>emit acc nxt n t\<close> is what the loop outputs for the subtree \<open>t\<close> when \<open>acc\<close> are the pending items
  above it (nearest first), \<open>nxt\<close> the output the chain ends in, and \<open>n\<close> the number of outputs so far.
\<close>

definition link :: "nat option \<Rightarrow> 't merged list" where
  "link nxt = (case nxt of None \<Rightarrow> [] | Some i \<Rightarrow> [Next i])"

lemma link_simps [simp]: "link None = []" "link (Some i) = [Next i]"
  by (simp_all add: link_def)

function emit :: "'t merged list \<Rightarrow> nat option \<Rightarrow> nat \<Rightarrow> ('k, 't) rnode \<Rightarrow> 't merged list list"
  and emits :: "nat option \<Rightarrow> nat \<Rightarrow> ('k, 't) rnode list \<Rightarrow> 't merged list list" where
  "emit acc nxt n (RNode ns ps) =
     (if length ps = 1 then emit (Item ns # acc) nxt n (snd (hd ps))
      else (Item ns # acc @ link nxt) # emits (Some n) (Suc n) (rev (map snd ps)))"
| "emits nxt n [] = []"
| "emits nxt n (t # ts) = emit [] nxt n t @ emits nxt (n + length (emit [] nxt n t)) ts"
  by pat_completeness auto
termination
proof (relation "measure (\<lambda>x. case x of Inl (acc, nxt, n, t) \<Rightarrow> 2 * node_count t
    | Inr (nxt, n, ts) \<Rightarrow> Suc (2 * forest_count ts))", goal_cases)
  case (2 acc nxt n ns ps)
  then show ?case by (cases ps) auto
qed (auto simp: node_count_forest forest_count_def simp del: node_count.simps)

definition pending :: "'t merged list \<Rightarrow> nat \<Rightarrow> 't merged list \<Rightarrow> nat option \<Rightarrow> bool" where
  "pending stack depth acc nxt \<longleftrightarrow> depth \<le> length stack \<and> (\<forall>m \<in> set acc. \<exists>ns. m = Item ns) \<and>
     (\<exists>tail. rev (take depth stack) = acc @ tail \<and>
        (case nxt of None \<Rightarrow> tail = [] | Some i \<Rightarrow> \<exists>tl. tail = Next i # tl))"

lemma flush_items:
  assumes "\<forall>m \<in> set acc. \<exists>ns. m = Item ns"
  shows "flush p (acc @ tail) =
    (acc @ fst (flush p tail), replicate (length acc) (Next p) @ snd (flush p tail))"
  using assms by (induction acc) (auto split: prod.splits)

lemma flush_link:
  "case nxt of None \<Rightarrow> tail = [] | Some i \<Rightarrow> \<exists>tl. tail = Next i # tl \<Longrightarrow>
   flush p tail = (link nxt, tail)"
  by (auto simp: link_def split: option.splits)

lemma pending_push:
  assumes "pending stack depth acc nxt"
  shows "pending (take depth stack @ [Item ns]) (Suc depth) (Item ns # acc) nxt"
  using assms by (auto simp: pending_def min_def)

text \<open>What a flush leaves: every pending item has become a link to the new output.\<close>

lemma flush_pending:
  assumes "pending stack depth acc nxt" and "stack1 = take depth stack @ [Item ns]"
  shows "fst (flush p (rev stack1)) = Item ns # acc @ link nxt"
    and "take (depth - length acc) (rev (snd (flush p (rev stack1)))) = take (depth - length acc) stack"
    and "length (snd (flush p (rev stack1))) = Suc depth"
    and "\<exists>tl. snd (flush p (rev stack1)) = Next p # tl"
proof -
  from assms(1) obtain tail where items: "\<forall>m \<in> set acc. \<exists>ns. m = Item ns"
    and rev_stack: "rev (take depth stack) = acc @ tail" and le: "depth \<le> length stack"
    and tail: "case nxt of None \<Rightarrow> tail = [] | Some i \<Rightarrow> \<exists>tl. tail = Next i # tl"
    unfolding pending_def by blast
  have items': "\<forall>m \<in> set (Item ns # acc). \<exists>ns. m = Item ns" using items by auto
  have rs: "rev stack1 = (Item ns # acc) @ tail" using assms(2) rev_stack by simp
  have fl: "flush p (rev stack1) =
      (Item ns # acc @ link nxt, replicate (Suc (length acc)) (Next p) @ tail)"
    unfolding rs flush_items [OF items'] flush_link [OF tail] by simp
  then show "fst (flush p (rev stack1)) = Item ns # acc @ link nxt" by simp
  have len: "length acc + length tail = depth"
    using arg_cong [OF rev_stack, of length] le by simp
  then show "length (snd (flush p (rev stack1))) = Suc depth" by (simp add: fl)
  show "\<exists>tl. snd (flush p (rev stack1)) = Next p # tl" by (simp add: fl)
  have "take depth stack = rev tail @ rev acc"
    using arg_cong [OF rev_stack, of rev] by simp
  then have "take (depth - length acc) stack = rev tail"
    using len by (metis append_eq_conv_conj diff_add_inverse diff_le_self length_rev min.absorb1 take_take)
  then show "take (depth - length acc) (rev (snd (flush p (rev stack1)))) = take (depth - length acc) stack"
    using len by (simp add: fl)
qed

text \<open>
  The simulation: working off one cursor, or a run of cursors of the same depth below a node that
  has been flushed, outputs what \<open>emit\<close> says and leaves the part of the stack below untouched.
\<close>

lemma disaggregate_emit:
  shows "pending stack depth acc nxt \<Longrightarrow>
      \<exists>stack'. disaggregate ((depth, t) # work) stack pls =
          disaggregate work stack' (pls @ emit acc nxt (length pls) t) \<and>
        depth - length acc \<le> length stack' \<and>
        take (depth - length acc) stack' = take (depth - length acc) stack"
    and "pending stack depth [] nxt \<Longrightarrow>
      \<exists>stack'. disaggregate (map (\<lambda>t. (depth, t)) ts @ work) stack pls =
          disaggregate work stack' (pls @ emits nxt (length pls) ts) \<and>
        depth \<le> length stack' \<and> take depth stack' = take depth stack"
proof (induction acc nxt "length pls" t and nxt "length pls" ts
    arbitrary: stack depth work pls and stack depth work pls rule: emit_emits.induct)
  case (1 acc nxt ns ps)
  define stack1 where "stack1 = take depth stack @ [Item ns]"
  have len: "length stack1 = Suc depth"
    using "1.prems" by (simp add: stack1_def pending_def)
  show ?case
  proof (cases "length ps = 1")
    case True
    then obtain k c where ps: "ps = [(k, c)]" by (cases ps) auto
    have "pending stack1 (Suc depth) (Item ns # acc) nxt"
      using pending_push [OF "1.prems"] by (simp add: stack1_def)
    from "1.hyps"(1) [OF True _ this, of pls work] ps
    obtain stack' where st: "disaggregate ((Suc depth, c) # work) stack1 pls =
        disaggregate work stack' (pls @ emit (Item ns # acc) nxt (length pls) c)"
      "depth - length acc \<le> length stack'" "take (depth - length acc) stack' = take (depth - length acc) stack1"
      by auto
    have "take (depth - length acc) stack1 = take (depth - length acc) stack"
      using "1.prems" by (simp add: stack1_def pending_def min_def)
    with st show ?thesis
      by (intro exI [of _ stack']) (simp add: ps push_cursors_def stack1_def [symmetric] len)
  next
    case False
    note fl = flush_pending [OF "1.prems" stack1_def, of "length pls"]
    define stack2 where "stack2 = rev (snd (flush (length pls) (rev stack1)))"
    have pend: "pending stack2 (Suc depth) [] (Some (length pls))"
      using fl(3,4) by (auto simp: pending_def stack2_def)
    have "Suc (length pls) = length (pls @ [Item ns # acc @ link nxt])" by simp
    from "1.hyps"(2) [OF False this pend, of work]
    obtain stack' where st: "disaggregate (map (\<lambda>t. (Suc depth, t)) (rev (map snd ps)) @ work) stack2
          (pls @ [Item ns # acc @ link nxt]) =
        disaggregate work stack' ((pls @ [Item ns # acc @ link nxt]) @
          emits (Some (length pls)) (Suc (length pls)) (rev (map snd ps)))"
      "Suc depth \<le> length stack'" "take (Suc depth) stack' = take (Suc depth) stack2"
      by auto
    have "disaggregate ((depth, RNode ns ps) # work) stack pls =
        disaggregate (push_cursors (Suc depth) ps work) stack2 (pls @ [Item ns # acc @ link nxt])"
      using False fl(1) by (simp add: stack1_def [symmetric] len stack2_def case_prod_beta)
    moreover have "take (depth - length acc) stack' = take (depth - length acc) stack"
    proof -
      have le: "depth - length acc \<le> Suc depth" by simp
      have "take (depth - length acc) stack' = take (depth - length acc) (take (Suc depth) stack')"
        using le by (simp add: min_absorb1)
      also have "\<dots> = take (depth - length acc) stack2"
        using st(3) le by (simp add: min_absorb1)
      finally show ?thesis using fl(2) by (simp add: stack2_def)
    qed
    ultimately show ?thesis
      using st False by (intro exI [of _ stack']) (simp add: push_cursors_def)
  qed
next
  case (2 nxt)
  then show ?case by (auto simp: pending_def)
next
  case (3 nxt t ts)
  from "3.hyps"(1) [OF refl "3.prems", of "map (\<lambda>t. (depth, t)) ts @ work"]
  obtain stack1 where s1: "disaggregate ((depth, t) # map (\<lambda>t. (depth, t)) ts @ work) stack pls =
      disaggregate (map (\<lambda>t. (depth, t)) ts @ work) stack1 (pls @ emit [] nxt (length pls) t)"
    "depth \<le> length stack1" "take depth stack1 = take depth stack"
    by auto
  have "pending stack1 depth [] nxt" using "3.prems" s1 by (simp add: pending_def)
  moreover have "length pls + length (emit [] nxt (length pls) t) = length (pls @ emit [] nxt (length pls) t)"
    by simp
  ultimately obtain stack' where "disaggregate (map (\<lambda>t. (depth, t)) ts @ work) stack1 (pls @ emit [] nxt (length pls) t) =
      disaggregate work stack' ((pls @ emit [] nxt (length pls) t) @
        emits nxt (length (pls @ emit [] nxt (length pls) t)) ts)"
    "depth \<le> length stack'" "take depth stack' = take depth stack1"
    using "3.hyps"(3) by blast
  with s1 show ?case by (intro exI [of _ stack']) simp
qed

lemma into_disaggregated_emits:
  "into_disaggregated t = emits None 0 (rev (map snd (prevs t)))"
proof -
  have "pending [] 0 [] None" by (simp add: pending_def)
  from disaggregate_emit(2) [OF this, of "rev (map snd (prevs t))" "[]" "[]"]
  show ?thesis by (auto simp: into_disaggregated_def push_cursors_def)
qed

section \<open>The shape of the output\<close>

text \<open>An output is a run of items with at most one link, at the end and to an earlier output.\<close>

definition well_linked :: "nat \<Rightarrow> 't merged list \<Rightarrow> bool" where
  "well_linked n p \<longleftrightarrow> (\<exists>ns is nxt. p = map Item (ns # is) @ link nxt \<and> (\<forall>i. nxt = Some i \<longrightarrow> i < n))"

lemma items_map: "(\<forall>m \<in> set acc. \<exists>ns. m = Item ns) \<longleftrightarrow> (\<exists>is. acc = map Item is)"
proof (induction acc)
  case Nil
  then show ?case by simp
next
  case (Cons m acc)
  then show ?case by (auto simp: Cons_eq_map_conv)
qed

lemma emit_well_linked:
  fixes t :: "('k, 't) rnode" and ts :: "('k, 't) rnode list"
  shows "(\<forall>m \<in> set acc. \<exists>ns. m = Item ns) \<Longrightarrow> (\<forall>i. nxt = Some i \<longrightarrow> i < n) \<Longrightarrow>
      k < length (emit acc nxt n t) \<Longrightarrow> well_linked (n + k) (emit acc nxt n t ! k)"
    and "(\<forall>i. nxt = Some i \<longrightarrow> i < n) \<Longrightarrow> k < length (emits nxt n ts) \<Longrightarrow>
      well_linked (n + k) (emits nxt n ts ! k)"
proof (induction acc nxt n t and nxt n ts arbitrary: k and k rule: emit_emits.induct)
  case (1 acc nxt n ns ps)
  show ?case
  proof (cases "length ps = 1")
    case True
    with 1 show ?thesis by auto
  next
    case False
    show ?thesis
    proof (cases k)
      case 0
      from "1.prems"(1) obtain "is" where "acc = map Item is" unfolding items_map by blast
      with 0 False "1.prems"(2) show ?thesis
        by (auto simp: well_linked_def intro!: exI [of _ ns] exI [of _ "is"] exI [of _ nxt])
    next
      case (Suc j)
      with False "1.IH"(2) [OF False, of j] "1.prems" show ?thesis by simp
    qed
  qed
next
  case (2 nxt n)
  then show ?case by simp
next
  case (3 nxt n t ts)
  show ?case
  proof (cases "k < length (emit [] nxt n t)")
    case True
    with 3 show ?thesis by (simp add: nth_append)
  next
    case False
    with "3.IH"(3) [of "k - length (emit [] nxt n t)"] "3.prems" show ?thesis
      by (fastforce simp: nth_append)
  qed
qed

text \<open>The items an output list holds, with multiplicity, against the neighbor lists of the trie.\<close>

fun items_of :: "'t merged list \<Rightarrow> 't list multiset" where
  "items_of [] = {#}"
| "items_of (Item ns # p) = add_mset ns (items_of p)"
| "items_of (Next i # p) = items_of p"

definition output_items :: "'t merged list list \<Rightarrow> 't list multiset" where
  "output_items out = sum_list (map items_of out)"

function trie_items :: "('k, 't) rnode \<Rightarrow> 't list multiset" where
  "trie_items (RNode ns ps) = add_mset ns (sum_list (map (\<lambda>p. trie_items (snd p)) ps))"
  by pat_completeness auto
termination
proof (relation "measure node_count", goal_cases)
  case (2 ns ps p)
  then show ?case by (induction ps) auto
qed simp

lemma items_of_append [simp]: "items_of (p @ q) = items_of p + items_of q"
  by (induction p rule: items_of.induct) auto

lemma items_of_link [simp]: "items_of (link nxt) = {#}"
  by (simp add: link_def split: option.split)

lemma output_items_simps [simp]:
  "output_items [] = {#}"
  "output_items (p # out) = items_of p + output_items out"
  "output_items (out @ out') = output_items out + output_items out'"
  by (simp_all add: output_items_def)

lemma sum_list_map_rev_mset: "sum_list (map f (rev xs)) = sum_list (map f xs)"
  for f :: "'a \<Rightarrow> 'b multiset"
  by (simp add: rev_map [symmetric] sum_list_rev)

lemma emit_items:
  fixes t :: "('k, 't) rnode" and ts :: "('k, 't) rnode list"
  shows "output_items (emit acc nxt n t) = items_of acc + trie_items t"
    and "output_items (emits nxt n ts) = sum_list (map trie_items ts)"
proof (induction acc nxt n t and nxt n ts rule: emit_emits.induct)
  case (1 acc nxt n ns ps)
  show ?case
  proof (cases "length ps = 1")
    case True
    then obtain k c where "ps = [(k, c)]" by (cases ps) auto
    with 1 show ?thesis by simp
  next
    case False
    with 1 show ?thesis by (simp add: sum_list_map_rev_mset comp_def)
  qed
qed simp_all

section \<open>The trie\<close>

text \<open>Every map of the trie is ordered, and the neighbors stored under a key are not empty and all
  have that key.\<close>

inductive wf_trie :: "('t \<Rightarrow> 'k::linorder) \<Rightarrow> ('k, 't) rnode \<Rightarrow> bool" for key where
  wf_trie_node: "bt_wf ps \<Longrightarrow>
    (\<And>k c. (k, c) \<in> set ps \<Longrightarrow> neighbors c \<noteq> [] \<and> (\<forall>y \<in> set (neighbors c). key y = k)) \<Longrightarrow>
    (\<And>k c. (k, c) \<in> set ps \<Longrightarrow> wf_trie key c) \<Longrightarrow> wf_trie key (RNode ns ps)"

inductive_simps wf_trie_RNode: "wf_trie key (RNode ns ps)"

lemma wf_trie_iff:
  "wf_trie key t \<longleftrightarrow> bt_wf (prevs t) \<and>
    (\<forall>(k, c) \<in> set (prevs t). neighbors c \<noteq> [] \<and> (\<forall>y \<in> set (neighbors c). key y = k) \<and> wf_trie key c)"
  by (cases t) (auto simp: wf_trie_RNode)

lemma resolve_wf:
  assumes "wf_trie key t"
  shows "wf_trie key (resolve key x is_first (prevs t)) \<and> neighbors (resolve key x is_first (prevs t)) \<noteq> [] \<and>
    (\<forall>y \<in> set (neighbors (resolve key x is_first (prevs t))). key y = key x)"
proof (cases "bt_lookup (prevs t) (key x)")
  case None
  then show ?thesis by (simp add: resolve_def new_rnode_def wf_trie_RNode)
next
  case (Some e)
  from assms have wf: "bt_wf (prevs t)" by (simp add: wf_trie_iff [of key t])
  with Some have "(key x, e) \<in> set (prevs t)" by (simp add: bt_lookup_Some_iff)
  with assms have "neighbors e \<noteq> [] \<and> (\<forall>y \<in> set (neighbors e). key y = key x) \<and> wf_trie key e"
    by (subst (asm) wf_trie_iff) auto
  with Some show ?thesis
    by (cases e) (auto simp: resolve_def wf_trie_RNode)
qed

lemma insert_reversed_neighbors [simp]: "neighbors (insert_reversed key xs t) = neighbors t"
  by (cases xs) auto

lemma insert_reversed_wf [ark_intros]: "wf_trie key t \<Longrightarrow> wf_trie key (insert_reversed key xs t)"
proof (induction key xs t rule: insert_reversed.induct)
  case (1 key t)
  then show ?case by simp
next
  case (2 key x xs t)
  from "2.prems" have wf: "bt_wf (prevs t)" by (simp add: wf_trie_iff [of key t])
  note r = resolve_wf [OF "2.prems", of x "xs = []"]
  with "2.IH" have "wf_trie key (insert_reversed key xs (resolve key x (xs = []) (prevs t)))" by blast
  with r wf "2.prems" show ?case
    by (subst (asm) wf_trie_iff) (auto simp: wf_trie_RNode set_bt_insert)
qed

lemma build_trie_wf: "wf_trie key (build_trie key ps)"
proof -
  have "wf_trie key t \<Longrightarrow> wf_trie key (fold (\<lambda>nodes t. insert_reversed key (rev nodes) t) ps t)" for t
    by (induction ps arbitrary: t) (auto intro: insert_reversed_wf)
  moreover have "wf_trie key empty_rnode" by (simp add: empty_rnode_def wf_trie_RNode)
  ultimately show ?thesis unfolding build_trie_def .
qed

text \<open>The nodes a trie holds, and what one insertion adds: always the first node of the pipeline.\<close>

definition trie_nodes :: "('k, 't) rnode \<Rightarrow> 't multiset" where
  "trie_nodes t = \<Sum>\<^sub># (image_mset mset (trie_items t))"

lemma sum_image_mset_sum_list:
  "\<Sum>\<^sub># (image_mset mset (sum_list (map f xs))) = sum_list (map (\<lambda>x. \<Sum>\<^sub># (image_mset mset (f x))) xs)"
  by (induction xs) auto

lemma trie_nodes_eq:
  "trie_nodes t = mset (neighbors t) + sum_list (map (\<lambda>p. trie_nodes (snd p)) (prevs t))"
  by (cases t) (simp add: trie_nodes_def sum_image_mset_sum_list)

lemma trie_nodes_RNode [simp]:
  "trie_nodes (RNode ns ps) = mset ns + sum_list (map (\<lambda>p. trie_nodes (snd p)) ps)"
  by (simp add: trie_nodes_eq [of "RNode ns ps"])

lemma filter_mset_sum_list_map:
  "filter_mset P (sum_list (map f qs)) = sum_list (map (\<lambda>x. filter_mset P (f x)) qs)"
  by (induction qs) auto

lemma resolve_nodes:
  "filter_mset P (trie_nodes (resolve key x is_first ps)) =
    (case bt_lookup ps (key x) of
       None \<Rightarrow> filter_mset P {#x#}
     | Some e \<Rightarrow> filter_mset P (trie_nodes e) + (if is_first then filter_mset P {#x#} else {#}))"
proof (cases "bt_lookup ps (key x)")
  case None
  then show ?thesis by (simp add: resolve_def new_rnode_def)
next
  case (Some e)
  then show ?thesis by (cases e) (simp add: resolve_def)
qed

lemma insert_reversed_nodes:
  assumes "wf_trie key t" and "xs \<noteq> []" and "\<forall>x \<in> set (butlast xs). \<not> P x"
  shows "filter_mset P (trie_nodes (insert_reversed key xs t)) =
    filter_mset P {#last xs#} + filter_mset P (trie_nodes t)"
  using assms
proof (induction key xs t rule: insert_reversed.induct)
  case (1 key t)
  then show ?case by simp
next
  case (2 key x xs t)
  let ?r = "resolve key x (xs = []) (prevs t)"
  have wf: "bt_wf (prevs t)" using "2.prems"(1) by (simp add: wf_trie_iff [of key t])
  have P_r: "filter_mset P (trie_nodes (insert_reversed key xs ?r)) =
      filter_mset P {#last (x # xs)#} +
      (case bt_lookup (prevs t) (key x) of None \<Rightarrow> {#} | Some e \<Rightarrow> filter_mset P (trie_nodes e))"
  proof (cases "xs = []")
    case True
    then show ?thesis by (simp add: resolve_nodes split: option.split)
  next
    case False
    then have "\<not> P x" using "2.prems"(3) by simp
    with False "2.IH" "2.prems" resolve_wf [OF "2.prems"(1), of x "xs = []"] show ?thesis
      by (auto simp: resolve_nodes split: option.split)
  qed
  with P_r sum_bt_insert [OF wf, of "\<lambda>c. filter_mset P (trie_nodes c)" "key x" "insert_reversed key xs ?r"]
  show ?case
    by (cases t) (simp add: filter_mset_sum_list_map split: option.splits)
qed

section \<open>Paths of the trie, chains of the output\<close>

text \<open>A path from the root: the keys it follows and the neighbor lists it passes.\<close>

inductive trie_path :: "('k, 't) rnode \<Rightarrow> 'k list \<Rightarrow> 't list list \<Rightarrow> bool" where
  path_end: "trie_path t [] []"
| path_step: "(k, c) \<in> set (prevs t) \<Longrightarrow> trie_path c ks nss \<Longrightarrow> trie_path t (k # ks) (neighbors c # nss)"

inductive_cases trie_path_ConsE: "trie_path t (k # ks) nss"
inductive_simps trie_path_Nil [simp]: "trie_path t [] nss"

text \<open>Reading an output from some position on: its items, then those of the output it links to.\<close>

inductive unrolls :: "'t merged list list \<Rightarrow> 't merged list \<Rightarrow> 't list list \<Rightarrow> bool" for out where
  unroll_end: "unrolls out [] []"
| unroll_item: "unrolls out p nss \<Longrightarrow> unrolls out (Item ns # p) (ns # nss)"
| unroll_next: "i < length out \<Longrightarrow> unrolls out (out ! i) nss \<Longrightarrow> unrolls out [Next i] nss"

inductive_cases unrolls_ItemE: "unrolls out (Item ns # p) nss"

definition reads :: "'t merged list list \<Rightarrow> 't list list \<Rightarrow> bool" where
  "reads out nss \<longleftrightarrow> (\<exists>p \<in> set out. \<exists>q. suffix q p \<and> unrolls out q nss)"

lemma emit_reads:
  fixes t :: "('k, 't) rnode" and ts :: "('k, 't) rnode list"
  shows "out = pre @ emit acc nxt n t @ post \<Longrightarrow> length pre = n \<Longrightarrow>
      unrolls out (acc @ link nxt) base \<Longrightarrow> trie_path t ks nss \<Longrightarrow>
      reads out (rev nss @ neighbors t # base) \<and>
      (acc @ link nxt \<noteq> [] \<longrightarrow> (\<exists>p \<in> set (emit acc nxt n t). suffix (acc @ link nxt) p))"
    and "out = pre @ emits nxt n ts @ post \<Longrightarrow> length pre = n \<Longrightarrow>
      unrolls out (link nxt) base \<Longrightarrow> t \<in> set ts \<Longrightarrow> trie_path t ks nss \<Longrightarrow>
      reads out (rev nss @ neighbors t # base)"
proof (induction acc nxt n t and nxt n ts arbitrary: pre post base ks nss and pre post base t ks nss
    rule: emit_emits.induct)
  case (1 acc nxt n ns ps)
  have item: "unrolls out (Item ns # acc @ link nxt) (ns # base)"
    using "1.prems"(3) by (rule unroll_item)
  show ?case
  proof (cases "length ps = 1")
    case True
    then obtain k c where ps: "ps = [(k, c)]" by (cases ps) auto
    have chain: "unrolls out ((Item ns # acc) @ link nxt) (ns # base)" using item by simp
    have o: "out = pre @ emit (Item ns # acc) nxt n (snd (hd ps)) @ post" using "1.prems"(1) True by simp
    note IH = "1.IH"(1) [OF True o "1.prems"(2) chain]
    from IH [OF path_end] obtain p where p: "p \<in> set (emit (Item ns # acc) nxt n c)"
      and suf: "suffix (Item ns # acc @ link nxt) p" by (auto simp: ps)
    have in_out: "p \<in> set out" using p o by (simp add: ps)
    have "reads out (rev nss @ ns # base)"
    proof (cases nss)
      case Nil
      with in_out suf item show ?thesis by (auto simp: reads_def)
    next
      case (Cons n' nss')
      with "1.prems"(4) obtain ks' where "trie_path c ks' nss'" "n' = neighbors c"
        by (auto elim: trie_path.cases simp: ps)
      with IH [of ks' nss'] Cons show ?thesis by (simp add: ps)
    qed
    moreover have "suffix (acc @ link nxt) p"
      using suf by (meson suffix_ConsD)
    ultimately show ?thesis using p True by (auto simp: ps)
  next
    case False
    have hd_in: "Item ns # acc @ link nxt \<in> set (emit acc nxt n (RNode ns ps))" using False by simp
    have o: "out = (pre @ [Item ns # acc @ link nxt]) @ emits (Some n) (Suc n) (rev (map snd ps)) @ post"
      using "1.prems"(1) False by simp
    have nth: "out ! n = Item ns # acc @ link nxt" and lt: "n < length out"
      using o "1.prems"(2) by (auto simp: nth_append)
    have nx: "unrolls out (link (Some n)) (ns # base)"
      using unroll_next [OF lt] item nth by simp
    have "reads out (rev nss @ ns # base)"
    proof (cases nss)
      case Nil
      with "1.prems"(1) hd_in item show ?thesis
        by (auto simp: reads_def intro!: bexI [of _ "Item ns # acc @ link nxt"])
    next
      case (Cons n' nss')
      with "1.prems"(4) obtain k c ks' where "trie_path c ks' nss'" "n' = neighbors c" "(k, c) \<in> set ps"
        by (auto elim: trie_path.cases)
      with "1.IH"(2) [OF False o _ nx, of c ks' nss'] Cons "1.prems"(2) show ?thesis by force
    qed
    moreover have "suffix (acc @ link nxt) (Item ns # acc @ link nxt)" by (simp add: suffix_ConsI)
    ultimately show ?thesis using hd_in by auto
  qed
next
  case (2 nxt n)
  then show ?case by simp
next
  case (3 nxt n u ts)
  show ?case
  proof (cases "t = u")
    case True
    have "out = pre @ emit [] nxt n u @ emits nxt (n + length (emit [] nxt n u)) ts @ post"
      using "3.prems"(1) by simp
    from "3.IH"(1) [OF this "3.prems"(2)] "3.prems"(3,5) True show ?thesis by auto
  next
    case False
    have "out = (pre @ emit [] nxt n u) @ emits nxt (n + length (emit [] nxt n u)) ts @ post"
      using "3.prems"(1) by simp
    from "3.IH"(3) [OF this] "3.prems" False show ?thesis by auto
  qed
qed

lemma into_disaggregated_reads:
  assumes "trie_path t ks nss" and "nss \<noteq> []"
  shows "reads (into_disaggregated t) (rev nss)"
proof -
  from assms obtain k c ks' nss' where c: "(k, c) \<in> set (prevs t)" "trie_path c ks' nss'"
    and nss: "nss = neighbors c # nss'"
    by (auto elim: trie_path.cases)
  have "c \<in> set (rev (map snd (prevs t)))" using c(1) by force
  from emit_reads(2) [of "into_disaggregated t" "[]" None 0 _ "[]", OF _ _ _ this c(2)]
  show ?thesis by (simp add: into_disaggregated_emits nss unroll_end)
qed

section \<open>Insertion and paths\<close>

definition grows :: "'t list list \<Rightarrow> 't list list \<Rightarrow> bool" where
  "grows nss nss' \<longleftrightarrow> list_all2 (\<lambda>a b. set a \<subseteq> set b) nss nss'"

lemma grows_simps [simp]:
  "grows nss nss" "grows [] []"
  "grows (a # nss) (b # nss') \<longleftrightarrow> set a \<subseteq> set b \<and> grows nss nss'"
  by (auto simp: grows_def list_all2_same)

lemma grows_last:
  assumes "grows nss nss'" and "nss \<noteq> []"
  shows "nss' \<noteq> []" and "set (last nss) \<subseteq> set (last nss')"
proof -
  have "nss' \<noteq> [] \<and> set (last nss) \<subseteq> set (last nss')"
    using assms unfolding grows_def by (induction rule: list_all2_induct) auto
  then show "nss' \<noteq> []" and "set (last nss) \<subseteq> set (last nss')" by auto
qed

lemma trie_path_cong:
  assumes "trie_path t ks nss" and "prevs t = prevs t'"
  shows "trie_path t' ks nss"
  using assms by (cases rule: trie_path.cases) (auto intro: trie_path.intros)

lemma resolve_mono:
  assumes "bt_lookup (prevs t) (key x) = Some e"
  shows "set (neighbors e) \<subseteq> set (neighbors (resolve key x is_first (prevs t)))"
    and "prevs (resolve key x is_first (prevs t)) = prevs e"
  using assms by (auto simp: resolve_def)

lemma insert_reversed_path_mono:
  assumes "wf_trie key t" and "trie_path t ks nss"
  shows "\<exists>nss'. trie_path (insert_reversed key xs t) ks nss' \<and> grows nss nss'"
  using assms
proof (induction key xs t arbitrary: ks nss rule: insert_reversed.induct)
  case (1 key t)
  then show ?case by (intro exI [of _ nss]) simp
next
  case (2 key x xs t)
  let ?r = "resolve key x (xs = []) (prevs t)"
  have wf: "bt_wf (prevs t)" using "2.prems"(1) by (simp add: wf_trie_iff [of key t])
  from "2.prems"(2) show ?case
  proof cases
    case path_end
    then show ?thesis by (intro exI [of _ "[]"]) simp
  next
    case (path_step k c ks' nss0)
    show ?thesis
    proof (cases "k = key x")
      case True
      with path_step wf have e: "bt_lookup (prevs t) (key x) = Some c" by (simp add: bt_lookup_Some_iff)
      note mono = resolve_mono [where key = key and x = x and is_first = "xs = []", OF e]
      have r: "trie_path ?r ks' nss0"
        by (rule trie_path_cong [OF path_step(4)]) (simp only: mono(2))
      have r_wf: "wf_trie key ?r"
        using resolve_wf [OF "2.prems"(1), of x "xs = []"] by (elim conjE)
      from "2.IH" [OF r_wf r]
      obtain nss' where n': "trie_path (insert_reversed key xs ?r) ks' nss'" "grows nss0 nss'"
        by (elim exE conjE)
      have "trie_path (insert_reversed key (x # xs) t) (k # ks')
          (neighbors (insert_reversed key xs ?r) # nss')"
        using n'(1) True wf by (intro trie_path.path_step) (auto simp: set_bt_insert)
      with n'(2) mono(1) path_step show ?thesis
        by (intro exI [of _ "neighbors (insert_reversed key xs ?r) # nss'"]) simp
    next
      case False
      then have "trie_path (insert_reversed key (x # xs) t) (k # ks') (neighbors c # nss0)"
        using path_step wf by (intro trie_path.path_step) (auto simp: set_bt_insert)
      with path_step show ?thesis
        by (intro exI [of _ "neighbors c # nss0"]) simp
    qed
  qed
qed

lemma insert_reversed_path:
  assumes "wf_trie key t" and "xs \<noteq> []"
  shows "\<exists>nss. trie_path (insert_reversed key xs t) (map key xs) nss \<and> nss \<noteq> [] \<and> last xs \<in> set (last nss)"
  using assms
proof (induction key xs t rule: insert_reversed.induct)
  case (1 key t)
  then show ?case by simp
next
  case (2 key x xs t)
  let ?r = "resolve key x (xs = []) (prevs t)"
  have wf: "bt_wf (prevs t)" using "2.prems"(1) by (simp add: wf_trie_iff [of key t])
  show ?case
  proof (cases "xs = []")
    case True
    have "trie_path (insert_reversed key (x # xs) t) [key x] [neighbors (insert_reversed key xs ?r)]"
      using wf by (intro trie_path.path_step trie_path.path_end) (auto simp: set_bt_insert)
    moreover have "x \<in> set (neighbors ?r)"
      using True by (simp add: resolve_def new_rnode_def split: option.split)
    ultimately show ?thesis using True by (intro exI [of _ "[neighbors (insert_reversed key xs ?r)]"]) auto
  next
    case False
    then obtain nss where "trie_path (insert_reversed key xs ?r) (map key xs) nss" "nss \<noteq> []"
      "last xs \<in> set (last nss)"
      using "2.IH" resolve_wf [OF "2.prems"(1)] by blast
    moreover from this have "trie_path (insert_reversed key (x # xs) t) (key x # map key xs)
        (neighbors (insert_reversed key xs ?r) # nss)"
      using wf by (intro trie_path.path_step) (auto simp: set_bt_insert)
    ultimately show ?thesis using False
      by (intro exI [of _ "neighbors (insert_reversed key xs ?r) # nss"]) auto
  qed
qed

lemma trie_path_keys:
  assumes "trie_path t ks nss" and "wf_trie key t"
  shows "list_all2 (\<lambda>k ns. ns \<noteq> [] \<and> (\<forall>y \<in> set ns. key y = k)) ks nss"
  using assms
proof (induction rule: trie_path.induct)
  case (path_end t)
  then show ?case by simp
next
  case (path_step k c t ks nss)
  from path_step.prems path_step.hyps(1)
  have "neighbors c \<noteq> [] \<and> (\<forall>y \<in> set (neighbors c). key y = k) \<and> wf_trie key c"
    by (subst (asm) wf_trie_iff) auto
  with path_step.IH show ?case by simp
qed

lemma build_trie_path:
  assumes "xs \<in> set ps" and "xs \<noteq> []"
  shows "\<exists>nss. trie_path (build_trie key ps) (map key (rev xs)) nss \<and> nss \<noteq> [] \<and> hd xs \<in> set (last nss)"
proof -
  let ?ins = "\<lambda>nodes t. insert_reversed key (rev nodes) t"
  have keep: "\<exists>nss'. trie_path (fold ?ins qs t) ks nss' \<and> nss' \<noteq> [] \<and> x \<in> set (last nss')"
    if "wf_trie key t" "trie_path t ks nss" "nss \<noteq> []" "x \<in> set (last nss)" for qs t ks nss x
    using that
  proof (induction qs arbitrary: t nss)
    case Nil
    then show ?case by auto
  next
    case (Cons q qs)
    obtain nss' where n: "trie_path (?ins q t) ks nss'" "grows nss nss'"
      using insert_reversed_path_mono [OF Cons.prems(1,2)] by blast
    have "nss' \<noteq> []" and "x \<in> set (last nss')"
      using grows_last [OF n(2) Cons.prems(3)] Cons.prems(4) by auto
    with Cons.IH [OF insert_reversed_wf [OF Cons.prems(1)] n(1)] show ?case by simp
  qed
  have "\<exists>nss. trie_path (fold ?ins ps t) (map key (rev xs)) nss \<and> nss \<noteq> [] \<and> hd xs \<in> set (last nss)"
    if "wf_trie key t" for t
    using assms(1) that
  proof (induction ps arbitrary: t)
    case Nil
    then show ?case by simp
  next
    case (Cons q qs)
    show ?case
    proof (cases "xs = q")
      case True
      obtain nss where "trie_path (?ins q t) (map key (rev q)) nss" "nss \<noteq> []" "last (rev q) \<in> set (last nss)"
        using insert_reversed_path [OF Cons.prems(2), of "rev q"] assms(2) True by auto
      with keep [OF insert_reversed_wf [OF Cons.prems(2)]] True assms(2) show ?thesis
        by (simp add: last_rev)
    next
      case False
      with Cons show ?thesis by (auto intro: insert_reversed_wf)
    qed
  qed
  moreover have "wf_trie key empty_rnode" by (simp add: empty_rnode_def wf_trie_RNode)
  ultimately show ?thesis by (simp add: build_trie_def)
qed

section \<open>Properties\<close>

text \<open>The inputs and outputs of the unit tests \<open>simple_duplicated_depth_1\<close> and
  \<open>simple_unduplicated\<close>; a string is its own key.\<close>

definition merge_example :: "string list list" where
  "merge_example =
     [[''a'', ''b'', ''c'', ''d''], [''x'', ''y'', ''z'', ''c'', ''d''], [''y'', ''z'', ''c'', ''d'']]"

lemma merge_example_result:
  "merge_pipelines (\<lambda>x. x) merge_example =
     [[Item [''c''], Item [''d'']],
      [Item [''x''], Item [''y'', ''y''], Item [''z''], Next 0],
      [Item [''a''], Item [''b''], Next 0]]"
  by code_simp

lemma merge_unduplicated_result:
  "merge_pipelines (\<lambda>x. x)
     [[''a'', ''b'', ''c'', ''d''], [''x'', ''y'', ''z'', ''c'', ''d''], [''y'', ''z'', ''c'', ''d'', ''e'']] =
     [[Item [''y''], Item [''z''], Item [''c''], Item [''d''], Item [''e'']],
      [Item [''c''], Item [''d'']],
      [Item [''x''], Item [''y''], Item [''z''], Next 1],
      [Item [''a''], Item [''b''], Next 1]]"
  by code_simp

text \<open>
  C7: every output of \<open>merge_pipelines\<close> is a non-empty run of items followed by at most one link, and
  the link points to an output with a smaller index, so a consumer that works through the outputs
  from the last to the first has all the inputs of an output before it reaches it.
\<close>

theorem merge_pipelines_linked:
  assumes "k < length (merge_pipelines key ps)"
  shows "well_linked k (merge_pipelines key ps ! k)"
proof -
  have "k < length (emits None 0 (rev (map snd (prevs (build_trie key ps)))))"
    using assms by (simp add: merge_pipelines_def into_disaggregated_emits)
  then show ?thesis
    using emit_well_linked(2) [of None 0 k "rev (map snd (prevs (build_trie key ps)))"]
    by (simp add: merge_pipelines_def into_disaggregated_emits)
qed

theorem merge_pipelines_linked_witness:
  "well_linked 1 (merge_pipelines (\<lambda>x. x) merge_example ! 1)"
  by (rule merge_pipelines_linked) (simp add: merge_example_result)

text \<open>
  Merging loses no pipeline: for every non-empty input pipeline there is a position in the output
  from which following items and links reads one item per node, each of them holding nodes with
  that node's key only, and the first one holding the pipeline's own first node.
\<close>

theorem merge_pipelines_reads:
  assumes "xs \<in> set ps" and "xs \<noteq> []"
  shows "\<exists>nss. reads (merge_pipelines key ps) nss \<and> hd xs \<in> set (hd nss) \<and>
    list_all2 (\<lambda>x ns. ns \<noteq> [] \<and> (\<forall>y \<in> set ns. key y = key x)) xs nss"
proof -
  obtain nss where path: "trie_path (build_trie key ps) (map key (rev xs)) nss" and ne: "nss \<noteq> []"
    and first: "hd xs \<in> set (last nss)"
    using build_trie_path [OF assms] by blast
  have "list_all2 (\<lambda>k ns. ns \<noteq> [] \<and> (\<forall>y \<in> set ns. key y = k)) (map key (rev xs)) nss"
    by (rule trie_path_keys [OF path build_trie_wf])
  then have "list_all2 (\<lambda>x ns. ns \<noteq> [] \<and> (\<forall>y \<in> set ns. key y = key x)) (rev xs) (rev (rev nss))"
    by (simp only: list_all2_map1 rev_rev_ident)
  then have "list_all2 (\<lambda>x ns. ns \<noteq> [] \<and> (\<forall>y \<in> set ns. key y = key x)) xs (rev nss)"
    by (simp only: list_all2_rev)
  moreover have "reads (merge_pipelines key ps) (rev nss)"
    using into_disaggregated_reads [OF path ne] by (simp add: merge_pipelines_def)
  moreover have "hd xs \<in> set (hd (rev nss))" using first by (simp only: hd_rev)
  ultimately show ?thesis by blast
qed

theorem merge_pipelines_reads_witness:
  "\<exists>nss. reads (merge_pipelines (\<lambda>x. x) merge_example) nss \<and> ''y'' \<in> set (hd nss) \<and> length nss = 4"
proof -
  have "[''y'', ''z'', ''c'', ''d''] \<in> set merge_example" by (simp add: merge_example_def)
  from merge_pipelines_reads [OF this, of "\<lambda>x. x"]
  obtain nss where "reads (merge_pipelines (\<lambda>x. x) merge_example) nss" "''y'' \<in> set (hd nss)"
    and "list_all2 (\<lambda>x ns. ns \<noteq> [] \<and> (\<forall>y \<in> set ns. y = x)) [''y'', ''z'', ''c'', ''d''] nss"
    by auto
  moreover from this(3) have "length nss = 4" by (simp add: list_all2_lengthD [symmetric])
  ultimately show ?thesis by blast
qed

text \<open>
  C6: merging conserves what the pipelines carry: when only first nodes carry a payload (as the
  dependency solver's nodes do), the items of the output hold exactly the payloads of the input,
  each as often as it was given.
\<close>

theorem merge_pipelines_conserves:
  assumes "\<forall>xs \<in> set ps. xs \<noteq> [] \<and> (\<forall>x \<in> set (tl xs). \<not> P x)"
  shows "filter_mset P (\<Sum>\<^sub># (image_mset mset (output_items (merge_pipelines key ps)))) =
    filter_mset P (mset (map hd ps))"
proof -
  have fold: "filter_mset P (trie_nodes (fold (\<lambda>nodes t. insert_reversed key (rev nodes) t) qs t)) =
      filter_mset P (mset (map hd qs)) + filter_mset P (trie_nodes t)"
    if "\<forall>xs \<in> set qs. xs \<noteq> [] \<and> (\<forall>x \<in> set (tl xs). \<not> P x)" "wf_trie key t" for qs t
    using that
  proof (induction qs arbitrary: t)
    case Nil
    then show ?case by simp
  next
    case (Cons q qs)
    have "butlast (rev q) = rev (tl q)" by (cases q) auto
    then have "filter_mset P (trie_nodes (insert_reversed key (rev q) t)) =
        filter_mset P {#hd q#} + filter_mset P (trie_nodes t)"
      using Cons.prems insert_reversed_nodes [of key t "rev q" P] by (simp add: last_rev)
    with Cons.IH [of "insert_reversed key (rev q) t"] Cons.prems show ?case
      by (auto simp: insert_reversed_wf)
  qed
  have "wf_trie key empty_rnode" by (simp add: empty_rnode_def wf_trie_RNode)
  from fold [OF assms this]
  have all: "filter_mset P (trie_nodes (build_trie key ps)) = filter_mset P (mset (map hd ps))"
    by (simp add: build_trie_def empty_rnode_def)
  have root: "neighbors (build_trie key ps) = []"
    unfolding build_trie_def by (induction ps rule: rev_induct) (simp_all add: empty_rnode_def)
  have "\<Sum>\<^sub># (image_mset mset (output_items (merge_pipelines key ps))) = trie_nodes (build_trie key ps)"
    using root trie_nodes_eq [of "build_trie key ps"]
    by (simp add: merge_pipelines_def into_disaggregated_emits emit_items
        sum_image_mset_sum_list trie_nodes_def sum_list_map_rev_mset comp_def)
  with all show ?thesis by simp
qed

theorem merge_pipelines_conserves_witness:
  "filter_mset (\<lambda>(name, payload). payload)
     (\<Sum>\<^sub># (image_mset mset (output_items (merge_pipelines fst
        [[(''a'', True), (''c'', False)], [(''c'', True)], [(''a'', True), (''c'', False)]])))) =
   {#(''a'', True), (''c'', True), (''a'', True)#}"
  by (subst merge_pipelines_conserves) auto

end
