(* ===== verification/Lang_Syntax.thy ===== *)
theory Lang_Syntax imports Ark_Prelude begin

text \<open>
  The script language of kubegraph: the abstract syntax the parser of \<open>crates/kubegraph/parser\<close>
  builds, and the instructions, values and constant arithmetic of \<open>crates/kubegraph/api/src/vm.rs\<close>.
  A number is an ordered \<open>f64\<close> of the crate \<open>ordered_float\<close>; its arithmetic is an argument of the
  definitions (the record \<open>arith\<close>), so every lemma holds whatever the rounding of the operations.
\<close>

section \<open>Numbers\<close>

record 'n arith =
  n_neg :: "'n \<Rightarrow> 'n"
  n_add :: "'n \<Rightarrow> 'n \<Rightarrow> 'n"
  n_sub :: "'n \<Rightarrow> 'n \<Rightarrow> 'n"
  n_mul :: "'n \<Rightarrow> 'n \<Rightarrow> 'n"
  n_div :: "'n \<Rightarrow> 'n \<Rightarrow> 'n"
  n_is_zero :: "'n \<Rightarrow> bool"
  n_eq :: "'n \<Rightarrow> 'n \<Rightarrow> bool"
  n_ne :: "'n \<Rightarrow> 'n \<Rightarrow> bool"
  n_ge :: "'n \<Rightarrow> 'n \<Rightarrow> bool"
  n_gt :: "'n \<Rightarrow> 'n \<Rightarrow> bool"
  n_le :: "'n \<Rightarrow> 'n \<Rightarrow> bool"
  n_lt :: "'n \<Rightarrow> 'n \<Rightarrow> bool"
  n_cmp_greater :: "'n \<Rightarrow> 'n \<Rightarrow> bool"  \<comment> \<open>\<open>Ord::cmp\<close> returns \<open>Greater\<close>\<close>
  n_round_i64 :: "'n \<Rightarrow> int"              \<comment> \<open>\<open>x.round() as i64\<close>\<close>

section \<open>Abstract syntax\<close>

datatype binary_op = Add | Sub | Mul | Div | Eq | Ne | Ge | Gt | Le | Lt | And | Or

datatype unary_op = Neg | NotOp

datatype builtin_fn = Max | Min

datatype function_expr = BuiltIn builtin_fn | Custom string

datatype 'n pvalue = PNumber 'n | PVariable string

datatype 'n expr =
    EIdentity "'n pvalue"
  | EUnary "'n expr" unary_op
  | EBinary "'n expr" "'n expr" binary_op
  | EFunction function_expr "'n expr list"

datatype 'n pstmt = Set string "'n expr"

datatype 'n pfilter = Ensure string | FExpr "'n expr"

section \<open>Instructions\<close>

datatype 'n val = VFeature bool | VNumber 'n | VVariable nat

datatype 'n stmt =
    Identity nat
  | DefineLocalFeature "bool option"
  | DefineLocalValue "'n option"
  | BinaryExpr "'n val" "'n val" binary_op
  | UnaryExpr "'n val" unary_op
  | FunctionExpr function_expr "'n val list"

record 'n instruction =
  ins_name :: "string option"
  ins_stmt :: "'n stmt"

text \<open>The errors of the compiler and of the executor, one per \<open>bail!\<close> of the source. \<open>Panic\<close> is an
  index out of the bounds of the stack.\<close>

datatype vm_error =
    UnexpectedValue
  | UnexpectedFeature
  | DivideByZero
  | UnsupportedFunction string
  | UndefinedLocal string
  | IllegalAccess nat nat
  | UndefinedFeature
  | UndefinedNumber
  | UnexpectedTypeFeature
  | UnexpectedTypeNumber
  | EmptyArguments
  | MultipleSlices
  | HeapUnexpectedValue string
  | HeapUnexpectedFeature string
  | EmptyFrame
  | Panic

fun stmt_of_val :: "'n val \<Rightarrow> 'n stmt" where
  "stmt_of_val (VFeature b) = DefineLocalFeature (Some b)"
| "stmt_of_val (VNumber n) = DefineLocalValue (Some n)"
| "stmt_of_val (VVariable i) = Identity i"

fun to_value :: "'n stmt \<Rightarrow> 'n val option" where
  "to_value (Identity i) = Some (VVariable i)"
| "to_value (DefineLocalFeature (Some b)) = Some (VFeature b)"
| "to_value (DefineLocalFeature None) = None"
| "to_value (DefineLocalValue (Some n)) = Some (VNumber n)"
| "to_value (DefineLocalValue None) = None"
| "to_value (BinaryExpr lhs rhs op) = None"
| "to_value (UnaryExpr src op) = None"
| "to_value (FunctionExpr op args) = None"

fun to_feature :: "'n val \<Rightarrow> vm_error + bool option" where
  "to_feature (VFeature b) = Inr (Some b)"
| "to_feature (VNumber n) = Inl UnexpectedValue"
| "to_feature (VVariable i) = Inr None"

fun to_number :: "'n val \<Rightarrow> vm_error + 'n option" where
  "to_number (VFeature b) = Inl UnexpectedFeature"
| "to_number (VNumber n) = Inr (Some n)"
| "to_number (VVariable i) = Inr None"

fun to_number_opt :: "'n val \<Rightarrow> 'n option" where
  "to_number_opt (VNumber n) = Some n"
| "to_number_opt v = None"

fun is_number :: "'n val \<Rightarrow> bool" where
  "is_number (VNumber n) = True"
| "is_number v = False"

section \<open>Constant arithmetic\<close>

text \<open>\<open>impl Div for Number\<close>: the only operation that can fail.\<close>

definition number_div :: "('n, 'z) arith_scheme \<Rightarrow> 'n \<Rightarrow> 'n \<Rightarrow> vm_error + 'n" where
  "number_div A a b = (if \<not> n_is_zero A b then Inr (n_div A a b) else Inl DivideByZero)"

text \<open>\<open>Iterator::max\<close> keeps the later of two equal elements, \<open>Iterator::min\<close> the earlier.\<close>

definition pick :: "('n, 'z) arith_scheme \<Rightarrow> builtin_fn \<Rightarrow> 'n \<Rightarrow> 'n \<Rightarrow> 'n" where
  "pick A f a b =
     (case f of
        Max \<Rightarrow> if n_cmp_greater A a b then a else b
      | Min \<Rightarrow> if n_cmp_greater A a b then b else a)"

fun iter_pick :: "('n, 'z) arith_scheme \<Rightarrow> builtin_fn \<Rightarrow> 'n list \<Rightarrow> 'n option" where
  "iter_pick A f [] = None"
| "iter_pick A f (x # xs) = Some (foldl (pick A f) x xs)"

text \<open>\<open>impl Max for Vec<Number>\<close> and \<open>impl Min for Vec<Number>\<close>.\<close>

definition numbers_pick :: "('n, 'z) arith_scheme \<Rightarrow> builtin_fn \<Rightarrow> 'n list \<Rightarrow> vm_error + 'n" where
  "numbers_pick A f ns = (case iter_pick A f ns of None \<Rightarrow> Inl EmptyArguments | Some n \<Rightarrow> Inr n)"

section \<open>Operators on compile-time values\<close>

text \<open>The two arms of \<open>impl_expr_unary!\<close>.\<close>

definition value_unary :: "('n, 'z) arith_scheme \<Rightarrow> unary_op \<Rightarrow> 'n val \<Rightarrow> vm_error + 'n stmt" where
  "value_unary A op src =
     (case op of
        NotOp \<Rightarrow> rbind (to_feature src) (\<lambda>s. case s of
            Some b \<Rightarrow> Inr (DefineLocalFeature (Some (\<not> b)))
          | None \<Rightarrow> Inr (UnaryExpr src op))
      | Neg \<Rightarrow> rbind (to_number src) (\<lambda>s. case s of
            Some n \<Rightarrow> Inr (DefineLocalValue (Some (n_neg A n)))
          | None \<Rightarrow> Inr (UnaryExpr src op)))"

text \<open>The arms of \<open>impl_expr_binary!\<close>: operands are features, or numbers with a result computed by \<open>f\<close>.\<close>

definition value_binary_features ::
    "(bool \<Rightarrow> bool \<Rightarrow> bool) \<Rightarrow> binary_op \<Rightarrow> 'n val \<Rightarrow> 'n val \<Rightarrow> vm_error + 'n stmt" where
  "value_binary_features f op lhs rhs =
     rbind (to_feature lhs) (\<lambda>l. rbind (to_feature rhs) (\<lambda>r. case (l, r) of
         (Some a, Some b) \<Rightarrow> Inr (DefineLocalFeature (Some (f a b)))
       | _ \<Rightarrow> Inr (BinaryExpr lhs rhs op)))"

definition value_binary_numbers ::
    "('n \<Rightarrow> 'n \<Rightarrow> vm_error + 'n stmt) \<Rightarrow> binary_op \<Rightarrow> 'n val \<Rightarrow> 'n val \<Rightarrow> vm_error + 'n stmt" where
  "value_binary_numbers f op lhs rhs =
     rbind (to_number lhs) (\<lambda>l. rbind (to_number rhs) (\<lambda>r. case (l, r) of
         (Some a, Some b) \<Rightarrow> f a b
       | _ \<Rightarrow> Inr (BinaryExpr lhs rhs op)))"

text \<open>What an operator does to two numbers: a number, a feature, or the failure of a division.\<close>

datatype 'n scalar = SNumber 'n | SFeature bool

definition number_op :: "('n, 'z) arith_scheme \<Rightarrow> binary_op \<Rightarrow> 'n \<Rightarrow> 'n \<Rightarrow> vm_error + 'n scalar" where
  "number_op A op a b =
     (case op of
        Add \<Rightarrow> Inr (SNumber (n_add A a b))
      | Sub \<Rightarrow> Inr (SNumber (n_sub A a b))
      | Mul \<Rightarrow> Inr (SNumber (n_mul A a b))
      | Div \<Rightarrow> rbind (number_div A a b) (\<lambda>n. Inr (SNumber n))
      | Eq \<Rightarrow> Inr (SFeature (n_eq A a b))
      | Ne \<Rightarrow> Inr (SFeature (n_ne A a b))
      | Ge \<Rightarrow> Inr (SFeature (n_ge A a b))
      | Gt \<Rightarrow> Inr (SFeature (n_gt A a b))
      | Le \<Rightarrow> Inr (SFeature (n_le A a b))
      | Lt \<Rightarrow> Inr (SFeature (n_lt A a b))
      | And \<Rightarrow> Inl UnexpectedValue
      | Or \<Rightarrow> Inl UnexpectedValue)"

definition feature_op :: "binary_op \<Rightarrow> bool \<Rightarrow> bool \<Rightarrow> bool" where
  "feature_op op a b = (if op = And then a \<and> b else a \<or> b)"

definition is_feature_op :: "binary_op \<Rightarrow> bool" where
  "is_feature_op op \<longleftrightarrow> op = And \<or> op = Or"

fun stmt_of_scalar :: "'n scalar \<Rightarrow> 'n stmt" where
  "stmt_of_scalar (SNumber n) = DefineLocalValue (Some n)"
| "stmt_of_scalar (SFeature b) = DefineLocalFeature (Some b)"

definition value_binary :: "('n, 'z) arith_scheme \<Rightarrow> binary_op \<Rightarrow> 'n val \<Rightarrow> 'n val \<Rightarrow> vm_error + 'n stmt" where
  "value_binary A op lhs rhs =
     (if is_feature_op op then value_binary_features (feature_op op) op lhs rhs
      else value_binary_numbers (\<lambda>a b. rbind (number_op A op a b) (\<lambda>s. Inr (stmt_of_scalar s))) op lhs rhs)"

text \<open>\<open>impl Max for Vec<Value>\<close>: no argument at all also counts as "all numbers".\<close>

definition values_pick :: "('n, 'z) arith_scheme \<Rightarrow> builtin_fn \<Rightarrow> 'n val list \<Rightarrow> 'n stmt" where
  "values_pick A f vs =
     (if list_all is_number vs then DefineLocalValue (iter_pick A f (List.map_filter to_number_opt vs))
      else FunctionExpr (BuiltIn f) vs)"

section \<open>Well-formed code\<close>

text \<open>An operand below \<open>n\<close> refers to one of the first \<open>n\<close> stack cells.\<close>

fun val_below :: "nat \<Rightarrow> 'n val \<Rightarrow> bool" where
  "val_below n (VVariable i) = (i < n)"
| "val_below n v = True"

fun stmt_below :: "nat \<Rightarrow> 'n stmt \<Rightarrow> bool" where
  "stmt_below n (Identity i) = (i < n)"
| "stmt_below n (BinaryExpr lhs rhs op) = (val_below n lhs \<and> val_below n rhs)"
| "stmt_below n (UnaryExpr src op) = val_below n src"
| "stmt_below n (FunctionExpr op args) = list_all (val_below n) args"
| "stmt_below n _ = True"

definition wf_code :: "'n instruction list \<Rightarrow> bool" where
  "wf_code code \<longleftrightarrow> (\<forall>i < length code. stmt_below i (ins_stmt (code ! i)))"

lemma val_below_mono: "val_below n v \<Longrightarrow> n \<le> m \<Longrightarrow> val_below m v"
  by (cases v) auto

lemma wf_code_Nil [simp]: "wf_code []"
  by (simp add: wf_code_def)

lemma wf_code_snoc [simp]: "wf_code (code @ [ins]) \<longleftrightarrow> wf_code code \<and> stmt_below (length code) (ins_stmt ins)"
  by (auto simp: wf_code_def nth_append less_Suc_eq)

lemma to_value_below: "to_value st = Some v \<Longrightarrow> stmt_below n st \<Longrightarrow> val_below n v"
  by (cases st rule: to_value.cases) auto

lemma stmt_of_val_below [simp]: "stmt_below n (stmt_of_val v) = val_below n v"
  by (cases v) auto

lemma to_value_stmt_of_val [simp]: "to_value (stmt_of_val v) = Some v"
  by (cases v) auto

lemma stmt_below_scalar [simp]: "stmt_below n (stmt_of_scalar s)"
  by (cases s) auto

lemma value_unary_below: "value_unary A op v = Inr st \<Longrightarrow> val_below n v \<Longrightarrow> stmt_below n st"
  by (cases v; cases op) (auto simp: value_unary_def)

lemma value_binary_below:
  "value_binary A op v w = Inr st \<Longrightarrow> val_below n v \<Longrightarrow> val_below n w \<Longrightarrow> stmt_below n st"
  by (cases v; cases w)
    (auto simp: value_binary_def value_binary_features_def value_binary_numbers_def split: if_splits)

lemma values_pick_below: "list_all (val_below n) vs \<Longrightarrow> stmt_below n (values_pick A f vs)"
  by (simp add: values_pick_def)

section \<open>A concrete instance\<close>

definition int_arith :: "int arith" where
  "int_arith = \<lparr>n_neg = uminus, n_add = (+), n_sub = (-), n_mul = (*), n_div = (div),
     n_is_zero = (\<lambda>n. n = 0), n_eq = (=), n_ne = (\<noteq>), n_ge = (\<ge>), n_gt = (>), n_le = (\<le>),
     n_lt = (<), n_cmp_greater = (>), n_round_i64 = id\<rparr>"

end
