(* ===== verification/Lang_Compile.thy ===== *)
theory Lang_Compile imports Lang_Syntax begin

text \<open>
  The compiler of \<open>crates/kubegraph/vm/lazy/src/lib.rs\<close> (module \<open>impl_execute\<close>): scripts and filters
  become a list of instructions, constants are folded on the way, names are resolved to earlier
  instructions, and unknown names become placeholders. The machine is the record \<open>vm\<close>; an
  operation returns the new machine, and its callers drop the machine of a failed compilation.
\<close>

section \<open>Model\<close>

record 'n vm =
  local_variables :: "'n instruction list"
  use_placeholders :: bool

definition default_vm :: "'n vm" where
  "default_vm = \<lparr>local_variables = [], use_placeholders = False\<rparr>"

definition register_instruction :: "'n instruction \<Rightarrow> 'n vm \<Rightarrow> 'n val \<times> 'n vm" where
  "register_instruction ins m =
     (VVariable (length (local_variables m)), m\<lparr>local_variables := local_variables m @ [ins]\<rparr>)"

definition register_value :: "string \<Rightarrow> 'n option \<Rightarrow> 'n vm \<Rightarrow> 'n val \<times> 'n vm" where
  "register_value name value m =
     register_instruction \<lparr>ins_name = Some name, ins_stmt = DefineLocalValue value\<rparr> m"

definition try_register_value :: "string \<Rightarrow> 'n vm \<Rightarrow> ('n val \<times> 'n vm) option" where
  "try_register_value name m =
     (if use_placeholders m then Some (register_value name None m) else None)"

text \<open>\<open>iter().enumerate().find(..)\<close>: the first instruction of that name, from index \<open>i\<close> on.\<close>

fun find_named :: "string \<Rightarrow> nat \<Rightarrow> 'n instruction list \<Rightarrow> (nat \<times> 'n instruction) option" where
  "find_named name i [] = None"
| "find_named name i (ins # rest) =
     (if ins_name ins = Some name then Some (i, ins) else find_named name (Suc i) rest)"

definition get_local_value_by_name :: "string \<Rightarrow> 'n vm \<Rightarrow> vm_error + 'n val \<times> 'n vm" where
  "get_local_value_by_name name m =
     (case find_named name 0 (local_variables m) of
        Some (index, ins) \<Rightarrow>
          Inr (case to_value (ins_stmt ins) of Some v \<Rightarrow> v | None \<Rightarrow> VVariable index, m)
      | None \<Rightarrow>
          (case try_register_value name m of
             Some r \<Rightarrow> Inr r
           | None \<Rightarrow> Inl (UndefinedLocal name)))"

fun get_local_value :: "'n pvalue \<Rightarrow> 'n vm \<Rightarrow> vm_error + 'n val \<times> 'n vm" where
  "get_local_value (PNumber n) m = Inr (VNumber n, m)"
| "get_local_value (PVariable name) m = get_local_value_by_name name m"

text \<open>The end of \<open>execute_expr\<close>: a constant stays a value, anything else becomes an instruction.\<close>

definition finish_expr :: "'n stmt \<Rightarrow> 'n vm \<Rightarrow> 'n val \<times> 'n vm" where
  "finish_expr st m =
     (case to_value st of
        Some v \<Rightarrow> (v, m)
      | None \<Rightarrow> register_instruction \<lparr>ins_name = None, ins_stmt = st\<rparr> m)"

fun execute_expr :: "('n, 'z) arith_scheme \<Rightarrow> 'n expr \<Rightarrow> 'n vm \<Rightarrow> vm_error + 'n val \<times> 'n vm"
  and execute_exprs :: "('n, 'z) arith_scheme \<Rightarrow> 'n expr list \<Rightarrow> 'n vm \<Rightarrow> vm_error + 'n val list \<times> 'n vm" where
  "execute_expr A (EIdentity value) m = get_local_value value m"
| "execute_expr A (EUnary value op) m =
     rbind (execute_expr A value m) (\<lambda>(v, m1).
     rbind (value_unary A op v) (\<lambda>st. Inr (finish_expr st m1)))"
| "execute_expr A (EBinary lhs rhs op) m =
     rbind (execute_expr A lhs m) (\<lambda>(l, m1).
     rbind (execute_expr A rhs m1) (\<lambda>(r, m2).
     rbind (value_binary A op l r) (\<lambda>st. Inr (finish_expr st m2))))"
| "execute_expr A (EFunction op args) m =
     rbind (execute_exprs A args m) (\<lambda>(vs, m1).
       (case op of
          BuiltIn f \<Rightarrow> Inr (finish_expr (values_pick A f vs) m1)
        | Custom name \<Rightarrow> Inl (UnsupportedFunction name)))"
| "execute_exprs A [] m = Inr ([], m)"
| "execute_exprs A (e # es) m =
     rbind (execute_expr A e m) (\<lambda>(v, m1).
     rbind (execute_exprs A es m1) (\<lambda>(vs, m2). Inr (v # vs, m2)))"

fun execute_stmt :: "('n, 'z) arith_scheme \<Rightarrow> 'n pstmt \<Rightarrow> 'n vm \<Rightarrow> vm_error + 'n vm" where
  "execute_stmt A (Set lhs rhs) m =
     rbind (execute_expr A rhs m) (\<lambda>(v, m1).
       Inr (snd (register_instruction \<lparr>ins_name = Some lhs, ins_stmt = stmt_of_val v\<rparr> m1)))"

text \<open>\<open>execute_script\<close> and \<open>execute_filter\<close>, after the parser.\<close>

definition execute_script :: "('n, 'z) arith_scheme \<Rightarrow> 'n pstmt list \<Rightarrow> 'n vm \<Rightarrow> vm_error + 'n vm" where
  "execute_script A stmts m = fold_result (execute_stmt A) stmts m"

fun execute_filter :: "('n, 'z) arith_scheme \<Rightarrow> 'n pfilter \<Rightarrow> 'n vm \<Rightarrow> vm_error + 'n vm" where
  "execute_filter A (Ensure name) m = Inr (snd (register_value name None m))"
| "execute_filter A (FExpr e) m = rbind (execute_expr A e m) (\<lambda>(v, m1). Inr m1)"

definition with_lazy_script :: "('n, 'z) arith_scheme \<Rightarrow> 'n pstmt list \<Rightarrow> vm_error + 'n vm" where
  "with_lazy_script A stmts = execute_script A stmts (default_vm\<lparr>use_placeholders := True\<rparr>)"

definition with_lazy_filter :: "('n, 'z) arith_scheme \<Rightarrow> 'n pfilter \<Rightarrow> vm_error + 'n vm" where
  "with_lazy_filter A f = execute_filter A f (default_vm\<lparr>use_placeholders := True\<rparr>)"

definition dump_script :: "'n vm \<Rightarrow> 'n instruction list" where
  "dump_script m = local_variables m"

section \<open>The compiler only appends, and keeps the code well formed\<close>

definition extends :: "'n vm \<Rightarrow> 'n vm \<Rightarrow> bool" where
  "extends m m' \<longleftrightarrow> (\<exists>new. local_variables m' = local_variables m @ new) \<and>
     use_placeholders m' = use_placeholders m"

definition wf_vm :: "'n vm \<Rightarrow> bool" where
  "wf_vm m \<longleftrightarrow> wf_code (local_variables m)"

definition val_ok :: "'n vm \<Rightarrow> 'n val \<Rightarrow> bool" where
  "val_ok m v \<longleftrightarrow> val_below (length (local_variables m)) v"

lemma extends_refl [simp]: "extends m m"
  by (simp add: extends_def)

lemma extends_trans [trans]: "extends a b \<Longrightarrow> extends b c \<Longrightarrow> extends a c"
  by (auto simp: extends_def)

lemma val_ok_extends: "val_ok m v \<Longrightarrow> extends m m' \<Longrightarrow> val_ok m' v"
  by (auto simp: val_ok_def extends_def intro: val_below_mono)

lemma val_ok_simps [simp]: "val_ok m (VNumber n)" "val_ok m (VFeature b)"
  by (simp_all add: val_ok_def)

lemma register_instruction_props:
  assumes "register_instruction ins m = (v, m')"
  shows "extends m m'" and "val_ok m' v"
    and "wf_vm m \<Longrightarrow> stmt_below (length (local_variables m)) (ins_stmt ins) \<Longrightarrow> wf_vm m'"
  using assms by (auto simp: register_instruction_def extends_def val_ok_def wf_vm_def)

lemma finish_expr_props:
  assumes "finish_expr st m = (v, m')"
  shows "extends m m'" and "stmt_below (length (local_variables m)) st \<Longrightarrow> val_ok m' v"
    and "wf_vm m \<Longrightarrow> stmt_below (length (local_variables m)) st \<Longrightarrow> wf_vm m'"
  using assms
  by (auto simp: finish_expr_def val_ok_def to_value_below split: option.splits
      dest: register_instruction_props)

lemma find_named_Some:
  assumes "find_named name i code = Some (j, ins)"
  shows "i \<le> j \<and> j < i + length code \<and> code ! (j - i) = ins \<and> ins_name ins = Some name \<and>
    (\<forall>k < j - i. ins_name (code ! k) \<noteq> Some name)"
  using assms
proof (induction name i code rule: find_named.induct)
  case (1 name i)
  then show ?case by simp
next
  case (2 name i ins' rest)
  show ?case
  proof (cases "ins_name ins' = Some name")
    case True
    with 2 show ?thesis by simp
  next
    case False
    with 2 have "Suc i \<le> j \<and> j < Suc i + length rest \<and> rest ! (j - Suc i) = ins \<and>
        ins_name ins = Some name \<and> (\<forall>k < j - Suc i. ins_name (rest ! k) \<noteq> Some name)" by simp
    moreover from this have "j - i = Suc (j - Suc i)" by linarith
    ultimately show ?thesis using False by (auto simp: All_less_Suc2)
  qed
qed

lemma find_named_append:
  "find_named name i (xs @ ys) =
     (case find_named name i xs of Some r \<Rightarrow> Some r | None \<Rightarrow> find_named name (i + length xs) ys)"
  by (induction name i xs rule: find_named.induct) (auto split: option.splits)

lemma get_local_value_props:
  assumes "get_local_value pv m = Inr (v, m')"
  shows "extends m m'" and "wf_vm m \<Longrightarrow> val_ok m' v" and "wf_vm m \<Longrightarrow> wf_vm m'"
proof -
  have "extends m m' \<and> (wf_vm m \<longrightarrow> val_ok m' v \<and> wf_vm m')"
  proof (cases pv)
    case (PNumber n)
    with assms show ?thesis by auto
  next
    case (PVariable name)
    show ?thesis
    proof (cases "find_named name 0 (local_variables m)")
      case None
      with assms PVariable show ?thesis
        by (auto simp: get_local_value_by_name_def try_register_value_def register_value_def
            split: if_splits dest: register_instruction_props)
    next
      case (Some r)
      obtain j ins where r: "r = (j, ins)" by fastforce
      note f = find_named_Some [OF Some [unfolded r]]
      from assms PVariable Some r have m': "m' = m"
        and v: "v = (case to_value (ins_stmt ins) of Some v \<Rightarrow> v | None \<Rightarrow> VVariable j)"
        by (auto simp: get_local_value_by_name_def)
      have "val_ok m v" if "wf_vm m"
      proof -
        from f have j: "j < length (local_variables m)" "local_variables m ! j = ins" by auto
        with that have "stmt_below j (ins_stmt ins)" by (auto simp: wf_vm_def wf_code_def)
        with j show ?thesis
          by (auto simp: v val_ok_def split: option.split dest: to_value_below intro: val_below_mono)
      qed
      with m' show ?thesis by simp
    qed
  qed
  then show "extends m m'" and "wf_vm m \<Longrightarrow> val_ok m' v" and "wf_vm m \<Longrightarrow> wf_vm m'" by auto
qed

lemma execute_expr_props:
  shows "execute_expr A e m = Inr (v, m') \<Longrightarrow> extends m m' \<and> (wf_vm m \<longrightarrow> wf_vm m' \<and> val_ok m' v)"
    and "execute_exprs A es m = Inr (vs, m') \<Longrightarrow>
      extends m m' \<and> (wf_vm m \<longrightarrow> wf_vm m' \<and> list_all (val_ok m') vs)"
proof (induction A e m and A es m arbitrary: v m' and vs m' rule: execute_expr_execute_exprs.induct)
  case (1 A pv m)
  then show ?case using get_local_value_props by auto
next
  case (2 A e op m)
  from "2.prems" obtain w m1 st where w: "execute_expr A e m = Inr (w, m1)"
    and st: "value_unary A op w = Inr st" and fin: "finish_expr st m1 = (v, m')"
    by auto
  note IH = "2.IH" [OF w]
  have "wf_vm m \<longrightarrow> stmt_below (length (local_variables m1)) st"
    using IH st by (auto simp: val_ok_def intro: value_unary_below)
  with IH finish_expr_props [OF fin] show ?case by (blast intro: extends_trans)
next
  case (3 A lhs rhs op m)
  from "3.prems" obtain l m1 r m2 st where l: "execute_expr A lhs m = Inr (l, m1)"
    and r: "execute_expr A rhs m1 = Inr (r, m2)" and st: "value_binary A op l r = Inr st"
    and fin: "finish_expr st m2 = (v, m')"
    by auto
  note IH1 = "3.IH"(1) [OF l]
  note IH2 = "3.IH"(2) [OF l refl r]
  have "wf_vm m \<longrightarrow> stmt_below (length (local_variables m2)) st"
    using IH1 IH2 st val_ok_extends unfolding val_ok_def by (blast intro: value_binary_below)
  with IH1 IH2 finish_expr_props [OF fin] show ?case by (blast intro: extends_trans)
next
  case (4 A op args m)
  from "4.prems" obtain vs m1 f where vs: "execute_exprs A args m = Inr (vs, m1)"
    and fin: "finish_expr (values_pick A f vs) m1 = (v, m')"
    by (cases op) auto
  note IH = "4.IH" [OF vs]
  have "wf_vm m \<longrightarrow> stmt_below (length (local_variables m1)) (values_pick A f vs)"
    using IH values_pick_below [of "length (local_variables m1)" vs A f]
    by (auto simp: val_ok_def [abs_def])
  with IH finish_expr_props [OF fin] show ?case by (blast intro: extends_trans)
next
  case (5 A m)
  then show ?case by simp
next
  case (6 A e es m)
  from "6.prems" obtain v m1 ws where v: "execute_expr A e m = Inr (v, m1)"
    and ws: "execute_exprs A es m1 = Inr (ws, m')" and vs: "vs = v # ws"
    by auto
  note IH1 = "6.IH"(1) [OF v]
  note IH2 = "6.IH"(2) [OF v refl ws]
  from IH1 IH2 vs show ?case by (auto intro: extends_trans val_ok_extends)
qed

lemma execute_stmt_props:
  assumes "execute_stmt A st m = Inr m'"
  shows "extends m m' \<and> (wf_vm m \<longrightarrow> wf_vm m')"
proof -
  obtain lhs rhs where st: "st = Set lhs rhs" by (cases st)
  with assms obtain v m1 where v: "execute_expr A rhs m = Inr (v, m1)"
    and m': "m' = snd (register_instruction \<lparr>ins_name = Some lhs, ins_stmt = stmt_of_val v\<rparr> m1)"
    by auto
  obtain w where "register_instruction \<lparr>ins_name = Some lhs, ins_stmt = stmt_of_val v\<rparr> m1 = (w, m')"
    using m' by (cases "register_instruction \<lparr>ins_name = Some lhs, ins_stmt = stmt_of_val v\<rparr> m1") auto
  from register_instruction_props [OF this] execute_expr_props(1) [OF v] show ?thesis
    by (auto simp: val_ok_def intro: extends_trans)
qed

lemma execute_script_props:
  assumes "execute_script A stmts m = Inr m'"
  shows "extends m m' \<and> (wf_vm m \<longrightarrow> wf_vm m')"
  using assms unfolding execute_script_def
  by (rule fold_result_invariant) (auto dest!: execute_stmt_props intro: extends_trans)

lemma execute_filter_props:
  assumes "execute_filter A f m = Inr m'"
  shows "extends m m' \<and> (wf_vm m \<longrightarrow> wf_vm m')"
  using assms
  by (cases f) (auto simp: register_value_def register_instruction_def extends_def wf_vm_def
      dest!: execute_expr_props(1))

lemma wf_vm_default [simp]: "wf_vm default_vm" "wf_vm (default_vm\<lparr>use_placeholders := b\<rparr>)"
  by (simp_all add: wf_vm_def default_vm_def)

end
