(* ===== verification/Lang_Frame.thy ===== *)
theory Lang_Frame imports Lang_Syntax begin

text \<open>
  The data frames of \<open>crates/kubegraph/api/src/frame/mod.rs\<close>: a frame is empty or holds a lazy frame
  of the crate \<open>polars\<close>, a slice is a \<open>polars\<close> expression. What the code calls of \<open>polars\<close> is an
  argument of the definitions, the record \<open>polars\<close>; nothing is assumed about it.
\<close>

record ('df, 'e, 'n) polars =
  pl_all :: 'e
  pl_col :: "string \<Rightarrow> 'e"
  pl_lit_bool :: "bool \<Rightarrow> 'e"
  pl_lit_i64 :: "int \<Rightarrow> 'e"
  pl_lit_u64 :: "nat \<Rightarrow> 'e"
  pl_lit_f64 :: "'n \<Rightarrow> 'e"
  pl_lit_str :: "string \<Rightarrow> 'e"
  pl_alias :: "'e \<Rightarrow> string \<Rightarrow> 'e"
  pl_exclude :: "'e \<Rightarrow> string \<Rightarrow> 'e"
  pl_name_prefix :: "'e \<Rightarrow> string \<Rightarrow> 'e"
  pl_unary :: "unary_op \<Rightarrow> 'e \<Rightarrow> 'e"
  pl_binary :: "binary_op \<Rightarrow> 'e \<Rightarrow> 'e \<Rightarrow> 'e"
  pl_pick :: "builtin_fn \<Rightarrow> 'e \<Rightarrow> 'e"               \<comment> \<open>\<open>Expr::max\<close>, \<open>Expr::min\<close>\<close>
  pl_ternary :: "'e \<Rightarrow> 'e \<Rightarrow> 'e \<Rightarrow> 'e"                \<comment> \<open>\<open>when(c).then(a).otherwise(b)\<close>\<close>
  pl_with_column :: "'df \<Rightarrow> 'e \<Rightarrow> 'df"
  pl_filter :: "'df \<Rightarrow> 'e \<Rightarrow> 'df"
  pl_select :: "'df \<Rightarrow> 'e list \<Rightarrow> 'df"
  pl_cross_join :: "'df \<Rightarrow> 'df \<Rightarrow> 'df"
  pl_concat :: "'df \<Rightarrow> 'df \<Rightarrow> 'df option"             \<comment> \<open>\<open>None\<close>: the error of \<open>dsl::concat\<close>\<close>

datatype 'df frame = EmptyF | PolarsF 'df

section \<open>Slices of a frame\<close>

definition frame_all :: "('df, 'e, 'n) polars \<Rightarrow> 'df frame \<Rightarrow> vm_error + 'e" where
  "frame_all P df = (case df of EmptyF \<Rightarrow> Inl EmptyFrame | PolarsF _ \<Rightarrow> Inr (pl_all P))"

definition get_column :: "('df, 'e, 'n) polars \<Rightarrow> 'df frame \<Rightarrow> string \<Rightarrow> vm_error + 'e" where
  "get_column P df name = (case df of EmptyF \<Rightarrow> Inl EmptyFrame | PolarsF _ \<Rightarrow> Inr (pl_col P name))"

text \<open>\<open>IntoLazySlice::into_polars\<close>: a number becomes the literal of its rounded integer.\<close>

definition feature_into_polars :: "('df, 'e, 'n) polars \<Rightarrow> bool \<Rightarrow> 'e" where
  "feature_into_polars P b = pl_lit_bool P b"

definition number_into_polars :: "'n arith \<Rightarrow> ('df, 'e, 'n) polars \<Rightarrow> 'n \<Rightarrow> 'e" where
  "number_into_polars A P n = pl_lit_i64 P (n_round_i64 A n)"

definition try_into_lazy_slice :: "'e \<Rightarrow> 'df frame \<Rightarrow> vm_error + 'e" where
  "try_into_lazy_slice e df = (case df of EmptyF \<Rightarrow> Inl EmptyFrame | PolarsF _ \<Rightarrow> Inr e)"

text \<open>The operators on slices: \<open>impl_expr_unary!\<close> and \<open>impl_expr_binary!\<close> of \<open>LazySlice\<close>, where the
  other operand may be a constant.\<close>

definition slice_unary :: "('df, 'e, 'n) polars \<Rightarrow> unary_op \<Rightarrow> 'e \<Rightarrow> 'e" where
  [simp]: "slice_unary P op src = pl_unary P op src"

definition slice_binary :: "('df, 'e, 'n) polars \<Rightarrow> binary_op \<Rightarrow> 'e \<Rightarrow> 'e \<Rightarrow> 'e" where
  [simp]: "slice_binary P op lhs rhs = pl_binary P op lhs rhs"

definition slice_op_number :: "'n arith \<Rightarrow> ('df, 'e, 'n) polars \<Rightarrow> binary_op \<Rightarrow> 'e \<Rightarrow> 'n \<Rightarrow> 'e" where
  [simp]: "slice_op_number A P op lhs rhs = pl_binary P op lhs (number_into_polars A P rhs)"

definition number_op_slice :: "'n arith \<Rightarrow> ('df, 'e, 'n) polars \<Rightarrow> binary_op \<Rightarrow> 'n \<Rightarrow> 'e \<Rightarrow> 'e" where
  [simp]: "number_op_slice A P op lhs rhs = pl_binary P op (number_into_polars A P lhs) rhs"

definition slice_op_feature :: "('df, 'e, 'n) polars \<Rightarrow> binary_op \<Rightarrow> 'e \<Rightarrow> bool \<Rightarrow> 'e" where
  [simp]: "slice_op_feature P op lhs rhs = pl_binary P op lhs (feature_into_polars P rhs)"

definition feature_op_slice :: "('df, 'e, 'n) polars \<Rightarrow> binary_op \<Rightarrow> bool \<Rightarrow> 'e \<Rightarrow> 'e" where
  [simp]: "feature_op_slice P op lhs rhs = pl_binary P op (feature_into_polars P lhs) rhs"

section \<open>Updates of a frame\<close>

definition frame_alias :: "('df, 'e, 'n) polars \<Rightarrow> string \<Rightarrow> string \<Rightarrow> 'df frame \<Rightarrow> vm_error + 'df frame" where
  "frame_alias P key value df =
     (case df of
        EmptyF \<Rightarrow> Inl EmptyFrame
      | PolarsF d \<Rightarrow> Inr (PolarsF (pl_with_column P d (pl_alias P (pl_lit_str P value) key))))"

definition apply_filter :: "('df, 'e, 'n) polars \<Rightarrow> 'e \<Rightarrow> 'df frame \<Rightarrow> vm_error + 'df frame" where
  "apply_filter P e df =
     (case df of EmptyF \<Rightarrow> Inl EmptyFrame | PolarsF d \<Rightarrow> Inr (PolarsF (pl_filter P d e)))"

definition fill_column_with_feature ::
    "('df, 'e, 'n) polars \<Rightarrow> string \<Rightarrow> bool \<Rightarrow> 'df frame \<Rightarrow> vm_error + 'df frame" where
  "fill_column_with_feature P name b df =
     (case df of
        EmptyF \<Rightarrow> Inl EmptyFrame
      | PolarsF d \<Rightarrow> Inr (PolarsF (pl_with_column P d (pl_alias P (feature_into_polars P b) name))))"

definition fill_column_with_value ::
    "'n arith \<Rightarrow> ('df, 'e, 'n) polars \<Rightarrow> string \<Rightarrow> 'n \<Rightarrow> 'df frame \<Rightarrow> vm_error + 'df frame" where
  "fill_column_with_value A P name n df =
     (case df of
        EmptyF \<Rightarrow> Inl EmptyFrame
      | PolarsF d \<Rightarrow> Inr (PolarsF (pl_with_column P d (pl_alias P (number_into_polars A P n) name))))"

definition insert_column :: "('df, 'e, 'n) polars \<Rightarrow> string \<Rightarrow> 'e \<Rightarrow> 'df frame \<Rightarrow> vm_error + 'df frame" where
  "insert_column P name e df =
     (case df of
        EmptyF \<Rightarrow> Inl EmptyFrame
      | PolarsF d \<Rightarrow> Inr (PolarsF (pl_with_column P d (pl_alias P e name))))"

text \<open>\<open>concat\<close>: the empty frame is its unit.\<close>

definition frame_concat :: "('df, 'e, 'n) polars \<Rightarrow> 'df frame \<Rightarrow> 'df frame \<Rightarrow> 'df frame option" where
  "frame_concat P a b =
     (case (a, b) of
        (EmptyF, EmptyF) \<Rightarrow> Some EmptyF
      | (EmptyF, value) \<Rightarrow> Some value
      | (value, EmptyF) \<Rightarrow> Some value
      | (PolarsF x, PolarsF y) \<Rightarrow> map_option PolarsF (pl_concat P x y))"

text \<open>\<open>fabric\<close>: the fully connected edges between the nodes, with a maximal capacity column. The
  names come from the problem's metadata.\<close>

definition select_edge_side :: "('df, 'e, 'n) polars \<Rightarrow> 'df \<Rightarrow> string \<Rightarrow> string \<Rightarrow> 'df" where
  "select_edge_side P nodes name side =
     pl_select P nodes
       [pl_alias P (pl_col P name) side,
        pl_name_prefix P (pl_exclude P (pl_all P) (''^'' @ name @ ''$'')) (side @ ''.'')]"

definition max_capacity :: nat where
  "max_capacity = (2 ^ 64 - 1) div 2 ^ 32"

definition fabric :: "('df, 'e, 'n) polars \<Rightarrow> string \<Rightarrow> string \<Rightarrow> string \<Rightarrow> string \<Rightarrow>
    'df frame \<Rightarrow> vm_error + 'df frame" where
  "fabric P name src sink capacity df =
     (case df of
        EmptyF \<Rightarrow> Inl EmptyFrame
      | PolarsF nodes \<Rightarrow>
          Inr (PolarsF (pl_with_column P
            (pl_cross_join P (select_edge_side P nodes name src) (select_edge_side P nodes name sink))
            (pl_alias P (pl_lit_u64 P max_capacity) capacity))))"

section \<open>Maxima and minima over slices and scalars\<close>

datatype ('e, 'n) slice_or_scalar = SliceS 'e | Scalar 'n

text \<open>One step of the loop of \<open>impl_expr_function_builtin!\<close>, which pops its arguments from the end.\<close>

fun pick_step :: "'n arith \<Rightarrow> ('df, 'e, 'n) polars \<Rightarrow> builtin_fn \<Rightarrow> ('e, 'n) slice_or_scalar \<Rightarrow>
    ('e, 'n) slice_or_scalar \<Rightarrow> vm_error + ('e, 'n) slice_or_scalar" where
  "pick_step A P f (SliceS b) (SliceS a) = Inl MultipleSlices"
| "pick_step A P f (Scalar b) (SliceS slice) =
     (let a = pl_pick P f slice; b' = pl_lit_f64 P b in
      Inr (SliceS (pl_ternary P (pl_binary P (if f = Max then Ge else Le) a b') a b')))"
| "pick_step A P f (SliceS slice) (Scalar b) =
     (let a = pl_pick P f slice; b' = pl_lit_f64 P b in
      Inr (SliceS (pl_ternary P (pl_binary P (if f = Max then Ge else Le) a b') a b')))"
| "pick_step A P f (Scalar b) (Scalar a) = Inr (Scalar (pick A f a b))"

definition slices_pick :: "'n arith \<Rightarrow> ('df, 'e, 'n) polars \<Rightarrow> builtin_fn \<Rightarrow>
    ('e, 'n) slice_or_scalar list \<Rightarrow> vm_error + ('e, 'n) slice_or_scalar" where
  "slices_pick A P f args =
     (case rev args of
        [] \<Rightarrow> Inl EmptyArguments
      | acc # rest \<Rightarrow> fold_result (pick_step A P f) rest acc)"

section \<open>Lemmas\<close>

lemma frame_concat_unit [simp]: "frame_concat P EmptyF b = Some b" "frame_concat P a EmptyF = Some a"
  by (cases b; simp add: frame_concat_def) (cases a; simp add: frame_concat_def)

text \<open>Two slices among the arguments are always rejected.\<close>

lemma pick_step_slice:
  "pick_step A P f a acc = Inr acc' \<Longrightarrow> (\<exists>e. a = SliceS e) \<or> (\<exists>e. acc = SliceS e) \<Longrightarrow> \<exists>e. acc' = SliceS e"
  by (cases a; cases acc) (auto simp: Let_def)

lemma fold_pick_slice:
  "fold_result (pick_step A P f) rest acc = Inr r \<Longrightarrow>
     length (filter (\<lambda>a. \<exists>e. a = SliceS e) rest) + (if \<exists>e. acc = SliceS e then 1 else 0) \<le> 1"
proof (induction rest arbitrary: acc)
  case Nil
  then show ?case by simp
next
  case (Cons a rest)
  then obtain acc' where a: "pick_step A P f a acc = Inr acc'"
    and rest: "fold_result (pick_step A P f) rest acc' = Inr r" by auto
  from Cons.IH [OF rest] pick_step_slice [OF a] a show ?case
    by (cases a; cases acc) auto
qed

lemma slices_pick_one_slice:
  assumes "slices_pick A P f args = Inr r"
  shows "length (filter (\<lambda>a. \<exists>e. a = SliceS e) args) \<le> 1"
proof -
  from assms obtain acc rest where r: "rev args = acc # rest"
    and f: "fold_result (pick_step A P f) rest acc = Inr r"
    by (auto simp: slices_pick_def split: list.splits)
  have "length (filter (\<lambda>a. \<exists>e. a = SliceS e) args) = length (filter (\<lambda>a. \<exists>e. a = SliceS e) (rev args))"
    by (simp add: rev_filter [symmetric])
  with fold_pick_slice [OF f] r show ?thesis by (auto split: if_splits)
qed

section \<open>A concrete instance\<close>

text \<open>A lazy frame is a plan: the term algebra of the operations above is one instance of the
  record \<open>polars\<close>, on which the theorems are applied to concrete scripts.\<close>

datatype plan_expr =
    XAll | XCol string | XBool bool | XInt int | XNat nat | XStr string
  | XAlias plan_expr string | XExclude plan_expr string | XPrefix plan_expr string
  | XUnary unary_op plan_expr | XBinary binary_op plan_expr plan_expr
  | XPick builtin_fn plan_expr | XTernary plan_expr plan_expr plan_expr

datatype plan =
    Scan | WithColumn plan plan_expr | Filtered plan plan_expr | Selected plan "plan_expr list"
  | CrossJoin plan plan | Concat plan plan

definition plan_polars :: "(plan, plan_expr, int) polars" where
  "plan_polars = \<lparr>pl_all = XAll, pl_col = XCol, pl_lit_bool = XBool, pl_lit_i64 = XInt, pl_lit_u64 = XNat, pl_lit_f64 = XInt,
     pl_lit_str = XStr, pl_alias = XAlias, pl_exclude = XExclude, pl_name_prefix = XPrefix,
     pl_unary = XUnary, pl_binary = XBinary, pl_pick = XPick, pl_ternary = XTernary,
     pl_with_column = WithColumn, pl_filter = Filtered, pl_select = Selected,
     pl_cross_join = CrossJoin, pl_concat = (\<lambda>a b. Some (Concat a b))\<rparr>"

end
