(* ===== verification/Lang_Exec.thy ===== *)
theory Lang_Exec imports Lang_Compile Lang_Frame begin

text \<open>
  The executor of \<open>crates/kubegraph/vm/lazy/src/lib.rs\<close> (module \<open>impl_call\<close>): a stack of variables,
  one per instruction, and a heap that holds the named variables and the data frame they are
  written to. The theory \<open>Lang_Correct\<close> relates it to the compiler.
\<close>

section \<open>Model\<close>

datatype ('e, 'n) variable = Slice 'e | Feature "bool option" | Number "'n option"

record ('df, 'e, 'n) ctx =
  edges :: "'df frame"
  variables :: "(string \<times> ('e, 'n) variable) list"
  stack :: "('e, 'n) variable list"

text \<open>\<open>Stack::get\<close> panics outside the stack.\<close>

definition stack_get :: "('e, 'n) variable list \<Rightarrow> nat \<Rightarrow> vm_error + ('e, 'n) variable" where
  "stack_get st i = (if i < length st then Inr (st ! i) else Inl Panic)"

fun fetch :: "('e, 'n) variable list \<Rightarrow> 'n val \<Rightarrow> vm_error + ('e, 'n) variable" where
  "fetch st (VFeature b) = Inr (Feature (Some b))"
| "fetch st (VNumber n) = Inr (Number (Some n))"
| "fetch st (VVariable i) = stack_get st i"

text \<open>The operators on variables: \<open>impl_expr_unary!\<close>.\<close>

fun variable_unary :: "'n arith \<Rightarrow> ('df, 'e, 'n) polars \<Rightarrow> unary_op \<Rightarrow> ('e, 'n) variable \<Rightarrow>
    vm_error + ('e, 'n) variable" where
  "variable_unary A P NotOp (Slice s) = Inr (Slice (slice_unary P NotOp s))"
| "variable_unary A P NotOp (Feature (Some b)) = Inr (Feature (Some (\<not> b)))"
| "variable_unary A P NotOp (Feature None) = Inl UndefinedFeature"
| "variable_unary A P NotOp (Number n) = Inl UnexpectedTypeNumber"
| "variable_unary A P Neg (Slice s) = Inr (Slice (slice_unary P Neg s))"
| "variable_unary A P Neg (Feature b) = Inl UnexpectedTypeFeature"
| "variable_unary A P Neg (Number (Some n)) = Inr (Number (Some (n_neg A n)))"
| "variable_unary A P Neg (Number None) = Inl UndefinedNumber"

text \<open>\<open>impl_expr_binary!\<close> for \<open>Feature -> Feature\<close>.\<close>

fun variable_binary_features :: "('df, 'e, 'n) polars \<Rightarrow> binary_op \<Rightarrow> ('e, 'n) variable \<Rightarrow>
    ('e, 'n) variable \<Rightarrow> vm_error + ('e, 'n) variable" where
  "variable_binary_features P op (Slice l) rhs =
     (case rhs of
        Slice r \<Rightarrow> Inr (Slice (slice_binary P op l r))
      | Feature (Some r) \<Rightarrow> Inr (Slice (slice_op_feature P op l r))
      | Feature None \<Rightarrow> Inl UndefinedFeature
      | Number _ \<Rightarrow> Inl UnexpectedTypeNumber)"
| "variable_binary_features P op (Feature (Some l)) rhs =
     (case rhs of
        Slice r \<Rightarrow> Inr (Slice (feature_op_slice P op l r))
      | Feature (Some r) \<Rightarrow> Inr (Feature (Some (feature_op op l r)))
      | Feature None \<Rightarrow> Inl UndefinedFeature
      | Number _ \<Rightarrow> Inl UnexpectedTypeNumber)"
| "variable_binary_features P op (Feature None) rhs = Inl UndefinedFeature"
| "variable_binary_features P op (Number n) rhs = Inl UnexpectedTypeNumber"

fun variable_of_scalar :: "'n scalar \<Rightarrow> ('e, 'n) variable" where
  "variable_of_scalar (SNumber n) = Number (Some n)"
| "variable_of_scalar (SFeature b) = Feature (Some b)"

text \<open>\<open>impl_expr_binary!\<close> for \<open>Number -> Feature\<close>, \<open>Number -> Number\<close> and \<open>Number -> Number?\<close>.\<close>

fun variable_binary_numbers :: "'n arith \<Rightarrow> ('df, 'e, 'n) polars \<Rightarrow> binary_op \<Rightarrow> ('e, 'n) variable \<Rightarrow>
    ('e, 'n) variable \<Rightarrow> vm_error + ('e, 'n) variable" where
  "variable_binary_numbers A P op (Slice l) rhs =
     (case rhs of
        Slice r \<Rightarrow> Inr (Slice (slice_binary P op l r))
      | Feature _ \<Rightarrow> Inl UnexpectedTypeFeature
      | Number (Some r) \<Rightarrow> Inr (Slice (slice_op_number A P op l r))
      | Number None \<Rightarrow> Inl UndefinedNumber)"
| "variable_binary_numbers A P op (Feature b) rhs = Inl UnexpectedTypeFeature"
| "variable_binary_numbers A P op (Number (Some l)) rhs =
     (case rhs of
        Slice r \<Rightarrow> Inr (Slice (number_op_slice A P op l r))
      | Feature _ \<Rightarrow> Inl UnexpectedTypeFeature
      | Number (Some r) \<Rightarrow> rbind (number_op A op l r) (\<lambda>s. Inr (variable_of_scalar s))
      | Number None \<Rightarrow> Inl UndefinedNumber)"
| "variable_binary_numbers A P op (Number None) rhs = Inl UndefinedNumber"

definition variable_binary :: "'n arith \<Rightarrow> ('df, 'e, 'n) polars \<Rightarrow> binary_op \<Rightarrow> ('e, 'n) variable \<Rightarrow>
    ('e, 'n) variable \<Rightarrow> vm_error + ('e, 'n) variable" where
  "variable_binary A P op lhs rhs =
     (if is_feature_op op then variable_binary_features P op lhs rhs
      else variable_binary_numbers A P op lhs rhs)"

text \<open>\<open>impl_expr_function_builtin!\<close>: plain numbers are folded, anything else goes through slices.\<close>

fun is_some_number :: "('e, 'n) variable \<Rightarrow> bool" where
  "is_some_number (Number (Some n)) = True"
| "is_some_number v = False"

fun some_number :: "('e, 'n) variable \<Rightarrow> 'n option" where
  "some_number (Number (Some n)) = Some n"
| "some_number v = None"

fun slice_or_scalar_of :: "('e, 'n) variable \<Rightarrow> vm_error + ('e, 'n) slice_or_scalar" where
  "slice_or_scalar_of (Slice s) = Inr (SliceS s)"
| "slice_or_scalar_of (Feature b) = Inl UnexpectedTypeFeature"
| "slice_or_scalar_of (Number (Some n)) = Inr (Scalar n)"
| "slice_or_scalar_of (Number None) = Inl UndefinedNumber"

fun variable_of_slice_or_scalar :: "('e, 'n) slice_or_scalar \<Rightarrow> ('e, 'n) variable" where
  "variable_of_slice_or_scalar (SliceS s) = Slice s"
| "variable_of_slice_or_scalar (Scalar n) = Number (Some n)"

definition variables_pick :: "'n arith \<Rightarrow> ('df, 'e, 'n) polars \<Rightarrow> builtin_fn \<Rightarrow>
    ('e, 'n) variable list \<Rightarrow> vm_error + ('e, 'n) variable" where
  "variables_pick A P f args =
     (if list_all is_some_number args
      then rbind (numbers_pick A f (List.map_filter some_number args)) (\<lambda>n. Inr (Number (Some n)))
      else rbind (traverse slice_or_scalar_of args) (\<lambda>ss.
           rbind (slices_pick A P f ss) (\<lambda>r. Inr (variable_of_slice_or_scalar r))))"

fun variable_function :: "'n arith \<Rightarrow> ('df, 'e, 'n) polars \<Rightarrow> function_expr \<Rightarrow>
    ('e, 'n) variable list \<Rightarrow> vm_error + ('e, 'n) variable" where
  "variable_function A P (BuiltIn f) args = variables_pick A P f args"
| "variable_function A P (Custom name) args = Inl (UnsupportedFunction name)"

section \<open>The heap\<close>

definition heap_get_unchecked :: "('df, 'e, 'n) polars \<Rightarrow> string \<Rightarrow> ('df, 'e, 'n) ctx \<Rightarrow>
    vm_error + ('e, 'n) variable" where
  "heap_get_unchecked P key c =
     (case bt_lookup (variables c) key of
        Some v \<Rightarrow> Inr v
      | None \<Rightarrow> rbind (get_column P (edges c) key) (\<lambda>s. Inr (Slice s)))"

definition heap_get_feature :: "('df, 'e, 'n) polars \<Rightarrow> string \<Rightarrow> ('df, 'e, 'n) ctx \<Rightarrow>
    vm_error + ('e, 'n) variable" where
  "heap_get_feature P key c =
     rbind (heap_get_unchecked P key c)
       (\<lambda>v. case v of Number _ \<Rightarrow> Inl (HeapUnexpectedValue key) | _ \<Rightarrow> Inr v)"

definition heap_get_number :: "('df, 'e, 'n) polars \<Rightarrow> string \<Rightarrow> ('df, 'e, 'n) ctx \<Rightarrow>
    vm_error + ('e, 'n) variable" where
  "heap_get_number P key c =
     rbind (heap_get_unchecked P key c)
       (\<lambda>v. case v of Feature _ \<Rightarrow> Inl (HeapUnexpectedFeature key) | _ \<Rightarrow> Inr v)"

fun heap_write :: "'n arith \<Rightarrow> ('df, 'e, 'n) polars \<Rightarrow> string \<Rightarrow> ('e, 'n) variable \<Rightarrow> 'df frame \<Rightarrow>
    vm_error + 'df frame" where
  "heap_write A P key (Slice s) df = insert_column P key s df"
| "heap_write A P key (Feature (Some b)) df = fill_column_with_feature P key b df"
| "heap_write A P key (Feature None) df = Inl UndefinedFeature"
| "heap_write A P key (Number (Some n)) df = fill_column_with_value A P key n df"
| "heap_write A P key (Number None) df = Inl UndefinedNumber"

definition heap_insert :: "'n arith \<Rightarrow> ('df, 'e, 'n) polars \<Rightarrow> string \<Rightarrow> ('e, 'n) variable \<Rightarrow>
    ('df, 'e, 'n) ctx \<Rightarrow> vm_error + ('df, 'e, 'n) ctx" where
  "heap_insert A P key v c =
     rbind (heap_write A P key v (edges c))
       (\<lambda>df. Inr (c\<lparr>edges := df, variables := bt_insert key v (variables c)\<rparr>))"

section \<open>Running instructions\<close>

fun eval_stmt :: "'n arith \<Rightarrow> ('df, 'e, 'n) polars \<Rightarrow> nat \<Rightarrow> ('e, 'n) variable list \<Rightarrow> 'n stmt \<Rightarrow>
    vm_error + ('e, 'n) variable" where
  "eval_stmt A P pc st (Identity index) =
     (if index < pc then stack_get st index else Inl (IllegalAccess pc index))"
| "eval_stmt A P pc st (DefineLocalFeature value) = Inr (Feature value)"
| "eval_stmt A P pc st (DefineLocalValue value) = Inr (Number value)"
| "eval_stmt A P pc st (BinaryExpr lhs rhs op) =
     rbind (fetch st lhs) (\<lambda>l. rbind (fetch st rhs) (\<lambda>r. variable_binary A P op l r))"
| "eval_stmt A P pc st (UnaryExpr src op) =
     rbind (fetch st src) (\<lambda>s. variable_unary A P op s)"
| "eval_stmt A P pc st (FunctionExpr op args) =
     rbind (traverse (fetch st) args) (\<lambda>vs. variable_function A P op vs)"

text \<open>The "fetch from heap" step: a named placeholder is read, any other named value written.\<close>

definition bind_name :: "'n arith \<Rightarrow> ('df, 'e, 'n) polars \<Rightarrow> string option \<Rightarrow> ('e, 'n) variable \<Rightarrow>
    ('df, 'e, 'n) ctx \<Rightarrow> vm_error + ('e, 'n) variable \<times> ('df, 'e, 'n) ctx" where
  "bind_name A P nm v c =
     (case nm of
        None \<Rightarrow> Inr (v, c)
      | Some name \<Rightarrow>
          (case v of
             Feature None \<Rightarrow> rbind (heap_get_feature P name c) (\<lambda>w. Inr (w, c))
           | Number None \<Rightarrow> rbind (heap_get_number P name c) (\<lambda>w. Inr (w, c))
           | _ \<Rightarrow> rbind (heap_insert A P name v c) (\<lambda>c'. Inr (v, c'))))"

definition exec_instruction :: "'n arith \<Rightarrow> ('df, 'e, 'n) polars \<Rightarrow> nat \<Rightarrow> 'n instruction \<Rightarrow>
    ('df, 'e, 'n) ctx \<Rightarrow> vm_error + ('df, 'e, 'n) ctx" where
  "exec_instruction A P pc ins c =
     rbind (eval_stmt A P pc (stack c) (ins_stmt ins)) (\<lambda>v.
     rbind (bind_name A P (ins_name ins) v c) (\<lambda>(w, c').
       Inr (c'\<lparr>stack := stack c' @ [w]\<rparr>)))"

fun exec_from :: "'n arith \<Rightarrow> ('df, 'e, 'n) polars \<Rightarrow> nat \<Rightarrow> 'n instruction list \<Rightarrow>
    ('df, 'e, 'n) ctx \<Rightarrow> vm_error + ('df, 'e, 'n) ctx" where
  "exec_from A P pc [] c = Inr c"
| "exec_from A P pc (ins # rest) c =
     rbind (exec_instruction A P pc ins c) (exec_from A P (Suc pc) rest)"

definition initial_ctx :: "'df frame \<Rightarrow> ('df, 'e, 'n) ctx" where
  "initial_ctx df = \<lparr>edges = df, variables = [], stack = []\<rparr>"

text \<open>\<open>Context::call\<close>: the filter is applied first, then the code runs from the first instruction.\<close>

definition ctx_call :: "'n arith \<Rightarrow> ('df, 'e, 'n) polars \<Rightarrow> 'n instruction list \<Rightarrow> 'e option \<Rightarrow>
    ('df, 'e, 'n) ctx \<Rightarrow> vm_error + ('df, 'e, 'n) ctx" where
  "ctx_call A P code flt c =
     rbind (case flt of None \<Rightarrow> Inr c
            | Some e \<Rightarrow> rbind (apply_filter P e (edges c)) (\<lambda>df. Inr (c\<lparr>edges := df\<rparr>)))
       (exec_from A P 0 code)"

text \<open>\<open>Stack::pop_slice\<close>: the last result as a filter; with no instruction at all, every row.\<close>

fun pop_slice :: "'n arith \<Rightarrow> ('df, 'e, 'n) polars \<Rightarrow> 'df frame \<Rightarrow> ('e, 'n) variable \<Rightarrow> vm_error + 'e" where
  "pop_slice A P df (Slice s) = Inr s"
| "pop_slice A P df (Feature (Some b)) = try_into_lazy_slice (feature_into_polars P b) df"
| "pop_slice A P df (Feature None) = Inl UndefinedFeature"
| "pop_slice A P df (Number (Some n)) = try_into_lazy_slice (number_into_polars A P n) df"
| "pop_slice A P df (Number None) = Inl UndefinedNumber"

definition try_into_filter :: "'n arith \<Rightarrow> ('df, 'e, 'n) polars \<Rightarrow> ('df, 'e, 'n) ctx \<Rightarrow> vm_error + 'e" where
  "try_into_filter A P c =
     (if stack c = [] then frame_all P (edges c) else pop_slice A P (edges c) (last (stack c)))"

section \<open>The stack grows by one cell per instruction\<close>

lemma bind_name_stack: "bind_name A P nm v c = Inr (w, c') \<Longrightarrow> stack c' = stack c"
  by (auto simp: bind_name_def heap_insert_def split: option.splits variable.splits)

lemma exec_instruction_stack:
  "exec_instruction A P pc ins c = Inr c' \<Longrightarrow> \<exists>w. stack c' = stack c @ [w]"
  by (auto simp: exec_instruction_def dest: bind_name_stack)

lemma exec_from_stack:
  "exec_from A P pc code c = Inr c' \<Longrightarrow> \<exists>ws. stack c' = stack c @ ws \<and> length ws = length code"
proof (induction A P pc code c arbitrary: c' rule: exec_from.induct)
  case (1 A P pc c)
  then show ?case by simp
next
  case (2 A P pc ins rest c)
  from "2.prems" obtain c1 where c1: "exec_instruction A P pc ins c = Inr c1"
    and rest: "exec_from A P (Suc pc) rest c1 = Inr c'" by auto
  from "2.IH" [OF c1 rest] exec_instruction_stack [OF c1] show ?case by fastforce
qed

lemma exec_from_append:
  "exec_from A P pc (xs @ ys) c = rbind (exec_from A P pc xs c) (exec_from A P (pc + length xs) ys)"
  by (induction A P pc xs c rule: exec_from.induct)
    (auto simp: rbind_assoc intro!: rbind_cong)

end
