(* ===== verification/Lang_Correct.thy ===== *)
theory Lang_Correct imports Lang_Exec begin

text \<open>
  The compiler and the executor of the script language agree: compiled code never leaves the stack,
  what it computes is what the expressions mean, and a compiled filter selects what its condition
  says. The direct meaning of an expression (\<open>eval_expr\<close>) is the abstract specification.
\<close>

section \<open>Compiled code stays inside its stack\<close>

text \<open>The two failures that only a broken compiler could cause: the check of \<open>Stmt::Identity\<close> and
  the panic of \<open>Stack::get\<close>.\<close>

fun access_error :: "vm_error \<Rightarrow> bool" where
  "access_error (IllegalAccess pc index) = True"
| "access_error Panic = True"
| "access_error e = False"

definition access_safe :: "vm_error + 'a \<Rightarrow> bool" where
  "access_safe r \<longleftrightarrow> (\<forall>e. r = Inl e \<longrightarrow> \<not> access_error e)"

lemma access_safe_Inr [simp]: "access_safe (Inr x)"
  by (simp add: access_safe_def)

lemma access_safe_Inl [simp]: "access_safe (Inl e) \<longleftrightarrow> \<not> access_error e"
  by (simp add: access_safe_def)

lemma access_safe_rbind:
  "access_safe m \<Longrightarrow> (\<And>x. m = Inr x \<Longrightarrow> access_safe (f x)) \<Longrightarrow> access_safe (rbind m f)"
  by (cases m) auto

lemma access_safe_traverse: "(\<And>x. x \<in> set xs \<Longrightarrow> access_safe (f x)) \<Longrightarrow> access_safe (traverse f xs)"
  by (induction xs) (auto intro!: access_safe_rbind)

lemma access_safe_number_op [simp]: "access_safe (number_op A op a b)"
  by (cases op) (auto simp: number_op_def number_div_def)

lemma access_safe_unary [simp]: "access_safe (variable_unary A P op v)"
  by (cases "(A, P, op, v)" rule: variable_unary.cases) auto

lemma access_safe_binary [simp]: "access_safe (variable_binary A P op l r)"
proof -
  have "access_safe (variable_binary_features P op l r)"
    by (cases "(P, op, l, r)" rule: variable_binary_features.cases)
      (auto split: variable.split option.split)
  moreover have "access_safe (variable_binary_numbers A P op l r)"
    by (cases "(A, P, op, l, r)" rule: variable_binary_numbers.cases)
      (auto split: variable.split option.split intro!: access_safe_rbind)
  ultimately show ?thesis by (simp add: variable_binary_def)
qed

lemma access_safe_slices_pick [simp]: "access_safe (slices_pick A P f ss)"
proof -
  have "access_safe (fold_result (pick_step A P f) rest acc)" for rest acc
  proof (induction rest arbitrary: acc)
    case Nil
    then show ?case by simp
  next
    case (Cons a rest)
    have "access_safe (pick_step A P f a acc)" by (cases a; cases acc) (auto simp: Let_def)
    with Cons show ?case by (auto intro: access_safe_rbind)
  qed
  then show ?thesis by (auto simp: slices_pick_def split: list.split)
qed

lemma access_safe_function [simp]: "access_safe (variable_function A P op vs)"
proof (cases op)
  case (BuiltIn f)
  have "access_safe (slice_or_scalar_of v)" for v :: "('e, 'n) variable"
    by (cases v rule: slice_or_scalar_of.cases) auto
  with BuiltIn show ?thesis
    by (auto simp: variables_pick_def numbers_pick_def split: option.split
        intro!: access_safe_rbind access_safe_traverse)
qed simp

lemma access_safe_bind_name [simp]: "access_safe (bind_name A P nm v c)"
proof -
  have col: "access_safe (get_column P df key)" for df key
    by (simp add: get_column_def split: frame.split)
  have "access_safe (heap_get_unchecked P key c)" for key
    by (auto simp: heap_get_unchecked_def col split: option.split intro!: access_safe_rbind)
  then have get: "access_safe (heap_get_feature P key c)" "access_safe (heap_get_number P key c)" for key
    by (auto simp: heap_get_feature_def heap_get_number_def split: variable.split
        intro!: access_safe_rbind)
  have "access_safe (heap_insert A P key v c)" for key
    by (cases "(A, P, key, v, edges c)" rule: heap_write.cases)
      (auto simp: heap_insert_def insert_column_def fill_column_with_feature_def
        fill_column_with_value_def split: frame.split intro!: access_safe_rbind)
  with get show ?thesis
    by (auto simp: bind_name_def split: option.split variable.split intro!: access_safe_rbind)
qed

lemma fetch_below: "val_below (length st) v \<Longrightarrow> \<exists>x. fetch st v = Inr x"
  by (cases v) (auto simp: stack_get_def)

lemma access_safe_fetch [simp]: "val_below (length st) v \<Longrightarrow> access_safe (fetch st v)"
  using fetch_below [of st v] by auto

lemma access_safe_eval_stmt:
  assumes "stmt_below pc s" and "length st = pc"
  shows "access_safe (eval_stmt A P pc st s)"
  using assms
  by (cases s) (auto simp: stack_get_def list_all_iff intro!: access_safe_rbind access_safe_traverse)

lemma access_safe_exec_from:
  assumes "wf_code (pre @ code)" and "length (stack c) = length pre"
  shows "access_safe (exec_from A P (length pre) code c)"
  using assms
proof (induction code arbitrary: pre c)
  case Nil
  then show ?case by simp
next
  case (Cons ins code)
  from Cons.prems have ins: "stmt_below (length pre) (ins_stmt ins)"
    by (force simp: wf_code_def dest: spec [where x = "length pre"])
  then have now: "access_safe (exec_instruction A P (length pre) ins c)"
    using Cons.prems by (auto simp: exec_instruction_def intro!: access_safe_rbind access_safe_eval_stmt)
  have "access_safe (exec_from A P (Suc (length pre)) code c')"
    if "exec_instruction A P (length pre) ins c = Inr c'" for c'
    using Cons.IH [of "pre @ [ins]" c'] Cons.prems exec_instruction_stack [OF that] by auto
  with now show ?case by (auto intro: access_safe_rbind)
qed

lemma access_safe_ctx_call:
  "wf_code code \<Longrightarrow> access_safe (ctx_call A P code flt (initial_ctx df))"
  unfolding ctx_call_def
  by (intro access_safe_rbind, cases flt)
    (auto simp: apply_filter_def initial_ctx_def split: frame.splits option.splits
      intro!: access_safe_rbind access_safe_exec_from [of "[]", simplified])

text \<open>C5: code compiled from a script never trips the illegal-access check and never indexes the
  stack out of its bounds, whatever the frame, the filter and the third-party operations do: every
  run of it succeeds or stops with one of the reported errors of the script itself.\<close>

theorem compiled_script_never_panics:
  assumes "with_lazy_script A stmts = Inr m"
  shows "access_safe (ctx_call A P (dump_script m) flt (initial_ctx df))"
  using assms execute_script_props [of A stmts "default_vm\<lparr>use_placeholders := True\<rparr>" m]
  by (auto simp: with_lazy_script_def dump_script_def wf_vm_def [symmetric] intro: access_safe_ctx_call)

theorem compiled_script_never_panics_witness:
  "access_safe (ctx_call int_arith plan_polars
     (dump_script \<lparr>local_variables = [\<lparr>ins_name = Some ''a'', ins_stmt = DefineLocalValue (Some 3)\<rparr>],
        use_placeholders = True\<rparr>) None (initial_ctx (PolarsF Scan)))"
  by (rule compiled_script_never_panics
      [of int_arith "[Set ''a'' (EBinary (EIdentity (PNumber 1)) (EIdentity (PNumber 2)) Add)]"])
    (simp add: with_lazy_script_def execute_script_def default_vm_def value_binary_def is_feature_op_def
      value_binary_numbers_def number_op_def int_arith_def finish_expr_def register_instruction_def)

section \<open>What a run computes\<close>

text \<open>The direct meaning of an expression: names are looked up in \<open>env\<close>, operators are applied to
  the values of their operands.\<close>

fun eval_expr :: "'n arith \<Rightarrow> ('df, 'e, 'n) polars \<Rightarrow> (string \<Rightarrow> vm_error + ('e, 'n) variable) \<Rightarrow>
    'n expr \<Rightarrow> vm_error + ('e, 'n) variable"
  and eval_exprs :: "'n arith \<Rightarrow> ('df, 'e, 'n) polars \<Rightarrow> (string \<Rightarrow> vm_error + ('e, 'n) variable) \<Rightarrow>
    'n expr list \<Rightarrow> vm_error + ('e, 'n) variable list" where
  "eval_expr A P env (EIdentity (PNumber n)) = Inr (Number (Some n))"
| "eval_expr A P env (EIdentity (PVariable x)) = env x"
| "eval_expr A P env (EUnary e op) = rbind (eval_expr A P env e) (variable_unary A P op)"
| "eval_expr A P env (EBinary lhs rhs op) =
     rbind (eval_expr A P env lhs) (\<lambda>l. rbind (eval_expr A P env rhs) (variable_binary A P op l))"
| "eval_expr A P env (EFunction op args) = rbind (eval_exprs A P env args) (variable_function A P op)"
| "eval_exprs A P env [] = Inr []"
| "eval_exprs A P env (e # es) =
     rbind (eval_expr A P env e) (\<lambda>v. rbind (eval_exprs A P env es) (\<lambda>vs. Inr (v # vs)))"

text \<open>The value of a name in a finished run: the cell of the first instruction of that name.\<close>

definition env_of :: "'n instruction list \<Rightarrow> ('e, 'n) variable list \<Rightarrow> string \<Rightarrow> vm_error + ('e, 'n) variable" where
  "env_of code st x =
     (case find_named x 0 code of Some (i, ins) \<Rightarrow> stack_get st i | None \<Rightarrow> Inl (UndefinedLocal x))"

fun calls_ok :: "'n expr \<Rightarrow> bool" where
  "calls_ok (EIdentity pv) = True"
| "calls_ok (EUnary e op) = calls_ok e"
| "calls_ok (EBinary lhs rhs op) = (calls_ok lhs \<and> calls_ok rhs)"
| "calls_ok (EFunction op args) = (args \<noteq> [] \<and> list_all calls_ok args)"

text \<open>A hole is an instruction whose value is undefined and has no name to read it from the heap.\<close>

fun hole :: "'n instruction \<Rightarrow> bool" where
  "hole ins = (ins_name ins = None \<and> (ins_stmt ins = DefineLocalValue None \<or> ins_stmt ins = DefineLocalFeature None))"

definition no_holes :: "'n instruction list \<Rightarrow> bool" where
  "no_holes code \<longleftrightarrow> list_all (\<lambda>ins. \<not> hole ins) code"

fun defined_var :: "('e, 'n) variable \<Rightarrow> bool" where
  "defined_var (Slice s) = True"
| "defined_var (Feature b) = (b \<noteq> None)"
| "defined_var (Number n) = (n \<noteq> None)"

definition defined_ctx :: "('df, 'e, 'n) ctx \<Rightarrow> bool" where
  "defined_ctx c \<longleftrightarrow> list_all defined_var (stack c) \<and> (\<forall>(k, v) \<in> set (variables c). defined_var v) \<and> bt_wf (variables c)"

lemma variable_unary_defined: "variable_unary A P op v = Inr w \<Longrightarrow> defined_var w"
  by (cases "(A, P, op, v)" rule: variable_unary.cases) auto

lemma variable_binary_defined: "variable_binary A P op l r = Inr w \<Longrightarrow> defined_var w"
proof -
  have "defined_var (variable_of_scalar s :: ('e, 'n) variable)" for s :: "'n scalar"
    by (cases s) auto
  then have "variable_binary_numbers A P op l r = Inr w \<Longrightarrow> defined_var w"
    by (cases "(A, P, op, l, r)" rule: variable_binary_numbers.cases; cases r)
      (auto split: option.splits)
  moreover have "variable_binary_features P op l r = Inr w \<Longrightarrow> defined_var w"
    by (cases "(P, op, l, r)" rule: variable_binary_features.cases; cases r)
      (auto split: option.splits)
  ultimately show "variable_binary A P op l r = Inr w \<Longrightarrow> defined_var w"
    by (auto simp: variable_binary_def split: if_splits)
qed

lemma variable_function_defined: "variable_function A P op vs = Inr w \<Longrightarrow> defined_var w"
proof -
  have "defined_var (variable_of_slice_or_scalar s :: ('e, 'n) variable)" for s :: "('e, 'n) slice_or_scalar"
    by (cases s) auto
  then show "variable_function A P op vs = Inr w \<Longrightarrow> defined_var w"
    by (cases op) (auto simp: variables_pick_def split: if_splits)
qed

lemma fetch_defined: "list_all defined_var st \<Longrightarrow> fetch st v = Inr w \<Longrightarrow> defined_var w"
  by (cases v) (auto simp: stack_get_def list_all_length split: if_splits)

lemma eval_stmt_defined:
  "eval_stmt A P pc st s = Inr w \<Longrightarrow> list_all defined_var st \<Longrightarrow>
     s \<noteq> DefineLocalValue None \<Longrightarrow> s \<noteq> DefineLocalFeature None \<Longrightarrow> defined_var w"
  by (cases s) (auto simp: stack_get_def list_all_length split: if_splits
      dest: variable_unary_defined variable_binary_defined variable_function_defined)

lemma heap_get_defined:
  assumes "defined_ctx c"
  shows "heap_get_feature P k c = Inr w \<Longrightarrow> defined_var w" and "heap_get_number P k c = Inr w \<Longrightarrow> defined_var w"
proof -
  have "heap_get_unchecked P k c = Inr w \<Longrightarrow> defined_var w" for w
    using assms
    by (force simp: heap_get_unchecked_def defined_ctx_def bt_lookup_Some_iff split: option.splits)
  moreover have "heap_get_unchecked P k c = Inr w" if "heap_get_feature P k c = Inr w \<or> heap_get_number P k c = Inr w"
    using that unfolding heap_get_feature_def heap_get_number_def rbind_eq_Inr
    by (elim disjE exE conjE; rename_tac v; case_tac v; simp)
  ultimately show "heap_get_feature P k c = Inr w \<Longrightarrow> defined_var w" "heap_get_number P k c = Inr w \<Longrightarrow> defined_var w"
    by blast+
qed

lemma heap_write_defined: "heap_write A P key v df = Inr df' \<Longrightarrow> defined_var v"
  by (cases "(A, P, key, v, df)" rule: heap_write.cases) auto

lemma bind_name_defined:
  assumes "bind_name A P nm v c = Inr (w, c')" and "defined_ctx c" and "nm = None \<Longrightarrow> defined_var v"
  shows "defined_var w \<and> defined_ctx c'"
proof (cases nm)
  case None
  with assms show ?thesis by (auto simp: bind_name_def)
next
  case (Some name)
  consider "v = Feature None" | "v = Number None" | "defined_var v"
    by (cases v rule: defined_var.cases) auto
  then show ?thesis
  proof cases
    case 3
    with assms Some have "heap_insert A P name v c = Inr c'" "w = v"
      by (auto simp: bind_name_def split: variable.splits option.splits)
    with 3 assms(2) show ?thesis
      by (auto simp: heap_insert_def defined_ctx_def set_bt_insert)
  qed (use assms Some in \<open>auto simp: bind_name_def dest: heap_get_defined\<close>)
qed

lemma exec_instruction_defined:
  assumes "exec_instruction A P pc ins c = Inr c'" and "defined_ctx c" and "\<not> hole ins"
  shows "defined_ctx c'"
proof -
  from assms(1) obtain v w c1 where v: "eval_stmt A P pc (stack c) (ins_stmt ins) = Inr v"
    and b: "bind_name A P (ins_name ins) v c = Inr (w, c1)" and c': "c' = c1\<lparr>stack := stack c1 @ [w]\<rparr>"
    by (auto simp: exec_instruction_def)
  have "ins_name ins = None \<Longrightarrow> defined_var v"
    using eval_stmt_defined [OF v] assms(2,3) by (auto simp: defined_ctx_def)
  from bind_name_defined [OF b assms(2) this] c' show ?thesis by (auto simp: defined_ctx_def)
qed

text \<open>Every cell of a finished run is the result of its own instruction on the cells before it.\<close>

lemma exec_from_cells:
  assumes "exec_from A P pc code c = Inr c'" and "length (stack c) = pc"
    and "defined_ctx c" and "no_holes code"
  shows "defined_ctx c' \<and> (\<forall>k < length code. \<exists>d d'. defined_ctx d \<and> stack d = take (pc + k) (stack c') \<and>
    exec_instruction A P (pc + k) (code ! k) d = Inr d' \<and> stack d' = take (Suc (pc + k)) (stack c'))"
  using assms
proof (induction A P pc code c rule: exec_from.induct)
  case (1 A P pc c)
  then show ?case by simp
next
  case (2 A P pc ins rest c)
  from "2.prems" obtain c1 where c1: "exec_instruction A P pc ins c = Inr c1"
    and rest: "exec_from A P (Suc pc) rest c1 = Inr c'" and holes: "\<not> hole ins" "no_holes rest"
    by (auto simp: no_holes_def)
  from exec_instruction_stack [OF c1] obtain w where w: "stack c1 = stack c @ [w]" by blast
  note c1_def = exec_instruction_defined [OF c1 "2.prems"(3) holes(1)]
  from "2.IH" [OF c1 rest _ c1_def holes(2)] w "2.prems"(2)
  have IH: "defined_ctx c'" "\<forall>k < length rest. \<exists>d d'. defined_ctx d \<and> stack d = take (Suc pc + k) (stack c') \<and>
      exec_instruction A P (Suc pc + k) (rest ! k) d = Inr d' \<and> stack d' = take (Suc (Suc pc + k)) (stack c')"
    by simp_all
  from exec_from_stack [OF rest] w "2.prems"(2) obtain ws where ws: "stack c' = stack c @ w # ws" by auto
  have "\<exists>d d'. defined_ctx d \<and> stack d = take (pc + k) (stack c') \<and>
      exec_instruction A P (pc + k) ((ins # rest) ! k) d = Inr d' \<and> stack d' = take (Suc (pc + k)) (stack c')"
    if k: "k < length (ins # rest)" for k
  proof (cases k)
    case 0
    with c1 w ws "2.prems"(2,3) show ?thesis by (intro exI [of _ c] exI [of _ c1]) simp
  next
    case (Suc j)
    with IH(2) k show ?thesis by simp
  qed
  with IH(1) show ?case by blast
qed

lemma fetch_take: "val_below i v \<Longrightarrow> i \<le> length st \<Longrightarrow> fetch (take i st) v = fetch st v"
  by (cases v) (auto simp: stack_get_def)

lemma eval_stmt_take:
  assumes "stmt_below i s" and "i \<le> length st"
  shows "eval_stmt A P i (take i st) s = eval_stmt A P (length st) st s"
proof (cases s)
  case (FunctionExpr op args)
  with assms have "traverse (fetch (take i st)) args = traverse (fetch st) args"
    by (induction args arbitrary: s) (auto simp: fetch_take)
  with FunctionExpr show ?thesis by simp
qed (use assms in \<open>auto simp: fetch_take stack_get_def\<close>)

text \<open>A finished run of well-formed code without holes, from an empty stack.\<close>

definition finished :: "'n arith \<Rightarrow> ('df, 'e, 'n) polars \<Rightarrow> 'n instruction list \<Rightarrow> ('e, 'n) variable list \<Rightarrow> bool" where
  "finished A P code st \<longleftrightarrow> length st = length code \<and> list_all defined_var st \<and>
     (\<forall>i < length code.
        (ins_name (code ! i) = None \<longrightarrow> eval_stmt A P (length st) st (ins_stmt (code ! i)) = Inr (st ! i)) \<and>
        (\<forall>v. ins_name (code ! i) \<noteq> None \<longrightarrow> to_value (ins_stmt (code ! i)) = Some v \<longrightarrow> fetch st v = Inr (st ! i)))"

lemma to_value_eval_stmt:
  "to_value s = Some v \<Longrightarrow> stmt_below n s \<Longrightarrow> length st = n \<Longrightarrow> eval_stmt A P n st s = fetch st v"
  by (cases s rule: to_value.cases) auto

lemma bind_name_keeps:
  "bind_name A P nm v c = Inr (w, c') \<Longrightarrow> nm = None \<or> defined_var v \<Longrightarrow> w = v"
  by (cases v) (auto simp: bind_name_def split: option.splits)

lemma exec_from_finished:
  assumes "exec_from A P 0 code c = Inr c'" and "stack c = []" and "defined_ctx c"
    and "no_holes code" and "wf_code code"
  shows "finished A P code (stack c')"
proof -
  let ?S = "stack c'"
  from exec_from_stack [OF assms(1)] assms(2) have len: "length ?S = length code" by auto
  note cells = exec_from_cells [OF assms(1) _ assms(3,4)]
  have "(ins_name (code ! i) = None \<longrightarrow> eval_stmt A P (length ?S) ?S (ins_stmt (code ! i)) = Inr (?S ! i)) \<and>
      (\<forall>v. ins_name (code ! i) \<noteq> None \<longrightarrow> to_value (ins_stmt (code ! i)) = Some v \<longrightarrow> fetch ?S v = Inr (?S ! i))"
    if i: "i < length code" for i
  proof -
    from assms(5) i have below: "stmt_below i (ins_stmt (code ! i))" by (simp add: wf_code_def)
    from cells assms(2) i obtain d d' where d: "defined_ctx d" "stack d = take i ?S"
      and run: "exec_instruction A P i (code ! i) d = Inr d'" and d': "stack d' = take (Suc i) ?S"
      by fastforce
    from run obtain v w d1 where v: "eval_stmt A P i (stack d) (ins_stmt (code ! i)) = Inr v"
      and b: "bind_name A P (ins_name (code ! i)) v d = Inr (w, d1)" and d'_eq: "d' = d1\<lparr>stack := stack d1 @ [w]\<rparr>"
      by (auto simp: exec_instruction_def)
    from bind_name_stack [OF b] d d' d'_eq i len have w: "w = ?S ! i"
      by (simp add: take_Suc_conv_app_nth)
    have v': "eval_stmt A P (length ?S) ?S (ins_stmt (code ! i)) = Inr v"
      using v d(2) below i len by (simp add: eval_stmt_take)
    have "fetch ?S x = Inr w" if nm: "ins_name (code ! i) \<noteq> None" and x: "to_value (ins_stmt (code ! i)) = Some x" for x
    proof -
      have "defined_var v" using v x d
        by (intro eval_stmt_defined [OF v]) (auto simp: defined_ctx_def)
      with bind_name_keeps [OF b] have "w = v" by simp
      moreover have "fetch (stack d) x = Inr v"
        using to_value_eval_stmt [OF x below, of "stack d" A P] v d(2) i len by simp
      ultimately show ?thesis
        using d(2) to_value_below [OF x below] i len by (simp add: fetch_take)
    qed
    with bind_name_keeps [OF b] v' w show ?thesis by auto
  qed
  with len cells assms(2) show ?thesis by (auto simp: finished_def defined_ctx_def)
qed

section \<open>The compiler is correct\<close>

lemma value_unary_eval:
  "value_unary A op v = Inr s \<Longrightarrow> eval_stmt A P n st s = rbind (fetch st v) (variable_unary A P op)"
  by (cases op; cases v) (auto simp: value_unary_def)

lemma value_binary_eval:
  assumes "value_binary A op l r = Inr s" and "val_below (length st) l" and "val_below (length st) r"
  shows "eval_stmt A P n st s = rbind (fetch st l) (\<lambda>x. rbind (fetch st r) (variable_binary A P op x))"
proof -
  have scalar: "eval_stmt A P n st (stmt_of_scalar c) = Inr (variable_of_scalar c)" for c
    by (cases c) auto
  show ?thesis
    using assms scalar
    by (cases l; cases r) (auto simp: value_binary_def value_binary_features_def value_binary_numbers_def
        variable_binary_def split: if_splits)
qed

lemma some_numbers [simp]:
  "list_all is_some_number (map (\<lambda>n. Number (Some n)) ns)"
  "List.map_filter some_number (map (\<lambda>n. Number (Some n)) ns) = ns"
  by (induction ns) simp_all

lemma values_pick_eval:
  assumes "vs \<noteq> []"
  shows "eval_stmt A P n st (values_pick A f vs) = rbind (traverse (fetch st) vs) (variable_function A P (BuiltIn f))"
proof (cases "list_all is_number vs")
  case True
  have "traverse (fetch st) vs = Inr (map (\<lambda>n. Number (Some n)) (List.map_filter to_number_opt vs)) \<and>
      length (List.map_filter to_number_opt vs) = length vs"
    using True
  proof (induction vs)
    case (Cons v vs)
    then show ?case by (cases v) auto
  qed simp
  moreover have "iter_pick A f (List.map_filter to_number_opt vs) = Some x \<Longrightarrow>
      eval_stmt A P n st (values_pick A f vs) = Inr (Number (Some x))" for x
    using True by (simp add: values_pick_def)
  ultimately show ?thesis
    using assms by (cases "List.map_filter to_number_opt vs") (auto simp: variables_pick_def numbers_pick_def)
next
  case False
  then show ?thesis by (simp add: values_pick_def)
qed

lemma values_pick_no_hole: "vs \<noteq> [] \<Longrightarrow> values_pick A f vs \<noteq> DefineLocalValue None"
proof -
  assume "vs \<noteq> []"
  moreover have "list_all is_number vs \<Longrightarrow> length (List.map_filter to_number_opt vs) = length vs"
    by (induction vs; simp; rename_tac v vs; case_tac v; simp)
  ultimately show ?thesis
    by (cases "List.map_filter to_number_opt vs") (auto simp: values_pick_def)
qed

lemma finish_expr_eval:
  assumes "finish_expr s m = (v, m')" and "finished A P (local_variables m' @ rest) st"
    and "stmt_below (length (local_variables m)) s"
  shows "fetch st v = eval_stmt A P (length st) st s"
proof (cases "to_value s")
  case None
  with assms(1) have m': "local_variables m' = local_variables m @ [\<lparr>ins_name = None, ins_stmt = s\<rparr>]"
    and v: "v = VVariable (length (local_variables m))"
    by (auto simp: finish_expr_def register_instruction_def)
  from assms(2) have "eval_stmt A P (length st) st s = Inr (st ! length (local_variables m))"
    and "length (local_variables m) < length st"
    by (force simp: finished_def m' nth_append dest!: spec [where x = "length (local_variables m)"])+
  with v show ?thesis by (simp add: stack_get_def)
next
  case (Some w)
  with assms(1) have "v = w" "m' = m" by (simp_all add: finish_expr_def)
  moreover from assms(2) \<open>m' = m\<close> have "length (local_variables m) \<le> length st" by (simp add: finished_def)
  moreover from this assms(3) have "stmt_below (length st) s"
    by (cases s) (auto simp: list_all_iff intro: val_below_mono)
  ultimately show ?thesis by (simp add: to_value_eval_stmt [OF Some])
qed

lemma finish_expr_no_holes:
  "finish_expr s m = (v, m') \<Longrightarrow> s \<noteq> DefineLocalValue None \<Longrightarrow> s \<noteq> DefineLocalFeature None \<Longrightarrow>
     no_holes (local_variables m') = no_holes (local_variables m)"
  by (auto simp: finish_expr_def register_instruction_def no_holes_def split: option.splits)

lemma get_local_value_eval:
  assumes "get_local_value pv m = Inr (v, m')" and "finished A P (local_variables m' @ rest) st"
  shows "fetch st v = eval_expr A P (env_of (local_variables m' @ rest) st) (EIdentity pv)"
proof (cases pv)
  case (PNumber n)
  with assms show ?thesis by auto
next
  case (PVariable x)
  show ?thesis
  proof (cases "find_named x 0 (local_variables m)")
    case None
    with assms(1) PVariable have "local_variables m' = local_variables m @
        [\<lparr>ins_name = Some x, ins_stmt = DefineLocalValue None\<rparr>]" "v = VVariable (length (local_variables m))"
      by (auto simp: get_local_value_by_name_def try_register_value_def register_value_def
          register_instruction_def split: if_splits)
    with None PVariable show ?thesis by (simp add: env_of_def find_named_append)
  next
    case (Some r)
    obtain j ins where r: "r = (j, ins)" by fastforce
    from assms(1) PVariable Some r have m': "m' = m"
      and v: "v = (case to_value (ins_stmt ins) of Some v \<Rightarrow> v | None \<Rightarrow> VVariable j)"
      by (auto simp: get_local_value_by_name_def)
    from find_named_Some [OF Some [unfolded r]] have j: "j < length (local_variables m)"
      "local_variables m ! j = ins" "ins_name ins \<noteq> None" by auto
    have "fetch st v = stack_get st j"
    proof (cases "to_value (ins_stmt ins)")
      case None
      with v show ?thesis by simp
    next
      case (Some w)
      with assms(2) j m' have "fetch st w = Inr (st ! j)" "j < length st"
        by (auto simp: finished_def nth_append dest!: spec [where x = j])
      with v Some show ?thesis by (simp add: stack_get_def)
    qed
    with Some r m' PVariable show ?thesis by (simp add: env_of_def find_named_append)
  qed
qed

lemma get_local_value_no_holes:
  "get_local_value pv m = Inr (v, m') \<Longrightarrow> no_holes (local_variables m') = no_holes (local_variables m)"
  by (cases pv) (auto simp: get_local_value_by_name_def try_register_value_def register_value_def
      register_instruction_def no_holes_def split: option.splits if_splits)

lemma extends_code:
  "extends m m' \<Longrightarrow> \<exists>new. local_variables m' @ rest = local_variables m @ new @ rest"
  by (auto simp: extends_def)

lemma finish_expr_code:
  "finish_expr s m = (v, m') \<Longrightarrow> \<exists>new. local_variables m' = local_variables m @ new"
  using finish_expr_props(1) by (fastforce simp: extends_def)

lemma value_unary_no_hole: "value_unary A op v = Inr s \<Longrightarrow> s \<noteq> DefineLocalValue None \<and> s \<noteq> DefineLocalFeature None"
  by (cases op; cases v) (auto simp: value_unary_def)

lemma value_binary_no_hole: "value_binary A op l r = Inr s \<Longrightarrow> s \<noteq> DefineLocalValue None \<and> s \<noteq> DefineLocalFeature None"
proof -
  have "stmt_of_scalar c \<noteq> DefineLocalValue None \<and> stmt_of_scalar c \<noteq> DefineLocalFeature None" for c :: "'n scalar"
    by (cases c) auto
  then show "value_binary A op l r = Inr s \<Longrightarrow> s \<noteq> DefineLocalValue None \<and> s \<noteq> DefineLocalFeature None"
    by (cases l; cases r)
      (auto simp: value_binary_def value_binary_features_def value_binary_numbers_def split: if_splits)
qed

lemma execute_expr_no_holes:
  shows "execute_expr A e m = Inr (v, m') \<Longrightarrow> calls_ok e \<Longrightarrow>
      no_holes (local_variables m') = no_holes (local_variables m)"
    and "execute_exprs A es m = Inr (vs, m') \<Longrightarrow> list_all calls_ok es \<Longrightarrow>
      no_holes (local_variables m') = no_holes (local_variables m) \<and> length vs = length es"
proof (induction A e m and A es m arbitrary: v m' and vs m' rule: execute_expr_execute_exprs.induct)
  case (1 A pv m)
  then show ?case by (simp add: get_local_value_no_holes)
next
  case (2 A e op m)
  then show ?case by (auto dest!: finish_expr_no_holes dest: value_unary_no_hole)
next
  case (3 A lhs rhs op m)
  from "3.prems"(1) obtain l m1 r m2 s where l: "execute_expr A lhs m = Inr (l, m1)"
    and r: "execute_expr A rhs m1 = Inr (r, m2)" and s: "value_binary A op l r = Inr s"
    and fin: "finish_expr s m2 = (v, m')" by auto
  from "3.IH"(1) [OF l] "3.IH"(2) [OF l refl r] "3.prems"(2) finish_expr_no_holes [OF fin] value_binary_no_hole [OF s]
  show ?case by simp
next
  case (4 A op args m)
  from "4.prems" obtain f vs m1 where op: "op = BuiltIn f" and vs: "execute_exprs A args m = Inr (vs, m1)"
    and fin: "finish_expr (values_pick A f vs) m1 = (v, m')" by (cases op) auto
  from "4.IH" [OF vs] "4.prems" have IH: "no_holes (local_variables m1) = no_holes (local_variables m)" "vs \<noteq> []"
    by auto
  have "values_pick A f vs \<noteq> DefineLocalFeature None" by (simp add: values_pick_def)
  with finish_expr_no_holes [OF fin values_pick_no_hole [OF IH(2)]] IH(1) show ?case by simp
qed auto

text \<open>The value that stands for an expression is fetched from a finished run as what the expression
  means there: folding constants at compile time changes nothing.\<close>

lemma execute_expr_eval:
  shows "execute_expr A e m = Inr (v, m') \<Longrightarrow> finished A P code st \<Longrightarrow> calls_ok e \<Longrightarrow> wf_vm m \<Longrightarrow>
      code = local_variables m' @ rest \<Longrightarrow> fetch st v = eval_expr A P (env_of code st) e"
    and "execute_exprs A es m = Inr (vs, m') \<Longrightarrow> finished A P code st \<Longrightarrow> list_all calls_ok es \<Longrightarrow> wf_vm m \<Longrightarrow>
      code = local_variables m' @ rest \<Longrightarrow> traverse (fetch st) vs = eval_exprs A P (env_of code st) es"
proof (induction A e m and A es m arbitrary: v m' rest and vs m' rest rule: execute_expr_execute_exprs.induct)
  case (1 A pv m)
  then show ?case by (simp only: execute_expr.simps get_local_value_eval)
next
  case (2 A e op m)
  from "2.prems"(1) obtain w m1 s where w: "execute_expr A e m = Inr (w, m1)"
    and s: "value_unary A op w = Inr s" and fin: "finish_expr s m1 = (v, m')" by auto
  from finish_expr_code [OF fin] "2.prems"(5) obtain rest1 where code: "code = local_variables m1 @ rest1" by auto
  from execute_expr_props(1) [OF w] "2.prems"(4) have m1: "wf_vm m1" "val_ok m1 w" by auto
  have "stmt_below (length (local_variables m1)) s"
    using value_unary_below [OF s] m1 by (simp add: val_ok_def)
  from finish_expr_eval [OF fin _ this] "2.prems"(2,5) have "fetch st v = eval_stmt A P (length st) st s" by simp
  also have "\<dots> = rbind (fetch st w) (variable_unary A P op)" using value_unary_eval [OF s] .
  finally show ?case using "2.IH" [OF w "2.prems"(2) _ "2.prems"(4) code] "2.prems"(3) by simp
next
  case (3 A lhs rhs op m)
  from "3.prems"(1) obtain l m1 r m2 s where l: "execute_expr A lhs m = Inr (l, m1)"
    and r: "execute_expr A rhs m1 = Inr (r, m2)" and s: "value_binary A op l r = Inr s"
    and fin: "finish_expr s m2 = (v, m')" by auto
  from execute_expr_props(1) [OF l] "3.prems"(4) have m1: "wf_vm m1" "val_ok m1 l" by auto
  from execute_expr_props(1) [OF r] m1 have m2: "wf_vm m2" "val_ok m2 r" "extends m1 m2" by auto
  from finish_expr_code [OF fin] "3.prems"(5) obtain rest2 where code2: "code = local_variables m2 @ rest2" by auto
  with m2(3) obtain rest1 where code1: "code = local_variables m1 @ rest1" by (auto simp: extends_def)
  have l2: "val_ok m2 l" using m1(2) m2(3) by (rule val_ok_extends)
  have "length (local_variables m2) \<le> length st" using "3.prems"(2) code2 by (simp add: finished_def)
  with l2 m2(2) have below: "val_below (length st) l" "val_below (length st) r"
    by (auto simp: val_ok_def intro: val_below_mono)
  have "stmt_below (length (local_variables m2)) s"
    using value_binary_below [OF s] l2 m2(2) by (simp add: val_ok_def)
  from finish_expr_eval [OF fin _ this] "3.prems"(2,5) have "fetch st v = eval_stmt A P (length st) st s" by simp
  also have "\<dots> = rbind (fetch st l) (\<lambda>x. rbind (fetch st r) (variable_binary A P op x))"
    using value_binary_eval [OF s below] .
  finally show ?case
    using "3.IH"(1) [OF l "3.prems"(2) _ "3.prems"(4) code1] "3.prems"(3)
      "3.IH"(2) [OF l refl r "3.prems"(2) _ m1(1) code2] by simp
next
  case (4 A op args m)
  from "4.prems"(1) obtain f vs m1 where op: "op = BuiltIn f" and vs: "execute_exprs A args m = Inr (vs, m1)"
    and fin: "finish_expr (values_pick A f vs) m1 = (v, m')" by (cases op) auto
  from finish_expr_code [OF fin] "4.prems"(5) obtain rest1 where code: "code = local_variables m1 @ rest1" by auto
  from execute_expr_props(2) [OF vs] "4.prems"(4) have "list_all (val_ok m1) vs" by auto
  then have "stmt_below (length (local_variables m1)) (values_pick A f vs)"
    by (intro values_pick_below) (simp add: val_ok_def [abs_def])
  from finish_expr_eval [OF fin _ this] "4.prems"(2,5)
  have "fetch st v = eval_stmt A P (length st) st (values_pick A f vs)" by simp
  also have "\<dots> = rbind (traverse (fetch st) vs) (variable_function A P op)"
    unfolding op by (rule values_pick_eval) (use execute_expr_no_holes(2) [OF vs] "4.prems"(3) in auto)
  finally show ?case using "4.IH" [OF vs "4.prems"(2) _ "4.prems"(4) code] "4.prems"(3) by simp
next
  case (5 A m)
  then show ?case by simp
next
  case (6 A e es m)
  from "6.prems"(1) obtain v m1 ws where v: "execute_expr A e m = Inr (v, m1)"
    and ws: "execute_exprs A es m1 = Inr (ws, m')" and vs: "vs = v # ws" by auto
  from execute_expr_props(1) [OF v] "6.prems"(4) have m1: "wf_vm m1" by auto
  from execute_expr_props(2) [OF ws] "6.prems"(5) obtain rest1 where code: "code = local_variables m1 @ rest1"
    by (auto simp: extends_def)
  show ?case
    using "6.IH"(1) [OF v "6.prems"(2) _ "6.prems"(4) code] "6.prems"(3)
      "6.IH"(2) [OF v refl ws "6.prems"(2) _ m1 "6.prems"(5)] vs by simp
qed

section \<open>The equations of a script\<close>

fun expr_vars :: "'n expr \<Rightarrow> string set" where
  "expr_vars (EIdentity (PNumber n)) = {}"
| "expr_vars (EIdentity (PVariable x)) = {x}"
| "expr_vars (EUnary e op) = expr_vars e"
| "expr_vars (EBinary lhs rhs op) = expr_vars lhs \<union> expr_vars rhs"
| "expr_vars (EFunction op args) = (\<Union>e \<in> set args. expr_vars e)"

fun stmt_vars :: "'n pstmt \<Rightarrow> string set" where
  "stmt_vars (Set x e) = insert x (expr_vars e)"

fun stmt_calls_ok :: "'n pstmt \<Rightarrow> bool" where
  "stmt_calls_ok (Set x e) = calls_ok e"

fun single_assignment :: "string set \<Rightarrow> 'n pstmt list \<Rightarrow> bool" where
  "single_assignment used [] = True"
| "single_assignment used (Set x e # rest) =
     (x \<notin> used \<union> expr_vars e \<and> single_assignment (used \<union> stmt_vars (Set x e)) rest)"

definition code_names :: "'n instruction list \<Rightarrow> string set" where
  "code_names code = {x. \<exists>ins \<in> set code. ins_name ins = Some x}"

lemma code_names_simps [simp]:
  "code_names [] = {}" "code_names (xs @ ys) = code_names xs \<union> code_names ys"
  "code_names [\<lparr>ins_name = None, ins_stmt = s\<rparr>] = {}"
  "code_names [\<lparr>ins_name = Some x, ins_stmt = s\<rparr>] = {x}"
  by (auto simp: code_names_def)

lemma find_named_None: "find_named x i code = None \<longleftrightarrow> x \<notin> code_names code"
  by (induction x i code rule: find_named.induct) (auto simp: code_names_def)

lemma finish_expr_names: "finish_expr s m = (v, m') \<Longrightarrow> code_names (local_variables m') = code_names (local_variables m)"
  by (auto simp: finish_expr_def register_instruction_def split: option.splits)

lemma get_local_value_names:
  "get_local_value pv m = Inr (v, m') \<Longrightarrow>
     code_names (local_variables m') \<subseteq> code_names (local_variables m) \<union> expr_vars (EIdentity pv)"
  by (cases pv) (auto simp: get_local_value_by_name_def try_register_value_def register_value_def
      register_instruction_def split: option.splits if_splits)

lemma execute_expr_names:
  shows "execute_expr A e m = Inr (v, m') \<Longrightarrow>
      code_names (local_variables m') \<subseteq> code_names (local_variables m) \<union> expr_vars e"
    and "execute_exprs A es m = Inr (vs, m') \<Longrightarrow>
      code_names (local_variables m') \<subseteq> code_names (local_variables m) \<union> (\<Union>e \<in> set es. expr_vars e)"
proof (induction A e m and A es m arbitrary: v m' and vs m' rule: execute_expr_execute_exprs.induct)
  case (1 A pv m)
  then show ?case by (simp only: execute_expr.simps get_local_value_names)
next
  case (4 A op args m)
  then show ?case by (cases op) (fastforce dest!: finish_expr_names)+
qed (fastforce dest!: finish_expr_names)+

lemma execute_stmt_names:
  "execute_stmt A s m = Inr m' \<Longrightarrow> code_names (local_variables m') \<subseteq> code_names (local_variables m) \<union> stmt_vars s"
  by (cases s) (auto simp: register_instruction_def dest!: execute_expr_names(1))

lemma execute_script_names:
  "execute_script A ss m = Inr m' \<Longrightarrow>
     code_names (local_variables m') \<subseteq> code_names (local_variables m) \<union> (\<Union>s \<in> set ss. stmt_vars s)"
  unfolding execute_script_def
proof (induction ss arbitrary: m)
  case (Cons s ss)
  then obtain m1 where m1: "execute_stmt A s m = Inr m1" and "fold_result (execute_stmt A) ss m1 = Inr m'" by auto
  from Cons.IH [OF this(2)] execute_stmt_names [OF m1] show ?case by auto
qed simp

lemma execute_script_no_holes:
  "execute_script A ss m = Inr m' \<Longrightarrow> list_all stmt_calls_ok ss \<Longrightarrow> no_holes (local_variables m) \<Longrightarrow>
     no_holes (local_variables m')"
  unfolding execute_script_def
proof (induction ss arbitrary: m)
  case (Cons s ss)
  then obtain m1 where m1: "execute_stmt A s m = Inr m1" and rest: "fold_result (execute_stmt A) ss m1 = Inr m'" by auto
  have "no_holes (local_variables m1)"
    using m1 Cons.prems by (cases s)
      (auto simp: register_instruction_def no_holes_def dest: execute_expr_no_holes(1))
  with Cons.IH [OF rest] Cons.prems show ?case by simp
qed simp

text \<open>A name that is new where it is assigned satisfies the equation of its assignment.\<close>

lemma script_equation:
  assumes "execute_script A (pre @ Set x e # post) m = Inr m'" and "wf_vm m" and "calls_ok e"
    and "x \<notin> code_names (local_variables m)" and "x \<notin> (\<Union>s \<in> set pre. stmt_vars s)" and "x \<notin> expr_vars e"
    and "finished A P (local_variables m') st"
  shows "env_of (local_variables m') st x = eval_expr A P (env_of (local_variables m') st) e"
proof -
  from assms(1) obtain m1 v m2 m3 where m1: "execute_script A pre m = Inr m1"
    and v: "execute_expr A e m1 = Inr (v, m2)"
    and m3: "m3 = snd (register_instruction \<lparr>ins_name = Some x, ins_stmt = stmt_of_val v\<rparr> m2)"
    and post: "execute_script A post m3 = Inr m'"
    by (auto simp: execute_script_def fold_result_append)
  from execute_script_props [OF m1] assms(2) have wf1: "wf_vm m1" by simp
  from execute_script_props [OF post] obtain new where m': "local_variables m' = local_variables m3 @ new"
    by (auto simp: extends_def)
  with m3 have code: "local_variables m' = local_variables m2 @
      \<lparr>ins_name = Some x, ins_stmt = stmt_of_val v\<rparr> # new" by (simp add: register_instruction_def)
  have "x \<notin> code_names (local_variables m2)"
    using execute_script_names [OF m1] execute_expr_names(1) [OF v] assms(4-6) by auto
  then have "find_named x 0 (local_variables m2) = None" by (simp add: find_named_None)
  then have "env_of (local_variables m') st x = stack_get st (length (local_variables m2))"
    by (simp add: env_of_def code find_named_append)
  also have "\<dots> = fetch st v"
    using assms(7) unfolding finished_def
    by (auto simp: code stack_get_def nth_append dest!: spec [where x = "length (local_variables m2)"])
  also have "\<dots> = eval_expr A P (env_of (local_variables m') st) e"
    using execute_expr_eval(1) [OF v assms(7,3) wf1 code] .
  finally show ?thesis .
qed

lemma single_assignment_split:
  "single_assignment used ss \<Longrightarrow> Set x e \<in> set ss \<Longrightarrow>
     \<exists>pre post. ss = pre @ Set x e # post \<and> x \<notin> used \<and> x \<notin> (\<Union>s \<in> set pre. stmt_vars s) \<and> x \<notin> expr_vars e"
proof (induction used ss rule: single_assignment.induct)
  case (2 used y f rest)
  show ?case
  proof (cases "Set x e = Set y f")
    case True
    with "2.prems"(1) show ?thesis by (intro exI [of _ "[]"] exI [of _ rest]) simp
  next
    case False
    with "2.prems" have "Set x e \<in> set rest" by auto
    with "2.IH" "2.prems"(1) obtain pre post where "rest = pre @ Set x e # post"
      "x \<notin> used \<union> stmt_vars (Set y f)" "x \<notin> (\<Union>s \<in> set pre. stmt_vars s)" "x \<notin> expr_vars e"
      by (auto simp del: stmt_vars.simps)
    then show ?thesis by (intro exI [of _ "Set y f # pre"] exI [of _ post]) auto
  qed
qed simp

lemma ctx_call_finished:
  assumes "ctx_call A P code flt (initial_ctx df) = Inr c" and "no_holes code" and "wf_code code"
  shows "finished A P code (stack c)"
proof -
  from assms(1) obtain c0 where "exec_from A P 0 code c0 = Inr c" "stack c0 = []" "defined_ctx c0"
    by (auto simp: ctx_call_def initial_ctx_def defined_ctx_def split: option.splits)
  with assms(2,3) show ?thesis by (blast intro: exec_from_finished)
qed

lemma compiled_script_finished:
  assumes "with_lazy_script A ss = Inr m" and "list_all stmt_calls_ok ss"
    and "ctx_call A P (dump_script m) flt (initial_ctx df) = Inr c"
  shows "finished A P (local_variables m) (stack c)"
proof (rule ctx_call_finished)
  show "ctx_call A P (local_variables m) flt (initial_ctx df) = Inr c" using assms(3) by (simp add: dump_script_def)
  show "no_holes (local_variables m)"
    using execute_script_no_holes [OF assms(1) [unfolded with_lazy_script_def] assms(2)]
    by (simp add: default_vm_def no_holes_def)
  show "wf_code (local_variables m)"
    using execute_script_props [OF assms(1) [unfolded with_lazy_script_def]] by (simp add: wf_vm_def [symmetric])
qed

text \<open>C4: compiling a script is correct. When every name is assigned once, before it is used, and every
  call of a built-in function in the script has at least one argument, a finished run of the compiled
  code solves the script's own equations: the value of each assigned name is the value of its expression,
  over the values of the other names, whatever constants were folded at compile time. The grammar also
  accepts a call without arguments, as in \<open>a = max();\<close>: it compiles to a column that is still to be
  given, while its evaluation is the error \<open>EmptyArguments\<close>, so it is excluded. Source:
  \<open>execute_script\<close> and \<open>impl_call\<close> in \<open>kubegraph/vm/lazy/src/lib.rs\<close>.\<close>

theorem compiled_script_solves_equations:
  assumes "with_lazy_script A ss = Inr m" and "list_all stmt_calls_ok ss" and "single_assignment {} ss"
    and "ctx_call A P (dump_script m) flt (initial_ctx df) = Inr c" and "Set x e \<in> set ss"
  shows "env_of (dump_script m) (stack c) x = eval_expr A P (env_of (dump_script m) (stack c)) e"
proof -
  from single_assignment_split [OF assms(3,5)] obtain pre post where ss: "ss = pre @ Set x e # post"
    and x: "x \<notin> (\<Union>s \<in> set pre. stmt_vars s)" "x \<notin> expr_vars e" by blast
  from assms(2,5) have "calls_ok e" by (auto simp: list_all_iff)
  from script_equation [OF assms(1) [unfolded with_lazy_script_def ss] _ this _ x
      compiled_script_finished [OF assms(1,2,4)]]
  show ?thesis by (simp add: dump_script_def default_vm_def wf_vm_def)
qed

text \<open>A name that is assigned twice keeps its first value for every later expression: whatever
  statements come in between, a copy of the name taken after them has the value of the first
  assignment.\<close>

theorem reassignment_is_not_seen:
  assumes "with_lazy_script A (Set x e # mid @ [Set y (EIdentity (PVariable x))]) = Inr m"
    and "list_all stmt_calls_ok (Set x e # mid)" and "x \<notin> expr_vars e"
    and "y \<noteq> x" and "y \<notin> expr_vars e \<union> (\<Union>s \<in> set mid. stmt_vars s)"
    and "ctx_call A P (dump_script m) flt (initial_ctx df) = Inr c"
  shows "env_of (dump_script m) (stack c) y = eval_expr A P (env_of (dump_script m) (stack c)) e"
proof -
  note fin = compiled_script_finished [OF assms(1) _ assms(6)]
  have "env_of (local_variables m) (stack c) x = eval_expr A P (env_of (local_variables m) (stack c)) e"
    using script_equation [where pre = "[]" and P = P and st = "stack c", simplified, OF assms(1) [unfolded with_lazy_script_def]]
      fin assms(2,3) by (simp add: default_vm_def wf_vm_def)
  moreover have "env_of (local_variables m) (stack c) y = env_of (local_variables m) (stack c) x"
    using script_equation [where pre = "Set x e # mid" and post = "[]" and P = P and st = "stack c", simplified,
        OF assms(1) [unfolded with_lazy_script_def]]
      fin assms(2,4,5) by (simp add: default_vm_def wf_vm_def)
  ultimately show ?thesis by (simp add: dump_script_def)
qed

lemma bind_name_keys:
  assumes "bind_name A P nm v c = Inr (w, c')"
  shows "fst ` set (variables c') \<subseteq> fst ` set (variables c) \<union> {x. nm = Some x}"
proof -
  consider "v = Feature None" | "v = Number None" | "defined_var v"
    by (cases v rule: defined_var.cases) auto
  then show ?thesis
  proof cases
    case 3
    show ?thesis
    proof (cases nm)
      case None
      with assms show ?thesis by (simp add: bind_name_def)
    next
      case (Some x)
      with 3 assms have "heap_insert A P x v c = Inr c'"
        by (cases v) (auto simp: bind_name_def)
      then obtain df where "c' = c\<lparr>edges := df, variables := bt_insert x v (variables c)\<rparr>"
        by (auto simp: heap_insert_def)
      with Some show ?thesis by (simp add: fst_set_bt_insert)
    qed
  qed (use assms in \<open>auto simp: bind_name_def split: option.splits\<close>)
qed

lemma exec_from_heap_keys:
  "exec_from A P pc code c = Inr c' \<Longrightarrow> fst ` set (variables c') \<subseteq> fst ` set (variables c) \<union> code_names code"
proof (induction A P pc code c rule: exec_from.induct)
  case (2 A P pc ins rest c)
  from "2.prems" obtain c1 where c1: "exec_instruction A P pc ins c = Inr c1"
    and rest: "exec_from A P (Suc pc) rest c1 = Inr c'" by auto
  have "fst ` set (variables c1) \<subseteq> fst ` set (variables c) \<union> code_names [ins]"
  proof -
    from c1 obtain v w d where "bind_name A P (ins_name ins) v c = Inr (w, d)" and "c1 = d\<lparr>stack := stack d @ [w]\<rparr>"
      by (auto simp: exec_instruction_def)
    with bind_name_keys [OF this(1)] show ?thesis by (simp add: code_names_def)
  qed
  with "2.IH" [OF c1 rest] show ?case by (auto simp: code_names_def)
qed simp

text \<open>A name that a script or filter uses without assigning it first stands for the column of
  that name, also when a later statement assigns it.\<close>

theorem free_name_reads_column:
  assumes "ctx_call A P code flt (initial_ctx df) = Inr c"
    and "find_named x 0 code = Some (i, ins)" and "ins_stmt ins = DefineLocalValue None"
  shows "env_of code (stack c) x = Inr (Slice (pl_col P x))"
proof -
  from find_named_Some [OF assms(2)] have i: "i < length code" "code ! i = ins" "ins_name ins = Some x"
    and first: "\<forall>k<i. ins_name (code ! k) \<noteq> Some x" by auto
  from i have code: "code = take i code @ ins # drop (Suc i) code" by (metis id_take_nth_drop)
  from assms(1) obtain c0 where c0: "exec_from A P 0 code c0 = Inr c" "stack c0 = []" "variables c0 = []"
    by (auto simp: ctx_call_def initial_ctx_def split: option.splits)
  then obtain d d' where d: "exec_from A P 0 (take i code) c0 = Inr d"
    and now: "exec_instruction A P i ins d = Inr d'"
    and rest: "exec_from A P (Suc i) (drop (Suc i) code) d' = Inr c"
    using i(1) by (subst (asm) code, subst (asm) exec_from_append) auto
  have "x \<notin> code_names (take i code)"
    using first i(1) by (auto simp: code_names_def in_set_conv_nth)
  with exec_from_heap_keys [OF d] c0(3) have "bt_lookup (variables d) x = None"
    by (auto simp: bt_lookup_None_iff)
  with now i(3) assms(3) have "stack d' = stack d @ [Slice (pl_col P x)]"
    by (auto simp: exec_instruction_def bind_name_def heap_get_number_def heap_get_unchecked_def
        get_column_def split: frame.splits)
  moreover have "length (stack d) = i"
    using exec_from_stack [OF d] c0(2) i(1) by auto
  ultimately have "stack_get (stack c) i = Inr (Slice (pl_col P x))"
    using exec_from_stack [OF rest] by (auto simp: stack_get_def nth_append)
  with assms(2) show ?thesis by (simp add: env_of_def)
qed

section \<open>Filters\<close>

definition only_placeholders :: "'n instruction list \<Rightarrow> bool" where
  "only_placeholders code \<longleftrightarrow> (\<forall>ins \<in> set code. ins_name ins \<noteq> None \<longrightarrow> ins_stmt ins = DefineLocalValue None)"

fun is_variable :: "'n val \<Rightarrow> bool" where
  "is_variable (VVariable i) = True"
| "is_variable v = False"

lemma finish_expr_variable:
  "finish_expr s m = (v, m') \<Longrightarrow> to_value s = None \<Longrightarrow>
     v = VVariable (length (local_variables m)) \<and>
     local_variables m' = local_variables m @ [\<lparr>ins_name = None, ins_stmt = s\<rparr>]"
  by (auto simp: finish_expr_def register_instruction_def)

lemma finish_expr_placeholders:
  "finish_expr s m = (v, m') \<Longrightarrow> only_placeholders (local_variables m) \<Longrightarrow> only_placeholders (local_variables m')"
  by (auto simp: finish_expr_def register_instruction_def only_placeholders_def split: option.splits)

lemma value_unary_to_value: "value_unary A op v = Inr s \<Longrightarrow> is_variable v \<longleftrightarrow> to_value s = None"
  by (cases op; cases v) (auto simp: value_unary_def)

lemma value_binary_to_value: "value_binary A op l r = Inr s \<Longrightarrow> is_variable l \<or> is_variable r \<longleftrightarrow> to_value s = None"
proof -
  have "to_value (stmt_of_scalar c) \<noteq> None" for c :: "'n scalar" by (cases c) auto
  then show "value_binary A op l r = Inr s \<Longrightarrow> is_variable l \<or> is_variable r \<longleftrightarrow> to_value s = None"
    by (cases l; cases r)
      (auto simp: value_binary_def value_binary_features_def value_binary_numbers_def split: if_splits)
qed

lemma to_value_scalar: "to_value (stmt_of_scalar c) = Some w \<Longrightarrow> \<not> is_variable w"
  by (cases c) auto

lemma value_unary_not_variable: "value_unary A op v = Inr s \<Longrightarrow> to_value s = Some w \<Longrightarrow> \<not> is_variable w"
  by (cases op; cases v) (auto simp: value_unary_def)

lemma value_binary_not_variable: "value_binary A op l r = Inr s \<Longrightarrow> to_value s = Some w \<Longrightarrow> \<not> is_variable w"
  by (cases l; cases r)
    (auto simp: value_binary_def value_binary_features_def value_binary_numbers_def
      split: if_splits dest: to_value_scalar)

lemmas to_value_not_variable = value_unary_not_variable value_binary_not_variable

lemma values_pick_to_value: "list_ex (\<lambda>v. \<not> is_number v) vs \<Longrightarrow> to_value (values_pick A f vs) = None"
  by (auto simp: values_pick_def list_ex_iff list_all_iff)

lemma values_pick_constant: "to_value (values_pick A f vs) = Some w \<Longrightarrow> list_all is_number vs \<and> \<not> is_variable w"
  by (auto simp: values_pick_def split: if_splits option.splits elim: to_value.elims)

lemma is_number_not_variable: "is_number v \<Longrightarrow> \<not> is_variable v"
  by (cases v) auto

text \<open>Without named values to copy, an expression is a variable, or a constant that adds no code.\<close>

lemma execute_expr_constant:
  shows "execute_expr A e m = Inr (v, m') \<Longrightarrow> only_placeholders (local_variables m) \<Longrightarrow>
      only_placeholders (local_variables m') \<and> (is_variable v \<or> m' = m)"
    and "execute_exprs A es m = Inr (vs, m') \<Longrightarrow> only_placeholders (local_variables m) \<Longrightarrow>
      only_placeholders (local_variables m') \<and> (list_ex is_variable vs \<or> m' = m)"
proof (induction A e m and A es m arbitrary: v m' and vs m' rule: execute_expr_execute_exprs.induct)
  case (1 A pv m)
  show ?case
  proof (cases pv)
    case (PVariable x)
    have "to_value (ins_stmt ins) = None" if "find_named x 0 (local_variables m) = Some (i, ins)" for i ins
      using find_named_Some [OF that] "1.prems"(2) by (auto simp: only_placeholders_def dest: nth_mem)
    with "1.prems" PVariable show ?thesis
      by (auto simp: get_local_value_by_name_def try_register_value_def register_value_def
          register_instruction_def only_placeholders_def split: option.splits if_splits)
  qed (use "1.prems" in auto)
next
  case (2 A e op m)
  from "2.prems"(1) obtain w m1 s where w: "execute_expr A e m = Inr (w, m1)"
    and s: "value_unary A op w = Inr s" and fin: "finish_expr s m1 = (v, m')" by auto
  from "2.IH" [OF w "2.prems"(2)] have IH: "only_placeholders (local_variables m1)" "is_variable w \<or> m1 = m" by auto
  show ?case
  proof (cases "to_value s")
    case None
    with finish_expr_variable [OF fin] finish_expr_placeholders [OF fin IH(1)] show ?thesis by simp
  next
    case (Some c)
    with value_unary_to_value [OF s] IH(2) fin have "m1 = m" "m' = m1" by (auto simp: finish_expr_def)
    with IH(1) show ?thesis by simp
  qed
next
  case (3 A lhs rhs op m)
  from "3.prems"(1) obtain l m1 r m2 s where l: "execute_expr A lhs m = Inr (l, m1)"
    and r: "execute_expr A rhs m1 = Inr (r, m2)" and s: "value_binary A op l r = Inr s"
    and fin: "finish_expr s m2 = (v, m')" by auto
  from "3.IH"(1) [OF l "3.prems"(2)] have m1: "only_placeholders (local_variables m1)" "is_variable l \<or> m1 = m" by auto
  from "3.IH"(2) [OF l refl r m1(1)] have m2: "only_placeholders (local_variables m2)" "is_variable r \<or> m2 = m1" by auto
  show ?case
  proof (cases "to_value s")
    case None
    with finish_expr_variable [OF fin] finish_expr_placeholders [OF fin m2(1)] show ?thesis by simp
  next
    case (Some c)
    with value_binary_to_value [OF s] m1(2) m2(2) fin have "m1 = m" "m2 = m1" "m' = m2"
      by (auto simp: finish_expr_def)
    with m2(1) show ?thesis by simp
  qed
next
  case (4 A op args m)
  from "4.prems"(1) obtain f vs m1 where vs: "execute_exprs A args m = Inr (vs, m1)"
    and fin: "finish_expr (values_pick A f vs) m1 = (v, m')" by (cases op) auto
  from "4.IH" [OF vs "4.prems"(2)] have IH: "only_placeholders (local_variables m1)" "list_ex is_variable vs \<or> m1 = m"
    by auto
  show ?case
  proof (cases "to_value (values_pick A f vs)")
    case None
    with finish_expr_variable [OF fin] finish_expr_placeholders [OF fin IH(1)] show ?thesis by simp
  next
    case (Some c)
    with values_pick_constant [OF Some] IH(2) fin have "m1 = m" "m' = m1"
      by (auto simp: finish_expr_def list_ex_iff list_all_iff dest: is_number_not_variable)
    with IH(1) show ?thesis by simp
  qed
next
  case (5 A m)
  then show ?case by simp
next
  case (6 A e es m)
  from "6.prems"(1) obtain v m1 ws where v: "execute_expr A e m = Inr (v, m1)"
    and ws: "execute_exprs A es m1 = Inr (ws, m')" and vs: "vs = v # ws" by auto
  from "6.IH"(1) [OF v "6.prems"(2)] "6.IH"(2) [OF v refl ws] vs show ?case by auto
qed

text \<open>The value of a compiled filter is its last instruction.\<close>

lemma execute_filter_last:
  assumes "execute_expr A e m = Inr (v, m')" and "local_variables m = []" and "local_variables m' \<noteq> []"
  shows "v = VVariable (length (local_variables m') - 1)"
proof -
  have ph: "only_placeholders (local_variables m)" by (simp add: assms(2) only_placeholders_def)
  from execute_expr_constant(1) [OF assms(1) ph] assms(2,3) have v: "is_variable v" by auto
  show ?thesis
  proof (cases e)
    case (EIdentity pv)
    with assms v show ?thesis
      by (cases pv) (auto simp: get_local_value_by_name_def try_register_value_def register_value_def
          register_instruction_def split: if_splits)
  next
    case (EUnary e1 op)
    with assms(1) obtain w m1 s where s: "value_unary A op w = Inr s" and fin: "finish_expr s m1 = (v, m')" by auto
    from to_value_not_variable(1) [OF s] v fin have "to_value s = None" by (auto simp: finish_expr_def split: option.splits)
    from finish_expr_variable [OF fin this] show ?thesis by simp
  next
    case (EBinary e1 e2 op)
    with assms(1) obtain l r m1 s where s: "value_binary A op l r = Inr s" and fin: "finish_expr s m1 = (v, m')" by auto
    from to_value_not_variable(2) [OF s] v fin have "to_value s = None" by (auto simp: finish_expr_def split: option.splits)
    from finish_expr_variable [OF fin this] show ?thesis by simp
  next
    case (EFunction op args)
    with assms(1) obtain f vs m1 where fin: "finish_expr (values_pick A f vs) m1 = (v, m')"
      by (cases op) auto
    have "to_value (values_pick A f vs) = None"
      using values_pick_constant [of A f vs] v fin by (auto simp: finish_expr_def split: option.splits)
    from finish_expr_variable [OF fin this] show ?thesis by simp
  qed
qed

text \<open>C20: a filter that is compiled to code at all selects the rows of what its expression means:
  the filter is the value of the expression in the finished run, turned into a slice.\<close>

theorem compiled_filter_correct:
  assumes "with_lazy_filter A (FExpr e) = Inr m" and "calls_ok e" and "dump_script m \<noteq> []"
    and "ctx_call A P (dump_script m) None (initial_ctx df) = Inr c"
  shows "try_into_filter A P c =
    rbind (eval_expr A P (env_of (dump_script m) (stack c)) e) (pop_slice A P (edges c))"
proof -
  from assms(1) obtain m0 v where m0_def: "m0 = default_vm\<lparr>use_placeholders := True\<rparr>"
    and v: "execute_expr A e m0 = Inr (v, m)" by (auto simp: with_lazy_filter_def)
  from m0_def have m0: "local_variables m0 = []" "wf_vm m0" by (simp_all add: default_vm_def wf_vm_def)
  have fin: "finished A P (local_variables m) (stack c)"
  proof (rule ctx_call_finished)
    show "ctx_call A P (local_variables m) None (initial_ctx df) = Inr c" using assms(4) by (simp add: dump_script_def)
    show "no_holes (local_variables m)"
      using execute_expr_no_holes(1) [OF v assms(2)] by (simp add: m0(1) no_holes_def [of "[]"])
    show "wf_code (local_variables m)"
      using execute_expr_props(1) [OF v] m0(2) by (simp add: wf_vm_def)
  qed
  have "fetch (stack c) v = eval_expr A P (env_of (dump_script m) (stack c)) e"
    using execute_expr_eval(1) [OF v fin assms(2) m0(2), of "[]"] by (simp add: dump_script_def)
  moreover have "v = VVariable (length (local_variables m) - 1)"
    using execute_filter_last [OF v m0(1)] assms(3) by (simp add: dump_script_def)
  moreover have "length (stack c) = length (local_variables m)" using fin by (simp add: finished_def)
  moreover from this assms(3) have "stack c \<noteq> []" by (auto simp: dump_script_def)
  ultimately have "Inr (last (stack c)) = eval_expr A P (env_of (dump_script m) (stack c)) e"
    using assms(3) by (simp add: stack_get_def last_conv_nth dump_script_def)
  with \<open>stack c \<noteq> []\<close> show ?thesis by (simp add: try_into_filter_def flip: \<open>Inr (last (stack c)) = _\<close>)
qed

fun call_free :: "'n expr \<Rightarrow> bool" where
  "call_free (EIdentity pv) = True"
| "call_free (EUnary e op) = call_free e"
| "call_free (EBinary lhs rhs op) = (call_free lhs \<and> call_free rhs)"
| "call_free (EFunction op args) = False"

lemma execute_expr_closed:
  "execute_expr A e m = Inr (v, m') \<Longrightarrow> call_free e \<Longrightarrow> expr_vars e = {} \<Longrightarrow> m' = m \<and> \<not> is_variable v"
proof (induction e arbitrary: m v m')
  case (EIdentity pv)
  then show ?case by (cases pv) auto
next
  case (EUnary e op)
  then obtain w m1 s where w: "execute_expr A e m = Inr (w, m1)"
    and s: "value_unary A op w = Inr s" and fin: "finish_expr s m1 = (v, m')" by auto
  from EUnary.IH [OF w] EUnary.prems value_unary_to_value [OF s] to_value_not_variable(1) [OF s] fin
  show ?case by (auto simp: finish_expr_def)
next
  case (EBinary lhs rhs op)
  then obtain l m1 r m2 s where l: "execute_expr A lhs m = Inr (l, m1)"
    and r: "execute_expr A rhs m1 = Inr (r, m2)" and s: "value_binary A op l r = Inr s"
    and fin: "finish_expr s m2 = (v, m')" by auto
  from EBinary.IH(1) [OF l] EBinary.IH(2) [OF r] EBinary.prems value_binary_to_value [OF s]
    to_value_not_variable(2) [OF s] fin
  show ?case by (auto simp: finish_expr_def)
qed simp

text \<open>A filter over constants alone is folded away: it compiles to no code, and the filter that
  comes out keeps every row, also when the condition folds to false.\<close>

theorem constant_filter_keeps_every_row:
  assumes "with_lazy_filter A (FExpr e) = Inr m" and "call_free e" and "expr_vars e = {}"
    and "ctx_call A P (dump_script m) None (initial_ctx df) = Inr c"
  shows "dump_script m = [] \<and> try_into_filter A P c = frame_all P df"
proof -
  from assms(1) obtain v where v: "execute_expr A e (default_vm\<lparr>use_placeholders := True\<rparr>) = Inr (v, m)"
    by (auto simp: with_lazy_filter_def)
  from execute_expr_closed [OF v assms(2,3)] have "dump_script m = []" by (simp add: dump_script_def default_vm_def)
  with assms(4) show ?thesis by (auto simp: ctx_call_def try_into_filter_def initial_ctx_def)
qed

section \<open>Concrete scripts\<close>

text \<open>The script \<open>a = 1 + 2; b = a * x;\<close>: the sum is folded, \<open>x\<close> is a column.\<close>

definition sample_script :: "int pstmt list" where
  "sample_script =
     [Set ''a'' (EBinary (EIdentity (PNumber 1)) (EIdentity (PNumber 2)) Add),
      Set ''b'' (EBinary (EIdentity (PVariable ''a'')) (EIdentity (PVariable ''x'')) Mul)]"

definition sample_vm :: "int vm" where
  "sample_vm = \<lparr>local_variables =
       [\<lparr>ins_name = Some ''a'', ins_stmt = DefineLocalValue (Some 3)\<rparr>,
        \<lparr>ins_name = Some ''x'', ins_stmt = DefineLocalValue None\<rparr>,
        \<lparr>ins_name = None, ins_stmt = BinaryExpr (VNumber 3) (VVariable 1) Mul\<rparr>,
        \<lparr>ins_name = Some ''b'', ins_stmt = Identity 2\<rparr>],
     use_placeholders = True\<rparr>"

definition sample_product :: plan_expr where
  "sample_product = XBinary Mul (XInt 3) (XCol ''x'')"

definition sample_ctx :: "(plan, plan_expr, int) ctx" where
  "sample_ctx = \<lparr>edges = PolarsF (WithColumn (WithColumn Scan (XAlias (XInt 3) ''a'')) (XAlias sample_product ''b'')),
     variables = [(''a'', Number (Some 3)), (''b'', Slice sample_product)],
     stack = [Number (Some 3), Slice (XCol ''x''), Slice sample_product, Slice sample_product]\<rparr>"

lemma sample_compiles: "with_lazy_script int_arith sample_script = Inr sample_vm"
  by code_simp

lemma sample_runs: "ctx_call int_arith plan_polars (dump_script sample_vm) None (initial_ctx (PolarsF Scan)) = Inr sample_ctx"
  by code_simp

theorem compiled_script_solves_equations_witness:
  "env_of (dump_script sample_vm) (stack sample_ctx) ''b'' =
     eval_expr int_arith plan_polars (env_of (dump_script sample_vm) (stack sample_ctx))
       (EBinary (EIdentity (PVariable ''a'')) (EIdentity (PVariable ''x'')) Mul)"
  by (rule compiled_script_solves_equations [OF sample_compiles _ _ sample_runs]) (simp_all add: sample_script_def)

theorem free_name_reads_column_witness:
  "env_of (dump_script sample_vm) (stack sample_ctx) ''x'' = Inr (Slice (pl_col plan_polars ''x''))"
  by (rule free_name_reads_column [OF sample_runs, where i = 1 and ins = "\<lparr>ins_name = Some ''x'', ins_stmt = DefineLocalValue None\<rparr>"])
    (simp_all add: sample_vm_def dump_script_def)

text \<open>The script \<open>a = 1; a = 2; c = a;\<close> sets the column \<open>a\<close> to 2 and the column \<open>c\<close> to 1.\<close>

definition reassign_script :: "int pstmt list" where
  "reassign_script = Set ''a'' (EIdentity (PNumber 1)) # [Set ''a'' (EIdentity (PNumber 2))] @
     [Set ''c'' (EIdentity (PVariable ''a''))]"

definition reassign_vm :: "int vm" where
  "reassign_vm = \<lparr>local_variables =
       [\<lparr>ins_name = Some ''a'', ins_stmt = DefineLocalValue (Some 1)\<rparr>,
        \<lparr>ins_name = Some ''a'', ins_stmt = DefineLocalValue (Some 2)\<rparr>,
        \<lparr>ins_name = Some ''c'', ins_stmt = DefineLocalValue (Some 1)\<rparr>],
     use_placeholders = True\<rparr>"

definition reassign_ctx :: "(plan, plan_expr, int) ctx" where
  "reassign_ctx = \<lparr>edges = PolarsF (WithColumn (WithColumn (WithColumn Scan (XAlias (XInt 1) ''a''))
       (XAlias (XInt 2) ''a'')) (XAlias (XInt 1) ''c'')),
     variables = [(''a'', Number (Some 2)), (''c'', Number (Some 1))],
     stack = [Number (Some 1), Number (Some 2), Number (Some 1)]\<rparr>"

lemma reassign_compiles: "with_lazy_script int_arith reassign_script = Inr reassign_vm"
  by code_simp

lemma reassign_runs: "ctx_call int_arith plan_polars (dump_script reassign_vm) None (initial_ctx (PolarsF Scan)) = Inr reassign_ctx"
  by code_simp

theorem reassignment_is_not_seen_witness:
  "env_of (dump_script reassign_vm) (stack reassign_ctx) ''c'' = Inr (Number (Some 1)) \<and>
   bt_lookup (variables reassign_ctx) ''a'' = Some (Number (Some 2))"
  using reassignment_is_not_seen [OF reassign_compiles [unfolded reassign_script_def] _ _ _ _ reassign_runs]
  by (simp add: reassign_ctx_def)

text \<open>The filter \<open>x > 0\<close>, and the filter \<open>1 > 2\<close>, which is folded away.\<close>

definition filter_vm :: "int vm" where
  "filter_vm = \<lparr>local_variables =
       [\<lparr>ins_name = Some ''x'', ins_stmt = DefineLocalValue None\<rparr>,
        \<lparr>ins_name = None, ins_stmt = BinaryExpr (VVariable 0) (VNumber 0) Gt\<rparr>],
     use_placeholders = True\<rparr>"

definition filter_ctx :: "(plan, plan_expr, int) ctx" where
  "filter_ctx = \<lparr>edges = PolarsF Scan, variables = [],
     stack = [Slice (XCol ''x''), Slice (XBinary Gt (XCol ''x'') (XInt 0))]\<rparr>"

lemma filter_compiles:
  "with_lazy_filter int_arith (FExpr (EBinary (EIdentity (PVariable ''x'')) (EIdentity (PNumber 0)) Gt)) = Inr filter_vm"
  by code_simp

lemma filter_runs: "ctx_call int_arith plan_polars (dump_script filter_vm) None (initial_ctx (PolarsF Scan)) = Inr filter_ctx"
  by code_simp

theorem compiled_filter_correct_witness:
  "try_into_filter int_arith plan_polars filter_ctx =
     rbind (eval_expr int_arith plan_polars (env_of (dump_script filter_vm) (stack filter_ctx))
         (EBinary (EIdentity (PVariable ''x'')) (EIdentity (PNumber 0)) Gt))
       (pop_slice int_arith plan_polars (edges filter_ctx)) \<and>
   try_into_filter int_arith plan_polars filter_ctx = Inr (XBinary Gt (XCol ''x'') (XInt 0))"
proof
  show "try_into_filter int_arith plan_polars filter_ctx =
      rbind (eval_expr int_arith plan_polars (env_of (dump_script filter_vm) (stack filter_ctx))
          (EBinary (EIdentity (PVariable ''x'')) (EIdentity (PNumber 0)) Gt))
        (pop_slice int_arith plan_polars (edges filter_ctx))"
    by (rule compiled_filter_correct [OF filter_compiles _ _ filter_runs])
      (simp_all add: filter_vm_def dump_script_def)
qed (simp add: filter_ctx_def try_into_filter_def)

theorem constant_filter_keeps_every_row_witness:
  "try_into_filter int_arith plan_polars (initial_ctx (PolarsF Scan)) = Inr XAll"
proof -
  have "with_lazy_filter int_arith (FExpr (EBinary (EIdentity (PNumber 1)) (EIdentity (PNumber 2)) Gt)) =
      Inr (default_vm\<lparr>use_placeholders := True\<rparr>)" by code_simp
  from constant_filter_keeps_every_row [OF this, of plan_polars "PolarsF Scan" "initial_ctx (PolarsF Scan)"]
  show ?thesis by (simp add: dump_script_def default_vm_def ctx_call_def frame_all_def plan_polars_def)
qed

text \<open>The script \<open>a = max();\<close> compiles, and its run reads the name as a column of the frame, while the value of
  its expression is an error.\<close>

lemma call_without_arguments_reads_column:
  "rbind (with_lazy_script int_arith [Set ''a'' (EFunction (BuiltIn Max) [])])
     (\<lambda>m. ctx_call int_arith plan_polars (dump_script m) None (initial_ctx (PolarsF Scan)))
   = Inr \<lparr>edges = PolarsF Scan, variables = [], stack = [Number None, Slice (XCol ''a'')]\<rparr>"
  "eval_expr int_arith plan_polars (\<lambda>_. Inl EmptyFrame) (EFunction (BuiltIn Max) []) = Inl EmptyArguments"
  by code_simp+

end
