(* ===== verification/Graph_Meta.thy ===== *)
theory Graph_Meta imports Lang_Frame begin

text \<open>
  The graphs of \<open>crates/kubegraph/api/src/graph\<close>: scopes and filters, the three kinds of metadata that
  name the columns of a graph (raw, pinned and standard) with their conversions, the edge sets, and
  the translation of the two data frames of a graph into a \<open>petgraph\<close> graph (\<open>graph/polars.rs\<close>).
\<close>

section \<open>Scopes and filters\<close>

datatype graph_scope = GraphScope (scope_namespace: string) (scope_name: string)

text \<open>The derived order of the struct compares the fields in their order.\<close>

instantiation graph_scope :: linorder
begin

definition less_eq_graph_scope :: "graph_scope \<Rightarrow> graph_scope \<Rightarrow> bool" where
  "less_eq_graph_scope a b \<longleftrightarrow> scope_namespace a < scope_namespace b \<or>
     scope_namespace a = scope_namespace b \<and> scope_name a \<le> scope_name b"

definition less_graph_scope :: "graph_scope \<Rightarrow> graph_scope \<Rightarrow> bool" where
  "less_graph_scope a b \<longleftrightarrow> scope_namespace a < scope_namespace b \<or>
     scope_namespace a = scope_namespace b \<and> scope_name a < scope_name b"

instance
  by standard (auto simp: less_eq_graph_scope_def less_graph_scope_def graph_scope.expand)

end

record graph_filter =
  flt_namespace :: string
  flt_name :: "string option"

definition filter_all :: "string \<Rightarrow> graph_filter" where
  "filter_all ns = \<lparr>flt_namespace = ns, flt_name = None\<rparr>"

definition filter_test :: "string option \<Rightarrow> string \<Rightarrow> bool" where
  "filter_test a b = (case a of Some a \<Rightarrow> a = [] \<or> a = b | None \<Rightarrow> True)"

definition filter_contains :: "graph_filter \<Rightarrow> graph_scope \<Rightarrow> bool" where
  "filter_contains f key \<longleftrightarrow>
     filter_test (Some (flt_namespace f)) (scope_namespace key) \<and> filter_test (flt_name f) (scope_name key)"

text \<open>\<open>GraphScope::from_resource\<close>; the object's own namespace may be missing.\<close>

definition scope_from_resource :: "string option \<Rightarrow> string \<Rightarrow> graph_scope" where
  "scope_from_resource ns nm = GraphScope (case ns of Some s \<Rightarrow> s | None \<Rightarrow> ''default'') nm"

section \<open>Metadata\<close>

record pinned =
  pn_capacity :: string
  pn_connector :: string
  pn_flow :: string
  pn_function :: string
  pn_interval_ms :: string
  pn_name :: string
  pn_sink :: string
  pn_src :: string
  pn_supply :: string
  pn_unit_cost :: string

record raw =
  rw_extras :: "(string \<times> string) list"
  rw_interval_ms :: string
  rw_name :: string
  rw_sink :: string
  rw_src :: string

datatype graph_metadata = Raw raw | Pinned pinned | Standard

text \<open>\<open>GraphMetadataStandard\<close>: the default names, which are also what the standard metadata returns.\<close>

definition standard_pinned :: pinned where
  "standard_pinned = \<lparr>pn_capacity = ''capacity'', pn_connector = ''connector'', pn_flow = ''flow'',
     pn_function = ''function'', pn_interval_ms = ''le'', pn_name = ''name'', pn_sink = ''sink'',
     pn_src = ''src'', pn_supply = ''supply'', pn_unit_cost = ''unit_cost''\<rparr>"

definition default_raw :: raw where
  "default_raw = \<lparr>rw_extras = [], rw_interval_ms = pn_interval_ms standard_pinned,
     rw_name = pn_name standard_pinned, rw_sink = pn_sink standard_pinned, rw_src = pn_src standard_pinned\<rparr>"

text \<open>The provided methods of \<open>GraphMetadataExt\<close> for the raw metadata: an extra of that key, or the
  default. The key of the unit cost is the camel-case one.\<close>

definition extra_or :: "raw \<Rightarrow> string \<Rightarrow> string \<Rightarrow> string" where
  "extra_or r key dflt = (case bt_lookup (rw_extras r) key of Some v \<Rightarrow> v | None \<Rightarrow> dflt)"

definition raw_capacity :: "raw \<Rightarrow> string" where
  "raw_capacity r = extra_or r ''capacity'' (pn_capacity standard_pinned)"

definition raw_connector :: "raw \<Rightarrow> string" where
  "raw_connector r = extra_or r ''connector'' (pn_connector standard_pinned)"

definition raw_flow :: "raw \<Rightarrow> string" where
  "raw_flow r = extra_or r ''flow'' (pn_flow standard_pinned)"

definition raw_function :: "raw \<Rightarrow> string" where
  "raw_function r = extra_or r ''function'' (pn_function standard_pinned)"

definition raw_supply :: "raw \<Rightarrow> string" where
  "raw_supply r = extra_or r ''supply'' (pn_supply standard_pinned)"

definition raw_unit_cost :: "raw \<Rightarrow> string" where
  "raw_unit_cost r = extra_or r ''unitCost'' (pn_unit_cost standard_pinned)"

text \<open>\<open>to_pinned\<close>, whose fields are the accessors of \<open>GraphMetadataExt\<close>; the pinned and the standard
  metadata return their own fields.\<close>

fun to_pinned :: "graph_metadata \<Rightarrow> pinned" where
  "to_pinned (Raw r) = \<lparr>pn_capacity = raw_capacity r, pn_connector = raw_connector r, pn_flow = raw_flow r,
     pn_function = raw_function r, pn_interval_ms = rw_interval_ms r, pn_name = rw_name r,
     pn_sink = rw_sink r, pn_src = rw_src r, pn_supply = raw_supply r, pn_unit_cost = raw_unit_cost r\<rparr>"
| "to_pinned (Pinned p) = p"
| "to_pinned Standard = standard_pinned"

text \<open>\<open>to_raw\<close> of the blanket implementation for pinned metadata: the extras are collected into a
  \<open>BTreeMap\<close> under the default names.\<close>

definition pinned_to_raw :: "pinned \<Rightarrow> raw" where
  "pinned_to_raw p = \<lparr>rw_extras = bt_of_list
       [(pn_capacity standard_pinned, pn_capacity p), (pn_connector standard_pinned, pn_connector p),
        (pn_flow standard_pinned, pn_flow p), (pn_function standard_pinned, pn_function p),
        (pn_supply standard_pinned, pn_supply p), (pn_unit_cost standard_pinned, pn_unit_cost p)],
     rw_interval_ms = pn_interval_ms p, rw_name = pn_name p, rw_sink = pn_sink p, rw_src = pn_src p\<rparr>"

fun to_raw :: "graph_metadata \<Rightarrow> raw" where
  "to_raw (Raw r) = r"
| "to_raw (Pinned p) = pinned_to_raw p"
| "to_raw Standard = pinned_to_raw standard_pinned"

definition all_cores :: "graph_metadata \<Rightarrow> string list" where
  "all_cores m = (let p = to_pinned m in
     [pn_capacity p, pn_connector p, pn_flow p, pn_function p, pn_interval_ms p, pn_name p, pn_sink p,
      pn_src p, pn_supply p, pn_unit_cost p])"

fun extras :: "graph_metadata \<Rightarrow> (string \<times> string) list option" where
  "extras (Raw r) = Some (rw_extras r)"
| "extras (Pinned p) = None"
| "extras Standard = None"

definition extra_values :: "graph_metadata \<Rightarrow> string list" where
  "extra_values m = (case extras m of Some e \<Rightarrow> map snd e | None \<Rightarrow> [])"

definition meta_all :: "graph_metadata \<Rightarrow> string list" where
  "meta_all m = all_cores m @ extra_values m"

definition all_node_inputs :: "graph_metadata \<Rightarrow> string list" where
  "all_node_inputs m = (let p = to_pinned m in
     [pn_capacity p, pn_connector p, pn_function p, pn_interval_ms p, pn_name p, pn_sink p,
      pn_src p, pn_supply p, pn_unit_cost p])"

definition all_node_inputs_raw :: "graph_metadata \<Rightarrow> string list" where
  "all_node_inputs_raw m = (let p = to_pinned m in
     case m of
       Raw r \<Rightarrow> [pn_connector p, pn_interval_ms p, pn_name p, pn_sink p, pn_src p] @ extra_values m
     | _ \<Rightarrow> [pn_capacity p, pn_connector p, pn_interval_ms p, pn_name p, pn_sink p, pn_src p,
             pn_supply p, pn_unit_cost p])"

text \<open>\<open>GraphMetadataRaw::insert\<close> and \<open>from_polars\<close>, over the columns of a frame: their name, whether
  the column is empty and whether its type is \<open>Null\<close>.\<close>

definition raw_insert :: "string \<Rightarrow> string \<Rightarrow> raw \<Rightarrow> raw" where
  "raw_insert key v r =
     (if key = pn_interval_ms standard_pinned then r\<lparr>rw_interval_ms := v\<rparr>
      else if key = pn_name standard_pinned then r\<lparr>rw_name := v\<rparr>
      else if key = pn_sink standard_pinned then r\<lparr>rw_sink := v\<rparr>
      else if key = pn_src standard_pinned then r\<lparr>rw_src := v\<rparr>
      else r\<lparr>rw_extras := bt_insert key v (rw_extras r)\<rparr>)"

record column_info =
  ci_name :: string
  ci_is_empty :: bool
  ci_is_null :: bool

definition raw_from_polars :: "column_info list \<Rightarrow> raw" where
  "raw_from_polars cols =
     fold (\<lambda>c r. if ci_is_empty c \<or> ci_is_null c then r else raw_insert (ci_name c) (ci_name c) r) cols default_raw"

text \<open>\<open>GraphData::cast\<close>: the columns a frame is cut down to, with their new names.\<close>

datatype graph_data_type = Edge | Node

definition cast_columns :: "graph_data_type \<Rightarrow> graph_metadata \<Rightarrow> pinned \<Rightarrow> (string \<times> string) list" where
  "cast_columns ty src dst = (let p = to_pinned src in
     case ty of
       Edge \<Rightarrow> [(pn_src p, pn_src dst), (pn_sink p, pn_sink dst), (pn_capacity p, pn_capacity dst),
                (pn_unit_cost p, pn_unit_cost dst)]
     | Node \<Rightarrow> [(pn_name p, pn_name dst), (pn_capacity p, pn_capacity dst), (pn_supply p, pn_supply dst),
                (pn_unit_cost p, pn_unit_cost dst)])"

definition frame_cast :: "('df, 'e, 'n) polars \<Rightarrow> graph_data_type \<Rightarrow> graph_metadata \<Rightarrow> pinned \<Rightarrow>
    'df frame \<Rightarrow> 'df frame" where
  "frame_cast P ty src dst df =
     (case df of
        EmptyF \<Rightarrow> EmptyF
      | PolarsF d \<Rightarrow> PolarsF (pl_select P d (map (\<lambda>(a, b). pl_alias P (pl_col P a) b) (cast_columns ty src dst))))"

section \<open>Edge sets\<close>

text \<open>\<open>GraphEdges::from_iter\<close>: the empty frames are dropped and the others concatenated diagonally by
  \<open>polars\<close>, whose failure gives the empty frame. \<open>extend\<close> puts the current edges in front.\<close>

fun frame_polars :: "'df frame \<Rightarrow> 'df option" where
  "frame_polars EmptyF = None"
| "frame_polars (PolarsF d) = Some d"

definition edges_from_iter :: "('df list \<Rightarrow> 'df option) \<Rightarrow> 'df frame list \<Rightarrow> 'df frame" where
  "edges_from_iter concat_diagonal fs =
     (case List.map_filter frame_polars fs of
        [] \<Rightarrow> EmptyF
      | ds \<Rightarrow> (case concat_diagonal ds of Some d \<Rightarrow> PolarsF d | None \<Rightarrow> EmptyF))"

definition edges_extend :: "('df list \<Rightarrow> 'df option) \<Rightarrow> 'df frame \<Rightarrow> 'df frame list \<Rightarrow> 'df frame" where
  "edges_extend concat_diagonal self fs = edges_from_iter concat_diagonal (self # fs)"

text \<open>\<open>alias_function\<close>, \<open>alias_nodes\<close> and \<open>mark_as_static\<close> write a name into a metadata column.\<close>

definition alias_function :: "('df, 'e, 'n) polars \<Rightarrow> graph_metadata \<Rightarrow> graph_scope \<Rightarrow> 'df frame \<Rightarrow> vm_error + 'df frame" where
  "alias_function P m scope df = frame_alias P (pn_function (to_pinned m)) (scope_name scope) df"

definition alias_nodes :: "('df, 'e, 'n) polars \<Rightarrow> graph_metadata \<Rightarrow> graph_scope \<Rightarrow> 'df frame \<Rightarrow> vm_error + 'df frame" where
  "alias_nodes P m scope df = frame_alias P (pn_connector (to_pinned m)) (scope_name scope) df"

definition mark_as_static :: "('df, 'e, 'n) polars \<Rightarrow> graph_metadata \<Rightarrow> string \<Rightarrow> 'df frame \<Rightarrow> vm_error + 'df frame" where
  "mark_as_static P m ns df =
     (case df of
        EmptyF \<Rightarrow> Inr EmptyF
      | PolarsF d \<Rightarrow> alias_function P m (GraphScope ns ''__static__'') (PolarsF d))"

record 'f graph_data =
  gd_edges :: 'f
  gd_nodes :: 'f

definition graph_data_cast :: "('df, 'e, 'n) polars \<Rightarrow> graph_metadata \<Rightarrow> pinned \<Rightarrow>
    'df frame graph_data \<Rightarrow> 'df frame graph_data" where
  "graph_data_cast P src dst d =
     \<lparr>gd_edges = frame_cast P Edge src dst (gd_edges d), gd_nodes = frame_cast P Node src dst (gd_nodes d)\<rparr>"

definition graph_data_concat :: "('df, 'e, 'n) polars \<Rightarrow> 'df frame graph_data \<Rightarrow> 'df frame graph_data \<Rightarrow>
    'df frame graph_data option" where
  "graph_data_concat P a b =
     (case frame_concat P (gd_edges a) (gd_edges b) of
        None \<Rightarrow> None
      | Some e \<Rightarrow> map_option (\<lambda>n. \<lparr>gd_edges = e, gd_nodes = n\<rparr>) (frame_concat P (gd_nodes a) (gd_nodes b)))"

section \<open>Rows of a data frame\<close>

text \<open>A cell of a \<open>polars\<close> column: the integers of 64 bits are converted by \<open>Number::from_i64\<close>,
  which may fail, the narrower ones and the floats are numbers already.\<close>

datatype 'n any_value = AvNull | AvBool bool | AvNumber 'n | AvInt64 int | AvString string | AvOther

datatype 'n entry_value = EntryFeature bool | EntryNumber 'n | EntryString string

type_synonym 'n entry = "(string \<times> 'n entry_value) list"

type_synonym 'n data_column = "string \<times> 'n any_value list"

fun cell_value :: "(int \<Rightarrow> 'n option) \<Rightarrow> 'n any_value \<Rightarrow> 'n entry_value option" where
  "cell_value of_i64 AvNull = None"
| "cell_value of_i64 (AvBool b) = Some (EntryFeature b)"
| "cell_value of_i64 (AvNumber n) = Some (EntryNumber n)"
| "cell_value of_i64 (AvInt64 i) = map_option EntryNumber (of_i64 i)"
| "cell_value of_i64 (AvString s) = Some (EntryString s)"
| "cell_value of_i64 AvOther = None"

text \<open>\<open>DataSeriesIter::next\<close>: the row at an index, \<open>None\<close> as soon as a column is too short for it.\<close>

fun row_entry :: "(int \<Rightarrow> 'n option) \<Rightarrow> nat \<Rightarrow> 'n data_column list \<Rightarrow> 'n entry \<Rightarrow> 'n entry option" where
  "row_entry of_i64 index [] entry = Some entry"
| "row_entry of_i64 index ((key, cells) # cols) entry =
     (if index < length cells
      then row_entry of_i64 index cols
        (case cell_value of_i64 (cells ! index) of None \<Rightarrow> entry | Some v \<Rightarrow> bt_insert key v entry)
      else None)"

text \<open>The iterator run to its end: without a column it never ends.\<close>

partial_function (option) collect_rows :: "(int \<Rightarrow> 'n option) \<Rightarrow> 'n data_column list \<Rightarrow> nat \<Rightarrow> 'n entry list option" where
  "collect_rows of_i64 cols index =
     (case row_entry of_i64 index cols [] of
        None \<Rightarrow> Some []
      | Some entry \<Rightarrow> Option.bind (collect_rows of_i64 cols (Suc index)) (\<lambda>rest. Some (entry # rest)))"

section \<open>Into \<open>petgraph\<close>\<close>

datatype graph_error = MissingColumn string | NotAString string | NoSuchNode string | NodeIndexPanic | NoEnd

record 'n petgraph =
  pg_nodes :: "'n entry list"
  pg_edges :: "(nat \<times> nat \<times> 'n entry) list"

definition rows :: "(int \<Rightarrow> 'n option) \<Rightarrow> 'n data_column list \<Rightarrow> graph_error + 'n entry list" where
  "rows of_i64 cols = (case collect_rows of_i64 cols 0 of Some es \<Rightarrow> Inr es | None \<Rightarrow> Inl NoEnd)"

fun any_string :: "'n any_value \<Rightarrow> string option" where
  "any_string (AvString s) = Some s"
| "any_string v = None"

text \<open>\<open>transform_petgraph_nodes\<close>: one node per row; the names are numbered after the cells that are
  not strings were dropped.\<close>

definition name_map_of :: "'n any_value list \<Rightarrow> (string \<times> nat) list" where
  "name_map_of cells = (let names = List.map_filter any_string cells in bt_of_list (zip names [0..<length names]))"

definition transform_nodes :: "(int \<Rightarrow> 'n option) \<Rightarrow> string \<Rightarrow> 'n data_column list \<Rightarrow> 'n petgraph \<Rightarrow>
    graph_error + (string \<times> nat) list \<times> 'n petgraph" where
  "transform_nodes of_i64 name_key cols g =
     rbind (rows of_i64 cols) (\<lambda>es.
       case map_of cols name_key of
         None \<Rightarrow> Inl (MissingColumn name_key)
       | Some cells \<Rightarrow> Inr (name_map_of cells, g\<lparr>pg_nodes := pg_nodes g @ es\<rparr>))"

definition get_as_petgraph :: "(string \<times> nat) list \<Rightarrow> string \<Rightarrow> 'n entry \<Rightarrow> graph_error + nat" where
  "get_as_petgraph name_map key entry =
     (case bt_lookup entry key of
        None \<Rightarrow> Inl (MissingColumn key)
      | Some (EntryString nm) \<Rightarrow>
          (case bt_lookup name_map nm of None \<Rightarrow> Inl (NoSuchNode nm) | Some i \<Rightarrow> Inr i)
      | Some _ \<Rightarrow> Inl (NotAString key))"

text \<open>\<open>add_edge\<close> of \<open>petgraph\<close> panics when an end is not a node of the graph.\<close>

definition add_edge_row :: "(string \<times> nat) list \<Rightarrow> string \<Rightarrow> string \<Rightarrow> 'n entry \<Rightarrow> 'n petgraph \<Rightarrow> graph_error + 'n petgraph" where
  "add_edge_row name_map src_key sink_key entry g =
     rbind (get_as_petgraph name_map src_key entry) (\<lambda>src.
     rbind (get_as_petgraph name_map sink_key entry) (\<lambda>sink.
       if src < length (pg_nodes g) \<and> sink < length (pg_nodes g)
       then Inr (g\<lparr>pg_edges := pg_edges g @ [(src, sink, entry)]\<rparr>)
       else Inl NodeIndexPanic))"

definition transform_edges :: "(int \<Rightarrow> 'n option) \<Rightarrow> (string \<times> nat) list \<Rightarrow> string \<Rightarrow> string \<Rightarrow>
    'n data_column list \<Rightarrow> 'n petgraph \<Rightarrow> graph_error + 'n petgraph" where
  "transform_edges of_i64 name_map src_key sink_key cols g =
     rbind (rows of_i64 cols) (\<lambda>es. fold_result (add_edge_row name_map src_key sink_key) es g)"

text \<open>\<open>TryFrom<Graph>\<close> for a stable graph; the frames are collected, \<open>EmptyF\<close> has no rows.\<close>

definition graph_into_petgraph :: "(int \<Rightarrow> 'n option) \<Rightarrow> graph_metadata \<Rightarrow> 'n data_column list frame graph_data \<Rightarrow>
    graph_error + 'n petgraph" where
  "graph_into_petgraph of_i64 m d =
     (let p = to_pinned m; empty = \<lparr>pg_nodes = [], pg_edges = []\<rparr> in
      rbind (case gd_nodes d of
               EmptyF \<Rightarrow> Inr ([], empty)
             | PolarsF cols \<Rightarrow> transform_nodes of_i64 (pn_name p) cols empty) (\<lambda>(name_map, g).
        case gd_edges d of
          EmptyF \<Rightarrow> Inr g
        | PolarsF cols \<Rightarrow> transform_edges of_i64 name_map (pn_src p) (pn_sink p) cols g))"

section \<open>Metadata round trips\<close>

text \<open>Pinned metadata that is written as raw metadata and pinned again keeps every column name
  but one: the unit cost is written under \<open>unit_cost\<close> and read back under \<open>unitCost\<close>, so a custom
  name of it is lost and the default takes its place.\<close>

theorem pinned_raw_roundtrip:
  "to_pinned (Raw (to_raw (Pinned p))) = p\<lparr>pn_unit_cost := pn_unit_cost standard_pinned\<rparr>"
  by (simp add: pinned_to_raw_def raw_capacity_def raw_connector_def raw_flow_def raw_function_def
      raw_supply_def raw_unit_cost_def extra_or_def bt_lookup_of_list standard_pinned_def)

lemma set_bt_insert_values:
  "bt_wf m \<Longrightarrow> \<forall>(k, v) \<in> set m. v = k \<Longrightarrow> snd ` set (bt_insert k k m) = insert k (snd ` set m)"
  by (force simp: set_bt_insert)

definition core_names :: "string set" where
  "core_names = {pn_interval_ms standard_pinned, pn_name standard_pinned, pn_sink standard_pinned, pn_src standard_pinned}"

definition usable_names :: "column_info list \<Rightarrow> string set" where
  "usable_names cols = ci_name ` {c \<in> set cols. \<not> ci_is_empty c \<and> \<not> ci_is_null c}"

lemma raw_from_polars_fold:
  assumes "bt_wf (rw_extras r)" and "\<forall>(k, v) \<in> set (rw_extras r). v = k"
    and "rw_interval_ms r = pn_interval_ms standard_pinned" and "rw_name r = pn_name standard_pinned"
    and "rw_sink r = pn_sink standard_pinned" and "rw_src r = pn_src standard_pinned"
  defines "step \<equiv> \<lambda>c r. if ci_is_empty c \<or> ci_is_null c then r else raw_insert (ci_name c) (ci_name c) r"
  shows "bt_wf (rw_extras (fold step cols r)) \<and> (\<forall>(k, v) \<in> set (rw_extras (fold step cols r)). v = k) \<and>
    rw_interval_ms (fold step cols r) = pn_interval_ms standard_pinned \<and> rw_name (fold step cols r) = pn_name standard_pinned \<and>
    rw_sink (fold step cols r) = pn_sink standard_pinned \<and> rw_src (fold step cols r) = pn_src standard_pinned \<and>
    fst ` set (rw_extras (fold step cols r)) = fst ` set (rw_extras r) \<union> (usable_names cols - core_names)"
  using assms(1-6)
proof (induction cols arbitrary: r)
  case Nil
  then show ?case by (simp add: usable_names_def)
next
  case (Cons c cols)
  have extras: "fst ` set (rw_extras (step c r)) = fst ` set (rw_extras r) \<union> (usable_names [c] - core_names)"
    by (auto simp: step_def raw_insert_def usable_names_def core_names_def fst_set_bt_insert)
  have "usable_names (c # cols) = usable_names [c] \<union> usable_names cols" by (auto simp: usable_names_def)
  moreover have "bt_wf (rw_extras (step c r)) \<and> (\<forall>(k, v) \<in> set (rw_extras (step c r)). v = k) \<and>
    rw_interval_ms (step c r) = pn_interval_ms standard_pinned \<and> rw_name (step c r) = pn_name standard_pinned \<and>
    rw_sink (step c r) = pn_sink standard_pinned \<and> rw_src (step c r) = pn_src standard_pinned"
    using Cons.prems by (auto simp: step_def raw_insert_def set_bt_insert)
  ultimately show ?case using Cons.IH [of "step c r"] extras by auto
qed

lemma set_identity_pairs: "(\<forall>(k, v) \<in> S. v = k) \<Longrightarrow> S = (\<lambda>k. (k, k)) ` fst ` S"
  by force

text \<open>Raw metadata read from a data frame names the usable columns of the frame and nothing
  else: the extras are the usable columns outside the four core ones, each under its own name, and
  the core names are the standard ones.\<close>

theorem raw_from_polars_columns:
  "set (rw_extras (raw_from_polars cols)) = (\<lambda>k. (k, k)) ` (usable_names cols - core_names) \<and>
   raw_from_polars cols = default_raw\<lparr>rw_extras := rw_extras (raw_from_polars cols)\<rparr> \<and>
   set (extra_values (Raw (raw_from_polars cols))) = usable_names cols - core_names"
proof -
  let ?r = "raw_from_polars cols"
  have d: "bt_wf (rw_extras default_raw)" "\<forall>(k, v) \<in> set (rw_extras default_raw). v = k"
    "rw_interval_ms default_raw = pn_interval_ms standard_pinned" "rw_name default_raw = pn_name standard_pinned"
    "rw_sink default_raw = pn_sink standard_pinned" "rw_src default_raw = pn_src standard_pinned"
    "rw_extras default_raw = []" by (simp_all add: default_raw_def)
  note inv = raw_from_polars_fold [OF d(1-6), of cols, folded raw_from_polars_def, unfolded d(7)]
  from inv have dom: "fst ` set (rw_extras ?r) = usable_names cols - core_names" by simp
  from inv have "\<forall>(k, v) \<in> set (rw_extras ?r). v = k" by blast
  from set_identity_pairs [OF this] have pairs: "set (rw_extras ?r) = (\<lambda>k. (k, k)) ` (usable_names cols - core_names)"
    by (simp only: dom)
  from inv d have "?r = default_raw\<lparr>rw_extras := rw_extras ?r\<rparr>"
    by (cases ?r, cases default_raw) simp
  moreover have "set (extra_values (Raw ?r)) = snd ` set (rw_extras ?r)" by (simp add: extra_values_def)
  ultimately show ?thesis using pairs by (simp only: image_image) simp
qed

section \<open>Rows and nodes\<close>

definition rectangular :: "nat \<Rightarrow> 'n data_column list \<Rightarrow> bool" where
  "rectangular n cols \<longleftrightarrow> cols \<noteq> [] \<and> list_all (\<lambda>(key, cells). length cells = n) cols"

lemma row_entry_Some:
  "list_all (\<lambda>(key, cells). length cells = n) cols \<Longrightarrow> i < n \<Longrightarrow> \<exists>e. row_entry of_i64 i cols entry = Some e"
  by (induction of_i64 i cols entry rule: row_entry.induct) (auto split: option.split)

lemma row_entry_None: "rectangular n cols \<Longrightarrow> n \<le> i \<Longrightarrow> row_entry of_i64 i cols entry = None"
  by (cases cols) (auto simp: rectangular_def)

lemma collect_rows_from:
  assumes "rectangular n cols" and "i \<le> n"
  shows "collect_rows of_i64 cols i = Some (map (\<lambda>i. the (row_entry of_i64 i cols [])) [i..<n])"
  using assms(2)
proof (induction "n - i" arbitrary: i)
  case 0
  with row_entry_None [OF assms(1), of i] show ?case by (subst collect_rows.simps) simp
next
  case (Suc k)
  then have i: "i < n" by simp
  with assms(1) obtain e where "row_entry of_i64 i cols [] = Some e"
    using row_entry_Some unfolding rectangular_def by blast
  with Suc i show ?case by (subst collect_rows.simps) (simp add: upt_conv_Cons)
qed

lemma collect_rows_no_columns: "collect_rows of_i64 [] i = None"
proof -
  have "cols \<noteq> []" if "collect_rows of_i64 cols i = Some es" for cols es
    using _ that
  proof (rule collect_rows.raw_induct [of "\<lambda>_ cols _ _. cols \<noteq> []"])
    fix rec :: "(int \<Rightarrow> 'a option) \<Rightarrow> 'a data_column list \<Rightarrow> nat \<Rightarrow> 'a entry list option"
      and of_i64 cols index es
    assume "\<And>of_i64 cols index es. rec of_i64 cols index = Some es \<Longrightarrow> cols \<noteq> []"
      and "(case row_entry of_i64 index cols [] of None \<Rightarrow> Some []
        | Some entry \<Rightarrow> Option.bind (rec of_i64 cols (Suc index)) (\<lambda>rest. Some (entry # rest))) = Some es"
    then show "cols \<noteq> []" by (cases cols) (auto split: Option.bind_splits)
  qed
  then show ?thesis by (cases "collect_rows of_i64 [] i") auto
qed

text \<open>Iterating over the rows of a rectangular data frame ends after its last row with one entry
  per row, and it never ends when the frame has no column.\<close>

theorem collect_rows_result:
  "collect_rows of_i64 [] 0 = None \<and>
   (rectangular n cols \<longrightarrow>
      collect_rows of_i64 cols 0 = Some (map (\<lambda>i. the (row_entry of_i64 i cols [])) [0..<n]) \<and>
      (\<forall>i < n. row_entry of_i64 i cols [] \<noteq> None))"
  using collect_rows_from [of n cols 0 of_i64] row_entry_Some [of n cols _ of_i64 "[]"]
  by (auto simp: collect_rows_no_columns rectangular_def)

theorem collect_rows_result_witness:
  "collect_rows Some [(''name'', [AvString ''a'', AvNull]), (''x'', [AvInt64 1, AvNumber (2 :: int)])] 0 =
     Some [[(''name'', EntryString ''a''), (''x'', EntryNumber 1)], [(''x'', EntryNumber 2)]]"
  using collect_rows_result [of Some 2 "[(''name'', [AvString ''a'', AvNull]), (''x'', [AvInt64 1, AvNumber (2 :: int)])]"]
  by (simp add: rectangular_def upt_rec)

lemma row_entry_lookup:
  assumes "row_entry of_i64 i cols entry = Some e" and "distinct (map fst cols)"
  shows "bt_lookup e k =
    (case map_of cols k of
       Some cells \<Rightarrow> (case cell_value of_i64 (cells ! i) of Some v \<Rightarrow> Some v | None \<Rightarrow> bt_lookup entry k)
     | None \<Rightarrow> bt_lookup entry k)"
  using assms
proof (induction of_i64 i cols entry rule: row_entry.induct)
  case (2 of_i64 index key cells cols entry)
  then have e: "row_entry of_i64 index cols
      (case cell_value of_i64 (cells ! index) of None \<Rightarrow> entry | Some v \<Rightarrow> bt_insert key v entry) = Some e"
    and len: "index < length cells" by (auto split: if_splits)
  from "2.prems"(2) have "map_of cols key = None" by (simp add: map_of_eq_None_iff)
  with "2.IH" [OF len e] "2.prems"(2) show ?case
    by (auto simp: bt_lookup_insert split: option.split)
qed simp

lemma name_map_lookup:
  assumes "bt_lookup (name_map_of cells) nm = Some i" and "\<forall>c \<in> set cells. \<exists>s. c = AvString s"
  shows "i < length cells \<and> cells ! i = AvString nm"
proof -
  let ?names = "List.map_filter any_string cells"
  have cells: "cells = map AvString ?names"
    using assms(2) by (induction cells) auto
  from assms(1) have "(nm, i) \<in> set (zip ?names [0..<length ?names])"
    by (auto simp: name_map_of_def Let_def bt_lookup_of_list dest!: map_of_SomeD)
  then have "i < length ?names" "?names ! i = nm" by (auto simp: in_set_zip)
  with cells show ?thesis by (metis length_map nth_map)
qed

definition edge_of_names :: "string \<Rightarrow> string \<Rightarrow> string \<Rightarrow> 'n petgraph \<Rightarrow> nat \<times> nat \<times> 'n entry \<Rightarrow> bool" where
  "edge_of_names name_key src_key sink_key g e =
     (case e of (s, t, entry) \<Rightarrow>
        s < length (pg_nodes g) \<and> t < length (pg_nodes g) \<and>
        bt_lookup (pg_nodes g ! s) name_key \<noteq> None \<and>
        bt_lookup (pg_nodes g ! s) name_key = bt_lookup entry src_key \<and>
        bt_lookup (pg_nodes g ! t) name_key \<noteq> None \<and>
        bt_lookup (pg_nodes g ! t) name_key = bt_lookup entry sink_key)"

lemma add_edge_row_names:
  assumes "add_edge_row (name_map_of cells) src_key sink_key entry g = Inr g'"
    and "\<forall>c \<in> set cells. \<exists>s. c = AvString s"
    and "\<And>i nm. i < length cells \<Longrightarrow> cells ! i = AvString nm \<Longrightarrow>
      i < length (pg_nodes g) \<and> bt_lookup (pg_nodes g ! i) name_key = Some (EntryString nm)"
    and "\<forall>e \<in> set (pg_edges g). edge_of_names name_key src_key sink_key g e"
  shows "pg_nodes g' = pg_nodes g \<and> (\<forall>e \<in> set (pg_edges g'). edge_of_names name_key src_key sink_key g' e)"
proof -
  from assms(1) obtain s t where s: "get_as_petgraph (name_map_of cells) src_key entry = Inr s"
    and t: "get_as_petgraph (name_map_of cells) sink_key entry = Inr t"
    and g': "g' = g\<lparr>pg_edges := pg_edges g @ [(s, t, entry)]\<rparr>"
    by (auto simp: add_edge_row_def split: if_splits)
  have "i < length (pg_nodes g) \<and> bt_lookup entry key \<noteq> None \<and> bt_lookup (pg_nodes g ! i) name_key = bt_lookup entry key"
    if "get_as_petgraph (name_map_of cells) key entry = Inr i" for key i
  proof -
    from that obtain nm where nm: "bt_lookup entry key = Some (EntryString nm)"
      and i: "bt_lookup (name_map_of cells) nm = Some i"
      by (auto simp: get_as_petgraph_def split: option.splits entry_value.splits)
    from name_map_lookup [OF i assms(2)] assms(3) nm show ?thesis by simp
  qed
  from this [OF s] this [OF t] assms(4) g' show ?thesis by (auto simp: edge_of_names_def)
qed

text \<open>C19: in the \<open>petgraph\<close> graph of a graph whose nodes are all named, every edge joins the nodes of
  its two names: the ends of an edge exist, and they are the rows named by its source and sink
  columns.\<close>

theorem petgraph_edges_join_named_nodes:
  assumes "graph_into_petgraph of_i64 m \<lparr>gd_edges = PolarsF ecols, gd_nodes = PolarsF ncols\<rparr> = Inr g"
    and "rectangular n ncols" and "distinct (map fst ncols)"
    and "map_of ncols (pn_name (to_pinned m)) = Some cells" and "\<forall>c \<in> set cells. \<exists>s. c = AvString s"
  shows "\<forall>e \<in> set (pg_edges g).
    edge_of_names (pn_name (to_pinned m)) (pn_src (to_pinned m)) (pn_sink (to_pinned m)) g e"
proof -
  let ?p = "to_pinned m"
  let ?es = "map (\<lambda>i. the (row_entry of_i64 i ncols [])) [0..<n]"
  let ?g0 = "\<lparr>pg_nodes = ?es, pg_edges = []\<rparr> :: 'a petgraph"
  have len: "length cells = n"
    using assms(2,4) by (auto simp: rectangular_def list_all_iff dest: map_of_SomeD)
  have "transform_nodes of_i64 (pn_name ?p) ncols \<lparr>pg_nodes = [], pg_edges = []\<rparr> = Inr (name_map_of cells, ?g0)"
    using collect_rows_from [OF assms(2), of 0 of_i64] assms(4) by (simp add: transform_nodes_def rows_def)
  with assms(1) obtain rs where
    fold: "fold_result (add_edge_row (name_map_of cells) (pn_src ?p) (pn_sink ?p)) rs ?g0 = Inr g"
    by (auto simp: graph_into_petgraph_def transform_edges_def Let_def)
  have node: "i < length ?es \<and> bt_lookup (?es ! i) (pn_name ?p) = Some (EntryString nm)"
    if "i < length cells" and "cells ! i = AvString nm" for i nm
  proof -
    from that(1) len assms(2) obtain e where e: "row_entry of_i64 i ncols [] = Some e"
      using row_entry_Some unfolding rectangular_def by blast
    from row_entry_lookup [OF e assms(3)] assms(4) that len e show ?thesis by simp
  qed
  let ?I = "\<lambda>h. pg_nodes h = ?es \<and> (\<forall>e \<in> set (pg_edges h). edge_of_names (pn_name ?p) (pn_src ?p) (pn_sink ?p) h e)"
  have "?I g" using fold
  proof (rule fold_result_invariant)
    fix entry u v
    assume step: "add_edge_row (name_map_of cells) (pn_src ?p) (pn_sink ?p) entry u = Inr v" and I: "?I u"
    have "i < length (pg_nodes u) \<and> bt_lookup (pg_nodes u ! i) (pn_name ?p) = Some (EntryString nm)"
      if "i < length cells" "cells ! i = AvString nm" for i nm
      using node [OF that] I by (simp only: simp_thms)
    from add_edge_row_names [OF step assms(5) this] I show "?I v" by simp
  qed simp
  then show ?thesis by blast
qed

theorem petgraph_edges_join_named_nodes_witness:
  "edge_of_names ''name'' ''src'' ''sink''
     \<lparr>pg_nodes = [[(''name'', EntryString ''a'')], [(''name'', EntryString ''b'')]],
      pg_edges = [(1, 0, [(''sink'', EntryString ''a''), (''src'', EntryString ''b'')])]\<rparr>
     (1, 0, [(''sink'', EntryString ''a''), (''src'', EntryString ''b'' :: int entry_value)])"
proof -
  let ?n = "[(''name'', [AvString ''a'', AvString ''b''])] :: int data_column list"
  let ?e = "[(''src'', [AvString ''b'']), (''sink'', [AvString ''a''])] :: int data_column list"
  let ?g = "\<lparr>pg_nodes = [[(''name'', EntryString ''a'')], [(''name'', EntryString ''b'')]],
      pg_edges = [(1, 0, [(''sink'', EntryString ''a''), (''src'', EntryString ''b'')])]\<rparr> :: int petgraph"
  have n: "rows Some ?n = Inr (pg_nodes ?g)"
    using collect_rows_from [of 2 ?n 0 Some] by (simp add: rows_def rectangular_def upt_rec)
  have e: "rows Some ?e = Inr [[(''sink'', EntryString ''a''), (''src'', EntryString ''b'')]]"
    using collect_rows_from [of 1 ?e 0 Some] by (simp add: rows_def rectangular_def)
  have "graph_into_petgraph Some Standard \<lparr>gd_edges = PolarsF ?e, gd_nodes = PolarsF ?n\<rparr> = Inr ?g"
    by (simp add: graph_into_petgraph_def transform_nodes_def transform_edges_def n e standard_pinned_def
        name_map_of_def bt_of_list_def add_edge_row_def get_as_petgraph_def)
  from petgraph_edges_join_named_nodes [OF this, of 2] show ?thesis
    by (simp add: rectangular_def standard_pinned_def)
qed

lemma map_filter_any_string [simp]: "List.map_filter any_string (map AvString nms) = nms"
  by (induction nms) simp_all

lemma name_map_skips_null: "name_map_of (AvNull # map AvString nms) = bt_of_list (zip nms [0..<length nms])"
  by (simp add: name_map_of_def)

text \<open>A node without a name shifts the names of the nodes after it: the row still becomes a node,
  but the numbering of the names leaves it out, so every later name is mapped to the node before
  its own.\<close>

theorem unnamed_node_shifts_names:
  assumes "distinct nms" and "i < length nms"
    and "transform_nodes of_i64 key [(key, AvNull # map AvString nms)] \<lparr>pg_nodes = [], pg_edges = []\<rparr> = Inr (name_map, g)"
  shows "bt_lookup name_map (nms ! i) = Some i \<and>
    bt_lookup (pg_nodes g ! Suc i) key = Some (EntryString (nms ! i)) \<and>
    bt_lookup (pg_nodes g ! i) key \<noteq> Some (EntryString (nms ! i))"
proof -
  let ?cols = "[(key, AvNull # map AvString nms)]"
  have rect: "rectangular (Suc (length nms)) ?cols" by (simp add: rectangular_def)
  from assms(3) collect_rows_from [OF rect, of 0 of_i64]
  have nm: "name_map = bt_of_list (zip nms [0..<length nms])"
    and g: "pg_nodes g = map (\<lambda>i. the (row_entry of_i64 i ?cols [])) [0..<Suc (length nms)]"
    by (auto simp: transform_nodes_def rows_def name_map_skips_null simp del: upt_Suc)
  have "map_of (rev (zip nms [0..<length nms])) (nms ! i) = Some i"
    using assms(1,2) by (intro map_of_is_SomeI) (auto simp: in_set_zip rev_map [symmetric])
  then have "bt_lookup name_map (nms ! i) = Some i"
    by (simp add: nm bt_lookup_of_list)
  moreover have "bt_lookup (pg_nodes g ! Suc i) key = Some (EntryString (nms ! i))"
    using assms(2) by (simp add: g del: upt_Suc)
  moreover have "bt_lookup (pg_nodes g ! i) key \<noteq> Some (EntryString (nms ! i))"
    using assms(1,2) by (cases i) (auto simp: g nth_eq_iff_index_eq simp del: upt_Suc)
  ultimately show ?thesis by simp
qed

theorem unnamed_node_shifts_names_witness:
  "\<exists>name_map g. transform_nodes Some ''name'' [(''name'', AvNull # map AvString [''a'', ''b''])]
       \<lparr>pg_nodes = [], pg_edges = []\<rparr> = (Inr (name_map, g) :: graph_error + (string \<times> nat) list \<times> int petgraph) \<and>
     bt_lookup name_map ''a'' = Some 0 \<and> bt_lookup (pg_nodes g ! 1) ''name'' = Some (EntryString ''a'')"
proof -
  have "rectangular 3 [(''name'', AvNull # map AvString [''a'', ''b''])]" by (simp add: rectangular_def)
  from collect_rows_from [OF this, of 0 Some]
  obtain name_map g where t: "transform_nodes Some ''name'' [(''name'', AvNull # map AvString [''a'', ''b''])]
       \<lparr>pg_nodes = [], pg_edges = []\<rparr> = (Inr (name_map, g) :: graph_error + (string \<times> nat) list \<times> int petgraph)"
    by (fastforce simp: transform_nodes_def rows_def)
  have "bt_lookup name_map ''a'' = Some 0" "bt_lookup (pg_nodes g ! 1) ''name'' = Some (EntryString ''a'')"
    using unnamed_node_shifts_names [OF _ _ t, of 0] by simp_all
  with t show ?thesis by blast
qed

end
