(* ===== verification/Graph_Db.thy ===== *)
theory Graph_Db imports Graph_Meta begin

text \<open>
  The graph stores: the trait \<open>NetworkGraphDB\<close> as a locale, the in-memory store
  (\<open>crates/kubegraph/graph/memory\<close>), the store on the embedded database \<open>sled\<close>
  (\<open>crates/kubegraph/graph/local\<close>), the store of \<open>crates/kubegraph/vm/local/src/graph.rs\<close> that picks
  one of them, and the scoped view of a store.
\<close>

record ('c, 'd, 'm) stored_graph =
  gr_connector :: "'c option"
  gr_data :: 'd
  gr_metadata :: 'm
  gr_scope :: graph_scope

section \<open>The interface\<close>

text \<open>What the virtual machine relies on: looking up, inserting under the graph's own scope, removing,
  and listing by a filter.\<close>

locale graph_db =
  fixes db_get :: "graph_scope \<Rightarrow> 'm \<Rightarrow> ('c, 'd, 'e) stored_graph option"
    and db_insert :: "('c, 'd, 'e) stored_graph \<Rightarrow> 'm \<Rightarrow> 'm"
    and db_list :: "graph_filter \<Rightarrow> 'm \<Rightarrow> ('c, 'd, 'e) stored_graph list"
    and db_remove :: "graph_scope \<Rightarrow> 'm \<Rightarrow> 'm"
    and db_inv :: "'m \<Rightarrow> bool"
  assumes get_insert: "db_inv m \<Longrightarrow> db_get k (db_insert g m) = (if k = gr_scope g then Some g else db_get k m)"
    and get_remove: "db_inv m \<Longrightarrow> db_get k (db_remove s m) = (if k = s then None else db_get k m)"
    and set_list: "db_inv m \<Longrightarrow> set (db_list f m) = {g. \<exists>k. filter_contains f k \<and> db_get k m = Some g}"
    and inv_insert: "db_inv m \<Longrightarrow> db_inv (db_insert g m)"
    and inv_remove: "db_inv m \<Longrightarrow> db_inv (db_remove s m)"
begin

lemma list_insert:
  assumes "db_inv m"
  shows "set (db_list f (db_insert g m)) =
    (if filter_contains f (gr_scope g) then {g} else {}) \<union>
    {h. \<exists>k. k \<noteq> gr_scope g \<and> filter_contains f k \<and> db_get k m = Some h}"
  using assms by (auto simp: set_list inv_insert get_insert split: if_splits)

lemma list_insert_other:
  assumes "db_inv m" and "\<not> filter_contains f (gr_scope g)"
  shows "set (db_list f (db_insert g m)) = {h. \<exists>k. k \<noteq> gr_scope g \<and> filter_contains f k \<and> db_get k m = Some h}"
  using assms by (simp add: list_insert)

lemma list_remove:
  assumes "db_inv m"
  shows "set (db_list f (db_remove s m)) = {h. \<exists>k. k \<noteq> s \<and> filter_contains f k \<and> db_get k m = Some h}"
  using assms by (auto simp: set_list inv_remove get_remove)

lemma insert_then_remove:
  assumes "db_inv m" and "db_get (gr_scope g) m = None"
  shows "db_get k (db_remove (gr_scope g) (db_insert g m)) = db_get k m"
  using assms by (simp add: get_remove get_insert inv_insert)

end

section \<open>The in-memory store\<close>

type_synonym ('c, 'd, 'm) memory_db = "(graph_scope \<times> ('c, 'd, 'm) stored_graph) list"

definition mem_get :: "graph_scope \<Rightarrow> ('c, 'd, 'm) memory_db \<Rightarrow> ('c, 'd, 'm) stored_graph option" where
  "mem_get scope m = bt_lookup m scope"

definition mem_insert :: "('c, 'd, 'm) stored_graph \<Rightarrow> ('c, 'd, 'm) memory_db \<Rightarrow> ('c, 'd, 'm) memory_db" where
  "mem_insert g m = bt_insert (gr_scope g) g m"

definition mem_list :: "graph_filter \<Rightarrow> ('c, 'd, 'm) memory_db \<Rightarrow> ('c, 'd, 'm) stored_graph list" where
  "mem_list f m = map snd (filter (\<lambda>(key, _). filter_contains f key) m)"

definition mem_remove :: "graph_scope \<Rightarrow> ('c, 'd, 'm) memory_db \<Rightarrow> ('c, 'd, 'm) memory_db" where
  "mem_remove scope m = bt_remove scope m"

interpretation memory: graph_db mem_get mem_insert mem_list mem_remove bt_wf
  by unfold_locales
    (auto simp: mem_get_def mem_insert_def mem_list_def mem_remove_def bt_lookup_insert bt_lookup_remove
      bt_lookup_Some_iff image_iff)

definition get_global_namespaced :: "string \<Rightarrow> ('c, 'd, 'm) memory_db \<Rightarrow> ('c, 'd, 'm) stored_graph option" where
  "get_global_namespaced ns m = mem_get (GraphScope ns ''__global__'') m"

text \<open>\<open>ScopedNetworkGraphDBContainer::insert\<close>: the graph is moved into the namespace of the scope.\<close>

definition scoped_insert :: "graph_scope \<Rightarrow> ('c, 'd, 'm) stored_graph \<Rightarrow> ('c, 'd, 'm) memory_db \<Rightarrow> ('c, 'd, 'm) memory_db" where
  "scoped_insert scope g m =
     mem_insert (g\<lparr>gr_scope := GraphScope (scope_namespace scope) (scope_name (gr_scope g))\<rparr>) m"

section \<open>The store on \<open>sled\<close>\<close>

text \<open>What the local store calls: collecting a lazy graph and making it lazy again (\<open>polars\<close>), and the
  JSON encoding of keys and values (\<open>serde_json\<close>). \<open>sled\<close> itself is an ordered map of byte strings.\<close>

record ('g, 'h) codec =
  cd_collect :: "'g \<Rightarrow> 'h option"
  cd_lazy :: "'h \<Rightarrow> 'g"
  cd_scope :: "'h \<Rightarrow> graph_scope"
  cd_enc_key :: "graph_scope \<Rightarrow> string option"
  cd_dec_key :: "string \<Rightarrow> graph_scope option"
  cd_enc :: "'h \<Rightarrow> string option"
  cd_dec :: "string \<Rightarrow> 'h option"

datatype local_error = CollectFailed | EncodeFailed | DecodeFailed

type_synonym local_db = "(string \<times> string) list"

definition or_error :: "'x \<Rightarrow> 'a option \<Rightarrow> 'x + 'a" where
  "or_error e v = (case v of Some a \<Rightarrow> Inr a | None \<Rightarrow> Inl e)"

lemma or_error_eq_Inr [simp]: "or_error e v = Inr a \<longleftrightarrow> v = Some a"
  by (cases v) (auto simp: or_error_def)

definition local_get :: "('g, 'h) codec \<Rightarrow> graph_scope \<Rightarrow> local_db \<Rightarrow> local_error + 'g option" where
  "local_get C scope db =
     rbind (or_error EncodeFailed (cd_enc_key C scope)) (\<lambda>key.
       case bt_lookup db key of
         None \<Rightarrow> Inr None
       | Some v \<Rightarrow> rbind (or_error DecodeFailed (cd_dec C v)) (\<lambda>h. Inr (Some (cd_lazy C h))))"

definition local_insert :: "('g, 'h) codec \<Rightarrow> 'g \<Rightarrow> local_db \<Rightarrow> local_error + local_db" where
  "local_insert C g db =
     rbind (or_error CollectFailed (cd_collect C g)) (\<lambda>h.
     rbind (or_error EncodeFailed (cd_enc_key C (cd_scope C h))) (\<lambda>key.
     rbind (or_error EncodeFailed (cd_enc C h)) (\<lambda>v.
       Inr (bt_insert key v db))))"

definition local_list :: "('g, 'h) codec \<Rightarrow> graph_filter \<Rightarrow> local_db \<Rightarrow> 'g list" where
  "local_list C f db =
     map (\<lambda>(k, h). cd_lazy C h)
       (filter (\<lambda>(k, h). filter_contains f k)
         (List.map_filter (\<lambda>(key, v). case (cd_dec_key C key, cd_dec C v) of
             (Some k, Some h) \<Rightarrow> Some (k, h)
           | _ \<Rightarrow> None) db))"

definition local_remove :: "('g, 'h) codec \<Rightarrow> graph_scope \<Rightarrow> local_db \<Rightarrow> local_error + local_db" where
  "local_remove C scope db =
     rbind (or_error EncodeFailed (cd_enc_key C scope)) (\<lambda>key. Inr (bt_remove key db))"

section \<open>The store of the virtual machine\<close>

datatype ('c, 'd, 'm) graph_store = LocalStore local_db | MemoryStore "('c, 'd, 'm) memory_db"

fun store_get :: "(('c, 'd, 'm) stored_graph, 'h) codec \<Rightarrow> graph_scope \<Rightarrow> ('c, 'd, 'm) graph_store \<Rightarrow>
    local_error + ('c, 'd, 'm) stored_graph option" where
  "store_get C scope (LocalStore db) = local_get C scope db"
| "store_get C scope (MemoryStore m) = Inr (mem_get scope m)"

fun store_insert :: "(('c, 'd, 'm) stored_graph, 'h) codec \<Rightarrow> ('c, 'd, 'm) stored_graph \<Rightarrow> ('c, 'd, 'm) graph_store \<Rightarrow>
    local_error + ('c, 'd, 'm) graph_store" where
  "store_insert C g (LocalStore db) = rbind (local_insert C g db) (\<lambda>db'. Inr (LocalStore db'))"
| "store_insert C g (MemoryStore m) = Inr (MemoryStore (mem_insert g m))"

fun store_list :: "(('c, 'd, 'm) stored_graph, 'h) codec \<Rightarrow> graph_filter \<Rightarrow> ('c, 'd, 'm) graph_store \<Rightarrow>
    ('c, 'd, 'm) stored_graph list" where
  "store_list C f (LocalStore db) = local_list C f db"
| "store_list C f (MemoryStore m) = mem_list f m"

fun store_remove :: "(('c, 'd, 'm) stored_graph, 'h) codec \<Rightarrow> graph_scope \<Rightarrow> ('c, 'd, 'm) graph_store \<Rightarrow>
    local_error + ('c, 'd, 'm) graph_store" where
  "store_remove C scope (LocalStore db) = rbind (local_remove C scope db) (\<lambda>db'. Inr (LocalStore db'))"
| "store_remove C scope (MemoryStore m) = Inr (MemoryStore (mem_remove scope m))"

section \<open>The local store refines the in-memory store\<close>

datatype ('c, 'd, 'm) db_op = OpInsert "('c, 'd, 'm) stored_graph" | OpRemove graph_scope

fun run_op :: "(('c, 'd, 'm) stored_graph, 'h) codec \<Rightarrow> ('c, 'd, 'm) db_op \<Rightarrow> ('c, 'd, 'm) graph_store \<Rightarrow>
    local_error + ('c, 'd, 'm) graph_store" where
  "run_op C (OpInsert g) s = store_insert C g s"
| "run_op C (OpRemove k) s = store_remove C k s"

definition codec_ok :: "(('c, 'd, 'm) stored_graph, 'h) codec \<Rightarrow> bool" where
  "codec_ok C \<longleftrightarrow>
     (\<forall>k. \<exists>s. cd_enc_key C k = Some s \<and> cd_dec_key C s = Some k) \<and>
     (\<forall>h s. cd_enc C h = Some s \<longrightarrow> cd_dec C s = Some h) \<and>
     (\<forall>g h. cd_collect C g = Some h \<longrightarrow> cd_scope C h = gr_scope g)"

text \<open>Every entry of the memory is stored under the encoding of its key, as the encoding of its
  collected graph, and nothing else is stored.\<close>

definition stores :: "(('c, 'd, 'm) stored_graph, 'h) codec \<Rightarrow> ('c, 'd, 'm) stored_graph option \<Rightarrow> string option \<Rightarrow> bool" where
  "stores C g v =
     (case g of
        None \<Rightarrow> v = None
      | Some g \<Rightarrow> (\<exists>h s. cd_collect C g = Some h \<and> cd_enc C h = Some s \<and> v = Some s))"

definition simulates :: "(('c, 'd, 'm) stored_graph, 'h) codec \<Rightarrow> local_db \<Rightarrow> ('c, 'd, 'm) memory_db \<Rightarrow> bool" where
  "simulates C db m \<longleftrightarrow> bt_wf db \<and> bt_wf m \<and>
     (\<forall>k s. cd_enc_key C k = Some s \<longrightarrow> stores C (mem_get k m) (bt_lookup db s)) \<and>
     (\<forall>s \<in> fst ` set db. \<exists>k. cd_enc_key C k = Some s)"

lemma enc_key_inj: "codec_ok C \<Longrightarrow> cd_enc_key C a = Some s \<Longrightarrow> cd_enc_key C b = Some s \<Longrightarrow> a = b"
  unfolding codec_ok_def by (metis option.inject)

lemma simulates_insert:
  assumes "codec_ok C" and "simulates C db m" and "local_insert C g db = Inr db'"
  shows "simulates C db' (mem_insert g m)"
proof -
  from assms(3) obtain h key v where h: "cd_collect C g = Some h" and key: "cd_enc_key C (cd_scope C h) = Some key"
    and v: "cd_enc C h = Some v" and db': "db' = bt_insert key v db"
    by (auto simp: local_insert_def)
  from assms(1) h key have key: "cd_enc_key C (gr_scope g) = Some key" by (auto simp: codec_ok_def)
  have "stores C (mem_get k (mem_insert g m)) (bt_lookup db' s)" if s: "cd_enc_key C k = Some s" for k s
  proof (cases "k = gr_scope g")
    case True
    with s key h v show ?thesis
      by (simp add: stores_def mem_get_def mem_insert_def bt_lookup_insert db')
  next
    case False
    with enc_key_inj [OF assms(1)] s key have "s \<noteq> key" by blast
    with False assms(2) s show ?thesis
      by (simp add: simulates_def mem_get_def mem_insert_def bt_lookup_insert db')
  qed
  with assms(2) key show ?thesis
    by (auto simp: simulates_def db' mem_insert_def fst_set_bt_insert simp del: set_map)
qed

lemma simulates_remove:
  assumes "codec_ok C" and "simulates C db m" and "local_remove C scope db = Inr db'"
  shows "simulates C db' (mem_remove scope m)"
proof -
  from assms(3) obtain key where key: "cd_enc_key C scope = Some key" and db': "db' = bt_remove key db"
    by (auto simp: local_remove_def)
  from assms(2) have wf: "bt_wf db" "bt_wf m" by (auto simp: simulates_def)
  have "stores C (mem_get k (mem_remove scope m)) (bt_lookup db' s)" if s: "cd_enc_key C k = Some s" for k s
  proof (cases "k = scope")
    case True
    with s key wf show ?thesis
      by (simp add: stores_def mem_get_def mem_remove_def bt_lookup_remove db')
  next
    case False
    with enc_key_inj [OF assms(1)] s key have "s \<noteq> key" by blast
    with False assms(2) s wf show ?thesis
      by (simp add: simulates_def mem_get_def mem_remove_def bt_lookup_remove db')
  qed
  with assms(2) wf show ?thesis
    by (auto simp: simulates_def db' mem_remove_def fst_set_bt_remove)
qed

lemma simulates_run:
  assumes "codec_ok C" and "simulates C db0 m0"
    and "fold_result (run_op C) ops (LocalStore db0) = Inr (LocalStore db)"
    and "fold_result (run_op C) ops (MemoryStore m0) = Inr (MemoryStore m)"
  shows "simulates C db m"
  using assms(2-4)
proof (induction ops arbitrary: db0 m0)
  case (Cons op ops)
  show ?case
  proof (cases op)
    case (OpInsert g)
    with Cons.prems obtain db1 where "local_insert C g db0 = Inr db1"
      and "fold_result (run_op C) ops (LocalStore db1) = Inr (LocalStore db)"
      and "fold_result (run_op C) ops (MemoryStore (mem_insert g m0)) = Inr (MemoryStore m)" by auto
    with Cons.IH simulates_insert [OF assms(1) Cons.prems(1)] show ?thesis by blast
  next
    case (OpRemove k)
    with Cons.prems obtain db1 where "local_remove C k db0 = Inr db1"
      and "fold_result (run_op C) ops (LocalStore db1) = Inr (LocalStore db)"
      and "fold_result (run_op C) ops (MemoryStore (mem_remove k m0)) = Inr (MemoryStore m)" by auto
    with Cons.IH simulates_remove [OF assms(1) Cons.prems(1)] show ?thesis by blast
  qed
qed simp

definition reload :: "(('c, 'd, 'm) stored_graph, 'h) codec \<Rightarrow> ('c, 'd, 'm) stored_graph \<Rightarrow> ('c, 'd, 'm) stored_graph" where
  "reload C g = cd_lazy C (the (cd_collect C g))"

lemma simulates_get:
  assumes "codec_ok C" and "simulates C db m"
  shows "local_get C k db = Inr (map_option (reload C) (mem_get k m))"
proof -
  from assms(1) obtain s where s: "cd_enc_key C k = Some s" unfolding codec_ok_def by blast
  with assms(2) have "stores C (mem_get k m) (bt_lookup db s)" by (simp add: simulates_def)
  with assms(1) s show ?thesis
    by (cases "mem_get k m") (auto simp: local_get_def stores_def reload_def codec_ok_def or_error_def)
qed

lemma simulates_list:
  assumes "codec_ok C" and "simulates C db m"
  shows "set (local_list C f db) = reload C ` set (mem_list f m)"
proof -
  have wf: "bt_wf db" "bt_wf m" using assms(2) by (auto simp: simulates_def)
  have "g \<in> reload C ` set (mem_list f m)" if "g \<in> set (local_list C f db)" for g
  proof -
    from that obtain key v k h where kv: "(key, v) \<in> set db" and k: "cd_dec_key C key = Some k"
      and h: "cd_dec C v = Some h" and f: "filter_contains f k" and g: "g = cd_lazy C h"
      by (auto simp: local_list_def set_map_filter split: option.splits)
    from assms(2) kv obtain k' where k': "cd_enc_key C k' = Some key" by (force simp: simulates_def)
    with assms(1) k have "k' = k" unfolding codec_ok_def by (metis option.inject)
    with k' assms(2) have "stores C (mem_get k m) (bt_lookup db key)" by (auto simp: simulates_def)
    with kv wf obtain g' h' where g': "mem_get k m = Some g'" and "cd_collect C g' = Some h'" "cd_enc C h' = Some v"
      by (auto simp: stores_def bt_lookup_Some_iff [symmetric] split: option.splits)
    with assms(1) h have "g = reload C g'" by (auto simp: codec_ok_def reload_def g)
    with g' f wf show ?thesis by (auto simp: memory.set_list)
  qed
  moreover have "reload C g' \<in> set (local_list C f db)" if "g' \<in> set (mem_list f m)" for g'
  proof -
    from that wf obtain k where f: "filter_contains f k" and g': "mem_get k m = Some g'" by (auto simp: memory.set_list)
    from assms(1) obtain s where s: "cd_enc_key C k = Some s" "cd_dec_key C s = Some k"
      unfolding codec_ok_def by blast
    with assms(2) g' have "stores C (Some g') (bt_lookup db s)" by (force simp: simulates_def)
    then obtain h v where h: "cd_collect C g' = Some h" "cd_enc C h = Some v" "(s, v) \<in> set db"
      using wf by (auto simp: stores_def bt_lookup_Some_iff)
    with assms(1) have "cd_dec C v = Some h" by (simp add: codec_ok_def)
    with h s f show ?thesis by (force simp: local_list_def set_map_filter reload_def)
  qed
  ultimately show ?thesis by blast
qed

text \<open>C17: the two stores are interchangeable. After the same inserts and removes from an empty store,
  the local store answers every \<open>get\<close> and every \<open>list\<close> as the in-memory store does, with the graphs
  collected once; the JSON encoding only has to be invertible.\<close>

theorem local_store_refines_memory:
  assumes "codec_ok C"
    and "fold_result (run_op C) ops (LocalStore []) = Inr (LocalStore db)"
    and "fold_result (run_op C) ops (MemoryStore []) = Inr (MemoryStore m)"
  shows "store_get C k (LocalStore db) = Inr (map_option (reload C) (mem_get k m)) \<and>
    set (store_list C f (LocalStore db)) = reload C ` set (store_list C f (MemoryStore m))"
proof -
  have "simulates C [] []" by (simp add: simulates_def stores_def mem_get_def)
  from simulates_run [OF assms(1) this assms(2,3)] show ?thesis
    by (simp add: simulates_get [OF assms(1)] simulates_list [OF assms(1)])
qed

text \<open>A graph inserted through a scoped store ends up in the namespace of the scope, whatever
  namespace it names itself, and no other namespace changes.\<close>

theorem scoped_insert_isolated:
  assumes "bt_wf m"
  shows "mem_get (GraphScope (scope_namespace scope) (scope_name (gr_scope g))) (scoped_insert scope g m)
      = Some (g\<lparr>gr_scope := GraphScope (scope_namespace scope) (scope_name (gr_scope g))\<rparr>) \<and>
    (scope_namespace k \<noteq> scope_namespace scope \<longrightarrow> mem_get k (scoped_insert scope g m) = mem_get k m)"
  using assms by (auto simp: scoped_insert_def memory.get_insert)

text \<open>An invertible encoding of the keys and of bare graphs: the namespace with its length in unary.\<close>

fun enc_scope :: "graph_scope \<Rightarrow> string" where
  "enc_scope (GraphScope ns nm) = replicate (length ns) (CHR ''1'') @ CHR ''0'' # ns @ nm"

definition dec_scope :: "string \<Rightarrow> graph_scope" where
  "dec_scope s = (let n = length (takeWhile (\<lambda>c. c = CHR ''1'') s); t = drop (Suc n) s in
     GraphScope (take n t) (drop n t))"

definition bare_codec :: "((unit, unit, unit) stored_graph, (unit, unit, unit) stored_graph) codec" where
  "bare_codec = \<lparr>cd_collect = Some, cd_lazy = (\<lambda>h. h), cd_scope = gr_scope,
     cd_enc_key = (\<lambda>k. Some (enc_scope k)), cd_dec_key = (\<lambda>s. Some (dec_scope s)),
     cd_enc = (\<lambda>h. Some ((if gr_connector h = None then CHR ''0'' else CHR ''1'') # enc_scope (gr_scope h))),
     cd_dec = (\<lambda>s. Some \<lparr>gr_connector = (if hd s = CHR ''0'' then None else Some ()), gr_data = (),
       gr_metadata = (), gr_scope = dec_scope (tl s)\<rparr>)\<rparr>"

lemma dec_enc_scope [simp]: "dec_scope (enc_scope k) = k"
proof (cases k)
  case (GraphScope ns nm)
  have "takeWhile (\<lambda>c. c = CHR ''1'') (enc_scope k) = replicate (length ns) (CHR ''1'')"
    unfolding GraphScope enc_scope.simps by (subst takeWhile_append2) auto
  then show ?thesis by (simp add: dec_scope_def GraphScope)
qed

lemma bare_codec_ok: "codec_ok bare_codec"
  by (auto simp: codec_ok_def bare_codec_def)

definition sample_graph :: "(unit, unit, unit) stored_graph" where
  "sample_graph = \<lparr>gr_connector = None, gr_data = (), gr_metadata = (), gr_scope = GraphScope ''n'' ''a''\<rparr>"

theorem local_store_refines_memory_witness:
  "store_get bare_codec (GraphScope ''n'' ''a'')
     (LocalStore [(''10na'', ''010na'')] :: (unit, unit, unit) graph_store) = Inr (Some sample_graph)"
proof -
  have "fold_result (run_op bare_codec) [OpInsert sample_graph, OpRemove (GraphScope ''n'' ''b'')] (LocalStore []) =
      Inr (LocalStore [(''10na'', ''010na'')])"
    by (simp add: local_insert_def local_remove_def bare_codec_def sample_graph_def or_error_def)
  moreover have "fold_result (run_op bare_codec) [OpInsert sample_graph, OpRemove (GraphScope ''n'' ''b'')] (MemoryStore []) =
      Inr (MemoryStore [(GraphScope ''n'' ''a'', sample_graph)])"
    by (simp add: mem_insert_def mem_remove_def sample_graph_def)
  ultimately show ?thesis
    using local_store_refines_memory [OF bare_codec_ok, where f = "filter_all ''n''" and k = "GraphScope ''n'' ''a''"]
    by (fastforce simp: mem_get_def reload_def bare_codec_def)
qed

theorem scoped_insert_isolated_witness:
  "mem_get (GraphScope ''m'' ''a'') (scoped_insert (GraphScope ''m'' ''x'') sample_graph []) =
     Some (sample_graph\<lparr>gr_scope := GraphScope ''m'' ''a''\<rparr>)"
  using scoped_insert_isolated [of "[]" "GraphScope ''m'' ''x''" sample_graph] by (simp add: sample_graph_def)

end
