(* ===== verification/Resource_Db.thy ===== *)
theory Resource_Db imports Graph_Meta begin

text \<open>
  The resource store of the local virtual machine (\<open>crates/kubegraph/vm/local/src/resource.rs\<close>):
  connectors, functions and problems by scope, and one "has been updated" flag per connector type,
  which lets a connector worker skip a listing that has not changed. The types are those of
  \<open>crates/kubegraph/api/src/connector/mod.rs\<close>.
\<close>

section \<open>Model\<close>

datatype connector_type = CtUnknown | CtFake | CtHttp | CtLocal | CtPrometheus

fun connector_rank :: "connector_type \<Rightarrow> nat" where
  "connector_rank CtUnknown = 0"
| "connector_rank CtFake = 1"
| "connector_rank CtHttp = 2"
| "connector_rank CtLocal = 3"
| "connector_rank CtPrometheus = 4"

lemma connector_rank_inj: "connector_rank a = connector_rank b \<Longrightarrow> a = b"
  by (cases a; cases b) simp_all

instantiation connector_type :: linorder
begin

definition less_eq_connector_type :: "connector_type \<Rightarrow> connector_type \<Rightarrow> bool" where
  "less_eq_connector_type a b \<longleftrightarrow> connector_rank a \<le> connector_rank b"

definition less_connector_type :: "connector_type \<Rightarrow> connector_type \<Rightarrow> bool" where
  "less_connector_type a b \<longleftrightarrow> connector_rank a < connector_rank b"

instance
  by standard (auto simp: less_eq_connector_type_def less_connector_type_def dest: connector_rank_inj)

end

text \<open>A connector is its kind, with the fields of the kind in \<open>'s\<close>, under the scope of its object.\<close>

datatype 's connector_kind = KUnknown | KFake 's | KHttp 's | KLocal 's | KPrometheus 's

fun kind_to_ref :: "'s connector_kind \<Rightarrow> connector_type" where
  "kind_to_ref KUnknown = CtUnknown"
| "kind_to_ref (KFake s) = CtFake"
| "kind_to_ref (KHttp s) = CtHttp"
| "kind_to_ref (KLocal s) = CtLocal"
| "kind_to_ref (KPrometheus s) = CtPrometheus"

record 's connector_cr =
  cn_namespace :: "string option"
  cn_name :: string
  cn_kind :: "'s connector_kind"

definition connector_scope :: "'s connector_cr \<Rightarrow> graph_scope" where
  "connector_scope cr = scope_from_resource (cn_namespace cr) (cn_name cr)"

definition connector_ref :: "'s connector_cr \<Rightarrow> connector_type" where
  "connector_ref cr = kind_to_ref (cn_kind cr)"

record 'o object_cr =
  ob_namespace :: "string option"
  ob_name :: string
  ob_spec :: 'o

definition object_scope :: "'o object_cr \<Rightarrow> graph_scope" where
  "object_scope o' = scope_from_resource (ob_namespace o') (ob_name o')"

record ('s, 'f, 'p) resource_db =
  rd_connectors :: "(graph_scope \<times> 's connector_cr) list"
  rd_updated :: "(connector_type \<times> bool) list"
  rd_functions :: "(graph_scope \<times> 'f object_cr) list"
  rd_problems :: "(graph_scope \<times> 'p object_cr) list"

definition empty_resource_db :: "('s, 'f, 'p) resource_db" where
  "empty_resource_db = \<lparr>rd_connectors = [], rd_updated = [], rd_functions = [], rd_problems = []\<rparr>"

text \<open>\<open>entry(t).and_modify(|updated| *updated = true)\<close>: a flag that is not there is not created.\<close>

definition mark_updated :: "connector_type \<Rightarrow> (connector_type \<times> bool) list \<Rightarrow> (connector_type \<times> bool) list" where
  "mark_updated t flags = (if bt_lookup flags t = None then flags else bt_insert t True flags)"

definition delete_connector :: "graph_scope \<Rightarrow> ('s, 'f, 'p) resource_db \<Rightarrow> ('s, 'f, 'p) resource_db" where
  "delete_connector key db =
     (let db' = db\<lparr>rd_connectors := bt_remove key (rd_connectors db)\<rparr> in
      case bt_lookup (rd_connectors db) key of
        Some cr \<Rightarrow> db'\<lparr>rd_updated := mark_updated (connector_ref cr) (rd_updated db')\<rparr>
      | None \<Rightarrow> db')"

definition insert_connector :: "'s connector_cr \<Rightarrow> ('s, 'f, 'p) resource_db \<Rightarrow> ('s, 'f, 'p) resource_db" where
  "insert_connector cr db =
     db\<lparr>rd_connectors := bt_insert (connector_scope cr) cr (rd_connectors db),
        rd_updated := mark_updated (connector_ref cr) (rd_updated db)\<rparr>"

definition connectors_of :: "connector_type \<Rightarrow> ('s, 'f, 'p) resource_db \<Rightarrow> 's connector_cr list" where
  "connectors_of t db = filter (\<lambda>cr. connector_ref cr = t) (map snd (rd_connectors db))"

definition list_connectors :: "connector_type \<Rightarrow> ('s, 'f, 'p) resource_db \<Rightarrow>
    's connector_cr list option \<times> ('s, 'f, 'p) resource_db" where
  "list_connectors t db =
     (let updated = (case bt_lookup (rd_updated db) t of Some b \<Rightarrow> b | None \<Rightarrow> True) in
      if updated then (Some (connectors_of t db), db\<lparr>rd_updated := bt_insert t False (rd_updated db)\<rparr>)
      else (None, db))"

definition delete_function :: "graph_scope \<Rightarrow> ('s, 'f, 'p) resource_db \<Rightarrow> ('s, 'f, 'p) resource_db" where
  "delete_function key db = db\<lparr>rd_functions := bt_remove key (rd_functions db)\<rparr>"

definition insert_function :: "'f object_cr \<Rightarrow> ('s, 'f, 'p) resource_db \<Rightarrow> ('s, 'f, 'p) resource_db" where
  "insert_function f db = db\<lparr>rd_functions := bt_insert (object_scope f) f (rd_functions db)\<rparr>"

definition list_functions :: "('s, 'f, 'p) resource_db \<Rightarrow> 'f object_cr list" where
  "list_functions db = map snd (rd_functions db)"

definition delete_problem :: "graph_scope \<Rightarrow> ('s, 'f, 'p) resource_db \<Rightarrow> ('s, 'f, 'p) resource_db" where
  "delete_problem key db = db\<lparr>rd_problems := bt_remove key (rd_problems db)\<rparr>"

definition insert_problem :: "'p object_cr \<Rightarrow> ('s, 'f, 'p) resource_db \<Rightarrow> ('s, 'f, 'p) resource_db" where
  "insert_problem p db = db\<lparr>rd_problems := bt_insert (object_scope p) p (rd_problems db)\<rparr>"

definition list_problems :: "('s, 'f, 'p) resource_db \<Rightarrow> 'p object_cr list" where
  "list_problems db = map snd (rd_problems db)"

section \<open>Change notification\<close>

text \<open>
  The workers share the store: a run is a sequence of the operations on connectors. With the last
  listing every worker was given, the worker's view is right as long as its flag is down.
\<close>

datatype 's conn_op = CInsert "'s connector_cr" | CDelete graph_scope | CList connector_type

type_synonym 's views = "connector_type \<Rightarrow> 's connector_cr list option"

fun run_conn :: "'s conn_op \<Rightarrow> ('s, 'f, 'p) resource_db \<times> 's views \<Rightarrow> ('s, 'f, 'p) resource_db \<times> 's views" where
  "run_conn (CInsert cr) (db, seen) = (insert_connector cr db, seen)"
| "run_conn (CDelete key) (db, seen) = (delete_connector key db, seen)"
| "run_conn (CList t) (db, seen) =
     (case list_connectors t db of
        (Some crs, db') \<Rightarrow> (db', seen(t := Some crs))
      | (None, db') \<Rightarrow> (db', seen))"

text \<open>No insert replaces a connector by one of another type.\<close>

fun keeps_type :: "'s conn_op \<Rightarrow> ('s, 'f, 'p) resource_db \<Rightarrow> bool" where
  "keeps_type (CInsert cr) db =
     (case bt_lookup (rd_connectors db) (connector_scope cr) of
        Some old \<Rightarrow> connector_ref old = connector_ref cr
      | None \<Rightarrow> True)"
| "keeps_type (CDelete key) db = True"
| "keeps_type (CList t) db = True"

fun run_conns :: "'s conn_op list \<Rightarrow> ('s, 'f, 'p) resource_db \<times> 's views \<Rightarrow> ('s, 'f, 'p) resource_db \<times> 's views" where
  "run_conns [] s = s"
| "run_conns (op # ops) s = run_conns ops (run_conn op s)"

fun all_keep_type :: "'s conn_op list \<Rightarrow> ('s, 'f, 'p) resource_db \<times> 's views \<Rightarrow> bool" where
  "all_keep_type [] s = True"
| "all_keep_type (op # ops) s = (keeps_type op (fst s) \<and> all_keep_type ops (run_conn op s))"

definition view_inv :: "('s, 'f, 'p) resource_db \<times> 's views \<Rightarrow> bool" where
  "view_inv s \<longleftrightarrow> bt_wf (rd_connectors (fst s)) \<and> bt_wf (rd_updated (fst s)) \<and>
     (\<forall>t. bt_lookup (rd_updated (fst s)) t = Some False \<longrightarrow> snd s t = Some (connectors_of t (fst s)))"

lemma mark_updated_lookup:
  "bt_lookup (mark_updated t flags) u = Some False \<longleftrightarrow> bt_lookup flags u = Some False \<and> u \<noteq> t"
  by (auto simp: mark_updated_def bt_lookup_insert)

lemma mark_updated_wf [simp]: "bt_wf flags \<Longrightarrow> bt_wf (mark_updated t flags)"
  by (simp add: mark_updated_def)

text \<open>A listing of another type does not see an insert or a delete.\<close>

lemma filter_bt_insert:
  assumes "bt_wf m" and "\<not> Q v" and "\<And>w. bt_lookup m k = Some w \<Longrightarrow> \<not> Q w"
  shows "filter Q (map snd (bt_insert k v m)) = filter Q (map snd m)"
  using assms
proof (induction k v m rule: bt_insert.induct)
  case (2 k v k' v' m)
  then show ?case by (auto simp: bt_wf_Cons split: if_splits)
qed simp

lemma filter_bt_remove:
  assumes "\<And>w. bt_lookup m k = Some w \<Longrightarrow> \<not> Q w"
  shows "filter Q (map snd (bt_remove k m)) = filter Q (map snd m)"
  using assms by (induction k m rule: bt_remove.induct) (auto split: if_splits)

lemma view_inv_step:
  assumes "view_inv s" and "keeps_type op (fst s)"
  shows "view_inv (run_conn op s)"
proof -
  obtain db seen where s: "s = (db, seen)" by fastforce
  from assms(1) have wf: "bt_wf (rd_connectors db)" "bt_wf (rd_updated db)"
    and seen: "\<And>t. bt_lookup (rd_updated db) t = Some False \<Longrightarrow> seen t = Some (connectors_of t db)"
    by (auto simp: view_inv_def s)
  show ?thesis
  proof (cases op)
    case (CInsert cr)
    have "connectors_of t (insert_connector cr db) = connectors_of t db" if "t \<noteq> connector_ref cr" for t
      using assms(2) that wf(1) unfolding connectors_of_def
      by (simp add: insert_connector_def) (rule filter_bt_insert; simp add: CInsert s)
    with wf seen show ?thesis
      by (auto simp: view_inv_def s CInsert insert_connector_def [of cr db] mark_updated_lookup)
  next
    case (CDelete key)
    show ?thesis
    proof (cases "bt_lookup (rd_connectors db) key")
      case None
      then have "connectors_of t (delete_connector key db) = connectors_of t db" for t
        using filter_bt_remove [of "rd_connectors db" key] by (simp add: connectors_of_def delete_connector_def)
      with None wf seen show ?thesis by (simp add: view_inv_def s CDelete delete_connector_def)
    next
      case (Some cr)
      then have "connectors_of t (delete_connector key db) = connectors_of t db" if "t \<noteq> connector_ref cr" for t
        using that filter_bt_remove [of "rd_connectors db" key] by (simp add: connectors_of_def delete_connector_def)
      with Some wf seen show ?thesis by (simp add: view_inv_def s CDelete delete_connector_def mark_updated_lookup)
    qed
  next
    case (CList t)
    have "connectors_of u (db\<lparr>rd_updated := x\<rparr>) = connectors_of u db" for u x by (simp add: connectors_of_def)
    with wf seen show ?thesis
      by (auto simp: view_inv_def s CList list_connectors_def bt_lookup_insert split: option.splits)
  qed
qed

lemma view_inv_run: "view_inv s \<Longrightarrow> all_keep_type ops s \<Longrightarrow> view_inv (run_conns ops s)"
  by (induction ops arbitrary: s) (simp_all add: view_inv_step)

text \<open>C18: a worker never misses a change. In every run in which no connector is replaced by one of
  another type, a listing that answers "unchanged" means that the worker's last listing of that type
  is exactly what the store holds now.\<close>

theorem unchanged_listing_is_current:
  fixes db :: "('s, 'f, 'p) resource_db"
  assumes "all_keep_type ops (empty_resource_db :: ('s, 'f, 'p) resource_db, \<lambda>_. None)"
    and "run_conns ops (empty_resource_db, \<lambda>_. None) = (db, seen)"
    and "fst (list_connectors t db) = None"
  shows "seen t = Some (connectors_of t db)"
proof -
  have "view_inv (empty_resource_db :: ('s, 'f, 'p) resource_db, \<lambda>_. None)" by (simp add: view_inv_def empty_resource_db_def)
  from view_inv_run [OF this assms(1)] assms(2) have "view_inv (db, seen)" by simp
  moreover from assms(3) have "bt_lookup (rd_updated db) t = Some False"
    by (auto simp: list_connectors_def Let_def split: option.splits if_splits)
  ultimately show ?thesis by (simp add: view_inv_def)
qed

definition sample_connector :: "string \<Rightarrow> nat connector_kind \<Rightarrow> nat connector_cr" where
  "sample_connector nm k = \<lparr>cn_namespace = None, cn_name = nm, cn_kind = k\<rparr>"

theorem unchanged_listing_is_current_witness:
  "\<exists>(db :: (nat, unit, unit) resource_db) seen.
     run_conns [CInsert (sample_connector ''a'' (KHttp 1)), CList CtHttp, CInsert (sample_connector ''b'' (KFake 2))]
       (empty_resource_db, \<lambda>_. None) = (db, seen) \<and> seen CtHttp = Some (connectors_of CtHttp db)"
proof -
  let ?ops = "[CInsert (sample_connector ''a'' (KHttp 1)), CList CtHttp, CInsert (sample_connector ''b'' (KFake 2))]"
  obtain db :: "(nat, unit, unit) resource_db" and seen
    where run: "run_conns ?ops (empty_resource_db, \<lambda>_. None) = (db, seen)" by fastforce
  have "all_keep_type ?ops (empty_resource_db :: (nat, unit, unit) resource_db, \<lambda>_. None)"
    by (simp add: empty_resource_db_def sample_connector_def connector_scope_def scope_from_resource_def
        insert_connector_def list_connectors_def mark_updated_def connector_ref_def less_graph_scope_def)
  moreover have "fst (list_connectors CtHttp db) = None"
    using run by (auto simp: empty_resource_db_def sample_connector_def connector_scope_def scope_from_resource_def
        insert_connector_def list_connectors_def mark_updated_def connector_ref_def less_graph_scope_def)
  ultimately have "seen CtHttp = Some (connectors_of CtHttp db)"
    using unchanged_listing_is_current [OF _ run] by blast
  with run show ?thesis by blast
qed

text \<open>A connector that is replaced by one of another type stays alive for the worker of its old
  type: after that worker's listing, the replacement raises the flag of the new type only, so the
  worker keeps being told that nothing has changed while its connector is gone.\<close>

theorem retyped_connector_is_missed:
  fixes db :: "('s, 'f, 'p) resource_db"
  assumes "connector_scope new = connector_scope old" and "connector_ref new \<noteq> connector_ref old"
    and "run_conns [CInsert old, CList (connector_ref old), CInsert new] (empty_resource_db, \<lambda>_. None) = (db, seen)"
  shows "fst (list_connectors (connector_ref old) db) = None \<and> seen (connector_ref old) = Some [old] \<and>
    connectors_of (connector_ref old) db = []"
  using assms
  by (auto simp: empty_resource_db_def insert_connector_def list_connectors_def mark_updated_def connectors_of_def)

theorem retyped_connector_is_missed_witness:
  "\<exists>(db :: (nat, unit, unit) resource_db) seen.
     run_conns [CInsert (sample_connector ''a'' (KHttp 1)), CList CtHttp, CInsert (sample_connector ''a'' (KFake 2))]
       (empty_resource_db, \<lambda>_. None) = (db, seen) \<and>
     fst (list_connectors CtHttp db) = None \<and> connectors_of CtHttp db = []"
proof -
  obtain db :: "(nat, unit, unit) resource_db" and seen where run:
    "run_conns [CInsert (sample_connector ''a'' (KHttp 1)), CList CtHttp, CInsert (sample_connector ''a'' (KFake 2))]
       (empty_resource_db, \<lambda>_. None) = (db, seen)" by fastforce
  with retyped_connector_is_missed [where old = "sample_connector ''a'' (KHttp 1)" and new = "sample_connector ''a'' (KFake 2)"
      and db = db and seen = seen]
  show ?thesis by (auto simp: sample_connector_def connector_scope_def connector_ref_def)
qed

end
