(* ===== verification/Dep_Solver.thy ===== *)
theory Dep_Solver imports Dep_Graph Dep_Merge Lang_Correct Graph_Meta begin

text \<open>
  The dependency solver of \<open>crates/kubegraph/dependency/solver/src/lib.rs\<close>: functions are compiled
  and classified, every graph is given the pipeline of functions that makes edges of its nodes, the
  pipelines are merged, and the merged pipelines are run. The inference of a function is
  \<open>NetworkFunctionTemplate::infer\<close> of \<open>crates/kubegraph/vm/lazy/src/function.rs\<close>.
\<close>

section \<open>Inference\<close>

datatype infer_type = InferEdge | InferNode

record 'n template =
  tm_filter :: "'n vm option"
  tm_script :: "'n vm"

text \<open>\<open>Context::try_new\<close>, \<open>LazyVirtualMachine::call_filter\<close> and \<open>call\<close>, for a problem whose pinned
  metadata is \<open>pm\<close>.\<close>

definition ctx_try_new :: "('df, 'e, 'n) polars \<Rightarrow> pinned \<Rightarrow> 'df frame \<Rightarrow> infer_type \<Rightarrow>
    vm_error + ('df, 'e, 'n) ctx" where
  "ctx_try_new P pm nodes ty =
     rbind (case ty of
              InferEdge \<Rightarrow> fabric P (pn_name pm) (pn_src pm) (pn_sink pm) (pn_capacity pm) nodes
            | InferNode \<Rightarrow> Inr nodes)
       (\<lambda>df. Inr (initial_ctx df))"

definition call_filter :: "'n arith \<Rightarrow> ('df, 'e, 'n) polars \<Rightarrow> pinned \<Rightarrow> 'n vm \<Rightarrow> 'df frame \<Rightarrow> infer_type \<Rightarrow>
    vm_error + 'e" where
  "call_filter A P pm m nodes ty =
     rbind (ctx_try_new P pm nodes ty) (\<lambda>c.
     rbind (ctx_call A P (local_variables m) None c) (\<lambda>c'. try_into_filter A P c'))"

definition vm_call :: "'n arith \<Rightarrow> ('df, 'e, 'n) polars \<Rightarrow> pinned \<Rightarrow> graph_scope \<Rightarrow> 'n vm \<Rightarrow> 'df frame \<Rightarrow>
    'e option \<Rightarrow> infer_type \<Rightarrow> vm_error + 'df frame" where
  "vm_call A P pm fn_scope m nodes flt ty =
     rbind (ctx_try_new P pm nodes ty) (\<lambda>c.
     rbind (ctx_call A P (local_variables m) flt c) (\<lambda>c'.
       alias_function P (Pinned pm) fn_scope (edges c')))"

definition infer :: "'n arith \<Rightarrow> ('df, 'e, 'n) polars \<Rightarrow> pinned \<Rightarrow> 'n template \<Rightarrow> graph_scope \<Rightarrow>
    'df frame \<Rightarrow> infer_type \<Rightarrow> vm_error + 'df frame" where
  "infer A P pm tm fn_scope nodes ty =
     rbind (case tm_filter tm of
              None \<Rightarrow> Inr None
            | Some m \<Rightarrow> rbind (call_filter A P pm m nodes ty) (\<lambda>e. Inr (Some e)))
       (\<lambda>flt. vm_call A P pm fn_scope (tm_script tm) nodes flt ty)"

section \<open>Functions\<close>

record 'n function_cr =
  fc_namespace :: "string option"
  fc_name :: string
  fc_is_annotation :: bool
  fc_filter :: "'n pfilter option"
  fc_script :: "'n pstmt list"

record 'n solver_fn =
  sf_scope :: graph_scope
  sf_name :: string
  sf_template :: "'n template"

text \<open>The replacement of the regular expression \<open>^s(rc|ink)\.\<close> by the empty string.\<close>

definition strip_side :: "string \<Rightarrow> string" where
  "strip_side name =
     (if take 4 name = ''src.'' then drop 4 name
      else if take 5 name = ''sink.'' then drop 5 name
      else name)"

text \<open>A \<open>BTreeSet\<close> collected into a vector.\<close>

definition sorted_names :: "string list \<Rightarrow> string list" where
  "sorted_names names = map fst (bt_of_list (map (\<lambda>x. (x, ())) names))"

fun is_define :: "'n stmt \<Rightarrow> bool" where
  "is_define (DefineLocalFeature value) = True"
| "is_define (DefineLocalValue value) = True"
| "is_define s = False"

definition required_names :: "'n instruction list \<Rightarrow> string list" where
  "required_names code =
     List.map_filter (\<lambda>ins. if is_define (ins_stmt ins) then map_option strip_side (ins_name ins) else None) code"

definition provided_names :: "'n instruction list \<Rightarrow> string list" where
  "provided_names code =
     List.map_filter (\<lambda>ins. if is_define (ins_stmt ins) then None else map_option strip_side (ins_name ins)) code"

definition function_new :: "'n arith \<Rightarrow> pinned \<Rightarrow> 'n function_cr \<Rightarrow> vm_error + ('n solver_fn, string) node" where
  "function_new A pm cr =
     rbind (case fc_filter cr of None \<Rightarrow> Inr None | Some f \<Rightarrow> rbind (with_lazy_filter A f) (\<lambda>m. Inr (Some m))) (\<lambda>flt.
     rbind (with_lazy_script A (fc_script cr)) (\<lambda>script.
       let code = dump_script script @ (case flt of None \<Rightarrow> [] | Some m \<Rightarrow> dump_script m);
           final = (\<not> fc_is_annotation cr) in
       Inr \<lparr>nd_item = \<lparr>sf_scope = scope_from_resource (fc_namespace cr) (fc_name cr), sf_name = fc_name cr,
              sf_template = \<lparr>tm_filter = flt, tm_script = script\<rparr>\<rparr>,
            is_final = final,
            provided = sorted_names (provided_names code @ (if final then [pn_function pm] else [])),
            requirements = sorted_names (required_names code)\<rparr>))"

section \<open>Pipelines of the graphs\<close>

definition solver_claim :: "pinned \<Rightarrow> graph_metadata \<Rightarrow> string claim" where
  "solver_claim pm m =
     \<lparr>opts = default_claim_options, claim_src = all_node_inputs_raw m, claim_sink = all_node_inputs (Pinned pm)\<rparr>"

text \<open>\<open>build_pipelines\<close>: the last pipeline found for each graph, or its nodes as they are.\<close>

fun build_pipelines :: "('n solver_fn, string) graph \<Rightarrow> pinned \<Rightarrow> (graph_metadata \<times> 'f) list \<Rightarrow>
    (('n solver_fn, string) pipeline \<times> 'f) list \<times> 'f list" where
  "build_pipelines g pm [] = ([], [])"
| "build_pipelines g pm ((m, nodes) # rest) =
     (case build_pipelines g pm rest of (pipelines, dropped) \<Rightarrow>
        (case build_pipeline g (solver_claim pm m) of
           Some ps \<Rightarrow> if ps = [] then (pipelines, nodes # dropped) else ((last ps, nodes) # pipelines, dropped)
         | None \<Rightarrow> (pipelines, nodes # dropped)))"

text \<open>Step 5: only the first function of a pipeline carries the nodes.\<close>

record ('n, 'f) pnode =
  pn_fn :: "('n solver_fn, string) node"
  pn_nodes :: "'f option"

definition pnode_key :: "('n, 'f) pnode \<Rightarrow> string" where
  "pnode_key p = sf_name (nd_item (pn_fn p))"

fun pipeline_nodes :: "('n solver_fn, string) pipeline \<times> 'f \<Rightarrow> ('n, 'f) pnode list" where
  "pipeline_nodes ([], nodes) = []"
| "pipeline_nodes (f # fs, nodes) =
     \<lparr>pn_fn = f, pn_nodes = Some nodes\<rparr> # map (\<lambda>f. \<lparr>pn_fn = f, pn_nodes = None\<rparr>) fs"

section \<open>Running the merged pipelines\<close>

datatype solver_error = EmptyInputGraphs | EmptyFunction | VmError vm_error

text \<open>Step 6. The state: the pending frames of every pipeline index, the nodes that reached a final
  function, and the edges of the finished pipelines.\<close>

record 'f run_state =
  rs_stack :: "(nat \<times> 'f list) list"
  rs_final_nodes :: "'f list"
  rs_edges :: "'f list"

text \<open>One function call, \<open>call f inputs\<close> being the inference on the collected inputs.\<close>

definition run_item :: "('f list \<Rightarrow> 'f) \<Rightarrow> (('n solver_fn, string) node \<Rightarrow> 'f \<Rightarrow> vm_error + 'f) \<Rightarrow>
    ('n, 'f) pnode list \<Rightarrow> 'f list \<Rightarrow> 'f run_state \<Rightarrow> solver_error + 'f list \<times> 'f run_state" where
  "run_item collect call nbrs nodes st =
     (let nodes' = nodes @ List.map_filter pn_nodes nbrs in
      if nodes' = [] then Inl EmptyInputGraphs
      else case nbrs of
          [] \<Rightarrow> Inl EmptyFunction
        | p # _ \<Rightarrow>
           (let inputs = collect nodes';
                st' = (if is_final (pn_fn p) then st\<lparr>rs_final_nodes := rs_final_nodes st @ [inputs]\<rparr> else st) in
            case call (pn_fn p) inputs of
              Inl e \<Rightarrow> Inl (VmError e)
            | Inr output \<Rightarrow> Inr ([output], st')))"

fun run_merged :: "('f list \<Rightarrow> 'f) \<Rightarrow> (('n solver_fn, string) node \<Rightarrow> 'f \<Rightarrow> vm_error + 'f) \<Rightarrow>
    ('n, 'f) pnode merged list \<Rightarrow> 'f list \<Rightarrow> 'f run_state \<Rightarrow> solver_error + 'f list \<times> 'f run_state" where
  "run_merged collect call [] nodes st = Inr (nodes, st)"
| "run_merged collect call (Item nbrs # rest) nodes st =
     rbind (run_item collect call nbrs nodes st) (\<lambda>(nodes', st'). run_merged collect call rest nodes' st')"
| "run_merged collect call (Next index # rest) nodes st =
     run_merged collect call rest []
       (st\<lparr>rs_stack := bt_insert index
          ((case bt_lookup (rs_stack st) index of Some fs \<Rightarrow> fs | None \<Rightarrow> []) @ nodes) (rs_stack st)\<rparr>)"

definition run_pipeline :: "('f list \<Rightarrow> 'f) \<Rightarrow> (('n solver_fn, string) node \<Rightarrow> 'f \<Rightarrow> vm_error + 'f) \<Rightarrow>
    nat \<times> ('n, 'f) pnode merged list \<Rightarrow> 'f run_state \<Rightarrow> solver_error + 'f run_state" where
  "run_pipeline collect call ip st =
     (let nodes = (case bt_lookup (rs_stack st) (fst ip) of Some fs \<Rightarrow> fs | None \<Rightarrow> []);
          st1 = st\<lparr>rs_stack := bt_remove (fst ip) (rs_stack st)\<rparr> in
      rbind (run_merged collect call (snd ip) nodes st1) (\<lambda>(nodes', st2).
        Inr (st2\<lparr>rs_edges := rs_edges st2 @ nodes'\<rparr>)))"

definition run_pipelines :: "('f list \<Rightarrow> 'f) \<Rightarrow> (('n solver_fn, string) node \<Rightarrow> 'f \<Rightarrow> vm_error + 'f) \<Rightarrow>
    ('n, 'f) pnode merged list list \<Rightarrow> solver_error + 'f run_state" where
  "run_pipelines collect call merged =
     fold_result (run_pipeline collect call) (rev (enumerate 0 merged))
       \<lparr>rs_stack = [], rs_final_nodes = [], rs_edges = []\<rparr>"

section \<open>The whole solver\<close>

record 'f input_graph =
  ig_metadata :: graph_metadata
  ig_edges :: 'f
  ig_nodes :: 'f
  ig_scope :: graph_scope

record 'f solved =
  so_graph :: "'f graph_data"
  so_static_edges :: 'f

definition of_vm :: "vm_error + 'a \<Rightarrow> solver_error + 'a" where
  "of_vm r = (case r of Inl e \<Rightarrow> Inl (VmError e) | Inr x \<Rightarrow> Inr x)"

definition solver_build_pipeline ::
    "'n arith \<Rightarrow> ('df, 'e, 'n) polars \<Rightarrow> ('df list \<Rightarrow> 'df option) \<Rightarrow> pinned \<Rightarrow> graph_scope \<Rightarrow>
     'n function_cr list \<Rightarrow> 'df frame input_graph list \<Rightarrow> solver_error + 'df frame solved" where
  "solver_build_pipeline A P concat_diagonal pm scope functions graphs =
     rbind (of_vm (traverse (function_new A pm) functions)) (\<lambda>fns.
     rbind (of_vm (traverse (\<lambda>g. rbind (alias_nodes P (Pinned pm) (ig_scope g) (ig_nodes g))
                      (\<lambda>nodes. Inr (ig_metadata g, nodes))) graphs)) (\<lambda>static_nodes.
     rbind (of_vm (mark_as_static P (Pinned pm) (scope_namespace scope)
                      (edges_from_iter concat_diagonal (map ig_edges graphs)))) (\<lambda>static_edges.
       let (pipelines, dropped) = build_pipelines (fold add_node fns []) pm static_nodes;
           merged = merge_pipelines pnode_key (map pipeline_nodes pipelines);
           call = (\<lambda>f inputs. infer A P pm (sf_template (nd_item f)) (sf_scope (nd_item f)) inputs
                     (if is_final f then InferEdge else InferNode)) in
       rbind (run_pipelines (edges_from_iter concat_diagonal) call merged) (\<lambda>st.
         Inr \<lparr>so_graph =
                \<lparr>gd_edges = edges_from_iter concat_diagonal (rs_edges st @ [static_edges]),
                 gd_nodes = edges_from_iter concat_diagonal (rs_final_nodes st @ dropped)\<rparr>,
              so_static_edges = static_edges\<rparr>))))"

section \<open>Every call has an input\<close>

text \<open>A trie is fed when every leaf holds a node that carries an input (\<open>Q\<close>).\<close>

inductive fed :: "('t \<Rightarrow> bool) \<Rightarrow> ('k, 't) rnode \<Rightarrow> bool" for Q where
  fed_leaf: "x \<in> set ns \<Longrightarrow> Q x \<Longrightarrow> fed Q (RNode ns [])"
| fed_inner: "ps \<noteq> [] \<Longrightarrow> (\<And>k c. (k, c) \<in> set ps \<Longrightarrow> fed Q c) \<Longrightarrow> fed Q (RNode ns ps)"

inductive_simps fed_RNode: "fed Q (RNode ns ps)"

definition children_fed :: "('t \<Rightarrow> bool) \<Rightarrow> ('k, 't) rnode \<Rightarrow> bool" where
  "children_fed Q t \<longleftrightarrow> (\<forall>(k, c) \<in> set (prevs t). fed Q c)"

lemma fed_children: "fed Q t \<Longrightarrow> children_fed Q t"
  by (cases t) (auto simp: fed_RNode children_fed_def)

lemma fed_neighbors: "fed Q (RNode ns ps) \<Longrightarrow> set ns \<subseteq> set ns' \<Longrightarrow> fed Q (RNode ns' ps)"
  by (auto simp: fed_RNode)

lemma resolve_fed:
  assumes "children_fed Q t" and "bt_wf (prevs t)"
  shows "children_fed Q (resolve key x b (prevs t))" and "b \<Longrightarrow> Q x \<Longrightarrow> fed Q (resolve key x b (prevs t))"
proof -
  have e: "fed Q e" if "bt_lookup (prevs t) (key x) = Some e" for e
    using that assms by (auto simp: children_fed_def bt_lookup_Some_iff)
  show "children_fed Q (resolve key x b (prevs t))"
  proof (cases "bt_lookup (prevs t) (key x)")
    case None
    then show ?thesis by (simp add: resolve_def new_rnode_def children_fed_def)
  next
    case (Some e')
    from fed_children [OF e [OF this]] Some show ?thesis
      by (simp add: resolve_def children_fed_def)
  qed
  show "fed Q (resolve key x b (prevs t))" if "b" "Q x"
  proof (cases "bt_lookup (prevs t) (key x)")
    case None
    with that show ?thesis by (auto simp: resolve_def new_rnode_def fed_RNode)
  next
    case (Some e')
    with e that show ?thesis by (cases e') (auto simp: resolve_def intro: fed_neighbors)
  qed
qed

lemma insert_reversed_fed:
  assumes "children_fed Q t" and "wf_trie key t" and "xs \<noteq> [] \<Longrightarrow> Q (last xs)"
  shows "children_fed Q (insert_reversed key xs t) \<and> (xs \<noteq> [] \<longrightarrow> fed Q (insert_reversed key xs t))"
  using assms
proof (induction key xs t rule: insert_reversed.induct)
  case (1 key t)
  then show ?case by simp
next
  case (2 key x xs t)
  let ?r = "resolve key x (xs = []) (prevs t)"
  from "2.prems"(2) have wf: "bt_wf (prevs t)" by (simp add: wf_trie_iff [of key t])
  have r: "children_fed Q ?r" by (rule resolve_fed [OF "2.prems"(1) wf])
  have wf_r: "wf_trie key ?r" using resolve_wf [OF "2.prems"(2)] by blast
  have "fed Q (insert_reversed key xs ?r)"
  proof (cases "xs = []")
    case True
    with resolve_fed(2) [OF "2.prems"(1) wf] "2.prems"(3) show ?thesis by simp
  next
    case False
    with "2.IH" [OF r wf_r] "2.prems"(3) show ?thesis by simp
  qed
  moreover have "bt_insert k v m \<noteq> []" for k v and m :: "('b \<times> ('b, 'a) rnode) list"
    by (cases m) (auto split: if_split_asm)
  ultimately show ?case
    using "2.prems"(1) wf by (auto simp: children_fed_def fed_RNode set_bt_insert)
qed

lemma build_trie_fed:
  assumes "\<forall>xs \<in> set ps. xs \<noteq> [] \<longrightarrow> Q (hd xs)"
  shows "children_fed Q (build_trie key ps)"
proof -
  have "children_fed Q (fold (\<lambda>nodes t. insert_reversed key (rev nodes) t) ps t)"
    if "children_fed Q t" "wf_trie key t" for t
    using assms that
  proof (induction ps arbitrary: t)
    case (Cons xs ps)
    from Cons.prems insert_reversed_fed [of Q t key "rev xs"] insert_reversed_wf [of key t "rev xs"]
    show ?case by (auto simp: last_rev intro!: Cons.IH)
  qed simp
  moreover have "children_fed Q empty_rnode" "wf_trie key empty_rnode"
    by (simp_all add: children_fed_def empty_rnode_def wf_trie_RNode)
  ultimately show ?thesis unfolding build_trie_def by blast
qed

text \<open>In the output, a pipeline starts with an item that carries an input, or a later one links to it.\<close>

definition starts_fed :: "('t \<Rightarrow> bool) \<Rightarrow> nat \<Rightarrow> 't merged list list \<Rightarrow> nat \<Rightarrow> bool" where
  "starts_fed Q n out j \<longleftrightarrow>
     (\<exists>ns rest. out ! j = Item ns # rest \<and>
        ((\<exists>x \<in> set ns. Q x) \<or> (\<exists>i. j < i \<and> i < length out \<and> last (out ! i) = Next (n + j))))"

lemma starts_fed_append:
  "j < length xs \<Longrightarrow> starts_fed Q n xs j \<Longrightarrow> starts_fed Q n (xs @ ys) j"
  by (fastforce simp: starts_fed_def nth_append)

lemma starts_fed_shift:
  assumes "starts_fed Q (n + length xs) ys j"
  shows "starts_fed Q n (xs @ ys) (length xs + j)"
proof -
  from assms obtain ns rest where r: "ys ! j = Item ns # rest"
    and d: "(\<exists>x \<in> set ns. Q x) \<or> (\<exists>i. j < i \<and> i < length ys \<and> last (ys ! i) = Next (n + length xs + j))"
    by (auto simp: starts_fed_def)
  have "\<exists>i'. length xs + j < i' \<and> i' < length (xs @ ys) \<and> last ((xs @ ys) ! i') = Next (n + (length xs + j))"
    if "j < i" "i < length ys" "last (ys ! i) = Next (n + length xs + j)" for i
    using that by (intro exI [of _ "length xs + i"]) (simp add: add.assoc)
  with r d show ?thesis by (auto simp: starts_fed_def)
qed

lemma emit_starts_fed:
  fixes t :: "('k, 't) rnode" and ts :: "('k, 't) rnode list"
  shows "fed Q t \<Longrightarrow> (\<forall>j < length (emit acc nxt n t). starts_fed Q n (emit acc nxt n t) j) \<and>
      emit acc nxt n t \<noteq> [] \<and> (\<forall>m. nxt = Some m \<longrightarrow> last (emit acc nxt n t ! 0) = Next m)"
    and "(\<And>t. t \<in> set ts \<Longrightarrow> fed Q t) \<Longrightarrow> (\<forall>j < length (emits nxt n ts). starts_fed Q n (emits nxt n ts) j) \<and>
      (\<forall>m. nxt = Some m \<and> ts \<noteq> [] \<longrightarrow> (\<exists>i < length (emits nxt n ts). last (emits nxt n ts ! i) = Next m))"
proof (induction acc nxt n t and nxt n ts rule: emit_emits.induct)
  case (1 acc nxt n ns ps)
  show ?case
  proof (cases "length ps = 1")
    case True
    then obtain k c where "ps = [(k, c)]" by (cases ps) auto
    with 1 True show ?thesis by (simp add: fed_RNode)
  next
    case False
    let ?rest = "emits (Some n) (Suc n) (rev (map snd ps))"
    let ?h = "Item ns # acc @ link nxt"
    have out: "emit acc nxt n (RNode ns ps) = [?h] @ ?rest" using False by simp
    have kids: "t \<in> set (rev (map snd ps)) \<Longrightarrow> fed Q t" for t
      using "1.prems" by (auto simp: fed_RNode)
    note IH = "1.IH"(2) [OF False kids]
    have "starts_fed Q n ([?h] @ ?rest) j" if j: "j < length ([?h] @ ?rest)" for j
    proof (cases j)
      case 0
      show ?thesis
      proof (cases "ps = []")
        case True
        with "1.prems" 0 show ?thesis by (auto simp: starts_fed_def fed_RNode)
      next
        case False
        with IH obtain i where "i < length ?rest" "last (?rest ! i) = Next n" by auto
        with 0 show ?thesis by (auto simp: starts_fed_def intro!: exI [of _ "Suc i"])
      qed
    next
      case (Suc i)
      with IH j have "starts_fed Q (Suc n) ?rest i" by simp
      with starts_fed_shift [of Q n "[?h]" ?rest i] Suc show ?thesis by simp
    qed
    then show ?thesis unfolding out by auto
  qed
next
  case (2 nxt n)
  then show ?case by simp
next
  case (3 nxt n t ts)
  let ?a = "emit [] nxt n t"
  let ?b = "emits nxt (n + length ?a) ts"
  have t: "fed Q t" using "3.prems" by simp
  have ts: "fed Q u" if "u \<in> set ts" for u using "3.prems" that by simp
  note IH1 = "3.IH"(1) [OF t]
  note IH2 = "3.IH"(3) [OF ts]
  have "starts_fed Q n (?a @ ?b) j" if j: "j < length (?a @ ?b)" for j
  proof (cases "j < length ?a")
    case True
    with IH1 show ?thesis by (simp add: starts_fed_append)
  next
    case False
    with IH2 j have "starts_fed Q (n + length ?a) ?b (j - length ?a)" by simp
    from starts_fed_shift [OF this] False show ?thesis by simp
  qed
  moreover have "\<exists>i < length (?a @ ?b). last ((?a @ ?b) ! i) = Next m" if "nxt = Some m" for m
    using IH1 that by (intro exI [of _ 0]) (simp add: nth_append)
  ultimately show ?case by simp
qed

lemma merged_starts_fed:
  assumes "\<forall>xs \<in> set ps. xs \<noteq> [] \<longrightarrow> Q (hd xs)" and "j < length (merge_pipelines key ps)"
  shows "starts_fed Q 0 (merge_pipelines key ps) j"
proof -
  have "fed Q t" if "t \<in> set (rev (map snd (prevs (build_trie key ps))))" for t
    using that build_trie_fed [OF assms(1), of key] by (auto simp: children_fed_def)
  from emit_starts_fed(2) [where ts = "rev (map snd (prevs (build_trie key ps)))", OF this] assms(2) show ?thesis
    by (simp add: merge_pipelines_def into_disaggregated_emits)
qed

lemma in_sum_list_mset: "x \<in># sum_list (map f xs) \<longleftrightarrow> (\<exists>y \<in> set xs. x \<in># f y)"
  by (induction xs) auto

lemma trie_items_nonempty:
  "wf_trie key t \<Longrightarrow> neighbors t \<noteq> [] \<Longrightarrow> [] \<notin># trie_items t"
proof (induction t rule: trie_items.induct)
  case (1 ns ps)
  have "[] \<notin># trie_items c" if "(k, c) \<in> set ps" for k c
    using 1 that by (fastforce simp: wf_trie_RNode)
  then show ?case using "1.prems" by (auto simp: in_sum_list_mset) 
qed

lemma merged_items_nonempty: "[] \<notin># output_items (merge_pipelines key ps)"
proof -
  have "wf_trie key c \<and> neighbors c \<noteq> []" if "(k, c) \<in> set (prevs (build_trie key ps))" for k c
    using build_trie_wf [of key ps] that by (subst (asm) wf_trie_iff) auto
  then have "[] \<notin># trie_items c" if "(k, c) \<in> set (prevs (build_trie key ps))" for k c
    using that trie_items_nonempty by blast
  then show ?thesis
    by (auto simp: merge_pipelines_def into_disaggregated_emits emit_items(2) in_sum_list_mset)
qed

definition vm_only :: "solver_error + 'a \<Rightarrow> bool" where
  "vm_only r \<longleftrightarrow> (\<forall>e. r = Inl e \<longrightarrow> (\<exists>v. e = VmError v))"

lemma vm_only_simps [simp]: "vm_only (Inr x)" "vm_only (Inl e) \<longleftrightarrow> (\<exists>v. e = VmError v)"
  by (auto simp: vm_only_def)

definition carries :: "('n, 'f) pnode \<Rightarrow> bool" where
  "carries p \<longleftrightarrow> pn_nodes p \<noteq> None"

lemma run_item_input:
  assumes "nodes \<noteq> [] \<or> (\<exists>x \<in> set nbrs. carries x)" and "nbrs \<noteq> []"
  shows "vm_only (run_item collect call nbrs nodes st)"
    and "run_item collect call nbrs nodes st = Inr (nodes', st') \<Longrightarrow>
      nodes' \<noteq> [] \<and> rs_stack st' = rs_stack st"
proof -
  have "List.map_filter pn_nodes nbrs \<noteq> [] \<longleftrightarrow> (\<exists>x \<in> set nbrs. carries x)"
    by (induction nbrs) (auto simp: carries_def split: option.split)
  with assms obtain X where X: "X = nodes @ List.map_filter pn_nodes nbrs" and ne: "X \<noteq> []" by auto
  obtain p ps where nbrs: "nbrs = p # ps" using assms(2) by (cases nbrs) auto
  show "vm_only (run_item collect call nbrs nodes st)"
    unfolding run_item_def Let_def X [symmetric] by (simp add: ne nbrs split: sum.split)
  show "run_item collect call nbrs nodes st = Inr (nodes', st') \<Longrightarrow> nodes' \<noteq> [] \<and> rs_stack st' = rs_stack st"
    unfolding run_item_def Let_def X [symmetric] by (auto simp: ne nbrs split: sum.splits if_splits)
qed

lemma run_merged_items:
  assumes "nodes \<noteq> []" and "[] \<notin> set is"
  shows "vm_only (run_merged collect call (map Item is) nodes st) \<and>
    (\<forall>nodes' st'. run_merged collect call (map Item is) nodes st = Inr (nodes', st') \<longrightarrow>
      nodes' \<noteq> [] \<and> rs_stack st' = rs_stack st)"
  using assms
proof (induction "is" arbitrary: nodes st)
  case (Cons ns "is")
  have ne: "nodes \<noteq> [] \<or> (\<exists>x \<in> set ns. carries x)" "ns \<noteq> []" using Cons.prems by auto
  note step = run_item_input [OF ne, of collect call st]
  show ?case
  proof (cases "run_item collect call ns nodes st")
    case (Inl e)
    with step(1) show ?thesis by simp
  next
    case (Inr p)
    obtain n1 s1 where p: "p = (n1, s1)" by fastforce
    have eq: "run_merged collect call (map Item (ns # is)) nodes st = run_merged collect call (map Item is) n1 s1"
      by (simp add: Inr p)
    from step(2) [OF Inr [unfolded p]] have n1: "n1 \<noteq> []" "rs_stack s1 = rs_stack st" by blast+
    show ?thesis unfolding eq n1(2) [symmetric] using n1(1) Cons.prems(2) by (intro Cons.IH) auto
  qed
qed simp

lemma run_merged_append:
  "run_merged collect call (xs @ ys) nodes st =
     rbind (run_merged collect call xs nodes st) (\<lambda>(nodes', st'). run_merged collect call ys nodes' st')"
  by (induction collect call xs nodes st rule: run_merged.induct)
    (auto simp: rbind_assoc split: prod.split intro!: rbind_cong)

lemma well_linked_cases:
  assumes "well_linked n p"
  obtains ns "is" where "p = map Item (ns # is)"
  | ns "is" i where "p = map Item (ns # is) @ [Next i]" "i < n"
  using assms by (fastforce simp: well_linked_def link_def split: option.splits)

definition waiting :: "'f run_state \<Rightarrow> nat \<Rightarrow> bool" where
  "waiting st i \<longleftrightarrow> (\<exists>fs. bt_lookup (rs_stack st) i = Some fs \<and> fs \<noteq> [])"

lemma run_merged_fed:
  assumes "well_linked n p" and "[] \<notin># items_of p"
    and "nodes \<noteq> [] \<or> (\<exists>ns rest. p = Item ns # rest \<and> (\<exists>x \<in> set ns. carries x))"
    and "bt_wf (rs_stack st)"
  shows "vm_only (run_merged collect call p nodes st) \<and>
    (\<forall>nodes' st'. run_merged collect call p nodes st = Inr (nodes', st') \<longrightarrow>
      bt_wf (rs_stack st') \<and> (\<forall>i. waiting st i \<longrightarrow> waiting st' i) \<and>
      (\<forall>i. last p = Next i \<longrightarrow> waiting st' i) \<and>
      (\<forall>i \<in> fst ` set (rs_stack st'). i \<in> fst ` set (rs_stack st) \<or> i < n))"
proof -
  have items: "vm_only (run_merged collect call (map Item (ns # is)) nodes st) \<and>
      (\<forall>nodes' st'. run_merged collect call (map Item (ns # is)) nodes st = Inr (nodes', st') \<longrightarrow>
        nodes' \<noteq> [] \<and> rs_stack st' = rs_stack st)"
    if p: "p = map Item (ns # is) @ tail" for ns "is" and tail :: "('a, 'b) pnode merged list"
  proof -
    have "items_of (map Item xs) = mset xs" for xs :: "('a, 'b) pnode list list" by (induction xs) auto
    with assms(2) p have ne: "ns \<noteq> []" "[] \<notin> set is" by auto
    have "nodes \<noteq> [] \<or> (\<exists>x \<in> set ns. carries x)" using assms(3) p by auto
    note step = run_item_input [OF this ne(1), of collect call st]
    show ?thesis
    proof (cases "run_item collect call ns nodes st")
      case (Inl e)
      with step(1) show ?thesis by simp
    next
      case (Inr r)
      obtain n1 s1 where r: "r = (n1, s1)" by fastforce
      have eq: "run_merged collect call (map Item (ns # is)) nodes st = run_merged collect call (map Item is) n1 s1"
        by (simp add: Inr r)
      from step(2) [OF Inr [unfolded r]] have n1: "n1 \<noteq> []" "rs_stack s1 = rs_stack st" by blast+
      show ?thesis unfolding eq n1(2) [symmetric] by (rule run_merged_items [OF n1(1) ne(2)])
    qed
  qed
  from assms(1) show ?thesis
  proof (cases rule: well_linked_cases)
    case (1 ns "is")
    have "last p \<noteq> Next i" for i by (simp add: 1 last_map)
    moreover from 1 have it: "p = map Item (ns # is) @ []" by simp
    note it = items [OF it]
    have "bt_wf (rs_stack st') \<and> (\<forall>i. waiting st i \<longrightarrow> waiting st' i) \<and>
        (\<forall>i \<in> fst ` set (rs_stack st'). i \<in> fst ` set (rs_stack st) \<or> i < n)"
      if "run_merged collect call p nodes st = Inr (nodes', st')" for nodes' st'
    proof -
      from it that have "rs_stack st' = rs_stack st" unfolding 1 by blast
      with assms(4) show ?thesis by (simp add: waiting_def)
    qed
    ultimately show ?thesis using it unfolding 1 by blast
  next
    case (2 ns "is" i)
    let ?q = "map Item (ns # is) :: ('a, 'b) pnode merged list"
    note it = items [OF 2(1)]
    have eq: "run_merged collect call p nodes st = rbind (run_merged collect call ?q nodes st)
        (\<lambda>(nodes', st'). run_merged collect call [Next i] nodes' st')"
      unfolding 2(1) run_merged_append ..
    have last: "last p = Next i" by (simp add: 2(1))
    show ?thesis
    proof (cases "run_merged collect call ?q nodes st")
      case (Inl e)
      with it eq show ?thesis by (simp del: list.map)
    next
      case (Inr r)
      obtain n1 s1 where r: "r = (n1, s1)" by fastforce
      with it Inr have n1: "n1 \<noteq> []" "rs_stack s1 = rs_stack st" by blast+
      let ?st' = "s1\<lparr>rs_stack := bt_insert i
          ((case bt_lookup (rs_stack s1) i of Some fs \<Rightarrow> fs | None \<Rightarrow> []) @ n1) (rs_stack s1)\<rparr>"
      have "run_merged collect call p nodes st = Inr ([], ?st')"
        unfolding eq Inr r by simp
      moreover have "waiting ?st' i" using n1 by (simp add: waiting_def bt_lookup_insert)
      moreover have "waiting st j \<Longrightarrow> waiting ?st' j" for j
        using n1 by (auto simp: waiting_def bt_lookup_insert)
      moreover have "bt_wf (rs_stack ?st')" using n1(2) assms(4) by simp
      moreover have "\<forall>j \<in> fst ` set (rs_stack ?st'). j \<in> fst ` set (rs_stack st) \<or> j < n"
        using n1(2) 2(2) by (simp add: fst_set_bt_insert)
      ultimately show ?thesis using last by (simp only: sum.inject prod.inject merged.inject vm_only_simps) blast
    qed
  qed
qed
lemma fold_result_Nil: "fold_result f [] = Inr"
  by (rule ext) simp

lemma run_pipelines_from:
  fixes collect :: "'f list \<Rightarrow> 'f" and call :: "('n solver_fn, string) node \<Rightarrow> 'f \<Rightarrow> vm_error + 'f"
  assumes "\<And>k. k < length out \<Longrightarrow> well_linked k (out ! k) \<and> [] \<notin># items_of (out ! k) \<and> starts_fed carries 0 out k"
    and "d \<le> length out"
  defines "r \<equiv> fold_result (run_pipeline collect call) (map (\<lambda>i. (i, out ! i)) (rev [length out - d..<length out]))
    \<lparr>rs_stack = [], rs_final_nodes = [], rs_edges = []\<rparr>"
  shows "vm_only r \<and> (\<forall>st. r = Inr st \<longrightarrow> bt_wf (rs_stack st) \<and>
    (\<forall>i j. length out - d \<le> j \<and> j < length out \<and> last (out ! j) = Next i \<and> i < length out - d \<longrightarrow> waiting st i) \<and>
    (\<forall>i \<in> fst ` set (rs_stack st). i < length out - d))"
  using assms(2) unfolding r_def
proof (induction d)
  case 0
  then show ?case by auto
next
  case (Suc d)
  let ?n = "length out"
  let ?k = "?n - Suc d"
  let ?prev = "fold_result (run_pipeline collect call) (map (\<lambda>i. (i, out ! i)) (rev [?n - d..<?n]))
    \<lparr>rs_stack = [], rs_final_nodes = [], rs_edges = []\<rparr>"
  have k: "?k < ?n" "Suc ?k = ?n - d" using Suc.prems by simp_all
  then have "[?k..<?n] = ?k # [?n - d..<?n]" by (metis upt_conv_Cons)
  then have split: "map (\<lambda>i. (i, out ! i)) (rev [?k..<?n]) = map (\<lambda>i. (i, out ! i)) (rev [?n - d..<?n]) @ [(?k, out ! ?k)]"
    by simp
  from Suc.IH Suc.prems have IH: "vm_only ?prev" "\<And>st. ?prev = Inr st \<Longrightarrow> bt_wf (rs_stack st) \<and>
    (\<forall>i j. ?n - d \<le> j \<and> j < ?n \<and> last (out ! j) = Next i \<and> i < ?n - d \<longrightarrow> waiting st i) \<and>
    (\<forall>i \<in> fst ` set (rs_stack st). i < ?n - d)" by simp_all
  show ?case
  proof (cases ?prev)
    case (Inl e)
    with IH(1) show ?thesis by (simp add: split fold_result_append)
  next
    case (Inr st)
    from IH(2) [OF Inr] have st: "bt_wf (rs_stack st)"
      "\<And>i j. ?n - d \<le> j \<Longrightarrow> j < ?n \<Longrightarrow> last (out ! j) = Next i \<Longrightarrow> i < ?n - d \<Longrightarrow> waiting st i"
      "\<And>i. i \<in> fst ` set (rs_stack st) \<Longrightarrow> i < ?n - d" by blast+
    let ?st1 = "st\<lparr>rs_stack := bt_remove ?k (rs_stack st)\<rparr>"
    let ?nodes = "case bt_lookup (rs_stack st) ?k of Some fs \<Rightarrow> fs | None \<Rightarrow> []"
    let ?m = "run_merged collect call (out ! ?k) ?nodes ?st1"
    have eq: "fold_result (run_pipeline collect call) (map (\<lambda>i. (i, out ! i)) (rev [?k..<?n]))
        \<lparr>rs_stack = [], rs_final_nodes = [], rs_edges = []\<rparr> =
        rbind ?m (\<lambda>(nodes', st2). Inr (st2\<lparr>rs_edges := rs_edges st2 @ nodes'\<rparr>))"
      unfolding split fold_result_append Inr by (simp add: run_pipeline_def fold_result_Nil)
    note h = assms(1) [OF k(1)]
    have fed: "?nodes \<noteq> [] \<or> (\<exists>ns rest. out ! ?k = Item ns # rest \<and> (\<exists>x \<in> set ns. carries x))"
    proof -
      from h obtain ns rest where "out ! ?k = Item ns # rest"
        and d: "(\<exists>x \<in> set ns. carries x) \<or> (\<exists>i. ?k < i \<and> i < ?n \<and> last (out ! i) = Next ?k)"
        by (auto simp: starts_fed_def)
      moreover have "?nodes \<noteq> []" if "?k < i" "i < ?n" "last (out ! i) = Next ?k" for i
        using st(2) [of i ?k] that k by (auto simp: waiting_def)
      ultimately show ?thesis by blast
    qed
    have wf1: "bt_wf (rs_stack ?st1)" using st(1) by simp
    from run_merged_fed [OF _ _ fed wf1, of ?k collect call] h
    have m: "vm_only ?m" "\<And>nodes' st2. ?m = Inr (nodes', st2) \<Longrightarrow> bt_wf (rs_stack st2) \<and>
        (\<forall>i. waiting ?st1 i \<longrightarrow> waiting st2 i) \<and> (\<forall>i. last (out ! ?k) = Next i \<longrightarrow> waiting st2 i) \<and>
        (\<forall>i \<in> fst ` set (rs_stack st2). i \<in> fst ` set (rs_stack ?st1) \<or> i < ?k)"
      by blast+
    show ?thesis
    proof (cases ?m)
      case (Inl e)
      with m(1) show ?thesis unfolding eq by simp
    next
      case (Inr p)
      obtain nodes' st2 where p: "p = (nodes', st2)" by fastforce
      from m(2) [OF Inr [unfolded p]] have st2: "bt_wf (rs_stack st2)" "\<And>i. waiting ?st1 i \<Longrightarrow> waiting st2 i"
        "\<And>i. last (out ! ?k) = Next i \<Longrightarrow> waiting st2 i"
        "\<And>i. i \<in> fst ` set (rs_stack st2) \<Longrightarrow> i \<in> fst ` set (rs_stack ?st1) \<or> i < ?k" by blast+
      have "waiting st2 i" if "?k \<le> j" "j < ?n" "last (out ! j) = Next i" "i < ?k" for i j
      proof (cases "j = ?k")
        case True
        with that st2(3) show ?thesis by simp
      next
        case False
        with that k have "waiting st i" by (intro st(2) [of j]) auto
        with that(4) st(1) have "waiting ?st1 i" by (simp add: waiting_def bt_lookup_remove)
        then show ?thesis by (rule st2(2))
      qed
      moreover have "i < ?k" if "i \<in> fst ` set (rs_stack st2)" for i
      proof -
        from st2(4) [OF that] st(1) have "i < ?k \<or> i \<in> fst ` set (rs_stack st) \<and> i \<noteq> ?k"
          by (auto simp: fst_set_bt_remove)
        with st(3) [of i] k show ?thesis by linarith
      qed
      moreover have "waiting (st2\<lparr>rs_edges := x\<rparr>) i = waiting st2 i" for x i by (simp add: waiting_def)
      ultimately show ?thesis unfolding eq Inr p using st2(1) by auto
    qed
  qed
qed

lemma items_of_output: "k < length out \<Longrightarrow> items_of (out ! k) \<subseteq># output_items out"
  by (induction out arbitrary: k) (auto simp: nth_Cons' intro: subset_mset.add_increasing)

lemma rev_enumerate: "rev (enumerate 0 xs) = map (\<lambda>i. (i, xs ! i)) (rev [0..<length xs])"
proof -
  have "enumerate 0 xs = map (\<lambda>i. (i, xs ! i)) [0..<length xs]"
    by (rule nth_equalityI) (simp_all add: nth_enumerate_eq)
  then show ?thesis by (simp only: rev_map)
qed

lemma merged_pipelines_run:
  fixes collect :: "'f list \<Rightarrow> 'f"
  shows "(\<exists>st. run_pipelines collect call (merge_pipelines pnode_key (map pipeline_nodes ps)) = Inr st \<and> rs_stack st = []) \<or>
    (\<exists>e. run_pipelines collect call (merge_pipelines pnode_key (map pipeline_nodes ps)) = Inl (VmError e))"
proof -
  let ?out = "merge_pipelines pnode_key (map pipeline_nodes ps)"
  have heads: "\<forall>xs \<in> set (map pipeline_nodes ps). xs \<noteq> [] \<longrightarrow> carries (hd xs)"
  proof (intro ballI impI)
    fix xs :: "('a, 'f) pnode list"
    assume "xs \<in> set (map pipeline_nodes ps)" and ne: "xs \<noteq> []"
    then obtain p where "xs = pipeline_nodes p" by auto
    with ne show "carries (hd xs)" by (cases p rule: pipeline_nodes.cases) (auto simp: carries_def)
  qed
  have out: "well_linked k (?out ! k) \<and> [] \<notin># items_of (?out ! k) \<and> starts_fed carries 0 ?out k"
    if "k < length ?out" for k
  proof (intro conjI)
    show "well_linked k (?out ! k)"
      using that emit_well_linked(2) [of None 0 k]
      by (simp add: merge_pipelines_def into_disaggregated_emits)
    show "[] \<notin># items_of (?out ! k)"
      using items_of_output [OF that] merged_items_nonempty by (blast dest: mset_subset_eqD)
    show "starts_fed carries 0 ?out k" by (rule merged_starts_fed [OF heads that])
  qed
  have "rev (enumerate 0 ?out) = map (\<lambda>i. (i, ?out ! i)) (rev [length ?out - length ?out..<length ?out])"
    unfolding rev_enumerate by simp
  then have run: "run_pipelines collect call ?out = fold_result (run_pipeline collect call)
      (map (\<lambda>i. (i, ?out ! i)) (rev [length ?out - length ?out..<length ?out]))
      \<lparr>rs_stack = [], rs_final_nodes = [], rs_edges = []\<rparr>"
    by (simp only: run_pipelines_def)
  note from_all = run_pipelines_from [of ?out "length ?out" collect call, OF out order.refl, folded run]
  from from_all have r: "vm_only (run_pipelines collect call ?out)" by blast
  from from_all have keys: "\<And>st. run_pipelines collect call ?out = Inr st \<Longrightarrow>
      \<forall>i \<in> fst ` set (rs_stack st). i < length ?out - length ?out" by blast
  show ?thesis
  proof (cases "run_pipelines collect call ?out")
    case (Inl e)
    with r show ?thesis by simp
  next
    case (Inr st)
    from keys [OF Inr] have "rs_stack st = []" by (cases "rs_stack st") auto
    with Inr show ?thesis by blast
  qed
qed

text \<open>C8: the merged pipelines never starve. Running the merged pipelines of any graphs, every
  function is called with at least one input, so the run ends or stops with the failure of a
  function; and at the end no pending frame is left behind.\<close>

theorem merged_pipelines_never_starve:
  "(\<exists>st. run_pipelines collect call (merge_pipelines pnode_key (map pipeline_nodes ps)) = Inr st \<and> rs_stack st = []) \<or>
   (\<exists>e. run_pipelines collect call (merge_pipelines pnode_key (map pipeline_nodes ps)) = Inl (VmError e))"
  by (rule merged_pipelines_run)

section \<open>What a function requires\<close>

lemma set_sorted_names [simp]: "set (sorted_names names) = set names"
proof (intro set_eqI)
  fix x
  have "x \<in> set (sorted_names names) \<longleftrightarrow> bt_lookup (bt_of_list (map (\<lambda>x. (x, ())) names)) x \<noteq> None"
    by (simp add: sorted_names_def bt_lookup_None_iff)
  also have "\<dots> \<longleftrightarrow> x \<in> set names" by (simp add: bt_lookup_of_list map_of_eq_None_iff image_image)
  finally show "x \<in> set (sorted_names names) \<longleftrightarrow> x \<in> set names" .
qed

lemma set_required_names:
  "x \<in> set (required_names code) \<longleftrightarrow>
     (\<exists>ins \<in> set code. is_define (ins_stmt ins) \<and> (\<exists>nm. ins_name ins = Some nm \<and> x = strip_side nm))"
  by (auto simp: required_names_def set_map_filter split: if_splits)

text \<open>The instruction of an assignment is in the compiled script.\<close>

lemma script_instruction:
  assumes "with_lazy_script A ss = Inr m" and "Set x e \<in> set ss"
  shows "\<exists>v m1 m2. execute_expr A e m1 = Inr (v, m2) \<and>
    \<lparr>ins_name = Some x, ins_stmt = stmt_of_val v\<rparr> \<in> set (local_variables m)"
proof -
  from assms(2) obtain pre post where ss: "ss = pre @ Set x e # post" by (auto dest: split_list)
  from assms(1) obtain m1 v m2 m3 where v: "execute_expr A e m1 = Inr (v, m2)"
    and m3: "m3 = snd (register_instruction \<lparr>ins_name = Some x, ins_stmt = stmt_of_val v\<rparr> m2)"
    and post: "execute_script A post m3 = Inr m"
    by (auto simp: with_lazy_script_def execute_script_def ss fold_result_append)
  from execute_script_props [OF post] m3
  have "\<lparr>ins_name = Some x, ins_stmt = stmt_of_val v\<rparr> \<in> set (local_variables m)"
    by (auto simp: extends_def register_instruction_def)
  with v show ?thesis by blast
qed

text \<open>A function that assigns a constant to a column is taken to require that column: its name is
  among the requirements of the function.\<close>

theorem constant_assignment_is_required:
  assumes "function_new A pm cr = Inr f" and "Set x e \<in> set (fc_script cr)"
    and "call_free e" and "expr_vars e = {}"
  shows "strip_side x \<in> set (requirements f)"
proof -
  from assms(1) obtain flt script where script: "with_lazy_script A (fc_script cr) = Inr script"
    and f: "requirements f = sorted_names (required_names
      (dump_script script @ (case flt of None \<Rightarrow> [] | Some m \<Rightarrow> dump_script m)))"
    by (auto simp: function_new_def Let_def)
  from script_instruction [OF script assms(2)] obtain v m1 m2 where v: "execute_expr A e m1 = Inr (v, m2)"
    and ins: "\<lparr>ins_name = Some x, ins_stmt = stmt_of_val v\<rparr> \<in> set (local_variables script)" by blast
  from execute_expr_closed [OF v assms(3,4)] have "is_define (stmt_of_val v)" by (cases v) auto
  with ins show ?thesis
    by (force simp: f set_required_names dump_script_def)
qed

definition move_function :: "int function_cr" where
  "move_function = \<lparr>fc_namespace = None, fc_name = ''move'', fc_is_annotation = False,
     fc_filter = Some (FExpr (EBinary (EIdentity (PVariable ''src.supply'')) (EIdentity (PNumber 50)) Ge)),
     fc_script = [Set ''capacity'' (EIdentity (PNumber 50)),
                  Set ''unit_cost'' (EBinary (EIdentity (PVariable ''src.supply'')) (EIdentity (PNumber 1)) Add)]\<rparr>"

lemma move_function_new:
  "\<exists>f. function_new int_arith standard_pinned move_function = Inr f \<and>
     requirements f = [''capacity'', ''supply''] \<and> provided f = [''function'', ''unit_cost'']"
proof -
  have "map_sum id (\<lambda>f. (requirements f, provided f)) (function_new int_arith standard_pinned move_function) =
      Inr ([''capacity'', ''supply''], [''function'', ''unit_cost''])" by code_simp
  then show ?thesis by (cases "function_new int_arith standard_pinned move_function") auto
qed

theorem constant_assignment_is_required_witness:
  "\<exists>f. function_new int_arith standard_pinned move_function = Inr f \<and> strip_side ''capacity'' \<in> set (requirements f)"
proof -
  from move_function_new obtain f where f: "function_new int_arith standard_pinned move_function = Inr f" by blast
  from constant_assignment_is_required [OF f, of "''capacity''" "EIdentity (PNumber 50)"] f
  show ?thesis by (simp add: move_function_def)
qed

text \<open>C9: every graph is served: the solver either gives its nodes a pipeline that turns the node
  columns of the graph into the columns the problem needs, or passes the nodes on as they are, and it
  neither drops nor duplicates the nodes of a graph.\<close>

theorem build_pipelines_serves_every_graph:
  assumes "build_pipelines g pm nodes = (pipelines, dropped)"
  shows "mset (map snd pipelines) + mset dropped = mset (map snd nodes) \<and>
    (\<forall>(p, frame) \<in> set pipelines. \<exists>m. (m, frame) \<in> set nodes \<and> solves (solver_claim pm m) p)"
  using assms
proof (induction nodes arbitrary: pipelines dropped)
  case Nil
  then show ?case by simp
next
  case (Cons n nodes)
  obtain m frame where n: "n = (m, frame)" by fastforce
  obtain ps ds where rest: "build_pipelines g pm nodes = (ps, ds)" by fastforce
  note IH = Cons.IH [OF rest]
  show ?case
  proof (cases "\<exists>qs. build_pipeline g (solver_claim pm m) = Some qs \<and> qs \<noteq> []")
    case True
    then obtain qs where qs: "build_pipeline g (solver_claim pm m) = Some qs" "qs \<noteq> []" by blast
    then have "\<not> set (claim_sink (solver_claim pm m)) \<subseteq> set (claim_src (solver_claim pm m))"
      by (auto simp: build_pipeline_def contains_all_def list_all_iff split: if_splits)
    from build_pipeline_sound_pipelines [OF qs(1) this] have "sound_pipeline (solver_claim pm m) g (last qs)"
      by (metis last_in_set)
    then have "solves (solver_claim pm m) (last qs)"
      by (auto simp: sound_pipeline_def goal_path_def)
    moreover from Cons.prems n rest qs have "pipelines = (last qs, frame) # ps" "dropped = ds" by auto
    ultimately show ?thesis using IH n by auto
  next
    case False
    with Cons.prems n rest have "pipelines = ps" "dropped = frame # ds"
      by (auto split: option.splits if_splits)
    with IH n show ?thesis by auto
  qed
qed

definition move_node :: "(int solver_fn, string) node" where
  "move_node = \<lparr>nd_item = \<lparr>sf_scope = GraphScope ''default'' ''move'', sf_name = ''move'',
       sf_template = \<lparr>tm_filter = None, tm_script = default_vm\<rparr>\<rparr>,
     is_final = True, provided = [''function'', ''unit_cost''], requirements = [''capacity'', ''supply'']\<rparr>"

definition measured_metadata :: graph_metadata where
  "measured_metadata = Raw (default_raw\<lparr>rw_extras := [(''capacity'', ''capacity''), (''supply'', ''supply'')]\<rparr>)"

theorem build_pipelines_serves_every_graph_witness:
  "build_pipelines [move_node] standard_pinned [(measured_metadata, 7 :: nat), (Raw default_raw, 8)] = ([([move_node], 7)], [8]) \<and>
   solves (solver_claim standard_pinned measured_metadata) [move_node]"
proof -
  have b: "build_pipelines [move_node] standard_pinned [(measured_metadata, 7 :: nat), (Raw default_raw, 8)] = ([([move_node], 7)], [8])"
    by (simp add: build_pipeline_def solver_claim_def all_node_inputs_raw_def all_node_inputs_def measured_metadata_def
        default_raw_def standard_pinned_def extra_values_def raw_capacity_def raw_connector_def raw_supply_def
        raw_unit_cost_def raw_function_def raw_flow_def extra_or_def move_node_def default_claim_options_def)
  with build_pipelines_serves_every_graph [OF b] show ?thesis by (auto simp: measured_metadata_def)
qed

end
