(* ===== verification/Kiss_Box.thy ===== *)
theory Kiss_Box imports Ark_Prelude "HOL-Library.Word" begin

text \<open>
  The boxes of the bare-metal provisioner (\<open>crates/kiss/api/src/box.rs\<close>): the states of a box with
  their tasks, schedules and timeouts, the group a box belongs to, and the requests a box sends about
  itself. An instant is a number of seconds, a machine is named by the text of its UUID.
\<close>

section \<open>States\<close>

datatype box_state =
  New | Commissioning | Ready | Joining | Running | GroupChanged | Failed | Disconnected

text \<open>The derived \<open>Default\<close> of a state, its derived \<open>Display\<close> and its \<open>EnumString\<close>.\<close>

definition default_box_state :: box_state where
  "default_box_state = New"

fun show_state :: "box_state \<Rightarrow> string" where
  "show_state New = ''New''"
| "show_state Commissioning = ''Commissioning''"
| "show_state Ready = ''Ready''"
| "show_state Joining = ''Joining''"
| "show_state Running = ''Running''"
| "show_state GroupChanged = ''GroupChanged''"
| "show_state Failed = ''Failed''"
| "show_state Disconnected = ''Disconnected''"

definition all_states :: "box_state list" where
  "all_states = [New, Commissioning, Ready, Joining, Running, GroupChanged, Failed, Disconnected]"

definition parse_state :: "string \<Rightarrow> box_state option" where
  "parse_state s = List.find (\<lambda>b. show_state b = s) all_states"

lemma parse_show_state [simp]: "parse_state (show_state b) = Some b"
  by (cases b) (simp_all add: parse_state_def all_states_def)

fun as_task :: "box_state \<Rightarrow> string option" where
  "as_task New = None"
| "as_task Commissioning = Some ''commission''"
| "as_task Ready = None"
| "as_task Joining = Some ''join''"
| "as_task Running = Some ''ping''"
| "as_task GroupChanged = Some ''reset''"
| "as_task Failed = Some ''reset''"
| "as_task Disconnected = Some ''reset''"

fun cron :: "box_state \<Rightarrow> string option" where
  "cron Running = Some ''@hourly''"
| "cron GroupChanged = Some ''@hourly''"
| "cron Failed = Some ''@hourly''"
| "cron Disconnected = Some ''@hourly''"
| "cron s = None"

fun next_state :: "box_state \<Rightarrow> box_state" where
  "next_state New = Commissioning"
| "next_state Commissioning = Commissioning"
| "next_state Ready = Joining"
| "next_state Joining = Joining"
| "next_state Running = Running"
| "next_state GroupChanged = GroupChanged"
| "next_state Failed = Failed"
| "next_state Disconnected = Disconnected"

definition fallback_update :: int where
  "fallback_update = 2 * 60 * 60"

fun timeout :: "box_state \<Rightarrow> int option" where
  "timeout New = None"
| "timeout Commissioning = Some fallback_update"
| "timeout Ready = None"
| "timeout Joining = Some fallback_update"
| "timeout Running = None"
| "timeout GroupChanged = None"
| "timeout Failed = None"
| "timeout Disconnected = None"

definition timeout_new :: int where
  "timeout_new = 30"

fun complete :: "box_state \<Rightarrow> box_state option" where
  "complete New = None"
| "complete Commissioning = None"
| "complete Ready = None"
| "complete Joining = Some Running"
| "complete Running = None"
| "complete GroupChanged = None"
| "complete Failed = None"
| "complete Disconnected = None"

lemma complete_eq [simp]: "complete s = Some t \<longleftrightarrow> s = Joining \<and> t = Running"
  by (cases s) auto

section \<open>Groups\<close>

datatype box_group_role =
  ControlPlane | Compute | Dashboard | Desktop | Gateway | Storage | Robot | GenericWorker | ExternalWorker

fun show_role :: "box_group_role \<Rightarrow> string" where
  "show_role ControlPlane = ''ControlPlane''"
| "show_role Compute = ''Compute''"
| "show_role Dashboard = ''Dashboard''"
| "show_role Desktop = ''Desktop''"
| "show_role Gateway = ''Gateway''"
| "show_role Storage = ''Storage''"
| "show_role Robot = ''Robot''"
| "show_role GenericWorker = ''GenericWorker''"
| "show_role ExternalWorker = ''ExternalWorker''"

definition default_role :: box_group_role where
  "default_role = GenericWorker"

definition is_domain_specific :: "box_group_role \<Rightarrow> bool" where
  "is_domain_specific r \<longleftrightarrow> r = Robot"

definition is_member :: "box_group_role \<Rightarrow> bool" where
  "is_member r \<longleftrightarrow> r \<noteq> ExternalWorker"

definition to_playbook :: "box_group_role \<Rightarrow> string" where
  "to_playbook r = ''playbook-'' @ (if r = ControlPlane then ''control_plane'' else ''worker'') @ ''.yaml''"

record box_group =
  bg_cluster_name :: string
  bg_role :: box_group_role

definition default_cluster_name :: string where
  "default_cluster_name = ''default''"

definition default_group :: box_group where
  "default_group = \<lparr>bg_cluster_name = default_cluster_name, bg_role = default_role\<rparr>"

definition is_default :: "box_group \<Rightarrow> bool" where
  "is_default g \<longleftrightarrow> bg_cluster_name g = default_cluster_name"

definition cluster_domain :: "box_group \<Rightarrow> string" where
  "cluster_domain g = (if is_default g then ''openark'' else bg_cluster_name g @ ''.openark'')"

section \<open>Boxes\<close>

text \<open>\<open>IpAddr\<close> of the standard library, with its order: the addresses of version 4 come first.\<close>

datatype ip_addr = V4 "32 word" | V6 "128 word"

fun ip_key :: "ip_addr \<Rightarrow> nat \<times> nat" where
  "ip_key (V4 w) = (0, unat w)"
| "ip_key (V6 w) = (1, unat w)"

lemma ip_key_inj: "ip_key a = ip_key b \<Longrightarrow> a = b"
  by (cases a; cases b) (simp_all add: word_unat_eq_iff)

instantiation ip_addr :: linorder
begin

definition less_eq_ip_addr :: "ip_addr \<Rightarrow> ip_addr \<Rightarrow> bool" where
  "less_eq_ip_addr a b \<longleftrightarrow> fst (ip_key a) < fst (ip_key b) \<or>
     fst (ip_key a) = fst (ip_key b) \<and> snd (ip_key a) \<le> snd (ip_key b)"

definition less_ip_addr :: "ip_addr \<Rightarrow> ip_addr \<Rightarrow> bool" where
  "less_ip_addr a b \<longleftrightarrow> fst (ip_key a) < fst (ip_key b) \<or>
     fst (ip_key a) = fst (ip_key b) \<and> snd (ip_key a) < snd (ip_key b)"

instance
  by standard
    (auto simp: less_eq_ip_addr_def less_ip_addr_def prod_eq_iff intro: ip_key_inj)

end

record interface =
  if_address :: ip_addr
  if_speed_mbps :: "64 word option"

datatype power_type = IntelAMT | Ipmi

record box_power =
  pw_address :: "ip_addr option"
  pw_type :: power_type

record box_status =
  st_state :: box_state
  st_access :: "interface option"
  st_bind_group :: "box_group option"
  st_last_updated :: int

text \<open>A \<open>BoxCrd\<close>: of its metadata the model keeps the name, the labels and the time of creation, of its
  rack only the name.\<close>

record box_cr =
  bx_name :: string
  bx_created :: "int option"
  bx_labels :: "(string \<times> string) list option"
  bx_group :: box_group
  bx_uuid :: string
  bx_power :: "box_power option"
  bx_rack :: "string option"
  bx_status :: "box_status option"

definition hostname :: "box_cr \<Rightarrow> string" where
  "hostname b = bx_uuid b"

definition last_updated :: "box_cr \<Rightarrow> int option" where
  "last_updated b = (case bx_status b of Some st \<Rightarrow> Some (st_last_updated st) | None \<Rightarrow> bx_created b)"

definition state_of :: "box_cr \<Rightarrow> box_state" where
  "state_of b = (case bx_status b of Some st \<Rightarrow> st_state st | None \<Rightarrow> New)"

definition bind_group_of :: "box_cr \<Rightarrow> box_group option" where
  "bind_group_of b = Option.bind (bx_status b) st_bind_group"

definition access_of :: "box_cr \<Rightarrow> interface option" where
  "access_of b = Option.bind (bx_status b) st_access"

section \<open>Requests\<close>

text \<open>\<open>u64::from_str\<close> of the standard library: an optional plus sign, then at least one decimal digit,
  and no overflow.\<close>

definition digit_of :: "char \<Rightarrow> nat option" where
  "digit_of c = (let n = of_char c in if 48 \<le> n \<and> n \<le> (57 :: nat) then Some (n - 48) else None)"

fun parse_digits :: "nat \<Rightarrow> nat \<Rightarrow> string \<Rightarrow> nat option" where
  "parse_digits bound acc [] = Some acc"
| "parse_digits bound acc (c # cs) =
     (case digit_of c of
        None \<Rightarrow> None
      | Some d \<Rightarrow> if acc * 10 + d < bound then parse_digits bound (acc * 10 + d) cs else None)"

definition parse_u64 :: "string \<Rightarrow> 64 word option" where
  "parse_u64 s = (let ds = (case s of [] \<Rightarrow> [] | c # cs \<Rightarrow> if c = CHR ''+'' then cs else s) in
     if ds = [] then None else map_option of_nat (parse_digits (2 ^ 64) 0 ds))"

record interface_query =
  iq_address :: ip_addr
  iq_speed_mbps :: "string option"

definition interface_of_query :: "interface_query \<Rightarrow> interface option" where
  "interface_of_query q =
     (case iq_speed_mbps q of
        None \<Rightarrow> Some \<lparr>if_address = iq_address q, if_speed_mbps = None\<rparr>
      | Some s \<Rightarrow> map_option (\<lambda>w. \<lparr>if_address = iq_address q, if_speed_mbps = Some w\<rparr>) (parse_u64 s))"

definition access_of_query :: "interface_query option \<Rightarrow> interface option option" where
  "access_of_query q =
     (case q of None \<Rightarrow> Some None | Some i \<Rightarrow> map_option Some (interface_of_query i))"

record box_new_query =
  nq_access :: interface_query
  nq_uuid :: string

record box_commission_query =
  cq_access :: "interface_query option"
  cq_uuid :: string
  cq_power :: "box_power option"
  cq_reset :: bool

end
