(* ===== verification/Kiss_Cluster.thy ===== *)
theory Kiss_Cluster imports Kiss_Box "HOL-Library.Product_Lexorder" "HOL-Library.Option_ord" begin

text \<open>
  The view of a cluster that decides whether a box may join it and which hosts its playbook works on
  (\<open>crates/kiss/ansible/src/cluster.rs\<close>). The list of all boxes stands for the answer of the
  Kubernetes API; the text of an IP address is an argument.
\<close>

section \<open>Members of a cluster\<close>

datatype cluster_box =
  ClusterBox (cb_created_at: "int option") (cb_hostname: string) (cb_ip: "ip_addr option")
    (cb_is_ready: bool) (cb_is_running: bool) (cb_uuid: string)

text \<open>The derived order compares the fields in their order.\<close>

definition cb_key :: "cluster_box \<Rightarrow> int option \<times> string \<times> ip_addr option \<times> bool \<times> bool \<times> string" where
  "cb_key c = (cb_created_at c, cb_hostname c, cb_ip c, cb_is_ready c, cb_is_running c, cb_uuid c)"

lemma cb_key_inj: "cb_key a = cb_key b \<Longrightarrow> a = b"
  by (cases a; cases b) (simp add: cb_key_def)

instantiation cluster_box :: linorder
begin

definition less_eq_cluster_box :: "cluster_box \<Rightarrow> cluster_box \<Rightarrow> bool" where
  "less_eq_cluster_box a b \<longleftrightarrow> cb_key a \<le> cb_key b"

definition less_cluster_box :: "cluster_box \<Rightarrow> cluster_box \<Rightarrow> bool" where
  "less_cluster_box a b \<longleftrightarrow> cb_key a < cb_key b"

instance
  by standard (auto simp: less_eq_cluster_box_def less_cluster_box_def intro: cb_key_inj)

end

definition cluster_box_of :: "box_cr \<Rightarrow> cluster_box" where
  "cluster_box_of b = ClusterBox (bx_created b) (hostname b) (map_option if_address (access_of b))
     (case bx_status b of Some st \<Rightarrow> st_state st \<in> {Ready, Running} | None \<Rightarrow> False)
     (case bx_status b of Some st \<Rightarrow> st_state st = Running | None \<Rightarrow> False)
     (bx_uuid b)"

definition get_host :: "(ip_addr \<Rightarrow> string) \<Rightarrow> cluster_box \<Rightarrow> string option" where
  "get_host show_ip c = map_option (\<lambda>ip. cb_hostname c @ '':'' @ show_ip ip) (cb_ip c)"

type_synonym box_set = "(cluster_box \<times> box_cr) list"

definition load_control_planes :: "box_cr list \<Rightarrow> string \<Rightarrow> box_set" where
  "load_control_planes boxes cluster =
     bt_of_list (map (\<lambda>b. (cluster_box_of b, b))
       (filter (\<lambda>b. bg_cluster_name (bx_group b) = cluster \<and> bg_role (bx_group b) = ControlPlane) boxes))"

definition load_worker_nodes :: "box_cr list \<Rightarrow> string \<Rightarrow> box_set" where
  "load_worker_nodes boxes cluster =
     bt_of_list (map (\<lambda>b. (cluster_box_of b, b))
       (filter (\<lambda>b. bg_cluster_name (bx_group b) = cluster \<and> bg_role (bx_group b) \<noteq> ControlPlane) boxes))"

definition set_contains :: "box_set \<Rightarrow> string \<Rightarrow> bool" where
  "set_contains g uuid = list_ex (\<lambda>(node, _). cb_uuid node = uuid) g"

definition is_next :: "box_set \<Rightarrow> string \<Rightarrow> bool" where
  "is_next g uuid = (case List.find (\<lambda>(node, _). \<not> cb_is_running node) g of
     Some (node, _) \<Rightarrow> cb_uuid node = uuid | None \<Rightarrow> False)"

definition is_running :: "box_set \<Rightarrow> bool" where
  "is_running g = list_ex (\<lambda>(node, _). cb_is_running node) g"

datatype box_filter = RunningOnly | RunningWith string

fun filter_has :: "box_filter \<Rightarrow> string \<Rightarrow> bool" where
  "filter_has RunningOnly target = False"
| "filter_has (RunningWith uuid) target = (uuid = target)"

definition iter_boxes :: "box_filter \<Rightarrow> box_set \<Rightarrow> box_set" where
  "iter_boxes f g =
     sort_key (\<lambda>(node, _). (cb_created_at node, node))
       (filter (\<lambda>(node, _). cb_is_running node \<or> filter_has f (cb_uuid node)) g)"

definition num_ready :: "box_set \<Rightarrow> nat" where
  "num_ready g = length (filter (\<lambda>(node, _). cb_is_ready node) g)"

definition num_running :: "box_set \<Rightarrow> nat" where
  "num_running g = length (filter (\<lambda>(node, _). cb_is_running node) g)"

definition num_total :: "box_set \<Rightarrow> nat" where
  "num_total g = length g"

definition nodes_of :: "box_filter \<Rightarrow> box_set \<Rightarrow> cluster_box list" where
  "nodes_of f g = map fst (iter_boxes f g)"

section \<open>Host lists\<close>

fun join_space :: "string list \<Rightarrow> string" where
  "join_space [] = []"
| "join_space [s] = s"
| "join_space (s # t # rest) = s @ '' '' @ join_space (t # rest)"

definition sort_by_date :: "cluster_box \<Rightarrow> bool \<times> int option \<times> cluster_box" where
  "sort_by_date node = (\<not> cb_is_running node, cb_created_at node, node)"

definition sort_by_name :: "cluster_box \<Rightarrow> bool \<times> string" where
  "sort_by_name node = (\<not> cb_is_running node, cb_uuid node)"

definition host_entries :: "(ip_addr \<Rightarrow> string) \<Rightarrow> string \<Rightarrow> cluster_box list \<Rightarrow> string list" where
  "host_entries show_ip node_role nodes =
     map (\<lambda>host. node_role @ '':'' @ host) (List.map_filter (get_host show_ip) nodes)"

definition nodes_as_string :: "(ip_addr \<Rightarrow> string) \<Rightarrow> cluster_box list \<Rightarrow> string \<Rightarrow>
    (cluster_box \<Rightarrow> 'k::linorder) \<Rightarrow> string" where
  "nodes_as_string show_ip nodes node_role key = join_space (host_entries show_ip node_role (sort_key key nodes))"

section \<open>The state of a cluster\<close>

text \<open>\<open>KissConfig\<close>. Of a network the model keeps the texts that the crate \<open>ipnet\<close> prints.\<close>

record ipv4_net =
  net_text :: string
  net_network :: string
  net_netmask :: string
  net_prefix_len :: string

record kiss_config =
  cfg_allow_critical_commands :: bool
  cfg_allow_pruning_network_interfaces :: bool
  cfg_bootstrapper_network_dns_server_ns1 :: ip_addr
  cfg_bootstrapper_network_dns_server_ns2 :: ip_addr
  cfg_etcd_nodes_max :: nat
  cfg_group_enable_default_cluster :: bool
  cfg_group_enforce_ansible_control_planes :: bool
  cfg_group_force_reset :: bool
  cfg_group_force_reset_os :: bool
  cfg_group_reset_storage :: bool
  cfg_kiss_cluster_name :: string
  cfg_kubespray_image :: string
  cfg_network_interface_mtu_size :: "16 word"
  cfg_network_ipv4_dhcp_duration :: string
  cfg_network_ipv4_dhcp_range_begin :: ip_addr
  cfg_network_ipv4_dhcp_range_end :: ip_addr
  cfg_network_ipv4_gateway :: ip_addr
  cfg_network_ipv4_subnet :: ipv4_net
  cfg_network_nameserver_incluster_ipv4 :: ip_addr
  cfg_os_dist :: string
  cfg_os_kernel :: string
  cfg_os_version :: string

record cluster_state =
  cs_config :: kiss_config
  cs_control_planes :: box_set
  cs_owner_group :: box_group
  cs_owner_uuid :: string
  cs_workers :: "box_set option"

definition load_cluster :: "box_cr list \<Rightarrow> kiss_config \<Rightarrow> box_cr \<Rightarrow> bool \<Rightarrow> cluster_state" where
  "load_cluster boxes cfg owner load_workers =
     \<lparr>cs_config = cfg,
      cs_control_planes = load_control_planes boxes (bg_cluster_name (bx_group owner)),
      cs_owner_group = bx_group owner,
      cs_owner_uuid = bx_uuid owner,
      cs_workers = (if load_workers then Some (load_worker_nodes boxes (bg_cluster_name (bx_group owner))) else None)\<rparr>"

datatype cluster_error = ClusterNotRunning string | WorkersNotLoaded

definition load_current_cluster :: "box_cr list \<Rightarrow> kiss_config \<Rightarrow> bool \<Rightarrow> cluster_error + cluster_state" where
  "load_current_cluster boxes cfg load_workers =
     (let cluster = cfg_kiss_cluster_name cfg; cps = load_control_planes boxes cluster in
      case iter_boxes RunningOnly cps of
        [] \<Rightarrow> Inl (ClusterNotRunning cluster)
      | (owner, _) # _ \<Rightarrow>
          Inr \<lparr>cs_config = cfg, cs_control_planes = cps,
               cs_owner_group = \<lparr>bg_cluster_name = cluster, bg_role = ControlPlane\<rparr>,
               cs_owner_uuid = cb_uuid owner,
               cs_workers = (if load_workers then Some (load_worker_nodes boxes cluster) else None)\<rparr>)"

definition get_first_control_plane :: "cluster_state \<Rightarrow> cluster_error + box_cr" where
  "get_first_control_plane st =
     (case iter_boxes RunningOnly (cs_control_planes st) of
        [] \<Rightarrow> Inl (ClusterNotRunning (bg_cluster_name (cs_owner_group st)))
      | (_, b) # _ \<Rightarrow> Inr b)"

definition control_planes_string :: "(ip_addr \<Rightarrow> string) \<Rightarrow> cluster_state \<Rightarrow> string" where
  "control_planes_string show_ip st =
     nodes_as_string show_ip (nodes_of (RunningWith (cs_owner_uuid st)) (cs_control_planes st))
       ''kube_control_plane'' sort_by_name"

text \<open>The members of \<open>etcd\<close>: the selection is cut to the configured maximum and then to an odd length.\<close>

definition etcd_nodes :: "cluster_state \<Rightarrow> cluster_box list" where
  "etcd_nodes st =
     (let nodes = nodes_of (RunningWith (cs_owner_uuid st)) (cs_control_planes st);
          nodes = (if 0 < cfg_etcd_nodes_max (cs_config st) then take (cfg_etcd_nodes_max (cs_config st)) nodes else nodes)
      in if even (length nodes) then butlast nodes else nodes)"

definition etcd_nodes_string :: "(ip_addr \<Rightarrow> string) \<Rightarrow> cluster_state \<Rightarrow> string" where
  "etcd_nodes_string show_ip st = nodes_as_string show_ip (etcd_nodes st) ''etcd'' sort_by_date"

definition get_worker_nodes :: "cluster_state \<Rightarrow> cluster_error + box_cr list" where
  "get_worker_nodes st =
     (case cs_workers st of Some ws \<Rightarrow> Inr (map snd (iter_boxes RunningOnly ws)) | None \<Rightarrow> Inl WorkersNotLoaded)"

definition worker_nodes_string :: "(ip_addr \<Rightarrow> string) \<Rightarrow> cluster_state \<Rightarrow> string" where
  "worker_nodes_string show_ip st =
     (case cs_workers st of
        Some ws \<Rightarrow> nodes_as_string show_ip (nodes_of RunningOnly ws) ''kube_node'' sort_by_date
      | None \<Rightarrow> [])"

definition is_control_plane_ready :: "cluster_state \<Rightarrow> bool" where
  "is_control_plane_ready st \<longleftrightarrow> num_ready (cs_control_planes st) = num_total (cs_control_planes st)"

definition is_control_plane_running :: "cluster_state \<Rightarrow> bool" where
  "is_control_plane_running st \<longleftrightarrow>
     \<not> (num_running (cs_control_planes st) = 0 \<and> \<not> is_default (cs_owner_group st)) \<and>
     num_running (cs_control_planes st) = num_total (cs_control_planes st)"

definition is_node_control_plane :: "cluster_state \<Rightarrow> bool" where
  "is_node_control_plane st = set_contains (cs_control_planes st) (cs_owner_uuid st)"

definition is_joinable :: "cluster_state \<Rightarrow> bool" where
  "is_joinable st =
     (if is_node_control_plane st
      then is_control_plane_ready st \<and> is_next (cs_control_planes st) (cs_owner_uuid st)
      else is_control_plane_running st)"

definition is_new :: "cluster_state \<Rightarrow> bool" where
  "is_new st \<longleftrightarrow> is_node_control_plane st \<and> \<not> is_running (cs_control_planes st)"

end
