(* ===== verification/Kube_Monad.thy ===== *)
theory Kube_Monad imports Ark_Prelude begin

text \<open>
  Handlers that call the Kubernetes API: a handler passes the world of objects along, stops at the first
  error and keeps what it has changed until then. The theories of \<open>kiss\<close> and \<open>vine\<close> give the world
  and the calls.
\<close>

type_synonym ('w, 'e, 'a) api = "'w \<Rightarrow> ('e + 'a) \<times> 'w"

definition kret :: "'a \<Rightarrow> ('w, 'e, 'a) api" where
  "kret x w = (Inr x, w)"

definition kbind :: "('w, 'e, 'a) api \<Rightarrow> ('a \<Rightarrow> ('w, 'e, 'b) api) \<Rightarrow> ('w, 'e, 'b) api" where
  "kbind m f w = (case m w of (Inl e, w') \<Rightarrow> (Inl e, w') | (Inr x, w') \<Rightarrow> f x w')"

text \<open>One call after the other, with the list of their results.\<close>

fun kmap :: "('a \<Rightarrow> ('w, 'e, 'b) api) \<Rightarrow> 'a list \<Rightarrow> ('w, 'e, 'b list) api" where
  "kmap f [] = kret []"
| "kmap f (x # xs) = kbind (f x) (\<lambda>y. kbind (kmap f xs) (\<lambda>ys. kret (y # ys)))"

definition kfail :: "'e \<Rightarrow> ('w, 'e, 'a) api" where
  "kfail e w = (Inl e, w)"

lemma kret_eq [simp]: "kret x w = (Inr x, w)"
  by (simp add: kret_def)

lemma kbind_simps [simp]:
  "m w = (Inl e, w') \<Longrightarrow> kbind m f w = (Inl e, w')"
  "m w = (Inr x, w') \<Longrightarrow> kbind m f w = f x w'"
  by (simp_all add: kbind_def)

lemma kbind_Inr:
  "kbind m f w = (Inr y, w'') \<longleftrightarrow> (\<exists>x w'. m w = (Inr x, w') \<and> f x w' = (Inr y, w''))"
  by (auto simp: kbind_def split: prod.splits sum.splits)

lemma kbind_assoc: "kbind (kbind m f) g = kbind m (\<lambda>x. kbind (f x) g)"
  by (auto simp: kbind_def fun_eq_iff split: prod.split sum.split)

lemma kbind_cases:
  assumes "kbind m f w = (r, w'')"
  obtains e where "m w = (Inl e, w'')" "r = Inl e"
    | x w' where "m w = (Inr x, w')" "f x w' = (r, w'')"
  using assms by (auto simp: kbind_def split: prod.splits sum.splits)

lemma kbind_keeps:
  assumes "I (snd (m w))" and "\<And>x w'. m w = (Inr x, w') \<Longrightarrow> I w' \<Longrightarrow> I (snd (f x w'))"
  shows "I (snd (kbind m f w))"
  using assms by (auto simp: kbind_def split: prod.split sum.split)

text \<open>Partial correctness of a handler: what holds of its result and of the world it leaves.\<close>

definition kvalid :: "('w \<Rightarrow> bool) \<Rightarrow> ('w, 'e, 'a) api \<Rightarrow> ('e + 'a \<Rightarrow> 'w \<Rightarrow> bool) \<Rightarrow> bool" where
  "kvalid P m Q \<longleftrightarrow> (\<forall>w. P w \<longrightarrow> Q (fst (m w)) (snd (m w)))"

lemma kvalidD: "kvalid P m Q \<Longrightarrow> P w \<Longrightarrow> m w = (r, w') \<Longrightarrow> Q r w'"
  by (auto simp: kvalid_def)

lemma kvalid_snd: "kvalid P m (\<lambda>r. Q) \<Longrightarrow> P w \<Longrightarrow> Q (snd (m w))"
  by (auto simp: kvalid_def)

lemma kvalid_kret: "(\<And>w. P w \<Longrightarrow> Q (Inr x) w) \<Longrightarrow> kvalid P (kret x) Q"
  by (simp add: kvalid_def)

lemma kvalid_kfail: "(\<And>w. P w \<Longrightarrow> Q (Inl e) w) \<Longrightarrow> kvalid P (kfail e) Q"
  by (simp add: kvalid_def kfail_def)

lemma kvalid_weaken:
  "kvalid P' m Q' \<Longrightarrow> (\<And>w. P w \<Longrightarrow> P' w) \<Longrightarrow> (\<And>r w. Q' r w \<Longrightarrow> Q r w) \<Longrightarrow> kvalid P m Q"
  by (simp add: kvalid_def)

lemma kvalid_kbind:
  assumes "kvalid P m (\<lambda>r w. case r of Inl e \<Rightarrow> Q (Inl e) w | Inr x \<Rightarrow> R x w)"
    and "\<And>x. kvalid (R x) (f x) Q"
  shows "kvalid P (kbind m f) Q"
  using assms by (fastforce simp: kvalid_def kbind_def split: prod.split sum.split)

lemma kvalid_pure: "(c \<Longrightarrow> kvalid P m Q) \<Longrightarrow> kvalid (\<lambda>w. P w \<and> c) m Q"
  by (auto simp: kvalid_def)

lemma kvalid_if:
  "(b \<Longrightarrow> kvalid P m Q) \<Longrightarrow> (\<not> b \<Longrightarrow> kvalid P m' Q) \<Longrightarrow> kvalid P (if b then m else m') Q"
  by simp

end
