(* ===== verification/Kiss_Job.thy ===== *)
theory Kiss_Job imports Kiss_Cluster Kube_Monad begin

text \<open>
  The Ansible jobs of the provisioner (\<open>crates/kiss/ansible/src/lib.rs\<close>) and the Kubernetes objects they
  are made of. Every call of the Kubernetes API may fail: the world carries the answers to come, and a
  call that fails leaves the objects as they are.
\<close>

section \<open>Kubernetes\<close>

datatype env_value =
    EnvText "string option"
  | FromConfigMap string string
  | FromSecret string string

datatype volume = ConfigMapVolume string bool | SecretVolume string "(string \<times> string) list"

text \<open>A job template; \<open>jb_schedule\<close> is the schedule of a \<open>CronJob\<close>.\<close>

record job =
  jb_name :: string
  jb_labels :: "(string \<times> string) list"
  jb_schedule :: "string option"
  jb_priority_class :: string
  jb_tolerations :: "(string \<times> string) list"
  jb_nameservers :: "string list"
  jb_image :: string
  jb_args :: "string list"
  jb_env :: "(string \<times> env_value) list"
  jb_limits :: "(string \<times> string) list"
  jb_volumes :: "(string \<times> volume) list"

record world =
  wd_boxes :: "(string \<times> box_cr) list"
  wd_jobs :: "(string \<times> job) list"
  wd_cron_jobs :: "(string \<times> job) list"
  wd_config :: "kiss_config option"
  wd_now :: int
  wd_faults :: "bool list"

datatype kube_error = ApiFailed | AlreadyExists string | NotFound string | InvalidSpeed | NoSuchBox string

type_synonym 'a kube = "(world, kube_error, 'a) api"

text \<open>One call of the API: the next answer decides whether it goes through.\<close>

definition kapi :: "'a kube \<Rightarrow> 'a kube" where
  "kapi m w =
     (case wd_faults w of
        [] \<Rightarrow> m w
      | False # fs \<Rightarrow> m (w\<lparr>wd_faults := fs\<rparr>)
      | True # fs \<Rightarrow> (Inl ApiFailed, w\<lparr>wd_faults := fs\<rparr>))"

definition list_boxes :: "box_cr list kube" where
  "list_boxes = kapi (\<lambda>w. (Inr (map snd (wd_boxes w)), w))"

definition get_config :: "kiss_config kube" where
  "get_config = kapi (\<lambda>w. (case wd_config w of Some c \<Rightarrow> Inr c | None \<Rightarrow> Inl (NotFound ''kiss-config''), w))"

definition delete_collection_cron_jobs :: "((string \<times> string) list \<Rightarrow> bool) \<Rightarrow> unit kube" where
  "delete_collection_cron_jobs sel =
     kapi (\<lambda>w. (Inr (), w\<lparr>wd_cron_jobs := filter (\<lambda>(_, j). \<not> sel (jb_labels j)) (wd_cron_jobs w)\<rparr>))"

definition delete_collection_jobs :: "((string \<times> string) list \<Rightarrow> bool) \<Rightarrow> unit kube" where
  "delete_collection_jobs sel =
     kapi (\<lambda>w. (Inr (), w\<lparr>wd_jobs := filter (\<lambda>(_, j). \<not> sel (jb_labels j)) (wd_jobs w)\<rparr>))"

definition create_cron_job :: "job \<Rightarrow> unit kube" where
  "create_cron_job j = kapi (\<lambda>w.
     case map_of (wd_cron_jobs w) (jb_name j) of
       Some _ \<Rightarrow> (Inl (AlreadyExists (jb_name j)), w)
     | None \<Rightarrow> (Inr (), w\<lparr>wd_cron_jobs := wd_cron_jobs w @ [(jb_name j, j)]\<rparr>))"

definition create_job :: "job \<Rightarrow> unit kube" where
  "create_job j = kapi (\<lambda>w.
     case map_of (wd_jobs w) (jb_name j) of
       Some _ \<Rightarrow> (Inl (AlreadyExists (jb_name j)), w)
     | None \<Rightarrow> (Inr (), w\<lparr>wd_jobs := wd_jobs w @ [(jb_name j, j)]\<rparr>))"

section \<open>The parts of a job\<close>

text \<open>What the code prints through third-party crates is an argument: an IP address and a name in snake case.\<close>

record printers =
  show_ip :: "ip_addr \<Rightarrow> string"
  snake_case :: "string \<Rightarrow> string"

definition label_box_name :: string where
  "label_box_name = ''kiss.ulagbulag.io/box_name''"

definition label_box_machine_uuid :: string where
  "label_box_machine_uuid = ''kiss.ulagbulag.io/box_machine_uuid''"

definition label_completed_state :: string where
  "label_completed_state = ''kiss.ulagbulag.io/completed_state''"

definition label_job_name :: string where
  "label_job_name = ''kiss.ulagbulag.io/job_name''"

definition label_job_is_critical :: string where
  "label_job_is_critical = ''kiss.ulagbulag.io/is_critical''"

definition label_verify_bind_group :: string where
  "label_verify_bind_group = ''kiss.ulagbulag.io/verify-bind-group''"

datatype resource_type = Minimal | Normal

fun resource_limits :: "resource_type \<Rightarrow> (string \<times> string) list" where
  "resource_limits Minimal = bt_of_list [(''cpu'', ''100m''), (''memory'', ''500Mi'')]"
| "resource_limits Normal = bt_of_list [(''cpu'', ''1''), (''memory'', ''2Gi'')]"

record ansible_job =
  aj_cron :: "string option"
  aj_task :: string
  aj_box :: box_cr
  aj_new_group :: "box_group option"
  aj_new_state :: "box_state option"
  aj_is_critical :: bool
  aj_resource_type :: resource_type
  aj_use_workers :: bool

definition verify_bind_group :: "box_cr \<Rightarrow> bool" where
  "verify_bind_group b =
     (case Option.bind (bx_labels b) (\<lambda>ls. Option.bind (bt_lookup ls label_verify_bind_group) parse_bool) of
        Some v \<Rightarrow> v | None \<Rightarrow> True)"

definition needs_reset :: "kiss_config \<Rightarrow> box_cr \<Rightarrow> bool" where
  "needs_reset cfg b \<longleftrightarrow> cfg_group_force_reset cfg \<or>
     verify_bind_group b \<and> bind_group_of b \<noteq> Some (bx_group b)"

definition job_name :: "ansible_job \<Rightarrow> string" where
  "job_name a = ''box-'' @ aj_task a @ ''-'' @ bx_uuid (aj_box a)"

definition job_labels :: "ansible_job \<Rightarrow> (string \<times> string) list" where
  "job_labels a = bt_of_list
     ([(label_box_name, bx_uuid (aj_box a)),
       (label_box_machine_uuid, bx_uuid (aj_box a)),
       (label_job_is_critical, show_bool (aj_is_critical a)),
       (label_job_name, aj_task a),
       (''serviceType'', ''ansible-task'')] @
      (case Option.bind (aj_new_state a) complete of
         Some st \<Rightarrow> [(label_completed_state, show_state st)]
       | None \<Rightarrow> []))"

section \<open>The environment of the playbook\<close>

definition env_ansible :: "printers \<Rightarrow> ansible_job \<Rightarrow> (string \<times> env_value) list" where
  "env_ansible X a =
     [(''ansible_host'', EnvText (Some (hostname (aj_box a)))),
      (''ansible_host_id'', EnvText (Some (bx_uuid (aj_box a)))),
      (''ansible_host_uuid'', EnvText (Some (bx_uuid (aj_box a)))),
      (''ansible_ssh_host'', EnvText (map_option (\<lambda>i. show_ip X (if_address i)) (access_of (aj_box a)))),
      (''ansible_ssh_private_key_file'', EnvText (Some ''/root/.ssh/id_ed25519'')),
      (''ansible_user'', FromConfigMap ''kiss-config'' ''auth_ssh_username'')]"

definition joins :: "ansible_job \<Rightarrow> bool" where
  "joins a \<longleftrightarrow> aj_new_state a = None \<or> aj_new_state a = Some Joining"

definition env_cluster :: "printers \<Rightarrow> kiss_config \<Rightarrow> cluster_state \<Rightarrow> ansible_job \<Rightarrow> (string \<times> env_value) list" where
  "env_cluster X cfg st a = (let group = bx_group (aj_box a) in
     [(''kiss_allow_critical_commands'', EnvText (Some (show_bool (cfg_allow_critical_commands cfg)))),
      (''kiss_allow_pruning_network_interfaces'',
         EnvText (Some (show_bool (cfg_allow_pruning_network_interfaces cfg)))),
      (''kiss_ansible_task_name'', EnvText (Some (aj_task a))),
      (''kiss_cluster_control_planes'',
         EnvText (Some (if joins a then control_planes_string (show_ip X) st else []))),
      (''kiss_cluster_etcd_nodes'', EnvText (Some (if joins a then etcd_nodes_string (show_ip X) st else []))),
      (''kiss_cluster_name'', EnvText (Some (bg_cluster_name group))),
      (''kiss_cluster_name_snake_case'', EnvText (Some (snake_case X (bg_cluster_name group)))),
      (''kiss_cluster_domain'', EnvText (Some (cluster_domain group))),
      (''kiss_cluster_is_default'', EnvText (Some (show_bool (is_default group)))),
      (''kiss_cluster_is_new'', EnvText (Some (show_bool (is_new st)))),
      (''kiss_cluster_worker_nodes'',
         EnvText (Some (if aj_use_workers a then worker_nodes_string (show_ip X) st else [])))])"

definition env_group :: "kiss_config \<Rightarrow> ansible_job \<Rightarrow> (string \<times> env_value) list" where
  "env_group cfg a = (let group = bx_group (aj_box a) in
     [(''kiss_group_enable_default_cluster'', EnvText (Some (show_bool (cfg_group_enable_default_cluster cfg)))),
      (''kiss_group_force_reset'', EnvText (Some (show_bool (needs_reset cfg (aj_box a))))),
      (''kiss_group_force_reset_os'', EnvText (Some (show_bool (cfg_group_force_reset_os cfg)))),
      (''kiss_group_reset_storage'', EnvText (Some (show_bool (cfg_group_reset_storage cfg)))),
      (''kiss_group_role'', EnvText (Some (show_role (bg_role group)))),
      (''kiss_group_role_is_domain_specific'', EnvText (Some (show_bool (is_domain_specific (bg_role group))))),
      (''kiss_group_role_is_member'', EnvText (Some (show_bool (is_member (bg_role group)))))])"

definition env_network :: "printers \<Rightarrow> kiss_config \<Rightarrow> (string \<times> env_value) list" where
  "env_network X cfg = (let subnet = cfg_network_ipv4_subnet cfg in
     [(''kiss_network_interface_mtu_size'', EnvText (Some (show_nat (unat (cfg_network_interface_mtu_size cfg))))),
      (''kiss_network_ipv4_dhcp_duration'', EnvText (Some (cfg_network_ipv4_dhcp_duration cfg))),
      (''kiss_network_ipv4_dhcp_range_begin'', EnvText (Some (show_ip X (cfg_network_ipv4_dhcp_range_begin cfg)))),
      (''kiss_network_ipv4_dhcp_range_end'', EnvText (Some (show_ip X (cfg_network_ipv4_dhcp_range_end cfg)))),
      (''kiss_network_ipv4_gateway'', EnvText (Some (show_ip X (cfg_network_ipv4_gateway cfg)))),
      (''kiss_network_ipv4_subnet'', EnvText (Some (net_text subnet))),
      (''kiss_network_ipv4_subnet_address'', EnvText (Some (net_network subnet))),
      (''kiss_network_ipv4_subnet_mask'', EnvText (Some (net_netmask subnet))),
      (''kiss_network_ipv4_subnet_mask_prefix'', EnvText (Some (net_prefix_len subnet))),
      (''kiss_network_nameserver_incluster_ipv4'',
         EnvText (Some (show_ip X (cfg_network_nameserver_incluster_ipv4 cfg)))),
      (''kiss_network_wireless_wifi_key_mgmt'', FromSecret ''kiss-config'' ''network_wireless_wifi_key_mgmt''),
      (''kiss_network_wireless_wifi_key_psk'', FromSecret ''kiss-config'' ''network_wireless_wifi_key_psk''),
      (''kiss_network_wireless_wifi_ssid'', FromSecret ''kiss-config'' ''network_wireless_wifi_ssid'')])"

text \<open>The address of the power unit is given to the interface of its own kind only.\<close>

definition power_host :: "printers \<Rightarrow> power_type \<Rightarrow> box_cr \<Rightarrow> string option" where
  "power_host X ty b =
     Option.bind (bx_power b) (\<lambda>p. if pw_type p = ty then map_option (show_ip X) (pw_address p) else None)"

definition env_power :: "printers \<Rightarrow> kiss_config \<Rightarrow> ansible_job \<Rightarrow> (string \<times> env_value) list" where
  "env_power X cfg a =
     [(''kiss_os_dist'', EnvText (Some (cfg_os_dist cfg))),
      (''kiss_os_kernel'', EnvText (Some (cfg_os_kernel cfg))),
      (''kiss_os_version'', EnvText (Some (cfg_os_version cfg))),
      (''kiss_power_intel_amt_host'', EnvText (power_host X IntelAMT (aj_box a))),
      (''kiss_power_intel_amt_username'', FromSecret ''kiss-config'' ''power_intel_amt_username''),
      (''kiss_power_intel_amt_password'', FromSecret ''kiss-config'' ''power_intel_amt_password''),
      (''kiss_power_ipmi_host'', EnvText (power_host X Ipmi (aj_box a))),
      (''kiss_power_ipmi_username'', FromSecret ''kiss-config'' ''power_ipmi_username''),
      (''kiss_power_ipmi_password'', FromSecret ''kiss-config'' ''power_ipmi_password'')]"

section \<open>Spawning a job\<close>

definition job_args :: "ansible_job \<Rightarrow> string list" where
  "job_args a =
     [''--become'', ''--become-user=root'',
      ''--inventory'', ''/root/ansible/defaults/defaults.yaml'',
      ''--inventory'', ''/root/ansible/defaults/all.yaml'',
      ''--inventory'', ''/root/ansible/config.yaml'',
      ''--inventory'', ''/root/ansible/hosts.yaml'',
      ''/opt/playbook/'' @ to_playbook (bg_role (bx_group (aj_box a)))]"

definition job_volumes :: "kiss_config \<Rightarrow> ansible_job \<Rightarrow> (string \<times> volume) list" where
  "job_volumes cfg a =
     [(''ansible'', ConfigMapVolume (''ansible-control-planes-'' @ bg_cluster_name (bx_group (aj_box a)))
         (\<not> cfg_group_enforce_ansible_control_planes cfg)),
      (''ansible-defaults'', ConfigMapVolume ''ansible-control-planes-default'' False),
      (''playbook'', ConfigMapVolume ''ansible-task-common'' False),
      (''tasks'', ConfigMapVolume (''ansible-task-'' @ aj_task a) False),
      (''ssh'', SecretVolume ''kiss-config'' [(''auth_ssh_key_id_ed25519'', ''id_ed25519'')])]"

definition job_object :: "printers \<Rightarrow> kiss_config \<Rightarrow> cluster_state \<Rightarrow> ansible_job \<Rightarrow> job" where
  "job_object X cfg st a =
     \<lparr>jb_name = job_name a,
      jb_labels = job_labels a,
      jb_schedule = aj_cron a,
      jb_priority_class =
        (if bg_role (bx_group (aj_box a)) = ControlPlane then ''system-cluster-critical'' else ''k8s-cluster-critical''),
      jb_tolerations =
        (if aj_is_critical a then [(''Exists'', ''NoExecute''), (''Exists'', ''NoSchedule'')] else []),
      jb_nameservers = [show_ip X (cfg_bootstrapper_network_dns_server_ns1 cfg),
        show_ip X (cfg_bootstrapper_network_dns_server_ns2 cfg)],
      jb_image = cfg_kubespray_image cfg,
      jb_args = job_args a,
      jb_env = env_ansible X a @ env_cluster X cfg st a @ env_group cfg a @ env_network X cfg @ env_power X cfg a,
      jb_limits = resource_limits (aj_resource_type a),
      jb_volumes = job_volumes cfg a\<rparr>"

text \<open>The label selector of the collections that are deleted before a new job is created.\<close>

definition replaced_by :: "string \<Rightarrow> (string \<times> string) list \<Rightarrow> bool" where
  "replaced_by uuid labels \<longleftrightarrow>
     bt_lookup labels label_box_name = Some uuid \<and> bt_lookup labels label_job_is_critical \<noteq> Some ''true''"

definition spawn :: "printers \<Rightarrow> kiss_config \<Rightarrow> ansible_job \<Rightarrow> bool kube" where
  "spawn X cfg a =
     (let sel = replaced_by (bx_uuid (aj_box a)) in
      kbind (delete_collection_cron_jobs sel) (\<lambda>_.
      kbind (delete_collection_jobs sel) (\<lambda>_.
      kbind list_boxes (\<lambda>boxes.
      kbind (if aj_use_workers a then list_boxes else kret []) (\<lambda>workers.
        let st = (load_cluster boxes cfg (aj_box a) False)
              \<lparr>cs_workers := if aj_use_workers a
                 then Some (load_worker_nodes workers (bg_cluster_name (bx_group (aj_box a)))) else None\<rparr> in
        if aj_new_state a = Some Joining \<and> \<not> is_joinable st then kret False
        else kbind (case aj_cron a of
                      Some _ \<Rightarrow> create_cron_job (job_object X cfg st a)
                    | None \<Rightarrow> create_job (job_object X cfg st a)) (\<lambda>_. kret True))))))"

section \<open>Lemmas\<close>

text \<open>What a failed call leaves behind: an invariant that ignores the answers to come is kept.\<close>

definition ignores_faults :: "(world \<Rightarrow> bool) \<Rightarrow> bool" where
  "ignores_faults I \<longleftrightarrow> (\<forall>w fs. I (w\<lparr>wd_faults := fs\<rparr>) = I w)"

lemma kapi_keeps:
  assumes "ignores_faults I" and "\<And>w. I w \<Longrightarrow> I (snd (m w))" and "I w"
  shows "I (snd (kapi m w))"
  using assms by (auto simp: kapi_def ignores_faults_def split: list.split bool.split)

lemma kvalid_kapi:
  assumes "ignores_faults P" and "\<And>w. P w \<Longrightarrow> Q (Inl ApiFailed) w" and "kvalid P m Q"
  shows "kvalid P (kapi m) Q"
  using assms by (auto simp: kvalid_def kapi_def ignores_faults_def split: list.split bool.split)

section \<open>What spawning changes\<close>

text \<open>Spawning leaves the boxes, the clock and the configuration alone, and a join job is only created
  for a cluster that can be joined.\<close>

definition same_boxes :: "world \<Rightarrow> world \<Rightarrow> bool" where
  "same_boxes w w' \<longleftrightarrow> wd_boxes w' = wd_boxes w \<and> wd_now w' = wd_now w \<and> wd_config w' = wd_config w"

lemma same_boxes_refl [simp]: "same_boxes w w"
  by (simp add: same_boxes_def)

lemma ignores_same_boxes [simp]: "ignores_faults (same_boxes w)"
  by (simp add: ignores_faults_def same_boxes_def)

lemma is_joinable_workers [simp]: "is_joinable (st\<lparr>cs_workers := ws\<rparr>) = is_joinable st"
  by (simp add: is_joinable_def is_node_control_plane_def is_control_plane_ready_def is_control_plane_running_def)

lemma kapi_same_boxes:
  assumes "\<And>w'. same_boxes w w' \<Longrightarrow> same_boxes w (snd (m w'))"
  shows "kvalid (same_boxes w) (kapi m) (\<lambda>r. same_boxes w)"
  by (rule kvalid_kapi) (auto simp: kvalid_def assms)

lemma spawn_same_boxes:
  "kvalid (same_boxes w) (spawn X cfg a)
     (\<lambda>r w'. same_boxes w w' \<and> (r = Inr True \<longrightarrow> aj_new_state a = Some Joining \<longrightarrow>
        is_joinable (load_cluster (map snd (wd_boxes w)) cfg (aj_box a) False)))"
proof -
  let ?Q = "\<lambda>r w'. same_boxes w w' \<and> (r = Inr True \<longrightarrow> aj_new_state a = Some Joining \<longrightarrow>
        is_joinable (load_cluster (map snd (wd_boxes w)) cfg (aj_box a) False))"
  have del: "kvalid (same_boxes w) (delete_collection_cron_jobs sel) (\<lambda>r. same_boxes w)"
    "kvalid (same_boxes w) (delete_collection_jobs sel) (\<lambda>r. same_boxes w)" for sel
    unfolding delete_collection_cron_jobs_def delete_collection_jobs_def
    by (rule kapi_same_boxes, simp add: same_boxes_def)+
  have lst: "kvalid (same_boxes w) list_boxes
      (\<lambda>r w'. same_boxes w w' \<and> (\<forall>bs. r = Inr bs \<longrightarrow> bs = map snd (wd_boxes w)))"
    unfolding list_boxes_def by (rule kvalid_kapi) (auto simp: kvalid_def same_boxes_def)
  have create: "kvalid (same_boxes w) (create_cron_job j) (\<lambda>r. same_boxes w)"
    "kvalid (same_boxes w) (create_job j) (\<lambda>r. same_boxes w)" for j
    unfolding create_cron_job_def create_job_def
    by (rule kapi_same_boxes, simp add: same_boxes_def split: option.split)+
  show ?thesis
    unfolding spawn_def Let_def
    apply (rule kvalid_kbind [where R = "\<lambda>_. same_boxes w"])
     apply (rule kvalid_weaken [OF del(1)]; simp split: sum.split)
    apply (rule kvalid_kbind [where R = "\<lambda>_. same_boxes w"])
     apply (rule kvalid_weaken [OF del(2)]; simp split: sum.split)
    apply (rule kvalid_kbind [where R = "\<lambda>bs w'. same_boxes w w' \<and> bs = map snd (wd_boxes w)"])
     apply (rule kvalid_weaken [OF lst]; auto split: sum.split)
    subgoal for _ _ boxes
      apply (rule kvalid_pure)
      apply (rule kvalid_kbind [where R = "\<lambda>_. same_boxes w"])
       apply (rule kvalid_if)
        apply (rule kvalid_weaken [OF lst]; auto split: sum.split)
       apply (rule kvalid_kret; simp)
      apply (rule kvalid_if)
       apply (rule kvalid_kret; simp)
      apply (rule kvalid_kbind [where R = "\<lambda>_. same_boxes w"])
       apply (cases "aj_cron a"; simp only: option.case)
        apply (rule kvalid_weaken [OF create(2)]; auto split: sum.split)
       apply (rule kvalid_weaken [OF create(1)]; auto split: sum.split)
      apply (rule kvalid_kret; auto)
      done
    done
qed

text \<open>The jobs the operator manages for a machine: those the next spawn for it replaces.\<close>

definition managed :: "string \<Rightarrow> (string \<times> job) list \<Rightarrow> nat" where
  "managed uuid js = length (filter (\<lambda>(_, j). replaced_by uuid (jb_labels j)) js)"

definition one_job :: "world \<Rightarrow> bool" where
  "one_job w \<longleftrightarrow> (\<forall>uuid. managed uuid (wd_jobs w) + managed uuid (wd_cron_jobs w) \<le> 1)"

lemma managed_append [simp]: "managed uuid (js @ ks) = managed uuid js + managed uuid ks"
  by (simp add: managed_def)

lemma managed_Nil [simp]: "managed uuid [] = 0"
  by (simp add: managed_def)

lemma managed_filter_le: "managed uuid (filter P js) \<le> managed uuid js"
  by (induction js) (auto simp: managed_def)

lemma managed_delete [simp]: "managed uuid (filter (\<lambda>(_, j). \<not> replaced_by uuid (jb_labels j)) js) = 0"
  by (induction js) (auto simp: managed_def)

lemma job_labels_box_name: "bt_lookup (job_labels a) label_box_name = Some (bx_uuid (aj_box a))"
  by (auto simp: job_labels_def bt_lookup_of_list label_box_name_def label_box_machine_uuid_def
      label_completed_state_def label_job_name_def label_job_is_critical_def split: option.split)

lemma managed_job_object: "uuid \<noteq> bx_uuid (aj_box a) \<Longrightarrow> managed uuid [(n, job_object X cfg st a)] = 0"
  by (simp add: managed_def job_object_def replaced_by_def job_labels_box_name)

lemma managed_single: "managed uuid [p] \<le> 1"
  by (cases p) (simp add: managed_def)

lemma one_job_create:
  assumes "one_job w" and "managed u (wd_jobs w) = 0" and "managed u (wd_cron_jobs w) = 0"
    and "\<And>uuid. uuid \<noteq> u \<Longrightarrow> managed uuid [p] = 0"
  shows "one_job (w\<lparr>wd_jobs := wd_jobs w @ [p]\<rparr>)" and "one_job (w\<lparr>wd_cron_jobs := wd_cron_jobs w @ [p]\<rparr>)"
proof -
  have "managed uuid (wd_jobs w) + managed uuid (wd_cron_jobs w) + managed uuid [p] \<le> 1" for uuid
    using assms managed_single [of uuid p] by (cases "uuid = u") (auto simp: one_job_def)
  then show "one_job (w\<lparr>wd_jobs := wd_jobs w @ [p]\<rparr>)" "one_job (w\<lparr>wd_cron_jobs := wd_cron_jobs w @ [p]\<rparr>)"
    by (simp_all add: one_job_def add_ac)
qed

lemma one_job_shrink:
  "one_job w \<Longrightarrow> one_job (w\<lparr>wd_cron_jobs := filter P (wd_cron_jobs w)\<rparr>)"
  "one_job w \<Longrightarrow> one_job (w\<lparr>wd_jobs := filter P (wd_jobs w)\<rparr>)"
  by (simp_all add: one_job_def) (meson add_mono managed_filter_le order_refl order_trans)+

lemma spawn_one_job: "kvalid one_job (spawn X cfg a) (\<lambda>r. one_job)"
proof -
  let ?u = "bx_uuid (aj_box a)"
  let ?P1 = "\<lambda>w. one_job w \<and> managed ?u (wd_cron_jobs w) = 0"
  let ?P2 = "\<lambda>w. one_job w \<and> managed ?u (wd_jobs w) = 0 \<and> managed ?u (wd_cron_jobs w) = 0"
  have ign: "ignores_faults one_job" "ignores_faults ?P1" "ignores_faults ?P2"
    by (simp_all add: ignores_faults_def one_job_def)
  have del1: "kvalid one_job (delete_collection_cron_jobs (replaced_by ?u))
      (\<lambda>r w. case r of Inl e \<Rightarrow> one_job w | Inr x \<Rightarrow> ?P1 w)"
    unfolding delete_collection_cron_jobs_def
    by (rule kvalid_kapi) (auto simp: ign kvalid_def one_job_shrink)
  have del2: "kvalid ?P1 (delete_collection_jobs (replaced_by ?u))
      (\<lambda>r w. case r of Inl e \<Rightarrow> one_job w | Inr x \<Rightarrow> ?P2 w)"
    unfolding delete_collection_jobs_def
    by (rule kvalid_kapi) (auto simp: ign kvalid_def one_job_shrink)
  have lst: "kvalid ?P2 list_boxes (\<lambda>r w. case r of Inl e \<Rightarrow> one_job w | Inr x \<Rightarrow> ?P2 w)"
    unfolding list_boxes_def by (rule kvalid_kapi) (auto simp: ign kvalid_def)
  have create: "kvalid ?P2 (create_cron_job (job_object X cfg st a)) (\<lambda>r. one_job)"
    "kvalid ?P2 (create_job (job_object X cfg st a)) (\<lambda>r. one_job)" for st
    unfolding create_cron_job_def create_job_def
    by (rule kvalid_kapi; auto simp: ign kvalid_def managed_job_object intro: one_job_create split: option.split)+
  show ?thesis
    unfolding spawn_def Let_def
    apply (rule kvalid_kbind [OF del1])
    apply (rule kvalid_kbind [OF del2])
    apply (rule kvalid_kbind [OF lst])
    apply (rule kvalid_kbind [where R = "\<lambda>_. ?P2"])
     apply (rule kvalid_if)
      apply (rule lst)
     apply (rule kvalid_kret; simp)
    apply (rule kvalid_if)
     apply (rule kvalid_kret; simp)
    apply (rule kvalid_kbind [where R = "\<lambda>_. one_job"])
     apply (cases "aj_cron a"; simp only: option.case)
      apply (rule kvalid_weaken [OF create(2)]; simp split: sum.split)
     apply (rule kvalid_weaken [OF create(1)]; simp split: sum.split)
    apply (rule kvalid_kret; simp)
    done
qed

text \<open>An invariant that no spawn can break: it survives deletions and the new job.\<close>

lemma kvalid_invariant:
  "kvalid I m (\<lambda>r. I) \<Longrightarrow> (\<And>x. kvalid I (f x) (\<lambda>r. I)) \<Longrightarrow> kvalid I (kbind m f) (\<lambda>r. I)"
  by (rule kvalid_kbind [where R = "\<lambda>_. I"]) (auto elim: kvalid_weaken split: sum.split)

lemma spawn_keeps:
  assumes ign: "ignores_faults I"
    and shrink: "\<And>w P. I w \<Longrightarrow> I (w\<lparr>wd_cron_jobs := filter P (wd_cron_jobs w)\<rparr>)"
      "\<And>w P. I w \<Longrightarrow> I (w\<lparr>wd_jobs := filter P (wd_jobs w)\<rparr>)"
    and grow: "\<And>w st. I w \<Longrightarrow> I (w\<lparr>wd_cron_jobs := wd_cron_jobs w @ [(job_name a, job_object X cfg st a)]\<rparr>)"
      "\<And>w st. I w \<Longrightarrow> I (w\<lparr>wd_jobs := wd_jobs w @ [(job_name a, job_object X cfg st a)]\<rparr>)"
  shows "kvalid I (spawn X cfg a) (\<lambda>r. I)"
proof -
  have del: "kvalid I (delete_collection_cron_jobs sel) (\<lambda>r. I)" "kvalid I (delete_collection_jobs sel) (\<lambda>r. I)" for sel
    unfolding delete_collection_cron_jobs_def delete_collection_jobs_def
    by (rule kvalid_kapi; simp add: ign kvalid_def shrink)+
  have lst: "kvalid I list_boxes (\<lambda>r. I)"
    unfolding list_boxes_def by (rule kvalid_kapi) (simp_all add: ign kvalid_def)
  have create: "kvalid I (create_cron_job (job_object X cfg st a)) (\<lambda>r. I)"
    "kvalid I (create_job (job_object X cfg st a)) (\<lambda>r. I)" for st
    unfolding create_cron_job_def create_job_def
    by (rule kvalid_kapi; simp add: ign kvalid_def job_object_def grow [unfolded job_object_def] split: option.split)+
  have new: "kvalid I (case aj_cron a of Some _ \<Rightarrow> create_cron_job (job_object X cfg st a)
      | None \<Rightarrow> create_job (job_object X cfg st a)) (\<lambda>r. I)" for st
    by (simp add: create split: option.split)
  show ?thesis
    unfolding spawn_def Let_def by (intro kvalid_invariant del lst new kvalid_if kvalid_kret) simp_all
qed

text \<open>The state a job announces, by its label, is the one that follows joining.\<close>

definition announces_running :: "(string \<times> string) list \<Rightarrow> bool" where
  "announces_running labels \<longleftrightarrow>
     (\<forall>s. Option.bind (bt_lookup labels label_completed_state) parse_state = Some s \<longrightarrow> s = Running)"

definition jobs_announce_running :: "world \<Rightarrow> bool" where
  "jobs_announce_running w \<longleftrightarrow>
     (\<forall>(n, j) \<in> set (wd_jobs w) \<union> set (wd_cron_jobs w). announces_running (jb_labels j))"

lemma job_labels_announce: "announces_running (job_labels a)"
  by (cases "Option.bind (aj_new_state a) complete")
    (auto simp: announces_running_def job_labels_def bt_lookup_of_list label_box_name_def
      label_box_machine_uuid_def label_completed_state_def label_job_name_def label_job_is_critical_def
      split: bind_splits)

lemma spawn_announces_running: "kvalid jobs_announce_running (spawn X cfg a) (\<lambda>r. jobs_announce_running)"
  by (rule spawn_keeps) (auto simp: jobs_announce_running_def ignores_faults_def job_object_def job_labels_announce)

end
