(* ===== verification/Kiss_Operator.thy ===== *)
theory Kiss_Operator imports Kiss_Job begin

text \<open>
  The three services that change a box: the operator that reconciles boxes
  (\<open>crates/kiss/operator/src/ctx.rs\<close>), the monitor that turns the results of jobs into states
  (\<open>crates/kiss/monitor/src/ctx.rs\<close>) and the gateway through which machines report themselves
  (\<open>crates/kiss/gateway/src/main.rs\<close>). Each handler runs to its end before the next one starts, on the
  current version of its object.
\<close>

section \<open>Stored boxes\<close>

definition get_box :: "string \<Rightarrow> box_cr option kube" where
  "get_box name = kapi (\<lambda>w. (Inr (bt_lookup (wd_boxes w) name), w))"

definition create_box :: "string \<Rightarrow> box_cr \<Rightarrow> unit kube" where
  "create_box name b = kapi (\<lambda>w.
     case bt_lookup (wd_boxes w) name of
       Some _ \<Rightarrow> (Inl (AlreadyExists name), w)
     | None \<Rightarrow> (Inr (), w\<lparr>wd_boxes := bt_insert name (b\<lparr>bx_created := Some (wd_now w)\<rparr>) (wd_boxes w)\<rparr>))"

definition patch_box :: "string \<Rightarrow> (int \<Rightarrow> box_cr \<Rightarrow> box_cr) \<Rightarrow> unit kube" where
  "patch_box name f = kapi (\<lambda>w.
     case bt_lookup (wd_boxes w) name of
       None \<Rightarrow> (Inl (NotFound name), w)
     | Some b \<Rightarrow> (Inr (), w\<lparr>wd_boxes := bt_insert name (f (wd_now w) b) (wd_boxes w)\<rparr>))"

definition patch_status :: "string \<Rightarrow> interface option \<Rightarrow> box_state \<Rightarrow> box_group option \<Rightarrow> unit kube" where
  "patch_status name access st bind = patch_box name (\<lambda>now b.
     b\<lparr>bx_status := Some \<lparr>st_state = st, st_access = access, st_bind_group = bind, st_last_updated = now\<rparr>\<rparr>)"

section \<open>The operator\<close>

datatype action = Requeue int | AwaitChange

definition fallback :: int where
  "fallback = 30 * 60"

definition bind_group_updated :: "box_cr \<Rightarrow> bool" where
  "bind_group_updated b = (case bind_group_of b of Some g \<Rightarrow> g \<noteq> bx_group b | None \<Rightarrow> True)"

text \<open>The state the box should get next, or the action with which the handler returns early.\<close>

definition detect_state :: "int \<Rightarrow> box_cr \<Rightarrow> action + box_state" where
  "detect_state now b =
     (let old_state = state_of b;
          waiting = (if old_state = New \<and> access_of b = None
            then (case last_updated b of
                    Some t \<Rightarrow> if t + timeout_new < now then Inr Disconnected else Inl (Requeue timeout_new)
                  | None \<Rightarrow> Inl (Requeue timeout_new))
            else Inr (next_state old_state))
      in rbind waiting (\<lambda>new_state.
         let new_state = (case (timeout old_state, last_updated b) of
               (Some limit, Some t) \<Rightarrow> if t + limit < now then Failed else new_state
             | _ \<Rightarrow> new_state);
             new_state = (if old_state = Running \<and> bind_group_updated b then Disconnected else new_state)
         in Inr new_state))"

definition resource_type_of :: "box_state \<Rightarrow> resource_type" where
  "resource_type_of s = (if s \<in> {New, Commissioning, Ready, Joining} then Normal else Minimal)"

definition box_job :: "box_cr \<Rightarrow> box_state \<Rightarrow> box_group option \<Rightarrow> string \<Rightarrow> ansible_job" where
  "box_job b new_state new_group task =
     \<lparr>aj_cron = cron new_state, aj_task = task, aj_box = b, aj_new_group = new_group,
      aj_new_state = Some new_state, aj_is_critical = False,
      aj_resource_type = resource_type_of (state_of b), aj_use_workers = False\<rparr>"

definition enter_state :: "printers \<Rightarrow> kiss_config \<Rightarrow> box_cr \<Rightarrow> box_state \<Rightarrow> box_group option \<Rightarrow> action kube" where
  "enter_state X cfg b new_state new_group =
     (if state_of b \<noteq> new_state \<or> cron new_state \<noteq> None then
        kbind (case as_task new_state of
                 Some task \<Rightarrow> spawn X cfg (box_job b new_state new_group task)
               | None \<Rightarrow> kret True) (\<lambda>is_spawned.
        if \<not> is_spawned then kret (Requeue 60)
        else if state_of b = new_state then kret AwaitChange
        else kbind (patch_status (bx_name b) (access_of b) new_state
               (if new_state = Joining then Some (bx_group b) else bind_group_of b)) (\<lambda>_.
             kret (Requeue fallback)))
      else kret (Requeue fallback))"

definition reconcile_with :: "printers \<Rightarrow> kiss_config \<Rightarrow> box_cr \<Rightarrow> box_state \<Rightarrow> action kube" where
  "reconcile_with X cfg b new_state =
     (if state_of b \<noteq> Joining \<and> new_state = Joining then
        if bg_role (bx_group b) = ExternalWorker then kret (Requeue fallback)
        else if \<not> cfg_group_enable_default_cluster cfg \<and> is_default (bx_group b) \<and> bg_role (bx_group b) = GenericWorker
          then kret (Requeue fallback)
        else if \<not> bind_group_updated b then
          kbind (patch_status (bx_name b) (access_of b) Running (bind_group_of b)) (\<lambda>_. kret (Requeue fallback))
        else enter_state X cfg b new_state (Some (bx_group b))
      else enter_state X cfg b new_state None)"

definition reconcile :: "printers \<Rightarrow> box_cr \<Rightarrow> action kube" where
  "reconcile X b w =
     (case detect_state (wd_now w) b of
        Inl act \<Rightarrow> (Inr act, w)
      | Inr new_state \<Rightarrow>
          (case get_config w of
             (Inl e, w') \<Rightarrow> (Inr (Requeue fallback), w')
           | (Inr cfg, w') \<Rightarrow> reconcile_with X cfg b new_state w'))"

section \<open>The monitor\<close>

record job_status =
  js_succeeded :: "int option"
  js_failed :: "int option"

definition or_zero :: "int option \<Rightarrow> int" where
  "or_zero n = (case n of Some i \<Rightarrow> i | None \<Rightarrow> 0)"

definition job_box_name :: "(string \<times> string) list \<Rightarrow> string option" where
  "job_box_name labels = bt_lookup labels label_box_name"

definition job_is_critical :: "(string \<times> string) list \<Rightarrow> bool" where
  "job_is_critical labels =
     (case Option.bind (bt_lookup labels label_job_is_critical) parse_bool of Some v \<Rightarrow> v | None \<Rightarrow> False)"

definition update_box_state :: "string \<Rightarrow> box_state \<Rightarrow> action kube" where
  "update_box_state name st = kbind
     (patch_box name (\<lambda>now b. b\<lparr>bx_status := Some
        (case bx_status b of
           Some s \<Rightarrow> s\<lparr>st_state := st, st_last_updated := now\<rparr>
         | None \<Rightarrow> \<lparr>st_state = st, st_access = None, st_bind_group = None, st_last_updated = now\<rparr>)\<rparr>))
     (\<lambda>_. kret (Requeue fallback))"

definition monitor :: "(string \<times> string) list \<Rightarrow> job_status \<Rightarrow> action kube" where
  "monitor labels status =
     (case job_box_name labels of
        None \<Rightarrow> kret AwaitChange
      | Some name \<Rightarrow>
          if job_is_critical labels then kret AwaitChange
          else if 0 < or_zero (js_succeeded status) then
            (case Option.bind (bt_lookup labels label_completed_state) parse_state of
               Some st \<Rightarrow> update_box_state name st
             | None \<Rightarrow> kret (Requeue fallback))
          else if 0 < or_zero (js_failed status) then update_box_state name Failed
          else kret (Requeue fallback))"

section \<open>The gateway\<close>

definition get_new :: "box_new_query \<Rightarrow> unit kube" where
  "get_new q =
     (let name = nq_uuid q in
      kbind (get_box name) (\<lambda>found.
        case found of
          Some b \<Rightarrow>
            (case interface_of_query (nq_access q) of
               None \<Rightarrow> kfail InvalidSpeed
             | Some i \<Rightarrow> patch_status name (Some i) New (bind_group_of b))
        | None \<Rightarrow>
            kbind (create_box name \<lparr>bx_name = name, bx_created = None, bx_labels = None, bx_group = default_group,
              bx_uuid = nq_uuid q, bx_power = None, bx_rack = None, bx_status = None\<rparr>) (\<lambda>_.
            case interface_of_query (nq_access q) of
              None \<Rightarrow> kfail InvalidSpeed
            | Some i \<Rightarrow> patch_status name (Some i) New None)))"

definition post_commission :: "box_commission_query \<Rightarrow> unit kube" where
  "post_commission q =
     (let name = cq_uuid q in
      kbind (get_box name) (\<lambda>found.
        case found of
          Some b \<Rightarrow>
            (case access_of_query (cq_access q) of
               None \<Rightarrow> kfail InvalidSpeed
             | Some access \<Rightarrow>
                 kbind (patch_box name (\<lambda>now b'. b'\<lparr>bx_group := bx_group b, bx_uuid := cq_uuid q,
                   bx_power := cq_power q, bx_rack := bx_rack b\<rparr>)) (\<lambda>_.
                 patch_status name access Ready (if cq_reset q then None else bind_group_of b)))
        | None \<Rightarrow> kfail (NoSuchBox name)))"

section \<open>Runs\<close>

text \<open>
  What happens to the machines: a handler runs, a job or a run of a scheduled job ends, a finished job is
  removed, time passes, an administrator edits or deletes a box or the configuration.
\<close>

datatype kiss_event =
    Operate string
  | JobEnds string job_status
  | CronRunEnds string job_status
  | RemoveJob string
  | GetNew box_new_query
  | PostCommission box_commission_query
  | Wait nat
  | Regroup string box_group
  | DeleteBox string
  | SetConfig "kiss_config option"
  | SetFaults "bool list"

fun run_event :: "printers \<Rightarrow> kiss_event \<Rightarrow> world \<Rightarrow> world" where
  "run_event X (Operate name) w =
     (case bt_lookup (wd_boxes w) name of Some b \<Rightarrow> snd (reconcile X b w) | None \<Rightarrow> w)"
| "run_event X (JobEnds name status) w =
     (case map_of (wd_jobs w) name of Some j \<Rightarrow> snd (monitor (jb_labels j) status w) | None \<Rightarrow> w)"
| "run_event X (CronRunEnds name status) w =
     (case map_of (wd_cron_jobs w) name of Some j \<Rightarrow> snd (monitor (jb_labels j) status w) | None \<Rightarrow> w)"
| "run_event X (RemoveJob name) w = w\<lparr>wd_jobs := filter (\<lambda>(n, _). n \<noteq> name) (wd_jobs w)\<rparr>"
| "run_event X (GetNew q) w = snd (get_new q w)"
| "run_event X (PostCommission q) w = snd (post_commission q w)"
| "run_event X (Wait n) w = w\<lparr>wd_now := wd_now w + int n\<rparr>"
| "run_event X (Regroup name g) w =
     (case bt_lookup (wd_boxes w) name of
        Some b \<Rightarrow> w\<lparr>wd_boxes := bt_insert name (b\<lparr>bx_group := g\<rparr>) (wd_boxes w)\<rparr> | None \<Rightarrow> w)"
| "run_event X (DeleteBox name) w = w\<lparr>wd_boxes := bt_remove name (wd_boxes w)\<rparr>"
| "run_event X (SetConfig c) w = w\<lparr>wd_config := c\<rparr>"
| "run_event X (SetFaults fs) w = w\<lparr>wd_faults := fs\<rparr>"

definition run_events :: "printers \<Rightarrow> kiss_event list \<Rightarrow> world \<Rightarrow> world" where
  "run_events X es w = fold (run_event X) es w"

definition empty_world :: "kiss_config \<Rightarrow> world" where
  "empty_world cfg = \<lparr>wd_boxes = [], wd_jobs = [], wd_cron_jobs = [], wd_config = Some cfg, wd_now = 0, wd_faults = []\<rparr>"

section \<open>What the operator does to a box\<close>

text \<open>The moves of the operator: the specification of its handler, over the boxes it sees, its
  configuration and the time.\<close>

inductive operator_move :: "box_cr list \<Rightarrow> kiss_config \<Rightarrow> int \<Rightarrow> box_cr \<Rightarrow> box_state \<Rightarrow> box_group option \<Rightarrow> bool"
  for boxes cfg now b where
  commission: "operator_move boxes cfg now b Commissioning (bind_group_of b)"
    if "state_of b = New" "access_of b \<noteq> None"
| lost: "operator_move boxes cfg now b Disconnected (bind_group_of b)"
    if "state_of b = New" "access_of b = None" "last_updated b = Some t" "t + 30 < now"
| expire: "operator_move boxes cfg now b Failed (bind_group_of b)"
    if "state_of b = Commissioning \<or> state_of b = Joining" "last_updated b = Some t" "t + 7200 < now"
| join: "operator_move boxes cfg now b Joining (Some (bx_group b))"
    if "state_of b = Ready" "bg_role (bx_group b) \<noteq> ExternalWorker"
      "cfg_group_enable_default_cluster cfg \<or> \<not> is_default (bx_group b) \<or> bg_role (bx_group b) \<noteq> GenericWorker"
      "bind_group_of b \<noteq> Some (bx_group b)" "is_joinable (load_cluster boxes cfg b False)"
| resume: "operator_move boxes cfg now b Running (bind_group_of b)"
    if "state_of b = Ready" "bg_role (bx_group b) \<noteq> ExternalWorker"
      "cfg_group_enable_default_cluster cfg \<or> \<not> is_default (bx_group b) \<or> bg_role (bx_group b) \<noteq> GenericWorker"
      "bind_group_of b = Some (bx_group b)"
| leave: "operator_move boxes cfg now b Disconnected (bind_group_of b)"
    if "state_of b = Running" "bind_group_of b \<noteq> Some (bx_group b)"

definition moved :: "box_cr \<Rightarrow> box_state \<Rightarrow> box_group option \<Rightarrow> int \<Rightarrow> box_cr" where
  "moved b st bind now =
     b\<lparr>bx_status := Some \<lparr>st_state = st, st_access = access_of b, st_bind_group = bind, st_last_updated = now\<rparr>\<rparr>"

lemma bind_group_updated_iff: "bind_group_updated b \<longleftrightarrow> bind_group_of b \<noteq> Some (bx_group b)"
  by (auto simp: bind_group_updated_def split: option.split)

lemma detect_state_cases:
  assumes "detect_state now b = Inr st"
  obtains "st = next_state (state_of b)" "state_of b = New \<longrightarrow> access_of b \<noteq> None"
      "state_of b = Running \<longrightarrow> bind_group_of b = Some (bx_group b)"
    | t where "st = Disconnected" "state_of b = New" "access_of b = None" "last_updated b = Some t" "t + 30 < now"
    | t where "st = Failed" "state_of b = Commissioning \<or> state_of b = Joining" "last_updated b = Some t" "t + 7200 < now"
    | "st = Disconnected" "state_of b = Running" "bind_group_of b \<noteq> Some (bx_group b)"
  using assms
  by (cases "state_of b")
    (auto simp: detect_state_def Let_def bind_group_updated_iff timeout_new_def fallback_update_def
      split: if_splits option.splits)

definition settles :: "world \<Rightarrow> box_cr \<Rightarrow> (box_state \<Rightarrow> box_group option \<Rightarrow> bool) \<Rightarrow> world \<Rightarrow> bool" where
  "settles w b M w' \<longleftrightarrow> same_boxes w w' \<or>
     (\<exists>st bind. M st bind \<and> wd_now w' = wd_now w \<and> wd_config w' = wd_config w \<and>
        wd_boxes w' = bt_insert (bx_name b) (moved b st bind (wd_now w)) (wd_boxes w))"

lemma settles_mono: "settles w b M w' \<Longrightarrow> (\<And>st bind. M st bind \<Longrightarrow> N st bind) \<Longrightarrow> settles w b N w'"
  by (auto simp: settles_def)

lemma patch_status_settles:
  assumes "bt_lookup (wd_boxes w) (bx_name b) = Some b"
  shows "kvalid (same_boxes w) (patch_status (bx_name b) (access_of b) st bind)
      (\<lambda>r. settles w b (\<lambda>s g. s = st \<and> g = bind))"
  unfolding patch_status_def patch_box_def
  by (rule kvalid_kapi) (auto simp: kvalid_def settles_def assms same_boxes_def moved_def)

lemma enter_state_settles:
  assumes "bt_lookup (wd_boxes w) (bx_name b) = Some b"
  shows "kvalid (same_boxes w) (enter_state X cfg b st g)
      (\<lambda>r. settles w b (\<lambda>s bind. s = st \<and> state_of b \<noteq> st \<and>
        bind = (if st = Joining then Some (bx_group b) else bind_group_of b) \<and>
        (st = Joining \<longrightarrow> is_joinable (load_cluster (map snd (wd_boxes w)) cfg b False))))"
proof -
  let ?j = "st = Joining \<longrightarrow> is_joinable (load_cluster (map snd (wd_boxes w)) cfg b False)"
  have spawned: "kvalid (same_boxes w)
      (case as_task st of Some task \<Rightarrow> spawn X cfg (box_job b st g task) | None \<Rightarrow> kret True)
      (\<lambda>r w'. same_boxes w w' \<and> (r = Inr True \<longrightarrow> ?j))"
  proof (cases "as_task st")
    case None
    then have "st \<noteq> Joining" by auto
    with None show ?thesis by (auto intro!: kvalid_kret)
  next
    case (Some task)
    then show ?thesis
      using spawn_same_boxes [of w X cfg "box_job b st g task"] by (simp add: box_job_def)
  qed
  show ?thesis
    unfolding enter_state_def
    apply (rule kvalid_if)
     apply (rule kvalid_kbind [where R = "\<lambda>s w'. same_boxes w w' \<and> (s \<longrightarrow> ?j)"])
      apply (rule kvalid_weaken [OF spawned]; auto simp: settles_def split: sum.split)
     apply (rule kvalid_pure)
     apply (rule kvalid_if)
      apply (rule kvalid_kret; simp add: settles_def)
     apply (rule kvalid_if)
      apply (rule kvalid_kret; simp add: settles_def)
     apply (rule kvalid_kbind [where R = "\<lambda>_. settles w b (\<lambda>s bind. s = st \<and> state_of b \<noteq> st \<and>
          bind = (if st = Joining then Some (bx_group b) else bind_group_of b) \<and> ?j)"])
      apply (rule kvalid_weaken [OF patch_status_settles [OF assms]]; auto elim!: settles_mono split: sum.split if_splits)
     apply (rule kvalid_kret; simp)
    apply (rule kvalid_kret; simp add: settles_def)
    done
qed

lemma get_config_cases:
  assumes "get_config w = (r, w')"
  obtains e where "r = Inl e" "same_boxes w w'"
    | cfg where "r = Inr cfg" "wd_config w = Some cfg" "same_boxes w w'"
  using assms
  by (auto simp: get_config_def kapi_def same_boxes_def split: list.splits bool.splits option.splits)

lemma same_boxes_settles: "same_boxes w w1 \<Longrightarrow> settles w1 b M w' \<Longrightarrow> settles w b M w'"
  by (auto simp: settles_def same_boxes_def)

lemma operator_move_resume:
  "state_of b = Ready \<Longrightarrow> bg_role (bx_group b) \<noteq> ExternalWorker \<Longrightarrow>
     cfg_group_enable_default_cluster cfg \<or> \<not> is_default (bx_group b) \<or> bg_role (bx_group b) \<noteq> GenericWorker \<Longrightarrow>
     bind_group_of b = Some (bx_group b) \<Longrightarrow> operator_move boxes cfg now b Running (Some (bx_group b))"
  using operator_move.resume [of b cfg boxes now] by simp

lemma reconcile_with_settles:
  assumes found: "bt_lookup (wd_boxes w) (bx_name b) = Some b" and st: "detect_state (wd_now w) b = Inr st"
  shows "settles w b (operator_move (map snd (wd_boxes w)) cfg (wd_now w) b) (snd (reconcile_with X cfg b st w))"
proof -
  let ?M = "operator_move (map snd (wd_boxes w)) cfg (wd_now w) b"
  have enter: "settles w b ?M (snd (enter_state X cfg b s g w))"
    if "\<And>bind. state_of b \<noteq> s \<Longrightarrow> bind = (if s = Joining then Some (bx_group b) else bind_group_of b) \<Longrightarrow>
          (s = Joining \<Longrightarrow> is_joinable (load_cluster (map snd (wd_boxes w)) cfg b False)) \<Longrightarrow> ?M s bind" for g s
    by (rule settles_mono [OF kvalid_snd [OF enter_state_settles [OF found] same_boxes_refl]]) (use that in auto)
  have resumed: "settles w b ?M (snd (kbind (patch_status (bx_name b) (access_of b) Running g)
        (\<lambda>_. kret (Requeue fallback)) w))" if "?M Running g" for g
  proof -
    have "kvalid (same_boxes w) (kbind (patch_status (bx_name b) (access_of b) Running g)
        (\<lambda>_. kret (Requeue fallback))) (\<lambda>r. settles w b (\<lambda>s g'. s = Running \<and> g' = g))"
      apply (rule kvalid_kbind [where R = "\<lambda>_. settles w b (\<lambda>s g'. s = Running \<and> g' = g)"])
       apply (rule kvalid_weaken [OF patch_status_settles [OF found]]; simp split: sum.split)
      apply (rule kvalid_kret; simp)
      done
    from kvalid_snd [OF this same_boxes_refl] that show ?thesis by (auto elim: settles_mono)
  qed
  have keep: "settles w b ?M (snd (kret (Requeue fallback) w))"
    by (simp add: settles_def)
  show ?thesis
  proof (cases "state_of b \<noteq> Joining \<and> st = Joining")
    case True
    with st have ready: "state_of b = Ready"
      by (rule_tac detect_state_cases [OF st]) (cases "state_of b"; simp)+
    with True keep show ?thesis
      by (auto simp: reconcile_with_def bind_group_updated_iff
          intro!: enter resumed intro: operator_move.join operator_move_resume)
  next
    case False
    have "?M st (bind_group_of b)" if "state_of b \<noteq> st"
      using st by (rule detect_state_cases)
        (use that False in \<open>cases "state_of b"; auto intro: operator_move.intros\<close>)+
    with False enter show ?thesis by (auto simp: reconcile_with_def)
  qed
qed

lemma reconcile_settles:
  assumes "bt_lookup (wd_boxes w) (bx_name b) = Some b"
  shows "\<exists>cfg. (wd_config w = Some cfg \<or> same_boxes w (snd (reconcile X b w))) \<and>
    settles w b (operator_move (map snd (wd_boxes w)) cfg (wd_now w) b) (snd (reconcile X b w))"
proof (cases "detect_state (wd_now w) b")
  case (Inl act)
  then show ?thesis by (simp add: reconcile_def settles_def)
next
  case (Inr st)
  obtain r w1 where c: "get_config w = (r, w1)" by fastforce
  from c show ?thesis
  proof (cases rule: get_config_cases)
    case (1 e)
    with Inr c show ?thesis by (simp add: reconcile_def settles_def)
  next
    case (2 cfg)
    have "settles w1 b (operator_move (map snd (wd_boxes w1)) cfg (wd_now w1) b) (snd (reconcile_with X cfg b st w1))"
      using reconcile_with_settles [of w1 b st cfg X] assms Inr 2(3) by (simp add: same_boxes_def)
    with 2 Inr c show ?thesis
      by (auto simp: reconcile_def same_boxes_def dest: same_boxes_settles [OF 2(3)])
  qed
qed

section \<open>What a run keeps\<close>

lemma kvalid_case_option:
  "(\<And>x. z = Some x \<Longrightarrow> kvalid P (f x) Q) \<Longrightarrow> (z = None \<Longrightarrow> kvalid P m Q) \<Longrightarrow>
     kvalid P (case z of Some x \<Rightarrow> f x | None \<Rightarrow> m) Q"
  by (cases z) auto

text \<open>An invariant of the jobs alone: nothing but spawning and removing jobs touches it.\<close>

locale job_invariant =
  fixes X :: printers and I :: "world \<Rightarrow> bool"
  assumes ignores: "I (w\<lparr>wd_boxes := bs\<rparr>) = I w" "I (w\<lparr>wd_now := t\<rparr>) = I w" "I (w\<lparr>wd_config := c\<rparr>) = I w"
      "I (w\<lparr>wd_faults := fs\<rparr>) = I w"
    and shrinks: "I w \<Longrightarrow> I (w\<lparr>wd_jobs := filter P (wd_jobs w)\<rparr>)"
    and spawns: "as_task st = Some task \<Longrightarrow> kvalid I (spawn X cfg (box_job b st g task)) (\<lambda>r. I)"
begin

lemma ignores_answers: "ignores_faults I"
  by (simp add: ignores_faults_def ignores)

lemmas inv_simps = ignores shrinks spawns ignores_answers

lemma box_ops_keep:
  "kvalid I (patch_box name f) (\<lambda>r. I)" "kvalid I (patch_status name acc st bind) (\<lambda>r. I)"
  "kvalid I (create_box name b) (\<lambda>r. I)" "kvalid I (get_box name) (\<lambda>r. I)"
  unfolding patch_status_def patch_box_def create_box_def get_box_def
  by (rule kvalid_kapi; simp add: inv_simps kvalid_def split: option.split)+

lemma reconcile_keeps: "I w \<Longrightarrow> I (snd (reconcile X b w))"
proof -
  have spawned: "kvalid I (case as_task st of Some task \<Rightarrow> spawn X cfg (box_job b st g task) | None \<Rightarrow> kret True) (\<lambda>r. I)"
    for st cfg g
    by (intro kvalid_case_option kvalid_kret inv_simps) auto
  have "kvalid I (reconcile_with X cfg b st) (\<lambda>r. I)" for cfg st
    unfolding reconcile_with_def enter_state_def
    by (intro kvalid_invariant kvalid_if kvalid_kret box_ops_keep spawned) auto
  moreover have "kvalid I get_config (\<lambda>r. I)"
    unfolding get_config_def by (rule kvalid_kapi) (simp_all add: inv_simps kvalid_def)
  ultimately show "I w \<Longrightarrow> I (snd (reconcile X b w))"
    by (auto simp: reconcile_def kvalid_def split: sum.split prod.split)
qed

lemma handlers_keep:
  "kvalid I (monitor labels status) (\<lambda>r. I)" "kvalid I (get_new q) (\<lambda>r. I)" "kvalid I (post_commission c) (\<lambda>r. I)"
  unfolding monitor_def update_box_state_def get_new_def post_commission_def Let_def
  by (intro kvalid_case_option kvalid_if kvalid_invariant kvalid_kret kvalid_kfail box_ops_keep; simp)+

lemma run_event_keeps: "I w \<Longrightarrow> I (run_event X e w)"
  by (cases e)
    (auto simp: inv_simps reconcile_keeps kvalid_snd [OF handlers_keep(1)] kvalid_snd [OF handlers_keep(2)]
      kvalid_snd [OF handlers_keep(3)] split: option.split)

lemma run_events_keep: "I w \<Longrightarrow> I (run_events X es w)"
  unfolding run_events_def by (induction es arbitrary: w) (simp_all add: run_event_keeps)

end

text \<open>The two invariants of the jobs.\<close>

interpretation single: job_invariant X one_job for X
  by unfold_locales (simp_all add: one_job_shrink spawn_one_job, simp_all add: one_job_def)

interpretation announced: job_invariant X jobs_announce_running for X
  by unfold_locales (simp_all add: spawn_announces_running, auto simp: jobs_announce_running_def)

text \<open>The jobs of the operator are named after their task and their machine, so a new job never meets
  another one of its name.\<close>

definition tasks :: "string list" where
  "tasks = [''commission'', ''join'', ''ping'', ''reset'']"

definition job_named :: "string \<Rightarrow> (string \<times> string) list \<Rightarrow> bool" where
  "job_named n labels \<longleftrightarrow> (\<exists>task \<in> set tasks. \<exists>u. n = ''box-'' @ task @ ''-'' @ u \<and> replaced_by u labels)"

definition jobs_named :: "world \<Rightarrow> bool" where
  "jobs_named w \<longleftrightarrow> (\<forall>(n, j) \<in> set (wd_jobs w) \<union> set (wd_cron_jobs w). job_named n (jb_labels j))"

lemma as_task_tasks: "as_task st = Some task \<Longrightarrow> task \<in> set tasks"
  by (cases st) (auto simp: tasks_def)

lemma job_labels_critical: "bt_lookup (job_labels a) label_job_is_critical = Some (show_bool (aj_is_critical a))"
  by (auto simp: job_labels_def bt_lookup_of_list label_box_name_def label_box_machine_uuid_def
      label_completed_state_def label_job_name_def label_job_is_critical_def split: option.split)

lemma replaced_by_job_labels: "\<not> aj_is_critical a \<Longrightarrow> replaced_by (bx_uuid (aj_box a)) (job_labels a)"
  by (simp add: replaced_by_def job_labels_box_name job_labels_critical)

lemma spawn_jobs_named:
  assumes "as_task st = Some task"
  shows "kvalid jobs_named (spawn X cfg (box_job b st g task)) (\<lambda>r. jobs_named)"
proof -
  let ?a = "box_job b st g task"
  have "job_named (job_name ?a) (job_labels ?a)"
    using as_task_tasks [OF assms] replaced_by_job_labels [of ?a]
    by (auto simp: job_named_def job_name_def box_job_def)
  then show ?thesis
    by (intro spawn_keeps) (auto simp: jobs_named_def ignores_faults_def job_object_def)
qed

interpretation named: job_invariant X jobs_named for X
  by unfold_locales (simp_all add: spawn_jobs_named, auto simp: jobs_named_def)

lemma task_names_inj:
  "t \<in> set tasks \<Longrightarrow> t' \<in> set tasks \<Longrightarrow> t @ ''-'' @ u = t' @ ''-'' @ u' \<Longrightarrow> u = u'"
  by (auto simp: tasks_def)

section \<open>Boxes in a run\<close>

definition box_all :: "(string \<Rightarrow> box_cr \<Rightarrow> bool) \<Rightarrow> world \<Rightarrow> bool" where
  "box_all Q w \<longleftrightarrow> bt_wf (wd_boxes w) \<and> (\<forall>n b. bt_lookup (wd_boxes w) n = Some b \<longrightarrow> Q n b)"

lemma box_all_insert:
  "box_all Q w \<Longrightarrow> Q n b \<Longrightarrow> box_all Q (w\<lparr>wd_boxes := bt_insert n b (wd_boxes w)\<rparr>)"
  by (simp add: box_all_def bt_lookup_insert)

lemma box_all_ignores [simp]:
  "ignores_faults (box_all Q)" "box_all Q (w\<lparr>wd_now := t\<rparr>) = box_all Q w"
  "box_all Q (w\<lparr>wd_config := c\<rparr>) = box_all Q w" "box_all Q (w\<lparr>wd_faults := fs\<rparr>) = box_all Q w"
  "box_all Q (w\<lparr>wd_jobs := js\<rparr>) = box_all Q w"
  by (simp_all add: box_all_def ignores_faults_def)

lemma box_all_remove: "box_all Q w \<Longrightarrow> box_all Q (w\<lparr>wd_boxes := bt_remove n (wd_boxes w)\<rparr>)"
  by (simp add: box_all_def bt_lookup_remove)

lemma patch_box_all:
  "(\<And>now b. Q name b \<Longrightarrow> Q name (f now b)) \<Longrightarrow> kvalid (box_all Q) (patch_box name f) (\<lambda>r. box_all Q)"
  unfolding patch_box_def
  by (rule kvalid_kapi) (simp, simp, auto simp: kvalid_def box_all_def bt_lookup_insert split: option.split)

text \<open>What holds of every box at any time: it is stored under its name, it never is in the state
  \<open>GroupChanged\<close>, and it is bound to a group when it joins.\<close>

definition box_ok :: "string \<Rightarrow> box_cr \<Rightarrow> bool" where
  "box_ok n b \<longleftrightarrow> bx_name b = n \<and> state_of b \<noteq> GroupChanged \<and> (state_of b = Joining \<longrightarrow> bind_group_of b \<noteq> None)"

lemma box_ok_moved: "box_ok n b \<Longrightarrow> operator_move boxes cfg now b st bind \<Longrightarrow> box_ok n (moved b st bind t)"
  by (auto simp: box_ok_def moved_def state_of_def bind_group_of_def elim: operator_move.cases)

lemma settles_box_all:
  assumes "settles w b (operator_move boxes cfg now b) w'" and "box_all box_ok w" and "bt_lookup (wd_boxes w) n = Some b"
  shows "box_all box_ok w'"
proof -
  from assms have ok: "box_ok n b" by (simp add: box_all_def)
  then have n: "bx_name b = n" by (simp add: box_ok_def)
  from assms(1) show ?thesis
    unfolding settles_def
  proof (elim disjE exE conjE)
    assume "same_boxes w w'"
    with assms(2) show ?thesis by (simp add: same_boxes_def box_all_def)
  next
    fix st bind
    assume m: "operator_move boxes cfg now b st bind"
      and w': "wd_boxes w' = bt_insert (bx_name b) (moved b st bind (wd_now w)) (wd_boxes w)"
    show ?thesis
      using box_all_insert [OF assms(2) box_ok_moved [OF ok m]] by (simp add: box_all_def w' n)
  qed
qed

lemma status_ok:
  "box_ok n b \<Longrightarrow> st \<notin> {GroupChanged, Joining} \<Longrightarrow> kvalid (box_all box_ok) (patch_status n acc st g) (\<lambda>r. box_all box_ok)"
  unfolding patch_status_def by (rule patch_box_all) (auto simp: box_ok_def state_of_def)

text \<open>A new report and the end of a commission put the box into the states \<open>New\<close> and \<open>Ready\<close>.\<close>

lemma get_box_all: "kvalid (box_all Q) (get_box n) (\<lambda>r w. case r of Inl e \<Rightarrow> box_all Q w | Inr x \<Rightarrow> box_all Q w \<and> (\<forall>b. x = Some b \<longrightarrow> Q n b))"
  unfolding get_box_def by (rule kvalid_kapi) (auto simp: kvalid_def box_all_def)

lemma gateway_ok:
  "kvalid (box_all box_ok) (get_new q) (\<lambda>r. box_all box_ok)"
  "kvalid (box_all box_ok) (post_commission c) (\<lambda>r. box_all box_ok)"
proof -
  have create: "kvalid (box_all box_ok) (create_box n b) (\<lambda>r. box_all box_ok)" if "bx_name b = n" "bx_status b = None" for n b
    unfolding create_box_def
  proof (rule kvalid_kapi)
    show "kvalid (box_all box_ok) (\<lambda>w. case bt_lookup (wd_boxes w) n of Some _ \<Rightarrow> (Inl (AlreadyExists n), w)
        | None \<Rightarrow> (Inr (), w\<lparr>wd_boxes := bt_insert n (b\<lparr>bx_created := Some (wd_now w)\<rparr>) (wd_boxes w)\<rparr>))
      (\<lambda>r. box_all box_ok)"
      using that by (auto simp: kvalid_def box_ok_def state_of_def intro!: box_all_insert split: option.split)
  qed simp_all
  have status: "kvalid (box_all box_ok) (patch_status n acc st g) (\<lambda>r. box_all box_ok)" if "st \<notin> {GroupChanged, Joining}" for n acc st g
    unfolding patch_status_def by (rule patch_box_all) (use that in \<open>auto simp: box_ok_def state_of_def\<close>)
  have spec: "kvalid (box_all box_ok) (patch_box n (\<lambda>now b'. b'\<lparr>bx_group := g, bx_uuid := u, bx_power := p, bx_rack := r\<rparr>))
      (\<lambda>r. box_all box_ok)" for n g u p r
    by (rule patch_box_all) (auto simp: box_ok_def state_of_def bind_group_of_def)
  have got: "kvalid (box_all box_ok) (get_box n) (\<lambda>r. box_all box_ok)" for n
    by (rule kvalid_weaken [OF get_box_all]) (auto split: sum.splits)
  show "kvalid (box_all box_ok) (get_new q) (\<lambda>r. box_all box_ok)"
    "kvalid (box_all box_ok) (post_commission c) (\<lambda>r. box_all box_ok)"
    unfolding get_new_def post_commission_def Let_def
    by (intro kvalid_invariant kvalid_case_option kvalid_kfail got create status spec; simp)+
qed

lemma monitor_ok:
  assumes "announces_running labels"
  shows "kvalid (box_all box_ok) (monitor labels status) (\<lambda>r. box_all box_ok)"
proof -
  have upd: "kvalid (box_all box_ok) (update_box_state n st) (\<lambda>r. box_all box_ok)" if "st \<in> {Running, Failed}" for n st
    unfolding update_box_state_def
    by (intro kvalid_invariant kvalid_kret patch_box_all)
      (use that in \<open>auto simp: box_ok_def state_of_def split: option.split\<close>)
  show ?thesis
    unfolding monitor_def
    by (intro kvalid_case_option kvalid_if kvalid_kret upd) (use assms in \<open>auto simp: announces_running_def\<close>)
qed

lemma run_event_box_ok:
  assumes "box_all box_ok w" and "jobs_announce_running w"
  shows "box_all box_ok (run_event X e w)"
proof (cases e)
  case (Operate n)
  show ?thesis
  proof (cases "bt_lookup (wd_boxes w) n")
    case (Some b)
    with assms(1) have "bx_name b = n" by (simp add: box_all_def box_ok_def)
    with Some reconcile_settles [of w b X] assms(1) show ?thesis
      by (auto simp: Operate intro: settles_box_all)
  qed (simp add: Operate assms)
next
  case (JobEnds n st)
  with assms show ?thesis
    by (auto simp: jobs_announce_running_def split: option.split dest!: map_of_SomeD
        intro!: kvalid_snd [OF monitor_ok])
next
  case (CronRunEnds n st)
  with assms show ?thesis
    by (auto simp: jobs_announce_running_def split: option.split dest!: map_of_SomeD
        intro!: kvalid_snd [OF monitor_ok])
next
  case (Regroup n g)
  with assms show ?thesis
    by (auto split: option.split intro!: box_all_insert)
      (auto simp: box_all_def box_ok_def state_of_def bind_group_of_def)
qed (use assms in \<open>auto intro: kvalid_snd [OF gateway_ok(1)] kvalid_snd [OF gateway_ok(2)] box_all_remove\<close>)

section \<open>One control plane joins at a time\<close>

definition joining_in :: "string \<Rightarrow> box_cr \<Rightarrow> bool" where
  "joining_in cluster b \<longleftrightarrow> bx_group b = \<lparr>bg_cluster_name = cluster, bg_role = ControlPlane\<rparr> \<and> state_of b = Joining"

definition single_joining :: "world \<Rightarrow> bool" where
  "single_joining w \<longleftrightarrow> (\<forall>cluster m n a b.
     bt_lookup (wd_boxes w) m = Some a \<and> joining_in cluster a \<and>
     bt_lookup (wd_boxes w) n = Some b \<and> joining_in cluster b \<longrightarrow> m = n)"

lemma single_joiningD:
  "single_joining w \<Longrightarrow> bt_lookup (wd_boxes w) m = Some a \<Longrightarrow> joining_in c a \<Longrightarrow>
     bt_lookup (wd_boxes w) n = Some b \<Longrightarrow> joining_in c b \<Longrightarrow> m = n"
  by (auto simp: single_joining_def)

lemma single_joining_insert:
  assumes "single_joining w"
    and "\<And>c m a. joining_in c b \<Longrightarrow> bt_lookup (wd_boxes w) m = Some a \<Longrightarrow> joining_in c a \<Longrightarrow> m = n"
  shows "single_joining (w\<lparr>wd_boxes := bt_insert n b (wd_boxes w)\<rparr>)"
  unfolding single_joining_def
  using assms by (auto simp: bt_lookup_insert split: if_splits dest: single_joiningD)

lemma single_joining_boxes: "wd_boxes w' = wd_boxes w \<Longrightarrow> single_joining w \<Longrightarrow> single_joining w'"
  by (simp add: single_joining_def)

lemma ignores_single_joining [simp]: "ignores_faults single_joining"
  by (simp add: ignores_faults_def single_joining_def)

text \<open>A joinable cluster has no joining control plane.\<close>

lemma fst_bt_of_list: "fst ` set (bt_of_list kvs) = fst ` set kvs"
proof -
  have "fst ` set (fold (\<lambda>(k, v) m. bt_insert k v m) kvs m) = fst ` set kvs \<union> fst ` set m" for m
    by (induction kvs arbitrary: m) (simp_all add: case_prod_beta fst_set_bt_insert)
  then show ?thesis by (simp add: bt_of_list_def)
qed

lemma joinable_all_ready:
  assumes joinable: "is_joinable (load_cluster boxes cfg b False)"
    and b: "b \<in> set boxes" "bg_role (bx_group b) = ControlPlane"
    and a: "a \<in> set boxes" "bx_group a = bx_group b"
  shows "state_of a \<in> {Ready, Running}"
proof -
  let ?cps = "load_control_planes boxes (bg_cluster_name (bx_group b))"
  have members: "cluster_box_of x \<in> fst ` set ?cps" if "x \<in> set boxes" "bx_group x = bx_group b" for x
    using that b by (force simp: load_control_planes_def fst_bt_of_list image_image)
  have "set_contains ?cps (bx_uuid b)"
    using members [OF b(1) refl] by (force simp: set_contains_def list_ex_iff cluster_box_of_def)
  with joinable have "num_ready ?cps = num_total ?cps"
    by (simp add: is_joinable_def is_node_control_plane_def is_control_plane_ready_def load_cluster_def)
  then have "\<forall>p \<in> set ?cps. cb_is_ready (fst p)"
    unfolding num_ready_def num_total_def
    by (metis (no_types, lifting) case_prod_beta' filter_True length_filter_less nat_neq_iff)
  with members [OF a] have "cb_is_ready (cluster_box_of a)" by fastforce
  then show ?thesis by (auto simp: cluster_box_of_def state_of_def split: option.splits)
qed

lemma settles_single:
  assumes "settles w b (operator_move (map snd (wd_boxes w)) cfg now b) w'" and s: "single_joining w"
    and b: "bt_lookup (wd_boxes w) (bx_name b) = Some b"
  shows "single_joining w'"
  using assms(1) unfolding settles_def
proof (elim disjE exE conjE)
  assume "same_boxes w w'"
  with s show ?thesis by (auto simp: same_boxes_def intro: single_joining_boxes)
next
  fix st bind
  assume m: "operator_move (map snd (wd_boxes w)) cfg now b st bind"
    and w': "wd_boxes w' = bt_insert (bx_name b) (moved b st bind (wd_now w)) (wd_boxes w)"
  have in_boxes: "bt_lookup (wd_boxes w) n = Some x \<Longrightarrow> x \<in> set (map snd (wd_boxes w))" for n x
    by (force simp: bt_lookup_def dest: map_of_SomeD)
  have "single_joining (w\<lparr>wd_boxes := bt_insert (bx_name b) (moved b st bind (wd_now w)) (wd_boxes w)\<rparr>)"
  proof (rule single_joining_insert [OF s])
    fix c n a
    assume j: "joining_in c (moved b st bind (wd_now w))"
      and a: "bt_lookup (wd_boxes w) n = Some a" "joining_in c a"
    from j have "st = Joining" and g: "bx_group b = bx_group a" "bg_role (bx_group b) = ControlPlane"
      using a(2) by (auto simp: joining_in_def moved_def state_of_def)
    with m have "is_joinable (load_cluster (map snd (wd_boxes w)) cfg b False)"
      by (auto elim: operator_move.cases)
    with joinable_all_ready [OF this in_boxes [OF b] g(2) in_boxes [OF a(1)]] g a(2) show "n = bx_name b"
      by (auto simp: joining_in_def)
  qed
  then show ?thesis using w' by (auto intro: single_joining_boxes [rotated])
qed

lemma status_single:
  "st \<noteq> Joining \<Longrightarrow> kvalid single_joining (patch_status n acc st g) (\<lambda>r. single_joining)"
  unfolding patch_status_def patch_box_def
  by (rule kvalid_kapi) (simp, simp,
      auto simp: kvalid_def joining_in_def state_of_def intro!: single_joining_insert split: option.split)

lemma gateway_single:
  "kvalid single_joining (get_new q) (\<lambda>r. single_joining)"
  "kvalid single_joining (post_commission c) (\<lambda>r. single_joining)"
proof -
  have got: "kvalid single_joining (get_box n)
      (\<lambda>r w. case r of Inl e \<Rightarrow> single_joining w | Inr x \<Rightarrow> single_joining w \<and> bt_lookup (wd_boxes w) n = x)" for n
  proof -
    have "kvalid single_joining (get_box n) (\<lambda>r w. single_joining w \<and> (\<forall>x. r = Inr x \<longrightarrow> bt_lookup (wd_boxes w) n = x))"
      unfolding get_box_def by (rule kvalid_kapi) (auto simp: kvalid_def)
    then show ?thesis by (rule kvalid_weaken) (auto split: sum.split)
  qed
  have create: "kvalid single_joining (create_box n b) (\<lambda>r. single_joining)" if "bx_status b = None" for n b
    unfolding create_box_def
    by (rule kvalid_kapi) (simp, simp,
        auto simp: kvalid_def joining_in_def state_of_def that intro!: single_joining_insert split: option.split)
  have spec: "kvalid (\<lambda>w. single_joining w \<and> bt_lookup (wd_boxes w) n = Some b)
      (patch_box n (\<lambda>now b'. b'\<lparr>bx_group := bx_group b, bx_uuid := u, bx_power := p, bx_rack := r\<rparr>))
      (\<lambda>r. single_joining)" for n b u p r
    unfolding patch_box_def
    by (rule kvalid_kapi) (simp add: ignores_faults_def single_joining_def, simp,
        auto simp: kvalid_def joining_in_def state_of_def intro!: single_joining_insert
          dest: single_joiningD [where c = "bg_cluster_name (bx_group b)" and b = b]
          split: option.split)
  show "kvalid single_joining (get_new q) (\<lambda>r. single_joining)"
    unfolding get_new_def Let_def
    apply (rule kvalid_kbind [OF got])
    apply (rule kvalid_weaken [where P' = single_joining and Q' = "\<lambda>r. single_joining"])
      apply (intro kvalid_case_option kvalid_invariant kvalid_kfail create status_single; simp)
     apply simp_all
    done
  show "kvalid single_joining (post_commission c) (\<lambda>r. single_joining)"
    unfolding post_commission_def Let_def
    apply (rule kvalid_kbind [OF got])
    apply (rule kvalid_case_option)
     apply (rule kvalid_case_option)
      apply (rule kvalid_kbind [where R = "\<lambda>_. single_joining"])
       apply (rule kvalid_weaken [OF spec]; auto split: sum.split)
      apply (rule status_single; simp)
     apply (rule kvalid_kfail; simp)+
    done
qed

lemma monitor_single:
  assumes "announces_running labels"
  shows "kvalid single_joining (monitor labels status) (\<lambda>r. single_joining)"
proof -
  have upd: "kvalid single_joining (update_box_state n st) (\<lambda>r. single_joining)" if "st \<noteq> Joining" for n st
    unfolding update_box_state_def
  proof (intro kvalid_invariant kvalid_kret)
    show "kvalid single_joining (patch_box n (\<lambda>now b. b\<lparr>bx_status := Some
        (case bx_status b of
           Some s \<Rightarrow> s\<lparr>st_state := st, st_last_updated := now\<rparr>
         | None \<Rightarrow> \<lparr>st_state = st, st_access = None, st_bind_group = None, st_last_updated = now\<rparr>)\<rparr>)) (\<lambda>r. single_joining)"
      unfolding patch_box_def
      by (rule kvalid_kapi) (simp, simp,
          use that in \<open>auto simp: kvalid_def joining_in_def state_of_def intro!: single_joining_insert split: option.splits\<close>)
  qed simp
  show ?thesis
    unfolding monitor_def
    by (intro kvalid_case_option kvalid_if kvalid_kret upd) (use assms in \<open>auto simp: announces_running_def\<close>)
qed

text \<open>A calm run moves no box to another group while it joins.\<close>

fun calm_event :: "kiss_event \<Rightarrow> world \<Rightarrow> bool" where
  "calm_event (Regroup n g) w \<longleftrightarrow> (\<forall>b. bt_lookup (wd_boxes w) n = Some b \<longrightarrow> state_of b \<noteq> Joining)"
| "calm_event e w \<longleftrightarrow> True"

fun calm :: "printers \<Rightarrow> kiss_event list \<Rightarrow> world \<Rightarrow> bool" where
  "calm X [] w \<longleftrightarrow> True"
| "calm X (e # es) w \<longleftrightarrow> calm_event e w \<and> calm X es (run_event X e w)"

lemma run_event_single:
  assumes "single_joining w" and ok: "box_all box_ok w" and jobs: "jobs_announce_running w" and "calm_event e w"
  shows "single_joining (run_event X e w)"
proof (cases e)
  case (Operate n)
  show ?thesis
  proof (cases "bt_lookup (wd_boxes w) n")
    case (Some b)
    with ok have "bx_name b = n" by (simp add: box_all_def box_ok_def)
    with Some reconcile_settles [of w b X] assms(1) show ?thesis
      by (auto simp: Operate intro: settles_single)
  qed (simp add: Operate assms)
next
  case (JobEnds n st)
  with assms(1) jobs show ?thesis
    by (auto simp: jobs_announce_running_def split: option.split dest!: map_of_SomeD
        intro!: kvalid_snd [OF monitor_single])
next
  case (CronRunEnds n st)
  with assms(1) jobs show ?thesis
    by (auto simp: jobs_announce_running_def split: option.split dest!: map_of_SomeD
        intro!: kvalid_snd [OF monitor_single])
next
  case (Regroup n g)
  with assms show ?thesis
    by (auto simp: joining_in_def state_of_def split: option.split intro!: single_joining_insert)
next
  case (DeleteBox n)
  from ok have "bt_wf (wd_boxes w)" by (simp add: box_all_def)
  with assms(1) show ?thesis
    unfolding DeleteBox single_joining_def by (simp add: bt_lookup_remove)
qed (use assms(1) in \<open>auto intro: kvalid_snd [OF gateway_single(1)] kvalid_snd [OF gateway_single(2)] single_joining_boxes [rotated]\<close>)

text \<open>All invariants together hold in the empty world and after every event.\<close>

definition kiss_inv :: "world \<Rightarrow> bool" where
  "kiss_inv w \<longleftrightarrow> box_all box_ok w \<and> jobs_announce_running w \<and> one_job w \<and> jobs_named w"

lemma kiss_inv_empty [simp]: "kiss_inv (empty_world cfg)" "single_joining (empty_world cfg)"
  by (simp_all add: kiss_inv_def empty_world_def box_all_def jobs_announce_running_def one_job_def jobs_named_def single_joining_def)

lemma kiss_inv_event: "kiss_inv w \<Longrightarrow> kiss_inv (run_event X e w)"
  by (simp add: kiss_inv_def run_event_box_ok announced.run_event_keeps single.run_event_keeps named.run_event_keeps)

lemma kiss_inv_run: "kiss_inv w \<Longrightarrow> kiss_inv (run_events X es w)"
  unfolding run_events_def by (induction es arbitrary: w) (simp_all add: kiss_inv_event)

lemma kiss_inv_single: "kiss_inv w \<Longrightarrow> single_joining w \<Longrightarrow> calm_event e w \<Longrightarrow> single_joining (run_event X e w)"
  by (simp add: kiss_inv_def run_event_single)

lemma single_joining_run:
  "kiss_inv w \<Longrightarrow> single_joining w \<Longrightarrow> calm X es w \<Longrightarrow> single_joining (run_events X es w)"
  unfolding run_events_def
  by (induction es arbitrary: w) (simp_all add: kiss_inv_event kiss_inv_single)

section \<open>Runs without failures\<close>

text \<open>No job stands in the way of a new one: a job of its name would be replaced.\<close>

definition name_free :: "box_cr \<Rightarrow> string \<Rightarrow> world \<Rightarrow> bool" where
  "name_free b task w \<longleftrightarrow>
     (\<forall>j. (''box-'' @ task @ ''-'' @ bx_uuid b, j) \<in> set (wd_jobs w) \<union> set (wd_cron_jobs w) \<longrightarrow>
        replaced_by (bx_uuid b) (jb_labels j))"

lemma kapi_no_faults: "wd_faults w = [] \<Longrightarrow> kapi m w = m w"
  by (simp add: kapi_def)

lemma map_of_filter_None:
  "(\<And>j. (n, j) \<in> set js \<Longrightarrow> \<not> P (n, j)) \<Longrightarrow> map_of (filter P js) n = None"
  by (auto simp: map_of_eq_None_iff)

lemma name_free_named:
  assumes "jobs_named w" and "task \<in> set tasks"
  shows "name_free b task w"
  unfolding name_free_def
proof (intro allI impI)
  fix j
  assume "(''box-'' @ task @ ''-'' @ bx_uuid b, j) \<in> set (wd_jobs w) \<union> set (wd_cron_jobs w)"
  with assms(1) have "job_named (''box-'' @ task @ ''-'' @ bx_uuid b) (jb_labels j)"
    by (auto simp: jobs_named_def)
  then obtain t u where "t \<in> set tasks" "task @ ''-'' @ bx_uuid b = t @ ''-'' @ u" "replaced_by u (jb_labels j)"
    by (auto simp: job_named_def)
  with task_names_inj [OF assms(2) this(1,2)] show "replaced_by (bx_uuid b) (jb_labels j)" by simp
qed

lemma jb_name_job_object: "jb_name (job_object X cfg st a) = job_name a"
  by (simp add: job_object_def)

lemma spawn_no_faults:
  assumes "wd_faults w = []" and "\<not> aj_use_workers a"
    and "aj_new_state a = Some Joining \<Longrightarrow> is_joinable (load_cluster (map snd (wd_boxes w)) cfg (aj_box a) False)"
    and free: "name_free (aj_box a) (aj_task a) w"
  obtains w' st where "spawn X cfg a w = (Inr True, w')" "same_boxes w w'" "wd_faults w' = []"
    "aj_cron a = None \<Longrightarrow> map_of (wd_jobs w') (job_name a) = Some (job_object X cfg st a)"
proof -
  let ?sel = "\<lambda>(n, j). \<not> replaced_by (bx_uuid (aj_box a)) (jb_labels j)"
  have "map_of (filter ?sel (wd_jobs w)) (job_name a) = None" "map_of (filter ?sel (wd_cron_jobs w)) (job_name a) = None"
    using free by (auto simp: name_free_def job_name_def intro!: map_of_filter_None)
  with assms(1-3) have "\<exists>w' st. spawn X cfg a w = (Inr True, w') \<and> same_boxes w w' \<and> wd_faults w' = [] \<and>
      (aj_cron a = None \<longrightarrow> map_of (wd_jobs w') (job_name a) = Some (job_object X cfg st a))"
    by (cases "aj_cron a")
      (auto simp: spawn_def Let_def kbind_def kapi_no_faults delete_collection_cron_jobs_def
        delete_collection_jobs_def list_boxes_def create_job_def create_cron_job_def jb_name_job_object same_boxes_def map_add_def)
  then show thesis by (elim exE conjE) (rule that; simp)
qed

text \<open>After a move: the box has its new status, and the job of the new state is there.\<close>

definition announced_job :: "printers \<Rightarrow> kiss_config \<Rightarrow> box_cr \<Rightarrow> box_state \<Rightarrow> box_group option \<Rightarrow> world \<Rightarrow> bool" where
  "announced_job X cfg b st g w \<longleftrightarrow> (\<forall>task. as_task st = Some task \<longrightarrow> cron st = None \<longrightarrow>
     (\<exists>cs. map_of (wd_jobs w) (job_name (box_job b st g task)) = Some (job_object X cfg cs (box_job b st g task))))"

definition after_move :: "printers \<Rightarrow> kiss_config \<Rightarrow> box_cr \<Rightarrow> box_state \<Rightarrow> box_group option \<Rightarrow>
    box_group option \<Rightarrow> world \<Rightarrow> world \<Rightarrow> bool" where
  "after_move X cfg b st bind g w w' \<longleftrightarrow>
     wd_boxes w' = bt_insert (bx_name b) (moved b st bind (wd_now w)) (wd_boxes w) \<and>
     wd_faults w' = [] \<and> wd_config w' = wd_config w \<and> wd_now w' = wd_now w \<and> announced_job X cfg b st g w'"

lemma enter_state_no_faults:
  assumes w: "wd_faults w = []" "bt_lookup (wd_boxes w) (bx_name b) = Some b"
    and st: "state_of b \<noteq> st" "st = Joining \<Longrightarrow> is_joinable (load_cluster (map snd (wd_boxes w)) cfg b False)"
    and free: "\<And>task. as_task st = Some task \<Longrightarrow> name_free b task w"
    and bind: "bind = (if st = Joining then Some (bx_group b) else bind_group_of b)"
  shows "\<exists>act w'. enter_state X cfg b st g w = (Inr act, w') \<and> after_move X cfg b st bind g w w'"
proof -
  have "\<exists>w'. (case as_task st of Some task \<Rightarrow> spawn X cfg (box_job b st g task) | None \<Rightarrow> kret True) w = (Inr True, w') \<and>
      same_boxes w w' \<and> wd_faults w' = [] \<and> announced_job X cfg b st g w'"
  proof (cases "as_task st")
    case (Some task)
    let ?a = "box_job b st g task"
    have "aj_new_state ?a = Some Joining \<Longrightarrow> is_joinable (load_cluster (map snd (wd_boxes w)) cfg (aj_box ?a) False)"
      "\<not> aj_use_workers ?a" "name_free (aj_box ?a) (aj_task ?a) w"
      using st(2) free [OF Some] by (simp_all add: box_job_def)
    from spawn_no_faults [OF w(1) this(2,1,3), of X] obtain w' cs
      where "spawn X cfg ?a w = (Inr True, w')" "same_boxes w w'" "wd_faults w' = []"
        "aj_cron ?a = None \<Longrightarrow> map_of (wd_jobs w') (job_name ?a) = Some (job_object X cfg cs ?a)"
      by metis
    then show ?thesis
      by (intro exI [of _ w']) (auto simp: Some announced_job_def box_job_def)
  qed (simp add: w announced_job_def)
  with st(1) w show ?thesis
    by (auto simp: enter_state_def kbind_def patch_status_def patch_box_def kapi_no_faults same_boxes_def moved_def
        bind after_move_def announced_job_def)
qed

lemma reconcile_no_faults:
  assumes w: "wd_faults w = []" "wd_config w = Some cfg" "bt_lookup (wd_boxes w) (bx_name b) = Some b"
    and move: "operator_move (map snd (wd_boxes w)) cfg (wd_now w) b st bind"
    and named: "jobs_named w"
  shows "\<exists>act w' g. reconcile X b w = (Inr act, w') \<and> after_move X cfg b st bind g w w'"
proof -
  have cfg: "get_config w = (Inr cfg, w)"
    by (simp add: get_config_def kapi_no_faults w)
  have enter: "\<exists>act w'. enter_state X cfg b st g w = (Inr act, w') \<and> (\<exists>g. after_move X cfg b st bind g w w')"
    if "state_of b \<noteq> st" "bind = (if st = Joining then Some (bx_group b) else bind_group_of b)"
      "st = Joining \<Longrightarrow> is_joinable (load_cluster (map snd (wd_boxes w)) cfg b False)" for g
    using enter_state_no_faults [OF w(1,3) that(1) that(3) _ that(2), of X g] named by (blast intro: name_free_named as_task_tasks)
  from move show ?thesis
  proof cases
    case resume
    then show ?thesis
      by (auto simp: reconcile_def cfg detect_state_def Let_def reconcile_with_def bind_group_updated_iff kbind_def
          patch_status_def patch_box_def kapi_no_faults w moved_def after_move_def announced_job_def)
  next
    case join
    then show ?thesis using enter
      by (auto simp: reconcile_def cfg detect_state_def Let_def reconcile_with_def bind_group_updated_iff)
  qed (use enter in \<open>auto simp: reconcile_def cfg detect_state_def Let_def reconcile_with_def bind_group_updated_iff
      timeout_new_def fallback_update_def split: option.split\<close>)
qed

end
