(* ===== verification/Kiss_Correct.thy ===== *)
theory Kiss_Correct imports Kiss_Operator begin

text \<open>
  The properties of the provisioner: the operator implements its table of moves, boxes and jobs keep
  their invariants in every run, the membership of \<open>etcd\<close> is bounded and odd, and a fresh machine
  reaches the state \<open>Running\<close>.
\<close>

section \<open>The operator and its moves\<close>

text \<open>C10: the operator changes a box only by a move of its specification, which its configuration, the
  current boxes and the time allow; it leaves the other boxes alone, whatever calls of the API fail.\<close>

theorem operator_follows_moves:
  assumes "bt_lookup (wd_boxes w) (bx_name b) = Some b"
  shows "wd_boxes (snd (reconcile X b w)) = wd_boxes w \<or>
    (\<exists>cfg st bind. wd_config w = Some cfg \<and>
       operator_move (map snd (wd_boxes w)) cfg (wd_now w) b st bind \<and>
       wd_boxes (snd (reconcile X b w)) = bt_insert (bx_name b) (moved b st bind (wd_now w)) (wd_boxes w))"
  using reconcile_settles [OF assms, of X] by (auto simp: settles_def same_boxes_def)

text \<open>C12: and it makes every move that is possible: in a reachable world, when no call of the API fails,
  a box for which the specification has a move makes that move at the next reconciliation.\<close>

theorem operator_makes_moves:
  assumes w: "w = run_events X es (empty_world cfg0)" "wd_faults w = []" "wd_config w = Some cfg"
    and b: "bt_lookup (wd_boxes w) n = Some b"
    and move: "operator_move (map snd (wd_boxes w)) cfg (wd_now w) b st bind"
  shows "wd_boxes (run_event X (Operate n) w) = bt_insert n (moved b st bind (wd_now w)) (wd_boxes w)"
proof -
  have inv: "kiss_inv w" by (simp add: w(1) kiss_inv_run)
  then have "bx_name b = n" using b by (simp add: kiss_inv_def box_all_def box_ok_def)
  with inv reconcile_no_faults [OF w(2,3) _ move, of X] b show ?thesis
    by (auto simp: kiss_inv_def after_move_def)
qed

section \<open>Invariants of every run\<close>

text \<open>C11: at most one control plane of a cluster joins at a time: in every run in which no box is moved to
  another group while it joins, two joining control planes of one cluster are the same box.\<close>

theorem one_control_plane_joins:
  assumes "calm X es (empty_world cfg)" and w: "w = run_events X es (empty_world cfg)"
    and a: "bt_lookup (wd_boxes w) m = Some a" "joining_in cluster a"
    and b: "bt_lookup (wd_boxes w) n = Some b" "joining_in cluster b"
  shows "m = n"
  using single_joining_run [OF kiss_inv_empty assms(1)] a b unfolding w by (rule single_joiningD)

text \<open>C14: at most one job or schedule works on a machine at a time, in every run and whatever calls of the
  API fail; critical jobs are not counted.\<close>

theorem one_job_per_machine:
  "length (filter (\<lambda>(_, j). replaced_by uuid (jb_labels j)) (wd_jobs (run_events X es (empty_world cfg)))) +
   length (filter (\<lambda>(_, j). replaced_by uuid (jb_labels j)) (wd_cron_jobs (run_events X es (empty_world cfg)))) \<le> 1"
  using kiss_inv_run [OF kiss_inv_empty(1), of X es cfg]
  by (auto simp: kiss_inv_def one_job_def managed_def)

text \<open>C15: in every run a box is stored under its own name, it never reaches the state \<open>GroupChanged\<close>, and
  it is bound to a group while it joins.\<close>

theorem boxes_stay_well_formed:
  assumes "bt_lookup (wd_boxes (run_events X es (empty_world cfg))) n = Some b"
  shows "bx_name b = n \<and> state_of b \<noteq> GroupChanged \<and> (state_of b = Joining \<longrightarrow> (\<exists>g. bind_group_of b = Some g))"
  using kiss_inv_run [OF kiss_inv_empty(1), of X es cfg] assms
  by (auto simp: kiss_inv_def box_all_def box_ok_def)

section \<open>Members of \<open>etcd\<close>\<close>

lemma length_iter_boxes: "length (iter_boxes f g) = length (filter (\<lambda>(node, _). cb_is_running node \<or> filter_has f (cb_uuid node)) g)"
  by (simp add: iter_boxes_def)

lemma etcd_members_odd:
  assumes owner: "is_node_control_plane st" and wf: "bt_wf (cs_control_planes st)"
  shows "odd (length (etcd_nodes st)) \<and> distinct (etcd_nodes st) \<and>
    (0 < cfg_etcd_nodes_max (cs_config st) \<longrightarrow> length (etcd_nodes st) \<le> cfg_etcd_nodes_max (cs_config st)) \<and>
    (\<forall>m \<in> set (etcd_nodes st). m \<in> fst ` set (cs_control_planes st) \<and>
       (cb_is_running m \<or> cb_uuid m = cs_owner_uuid st))"
proof -
  let ?f = "\<lambda>(node, _). cb_is_running node \<or> filter_has (RunningWith (cs_owner_uuid st)) (cb_uuid node)"
  let ?all = "nodes_of (RunningWith (cs_owner_uuid st)) (cs_control_planes st)"
  define max where "max = cfg_etcd_nodes_max (cs_config st)"
  define some where "some = (if 0 < max then take max ?all else ?all)"
  have etcd: "etcd_nodes st = (if even (length some) then butlast some else some)"
    by (simp add: etcd_nodes_def Let_def max_def some_def)
  have set_all: "set ?all = fst ` set (filter ?f (cs_control_planes st))"
    by (simp add: nodes_of_def iter_boxes_def)
  have dist: "distinct ?all"
    using bt_wf_distinct [OF wf]
    by (simp add: nodes_of_def iter_boxes_def distinct_map distinct_filter inj_on_def)
  obtain node b where "(node, b) \<in> set (cs_control_planes st)" "cb_uuid node = cs_owner_uuid st"
    using owner by (auto simp: is_node_control_plane_def set_contains_def list_ex_iff)
  then have "node \<in> set ?all" by (force simp: set_all)
  then have "?all \<noteq> []" by auto
  then have "some \<noteq> []" and sub: "set some \<subseteq> set ?all" and "distinct some" and len: "0 < max \<longrightarrow> length some \<le> max"
    using dist set_take_subset [of max ?all] by (auto simp: some_def)
  then have "odd (length (etcd_nodes st))" "distinct (etcd_nodes st)"
    by (auto simp: etcd distinct_butlast)
  moreover have "set (etcd_nodes st) \<subseteq> set ?all"
    using sub by (auto simp: etcd dest: in_set_butlastD)
  moreover have "length (etcd_nodes st) \<le> length some" by (simp add: etcd)
  ultimately show ?thesis
    using len by (auto simp: max_def [symmetric] set_all)
qed

definition etcd_entry :: "printers \<Rightarrow> cluster_box \<Rightarrow> string" where
  "etcd_entry X m = ''etcd:'' @ cb_hostname m @ '':'' @ show_ip X (the (cb_ip m))"

lemma host_entries_etcd:
  "host_entries (show_ip X) ''etcd'' ms = map (etcd_entry X) (filter (\<lambda>m. cb_ip m \<noteq> None) ms)"
  by (induction ms) (auto simp: host_entries_def etcd_entry_def get_host_def List.map_filter_def)

text \<open>C16: the \<open>etcd\<close> hosts that the playbook of a joining control plane gets: an odd number of distinct
  control planes of the cluster is chosen, at most the configured maximum, each running or the box itself;
  the running ones come first, then the older ones; and the hosts are those of the chosen that have an
  address, in this order. So the number of hosts is odd when every chosen one has an address, and may be even
  otherwise, because the code drops the nodes without an address only after it has made the number odd.\<close>

theorem etcd_hosts_odd:
  assumes owner: "is_node_control_plane st" and wf: "bt_wf (cs_control_planes st)"
  shows "\<exists>ms. odd (length ms) \<and> distinct ms \<and>
    (0 < cfg_etcd_nodes_max (cs_config st) \<longrightarrow> length ms \<le> cfg_etcd_nodes_max (cs_config st)) \<and>
    (\<forall>m \<in> set ms. m \<in> fst ` set (cs_control_planes st) \<and> (cb_is_running m \<or> cb_uuid m = cs_owner_uuid st)) \<and>
    sorted (map sort_by_date ms) \<and>
    etcd_nodes_string (show_ip X) st = join_space (map (etcd_entry X) (filter (\<lambda>m. cb_ip m \<noteq> None) ms))"
  using etcd_members_odd [OF owner wf]
  by (intro exI [of _ "sort_key sort_by_date (etcd_nodes st)"])
    (simp add: etcd_nodes_string_def nodes_as_string_def host_entries_etcd)

text \<open>A control plane that joins again can displace the running members: when it is older than the
  only running control plane, it is alone in the list of \<open>etcd\<close> members, although the cluster is not new.\<close>

theorem rejoining_node_displaces_etcd:
  assumes cps: "cs_control_planes st = [(old, b), (young, c)]"
    and owner: "cb_uuid old = cs_owner_uuid st" and old: "\<not> cb_is_running old" "cb_is_ready old"
    and young: "cb_is_running young" "cb_is_ready young"
    and order: "cb_created_at old < cb_created_at young"
  shows "is_joinable st \<and> \<not> is_new st \<and> etcd_nodes st = [old]"
proof -
  have "iter_boxes (RunningWith (cs_owner_uuid st)) (cs_control_planes st) = [(old, b), (young, c)]"
    using order old young by (simp add: iter_boxes_def cps owner less_eq_prod_def)
  then have "nodes_of (RunningWith (cs_owner_uuid st)) (cs_control_planes st) = [old, young]"
    by (simp add: nodes_of_def)
  then have "etcd_nodes st = [old]"
    by (cases "cfg_etcd_nodes_max (cs_config st)"; cases "cfg_etcd_nodes_max (cs_config st) - 1")
      (auto simp: etcd_nodes_def Let_def)
  with assms show ?thesis
    by (simp add: is_joinable_def is_new_def is_node_control_plane_def set_contains_def is_control_plane_ready_def
        num_ready_def num_total_def is_next_def is_running_def)
qed

section \<open>Provisioning\<close>

text \<open>The world while a fresh machine is provisioned: its box alone, in a given state.\<close>

definition stage :: "kiss_config \<Rightarrow> string \<Rightarrow> box_state \<Rightarrow> box_group option \<Rightarrow> world \<Rightarrow> bool" where
  "stage cfg u st g w \<longleftrightarrow> jobs_named w \<and> wd_faults w = [] \<and> wd_config w = Some cfg \<and>
     (\<exists>b. wd_boxes w = [(u, b)] \<and> bx_name b = u \<and> bx_uuid b = u \<and> bx_group b = default_group \<and>
        state_of b = st \<and> bind_group_of b = g \<and> (st = New \<longrightarrow> access_of b \<noteq> None))"

lemma stage_wait: "stage cfg u st g w \<Longrightarrow> stage cfg u st g (run_event X (Wait n) w)"
  by (auto simp: stage_def jobs_named_def)

lemma wait_jobs [simp]: "wd_jobs (run_event X (Wait n) w) = wd_jobs w"
  by simp

lemma stage_new:
  assumes "interface_of_query (nq_access q) = Some i"
  shows "stage cfg (nq_uuid q) New None (run_event X (GetNew q) (empty_world cfg))"
  using assms
  by (simp add: get_new_def Let_def kbind_def get_box_def create_box_def patch_status_def patch_box_def kapi_def
      empty_world_def stage_def jobs_named_def state_of_def bind_group_of_def access_of_def)

text \<open>Every box has last changed at a given time.\<close>

definition changed_at :: "int \<Rightarrow> world \<Rightarrow> bool" where
  "changed_at t w \<longleftrightarrow> (\<forall>(n, b) \<in> set (wd_boxes w). last_updated b = Some t)"

lemma stage_operate:
  assumes s: "stage cfg u st g w"
    and move: "\<And>b. wd_boxes w = [(u, b)] \<Longrightarrow> bx_group b = default_group \<Longrightarrow> state_of b = st \<Longrightarrow>
      bind_group_of b = g \<Longrightarrow> (st = New \<longrightarrow> access_of b \<noteq> None) \<Longrightarrow>
      operator_move (map snd (wd_boxes w)) cfg (wd_now w) b st' g'"
    and "st' \<noteq> New"
  shows "stage cfg u st' g' (run_event X (Operate u) w)"
    and "changed_at (wd_now (run_event X (Operate u) w)) (run_event X (Operate u) w)"
    and "as_task st' = Some task \<Longrightarrow> cron st' = None \<Longrightarrow> \<exists>cs b h. bx_uuid b = u \<and>
      map_of (wd_jobs (run_event X (Operate u) w)) (job_name (box_job b st' h task)) = Some (job_object X cfg cs (box_job b st' h task))"
proof -
  from s obtain b where b: "wd_boxes w = [(u, b)]" "bx_name b = u" "bx_uuid b = u" "bx_group b = default_group"
    "state_of b = st" "bind_group_of b = g" "st = New \<longrightarrow> access_of b \<noteq> None"
    by (auto simp: stage_def)
  from s have w: "wd_faults w = []" "wd_config w = Some cfg" "jobs_named w" by (simp_all add: stage_def)
  have "bt_lookup (wd_boxes w) (bx_name b) = Some b" by (simp add: b)
  from reconcile_no_faults [OF w(1,2) this move [OF b(1,4,5,6,7)] w(3), of X]
  obtain act w' h where r: "reconcile X b w = (Inr act, w')" and after: "after_move X cfg b st' g' h w w'" by blast
  have run: "run_event X (Operate u) w = w'" using r by (simp add: b)
  have "jobs_named w'" using named.run_event_keeps [OF w(3), of X "Operate u"] by (simp only: run)
  with after b \<open>st' \<noteq> New\<close> w show "stage cfg u st' g' (run_event X (Operate u) w)"
    unfolding run by (simp add: stage_def after_move_def moved_def state_of_def bind_group_of_def)
  show "changed_at (wd_now (run_event X (Operate u) w)) (run_event X (Operate u) w)"
    using after b unfolding run by (simp add: after_move_def moved_def changed_at_def last_updated_def)
  show "\<exists>cs b h. bx_uuid b = u \<and>
      map_of (wd_jobs (run_event X (Operate u) w)) (job_name (box_job b st' h task)) = Some (job_object X cfg cs (box_job b st' h task))"
    if "as_task st' = Some task" "cron st' = None"
    using after that b(3) unfolding run after_move_def announced_job_def by blast
qed

lemma stage_commission:
  assumes "stage cfg u st g w" and "cq_uuid c = u" and "access_of_query (cq_access c) = Some acc"
  shows "stage cfg u Ready (if cq_reset c then None else g) (run_event X (PostCommission c) w)"
  using assms
  by (auto simp: stage_def post_commission_def Let_def kbind_def get_box_def patch_status_def patch_box_def kapi_def
      jobs_named_def state_of_def bind_group_of_def)

lemma stage_job_ends:
  assumes s: "stage cfg u st g w" and j: "map_of (wd_jobs w) n = Some j" "jb_labels j = job_labels a"
    and a: "bx_uuid (aj_box a) = u" "aj_new_state a = Some Joining" "\<not> aj_is_critical a"
    and ok: "js_succeeded status = Some k" "0 < k"
  shows "stage cfg u Running g (run_event X (JobEnds n status) w)"
proof -
  have "bt_lookup (job_labels a) label_completed_state = Some (show_state Running)"
    using a(2) by (simp add: job_labels_def bt_lookup_of_list label_box_name_def
        label_box_machine_uuid_def label_completed_state_def label_job_name_def label_job_is_critical_def)
  moreover have "job_box_name (job_labels a) = Some u" "\<not> job_is_critical (job_labels a)"
    using a by (simp_all add: job_box_name_def job_labels_box_name job_is_critical_def job_labels_critical)
  moreover have "parse_state ''Running'' = Some Running"
    using parse_show_state [of Running] by simp
  moreover obtain b where "wd_boxes w = [(u, b)]" "bx_name b = u" "bx_uuid b = u" "bx_group b = default_group"
      "bind_group_of b = g" and "wd_faults w = []" "wd_config w = Some cfg" "jobs_named w"
    using s by (auto simp: stage_def)
  ultimately show ?thesis
    using ok
    by (cases "bx_status b")
      (simp_all add: j monitor_def or_zero_def update_box_state_def patch_box_def kbind_def kapi_def stage_def
        jobs_named_def state_of_def bind_group_of_def)
qed

lemma default_cluster_joinable:
  "bx_group b = default_group \<Longrightarrow> is_joinable (load_cluster [b] cfg b False)"
  by (simp add: is_joinable_def is_node_control_plane_def load_cluster_def load_control_planes_def default_group_def
      default_role_def bt_of_list_def set_contains_def is_control_plane_running_def is_default_def num_running_def num_total_def)

text \<open>The operator looks at a box again and again, each time after it has waited. While a box is being
  commissioned or joins, a look within two hours of its last change leaves everything as it is.\<close>

definition patrol :: "string \<Rightarrow> nat list \<Rightarrow> kiss_event list" where
  "patrol u ts = concat (map (\<lambda>t. [Wait t, Operate u]) ts)"

lemma run_events_simps:
  "run_events X [] w = w" "run_events X (e # es) w = run_events X es (run_event X e w)"
  "run_events X (es @ fs) w = run_events X fs (run_events X es w)"
  by (simp_all add: run_events_def)

lemma early_look:
  assumes s: "stage cfg u st g w" "changed_at t w" and st: "st = Commissioning \<or> st = Joining" and now: "wd_now w \<le> t + 7200"
  shows "run_event X (Operate u) w = w"
proof -
  from s obtain b where b: "wd_boxes w = [(u, b)]" "state_of b = st" "last_updated b = Some t"
    by (auto simp: stage_def changed_at_def)
  have "detect_state (wd_now w) b = Inr st"
    using st b now by (auto simp: detect_state_def Let_def fallback_update_def)
  moreover have "get_config w = (Inr cfg, w)"
    using s by (simp add: stage_def get_config_def kapi_no_faults)
  ultimately show ?thesis
    using st b by (auto simp: reconcile_def reconcile_with_def enter_state_def kret_def)
qed

lemma stage_patrol:
  assumes "stage cfg u st g w" "changed_at t w" "st = Commissioning \<or> st = Joining"
    and "wd_now w + int (sum_list ts) \<le> t + 7200"
  shows "run_events X (patrol u ts) w = w\<lparr>wd_now := wd_now w + int (sum_list ts)\<rparr>"
  using assms
proof (induction ts arbitrary: w)
  case (Cons n ts)
  let ?w = "run_event X (Wait n) w"
  have s: "stage cfg u st g ?w" "changed_at t ?w" "wd_now ?w + int (sum_list ts) \<le> t + 7200"
    using Cons.prems stage_wait [OF Cons.prems(1)] by (simp_all add: changed_at_def)
  then have "run_event X (Operate u) ?w = ?w"
    using Cons.prems(3) by (intro early_look) auto
  moreover have "run_events X (patrol u (n # ts)) w = run_events X (patrol u ts) (run_event X (Operate u) ?w)"
    unfolding patrol_def by (simp add: run_events_simps del: run_event.simps)
  ultimately show ?case
    using Cons.IH [OF s(1,2) Cons.prems(3) s(3)] by simp
qed (simp add: patrol_def run_events_simps)

text \<open>C13: a fresh machine is provisioned: it reports itself, the operator has it commissioned, it answers
  the commissioning, the operator has it join the default cluster, and after its join job has succeeded it
  runs, bound to that cluster. While it is being commissioned and while it joins, the operator may look at
  it any number of times, all within two hours of the change (a later look gives the machine up as Failed);
  no time limit lies on the other steps. The machine is alone, no call to the API fails, its requests carry
  a speed and an address that parse, and joining the default cluster is enabled.\<close>

theorem fresh_machine_reaches_running:
  assumes speed: "interface_of_query (nq_access q) = Some i" "access_of_query (cq_access c) = Some acc"
    and u: "cq_uuid c = nq_uuid q" and enabled: "cfg_group_enable_default_cluster cfg"
    and ok: "js_succeeded status = Some k" "0 < k"
    and looks: "sum_list commissioning \<le> 7200" "sum_list joining \<le> 7200"
  shows "\<exists>b. bt_lookup (wd_boxes (run_events X (
        [GetNew q, Wait t1, Operate (nq_uuid q)] @ patrol (nq_uuid q) commissioning @
        [Wait t2, PostCommission c, Wait t3, Operate (nq_uuid q)] @ patrol (nq_uuid q) joining @
        [Wait t4, JobEnds (''box-join-'' @ nq_uuid q) status]) (empty_world cfg))) (nq_uuid q) = Some b \<and>
    state_of b = Running \<and> bind_group_of b = Some default_group"
proof -
  let ?u = "nq_uuid q" and ?R = "run_event X"
  define w1 where "w1 = ?R (Wait t1) (?R (GetNew q) (empty_world cfg))"
  define w2 where "w2 = ?R (Operate ?u) w1"
  define w3 where "w3 = ?R (Wait t2) (run_events X (patrol ?u commissioning) w2)"
  define w4 where "w4 = ?R (Wait t3) (?R (PostCommission c) w3)"
  define w5 where "w5 = ?R (Operate ?u) w4"
  define w6 where "w6 = ?R (Wait t4) (run_events X (patrol ?u joining) w5)"
  have s1: "stage cfg ?u New None w1"
    unfolding w1_def by (rule stage_wait, rule stage_new, rule speed(1))
  note o1 = stage_operate [OF s1, where st' = Commissioning and g' = None and X = X, folded w2_def]
  have s2: "stage cfg ?u Commissioning None w2"
    by (rule o1(1)) (auto dest: operator_move.commission)
  have "run_events X (patrol ?u commissioning) w2 = w2\<lparr>wd_now := wd_now w2 + int (sum_list commissioning)\<rparr>"
    by (rule stage_patrol [OF s2 o1(2)]) (use looks in \<open>auto dest: operator_move.commission\<close>)
  then have s3: "stage cfg ?u Commissioning None w3"
    using stage_wait [OF s2, of X "sum_list commissioning"] unfolding w3_def by (simp add: stage_def jobs_named_def)
  from stage_commission [OF this u speed(2), of X] have s4: "stage cfg ?u Ready None w4"
    unfolding w4_def by (intro stage_wait) (simp split: if_splits)
  have join: "operator_move [b] cfg now b Joining (Some default_group)"
    if "bx_group b = default_group" "state_of b = Ready" "bind_group_of b = None" for b now
    using operator_move.join [of b cfg "[b]" now] that enabled default_cluster_joinable [of b cfg]
    by (simp add: default_group_def default_role_def)
  note o2 = stage_operate [OF s4, where st' = Joining and g' = "Some default_group" and X = X, folded w5_def]
  have s5: "stage cfg ?u Joining (Some default_group) w5"
    by (rule o2(1)) (auto intro: join)
  obtain cs b h where b: "bx_uuid b = ?u"
    and job: "map_of (wd_jobs w5) (job_name (box_job b Joining h ''join'')) = Some (job_object X cfg cs (box_job b Joining h ''join''))"
    using o2(3) [of "''join''"] join by auto
  have "run_events X (patrol ?u joining) w5 = w5\<lparr>wd_now := wd_now w5 + int (sum_list joining)\<rparr>"
    by (rule stage_patrol [OF s5 o2(2)]) (use looks join in auto)
  then have s6: "stage cfg ?u Joining (Some default_group) w6" and jobs: "wd_jobs w6 = wd_jobs w5"
    using s5 unfolding w6_def by (simp_all add: stage_def jobs_named_def)
  have "map_of (wd_jobs w6) (''box-join-'' @ ?u) = Some (job_object X cfg cs (box_job b Joining h ''join''))"
    using job by (simp add: jobs job_name_def box_job_def b)
  then have "stage cfg ?u Running (Some default_group) (?R (JobEnds (''box-join-'' @ ?u) status) w6)"
    by (rule stage_job_ends [OF s6 _ _ _ _ _ ok, where a = "box_job b Joining h ''join''"])
      (simp_all add: job_object_def box_job_def b)
  then show ?thesis
    by (auto simp: run_events_simps w1_def w2_def w3_def w4_def w5_def w6_def stage_def simp del: run_event.simps)
qed

section \<open>Concrete runs\<close>

definition sample_printers :: printers where
  "sample_printers = \<lparr>show_ip = (\<lambda>ip. ''10.47.0.2''), snake_case = (\<lambda>s. s)\<rparr>"

definition sample_config :: kiss_config where
  "sample_config = \<lparr>cfg_allow_critical_commands = False, cfg_allow_pruning_network_interfaces = True,
     cfg_bootstrapper_network_dns_server_ns1 = V4 1, cfg_bootstrapper_network_dns_server_ns2 = V4 2,
     cfg_etcd_nodes_max = 5, cfg_group_enable_default_cluster = True,
     cfg_group_enforce_ansible_control_planes = False, cfg_group_force_reset = False,
     cfg_group_force_reset_os = False, cfg_group_reset_storage = False, cfg_kiss_cluster_name = ''default'',
     cfg_kubespray_image = ''kubespray'', cfg_network_interface_mtu_size = 9000,
     cfg_network_ipv4_dhcp_duration = ''12h'', cfg_network_ipv4_dhcp_range_begin = V4 3,
     cfg_network_ipv4_dhcp_range_end = V4 4, cfg_network_ipv4_gateway = V4 5,
     cfg_network_ipv4_subnet = \<lparr>net_text = ''10.47.0.0/16'', net_network = ''10.47.0.0'',
       net_netmask = ''255.255.0.0'', net_prefix_len = ''16''\<rparr>,
     cfg_network_nameserver_incluster_ipv4 = V4 6, cfg_os_dist = ''ubuntu'', cfg_os_kernel = ''6.8'',
     cfg_os_version = ''24.04''\<rparr>"

definition sample_new :: box_new_query where
  "sample_new = \<lparr>nq_access = \<lparr>iq_address = V4 7, iq_speed_mbps = Some ''1000''\<rparr>, nq_uuid = ''a1''\<rparr>"

definition sample_commission :: box_commission_query where
  "sample_commission = \<lparr>cq_access = Some \<lparr>iq_address = V4 7, iq_speed_mbps = None\<rparr>, cq_uuid = ''a1'',
     cq_power = None, cq_reset = True\<rparr>"

definition edge_control_plane :: box_group where
  "edge_control_plane = \<lparr>bg_cluster_name = ''edge'', bg_role = ControlPlane\<rparr>"

definition joining_run :: "kiss_event list" where
  "joining_run = [GetNew sample_new, Regroup ''a1'' edge_control_plane, Operate ''a1'',
     PostCommission sample_commission, Wait 60, Operate ''a1'']"

definition joining_box :: box_cr where
  "joining_box = \<lparr>bx_name = ''a1'', bx_created = Some 0, bx_labels = None, bx_group = edge_control_plane,
     bx_uuid = ''a1'', bx_power = None, bx_rack = None,
     bx_status = Some \<lparr>st_state = Joining, st_access = Some \<lparr>if_address = V4 7, if_speed_mbps = None\<rparr>,
       st_bind_group = Some edge_control_plane, st_last_updated = 60\<rparr>\<rparr>"

lemma operate_result:
  assumes "kiss_inv w" "wd_faults w = []" "wd_config w = Some cfg" "bt_lookup (wd_boxes w) n = Some b"
    and "operator_move (map snd (wd_boxes w)) cfg (wd_now w) b st bind"
  shows "wd_boxes (run_event X (Operate n) w) = bt_insert n (moved b st bind (wd_now w)) (wd_boxes w)"
    and "wd_faults (run_event X (Operate n) w) = []" "wd_config (run_event X (Operate n) w) = Some cfg"
    and "wd_now (run_event X (Operate n) w) = wd_now w"
proof -
  have "bx_name b = n" using assms by (simp add: kiss_inv_def box_all_def box_ok_def)
  with assms reconcile_no_faults [of w cfg b st bind X]
  obtain act w' h where "reconcile X b w = (Inr act, w')" "after_move X cfg b st bind h w w'" "bx_name b = n"
    by (auto simp: kiss_inv_def)
  with assms show "wd_boxes (run_event X (Operate n) w) = bt_insert n (moved b st bind (wd_now w)) (wd_boxes w)"
    "wd_faults (run_event X (Operate n) w) = []" "wd_config (run_event X (Operate n) w) = Some cfg"
    "wd_now (run_event X (Operate n) w) = wd_now w"
    by (simp_all add: after_move_def)
qed

definition boxed :: "string \<Rightarrow> box_cr \<Rightarrow> int \<Rightarrow> world \<Rightarrow> bool" where
  "boxed n b now w \<longleftrightarrow> kiss_inv w \<and> wd_faults w = [] \<and> wd_config w = Some sample_config \<and> wd_now w = now \<and> wd_boxes w = [(n, b)]"

lemma boxed_operate:
  assumes "boxed n b now w" and "operator_move [b] sample_config now b st bind"
  shows "boxed n (moved b st bind now) now (run_event X (Operate n) w)"
  using assms operate_result [of w sample_config n b st bind X] kiss_inv_event [of w X "Operate n"]
  by (simp add: boxed_def del: run_event.simps)

lemma boxed_quiet:
  "boxed n b now w \<Longrightarrow> boxed n b (now + int k) (run_event X (Wait k) w)"
  "boxed n b now w \<Longrightarrow> boxed n (b\<lparr>bx_group := g\<rparr>) now (run_event X (Regroup n g) w)"
  using kiss_inv_event [of w X "Wait k"] kiss_inv_event [of w X "Regroup n g"] by (simp_all add: boxed_def)

lemma boxed_post_commission:
  assumes "boxed (cq_uuid c) b now w" and "access_of_query (cq_access c) = Some acc"
  shows "boxed (cq_uuid c) (b\<lparr>bx_uuid := cq_uuid c, bx_power := cq_power c,
      bx_status := Some \<lparr>st_state = Ready, st_access = acc,
        st_bind_group = (if cq_reset c then None else bind_group_of b), st_last_updated = now\<rparr>\<rparr>) now
    (run_event X (PostCommission c) w)"
  using assms kiss_inv_event [of w X "PostCommission c"]
  by (simp add: boxed_def post_commission_def Let_def kbind_def get_box_def patch_status_def patch_box_def kapi_def)

lemma parse_sample_speed: "parse_u64 ''1000'' = Some 1000"
  by (simp add: parse_u64_def digit_of_def)

definition new_box :: box_cr where
  "new_box = \<lparr>bx_name = ''a1'', bx_created = Some 0, bx_labels = None, bx_group = default_group,
     bx_uuid = ''a1'', bx_power = None, bx_rack = None,
     bx_status = Some \<lparr>st_state = New, st_access = Some \<lparr>if_address = V4 7, if_speed_mbps = Some 1000\<rparr>,
       st_bind_group = None, st_last_updated = 0\<rparr>\<rparr>"

lemma boxed_new: "boxed ''a1'' new_box 0 (run_event X (GetNew sample_new) (empty_world sample_config))"
  using kiss_inv_event [OF kiss_inv_empty(1) [of sample_config], of X "GetNew sample_new"]
  by (simp add: boxed_def sample_new_def interface_of_query_def parse_sample_speed get_new_def Let_def kbind_def
      get_box_def create_box_def patch_status_def patch_box_def kapi_def empty_world_def new_box_def)

lemma new_box_moves: "operator_move boxes cfg now new_box Commissioning None"
  "operator_move boxes cfg now (new_box\<lparr>bx_group := g\<rparr>) Commissioning None"
  using operator_move.commission [of new_box] operator_move.commission [of "new_box\<lparr>bx_group := g\<rparr>"]
  by (simp_all add: new_box_def state_of_def access_of_def bind_group_of_def)

definition ready_box :: box_cr where
  "ready_box = joining_box\<lparr>bx_status := Some \<lparr>st_state = Ready,
     st_access = Some \<lparr>if_address = V4 7, if_speed_mbps = None\<rparr>, st_bind_group = None, st_last_updated = 0\<rparr>\<rparr>"

lemma ready_box_moves: "operator_move [ready_box] sample_config now ready_box Joining (Some edge_control_plane)"
proof -
  have "is_joinable (load_cluster [ready_box] sample_config ready_box False)"
    by (simp add: is_joinable_def is_node_control_plane_def load_cluster_def load_control_planes_def ready_box_def
        joining_box_def edge_control_plane_def bt_of_list_def set_contains_def is_control_plane_ready_def
        num_ready_def num_total_def is_next_def cluster_box_of_def)
  from operator_move.join [OF _ _ _ _ this] show ?thesis
    by (simp add: ready_box_def joining_box_def edge_control_plane_def state_of_def bind_group_of_def sample_config_def)
qed

lemma boxed_sample_commission:
  assumes "boxed ''a1'' b now w"
  shows "boxed ''a1'' (b\<lparr>bx_uuid := ''a1'', bx_power := None, bx_status := Some \<lparr>st_state = Ready,
      st_access = Some \<lparr>if_address = V4 7, if_speed_mbps = None\<rparr>, st_bind_group = None, st_last_updated = now\<rparr>\<rparr>) now
    (run_event X (PostCommission sample_commission) w)"
  using boxed_post_commission [of sample_commission b now w _ X] assms
  by (simp add: sample_commission_def access_of_query_def interface_of_query_def del: run_event.simps)

lemma joining_run_boxed:
  "boxed ''a1'' joining_box 60 (run_events sample_printers joining_run (empty_world sample_config))"
proof -
  let ?R = "run_event sample_printers"
  let ?w1 = "?R (Operate ''a1'') (?R (Regroup ''a1'' edge_control_plane) (?R (GetNew sample_new) (empty_world sample_config)))"
  let ?w2 = "?R (Wait 60) (?R (PostCommission sample_commission) ?w1)"
  have "boxed ''a1'' (moved (new_box\<lparr>bx_group := edge_control_plane\<rparr>) Commissioning None 0) 0 ?w1"
    by (rule boxed_operate [OF boxed_quiet(2) [OF boxed_new] new_box_moves(2)])
  from boxed_sample_commission [OF this] have "boxed ''a1'' ready_box 0 (?R (PostCommission sample_commission) ?w1)"
    by (simp add: new_box_def moved_def ready_box_def joining_box_def del: run_event.simps)
  from boxed_quiet(1) [OF this, of 60] have "boxed ''a1'' ready_box 60 ?w2" by (simp del: run_event.simps)
  from boxed_operate [OF this ready_box_moves] show ?thesis
    by (simp add: run_events_def joining_run_def moved_def ready_box_def joining_box_def access_of_def del: run_event.simps)
qed

section \<open>Witnesses\<close>

abbreviation joining_world :: world where
  "joining_world \<equiv> run_events sample_printers joining_run (empty_world sample_config)"

lemma joining_world_boxes: "wd_boxes joining_world = [(''a1'', joining_box)]"
  using joining_run_boxed by (simp add: boxed_def)

lemma operator_follows_moves_witness:
  "wd_boxes (snd (reconcile sample_printers joining_box joining_world)) = wd_boxes joining_world \<or>
   (\<exists>cfg st bind. wd_config joining_world = Some cfg \<and>
      operator_move (map snd (wd_boxes joining_world)) cfg (wd_now joining_world) joining_box st bind \<and>
      wd_boxes (snd (reconcile sample_printers joining_box joining_world)) =
        bt_insert (bx_name joining_box) (moved joining_box st bind (wd_now joining_world)) (wd_boxes joining_world))"
  by (rule operator_follows_moves) (simp add: joining_world_boxes, simp add: joining_box_def)

lemma new_world_boxed: "boxed ''a1'' new_box 0 (run_events sample_printers [GetNew sample_new] (empty_world sample_config))"
  using boxed_new [of sample_printers] by (simp add: run_events_def del: run_event.simps)

lemma operator_makes_moves_witness:
  "wd_boxes (run_event sample_printers (Operate ''a1'')
     (run_events sample_printers [GetNew sample_new] (empty_world sample_config))) =
   [(''a1'', moved new_box Commissioning None 0)]"
proof -
  let ?w = "run_events sample_printers [GetNew sample_new] (empty_world sample_config)"
  have w: "wd_faults ?w = []" "wd_config ?w = Some sample_config" "wd_now ?w = 0" "wd_boxes ?w = [(''a1'', new_box)]"
    using new_world_boxed by (simp_all add: boxed_def del: run_event.simps)
  have "wd_boxes (run_event sample_printers (Operate ''a1'') ?w)
      = bt_insert ''a1'' (moved new_box Commissioning None (wd_now ?w)) (wd_boxes ?w)"
    by (rule operator_makes_moves [OF refl w(1,2) _ new_box_moves(1)]) (simp add: w(4) del: run_event.simps)
  then show ?thesis by (simp add: w(3,4) del: run_event.simps)
qed

lemma joining_run_calm: "calm sample_printers joining_run (empty_world sample_config)"
proof -
  have "bt_lookup (wd_boxes (run_event sample_printers (GetNew sample_new) (empty_world sample_config))) ''a1'' = Some new_box"
    using boxed_new [of sample_printers] by (simp add: boxed_def del: run_event.simps)
  then show ?thesis
    by (simp add: joining_run_def new_box_def state_of_def del: run_event.simps)
qed

lemma one_control_plane_joins_witness: "''a1'' = ''a1'' \<and> joining_in ''edge'' joining_box"
proof -
  have j: "joining_in ''edge'' joining_box"
    by (simp add: joining_in_def joining_box_def edge_control_plane_def state_of_def)
  have l: "bt_lookup (wd_boxes joining_world) ''a1'' = Some joining_box"
    by (simp add: joining_world_boxes)
  from one_control_plane_joins [OF joining_run_calm refl l j l j] j show ?thesis by simp
qed

lemma boxes_stay_well_formed_witness:
  "bx_name joining_box = ''a1'' \<and> state_of joining_box \<noteq> GroupChanged \<and> (\<exists>g. bind_group_of joining_box = Some g)"
proof -
  have "bt_lookup (wd_boxes joining_world) ''a1'' = Some joining_box" by (simp add: joining_world_boxes)
  moreover have "state_of joining_box = Joining" by (simp add: joining_box_def state_of_def)
  ultimately show ?thesis
    using boxes_stay_well_formed [of sample_printers joining_run sample_config "''a1''" joining_box] by simp
qed

definition member :: "int \<Rightarrow> string \<Rightarrow> bool \<Rightarrow> cluster_box" where
  "member created uuid running = ClusterBox (Some created) uuid (Some (V4 1)) True running uuid"

definition sample_cluster :: "string \<Rightarrow> box_set \<Rightarrow> cluster_state" where
  "sample_cluster owner cps = \<lparr>cs_config = sample_config, cs_control_planes = cps, cs_owner_group = edge_control_plane,
     cs_owner_uuid = owner, cs_workers = None\<rparr>"

lemma etcd_hosts_odd_witness:
  "let st = sample_cluster ''c'' [(member 1 ''a'' True, ready_box), (member 2 ''b'' True, ready_box), (member 3 ''c'' False, ready_box)]
   in \<exists>ms. odd (length ms) \<and> length ms \<le> 5 \<and>
     etcd_nodes_string (show_ip sample_printers) st = join_space (map (etcd_entry sample_printers) (filter (\<lambda>m. cb_ip m \<noteq> None) ms))"
proof -
  let ?st = "sample_cluster ''c'' [(member 1 ''a'' True, ready_box), (member 2 ''b'' True, ready_box), (member 3 ''c'' False, ready_box)]"
  have "is_node_control_plane ?st"
    by (simp add: is_node_control_plane_def sample_cluster_def set_contains_def member_def)
  moreover have "bt_wf (cs_control_planes ?st)"
    by (simp add: sample_cluster_def bt_wf_def member_def less_cluster_box_def cb_key_def)
  moreover have "cfg_etcd_nodes_max (cs_config ?st) = 5" by (simp add: sample_cluster_def sample_config_def)
  ultimately show ?thesis
    using etcd_hosts_odd [of ?st sample_printers] by (auto simp: Let_def)
qed

text \<open>With three control planes, one of them without an address, the playbook gets two \<open>etcd\<close> hosts.\<close>

lemma etcd_hosts_can_be_even:
  "etcd_nodes_string (show_ip sample_printers) (sample_cluster ''c'' [(member 1 ''a'' True, ready_box),
      (ClusterBox (Some 2) ''b'' None True True ''b'', ready_box), (member 3 ''c'' False, ready_box)])
     = ''etcd:a:10.47.0.2 etcd:c:10.47.0.2''"
  by (simp add: etcd_nodes_string_def nodes_as_string_def host_entries_def get_host_def List.map_filter_def etcd_nodes_def Let_def
      sample_printers_def sample_cluster_def sample_config_def nodes_of_def iter_boxes_def member_def sort_by_date_def less_eq_prod_def)

lemma rejoining_node_displaces_etcd_witness:
  "etcd_nodes (sample_cluster ''a'' [(member 1 ''a'' False, ready_box), (member 2 ''b'' True, ready_box)]) = [member 1 ''a'' False]"
proof -
  let ?st = "sample_cluster ''a'' [(member 1 ''a'' False, ready_box), (member 2 ''b'' True, ready_box)]"
  have "is_joinable ?st \<and> \<not> is_new ?st \<and> etcd_nodes ?st = [member 1 ''a'' False]"
    by (rule rejoining_node_displaces_etcd [where young = "member 2 ''b'' True" and b = ready_box and c = ready_box])
      (simp_all add: sample_cluster_def member_def)
  then show ?thesis by simp
qed

lemma fresh_machine_reaches_running_witness:
  "\<exists>b. bt_lookup (wd_boxes (run_events sample_printers ([GetNew sample_new, Wait 10, Operate ''a1''] @
      patrol ''a1'' [1800, 1800] @ [Wait 600, PostCommission sample_commission, Wait 20, Operate ''a1''] @
      patrol ''a1'' [1800, 1800, 1800] @ [Wait 900,
      JobEnds ''box-join-a1'' \<lparr>js_succeeded = Some 1, js_failed = None\<rparr>]) (empty_world sample_config))) ''a1'' = Some b \<and>
    state_of b = Running \<and> bind_group_of b = Some default_group"
proof -
  have a: "interface_of_query (nq_access sample_new) = Some \<lparr>if_address = V4 7, if_speed_mbps = Some 1000\<rparr>"
    "access_of_query (cq_access sample_commission) = Some (Some \<lparr>if_address = V4 7, if_speed_mbps = None\<rparr>)"
    "cq_uuid sample_commission = nq_uuid sample_new" "cfg_group_enable_default_cluster sample_config"
    "nq_uuid sample_new = ''a1''"
    by (simp_all add: sample_new_def sample_commission_def sample_config_def interface_of_query_def access_of_query_def
        parse_sample_speed)
  have s: "js_succeeded \<lparr>js_succeeded = Some (1 :: int), js_failed = None\<rparr> = Some 1" "(0 :: int) < 1" by simp_all
  have l: "sum_list [1800, 1800 :: nat] \<le> 7200" "sum_list [1800, 1800, 1800 :: nat] \<le> 7200" by simp_all
  from fresh_machine_reaches_running [OF a(1-4) s l, of sample_printers 10 600 20 900] show ?thesis
    by (simp add: a(5) del: run_event.simps)
qed

end
