(* ===== verification/Dash_Name.thy ===== *)
theory Dash_Name imports Ark_Prelude begin

text \<open>
  The names of model fields. A field is addressed by a path such as \<open>/metadata/name/\<close>; the regular
  expressions of \<open>crates/dash/provider/api/src/lib.rs\<close> say which paths are allowed, and the helpers
  \<open>parent_name\<close>, \<open>merge_name\<close> and \<open>convert_name\<close> of \<open>crates/dash/operator/src/validator/model.rs\<close>
  compute with them. A string is its list of bytes. The crate \<open>regex\<close> is modelled by the language of
  an expression, decided with derivatives.
\<close>

section \<open>Errors\<close>

text \<open>One constructor for each \<open>bail!\<close> and each failing conversion of the model and provider code.
  \<open>IndexPanic\<close> is an index of a JSON array out of its bounds, which panics; \<open>StackOverflow\<close> is a
  recursion deeper than the stack.\<close>

datatype dash_error =
    InvalidPropertyName string
  | InvalidFieldName string
  | ConflictedField string
  | UnknownFormat string
  | UnknownType string
  | NotContained string
  | BadOrder string
  | TooLongString string
  | NotAChild string
  | MissingChildren string
  | ExpectedNative string
  | ExpectedExtended string
  | NoFields
  | UnknownVariant string
  | StorageError string
  | NativeReference
  | NoRootField
  | NoSuchField string
  | BadAccess string
  | BadLength string
  | ParseError string
  | MissingValue string
  | TypeMismatch string
  | InvalidInput string
  | InvalidVersion string
  | Bound string
  | ModelIsBound string
  | IndexPanic
  | StackOverflow

section \<open>Regular expressions\<close>

datatype rexp =
    Empty
  | Eps
  | OneOf "char list"
  | Seq rexp rexp
  | Alt rexp rexp
  | Star rexp

fun nullable :: "rexp \<Rightarrow> bool" where
  "nullable Empty = False"
| "nullable Eps = True"
| "nullable (OneOf cs) = False"
| "nullable (Seq r s) = (nullable r \<and> nullable s)"
| "nullable (Alt r s) = (nullable r \<or> nullable s)"
| "nullable (Star r) = True"

text \<open>Concatenation and alternative, with the trivial cases reduced.\<close>

definition seq :: "rexp \<Rightarrow> rexp \<Rightarrow> rexp" where
  "seq r s = (if r = Empty then Empty else if r = Eps then s else Seq r s)"

definition alt :: "rexp \<Rightarrow> rexp \<Rightarrow> rexp" where
  "alt r s = (if r = Empty then s else if s = Empty \<or> r = s then r else Alt r s)"

fun deriv :: "char \<Rightarrow> rexp \<Rightarrow> rexp" where
  "deriv c Empty = Empty"
| "deriv c Eps = Empty"
| "deriv c (OneOf cs) = (if c \<in> set cs then Eps else Empty)"
| "deriv c (Seq r s) = (if nullable r then alt (seq (deriv c r) s) (deriv c s) else seq (deriv c r) s)"
| "deriv c (Alt r s) = alt (deriv c r) (deriv c s)"
| "deriv c (Star r) = seq (deriv c r) (Star r)"

fun is_match :: "rexp \<Rightarrow> string \<Rightarrow> bool" where
  "is_match r [] = nullable r"
| "is_match r (c # s) = is_match (deriv c r) s"

text \<open>What an expression means, and that the derivatives decide it.\<close>

inductive lang :: "rexp \<Rightarrow> string \<Rightarrow> bool" where
  lang_Eps: "lang Eps []"
| lang_OneOf: "c \<in> set cs \<Longrightarrow> lang (OneOf cs) [c]"
| lang_Seq: "lang r x \<Longrightarrow> lang s y \<Longrightarrow> lang (Seq r s) (x @ y)"
| lang_Alt1: "lang r x \<Longrightarrow> lang (Alt r s) x"
| lang_Alt2: "lang s x \<Longrightarrow> lang (Alt r s) x"
| lang_Star0: "lang (Star r) []"
| lang_Star: "lang r x \<Longrightarrow> lang (Star r) y \<Longrightarrow> lang (Star r) (x @ y)"

inductive_cases lang_EmptyE [elim!]: "lang Empty x"
inductive_cases lang_EpsE [elim!]: "lang Eps x"
inductive_cases lang_OneOfE [elim!]: "lang (OneOf cs) x"
inductive_cases lang_SeqE [elim!]: "lang (Seq r s) x"
inductive_cases lang_AltE [elim!]: "lang (Alt r s) x"
inductive_simps lang_Alt_iff: "lang (Alt r s) x"

inductive_simps lang_Eps_iff: "lang Eps x"
inductive_simps lang_Empty_iff: "lang Empty x"
inductive_simps lang_Seq_iff: "lang (Seq r s) x"

lemma lang_seq [simp]: "lang (seq r s) w \<longleftrightarrow> lang (Seq r s) w"
  by (auto simp: seq_def lang_Eps_iff lang_Empty_iff lang_Seq_iff)

lemma lang_alt [simp]: "lang (alt r s) w \<longleftrightarrow> lang (Alt r s) w"
  by (auto simp: alt_def lang_Empty_iff lang_Alt_iff)

lemma nullable_lang: "nullable r \<longleftrightarrow> lang r []"
  by (induction r) (auto intro: lang.intros lang_Seq [where x = "[]" and y = "[]", simplified])

lemma lang_Star_Cons:
  assumes "lang (Star r) (c # w)"
  shows "\<exists>u v. w = u @ v \<and> lang r (c # u) \<and> lang (Star r) v"
proof -
  have "lang R x \<Longrightarrow> R = Star r \<Longrightarrow> x = c # w \<Longrightarrow> \<exists>u v. w = u @ v \<and> lang r (c # u) \<and> lang (Star r) v" for R x
  proof (induction arbitrary: w rule: lang.induct)
    case (lang_Star r' x y)
    then show ?case by (cases x) auto
  qed auto
  with assms show ?thesis by blast
qed

lemma deriv_lang: "lang (deriv c r) w \<longleftrightarrow> lang r (c # w)"
proof (induction r arbitrary: w)
  case (Seq r s)
  have "lang (Seq r s) (c # w) \<longleftrightarrow> (\<exists>u v. w = u @ v \<and> lang r (c # u) \<and> lang s v) \<or> (lang r [] \<and> lang s (c # w))"
    (is "?l \<longleftrightarrow> ?r")
  proof
    assume ?l
    then obtain x y where "c # w = x @ y" "lang r x" "lang s y" by blast
    then show ?r by (cases x) (metis append_Cons append_Nil list.inject)+
  next
    show "?r \<Longrightarrow> ?l" by (metis append_Cons append_Nil lang_Seq)
  qed
  moreover have "lang (Seq (deriv c r) s) w \<longleftrightarrow> (\<exists>u v. w = u @ v \<and> lang r (c # u) \<and> lang s v)"
    unfolding Seq.IH(1) [symmetric] by (blast intro: lang_Seq)
  ultimately show ?case by (simp add: lang_Alt_iff Seq.IH flip: nullable_lang)
next
  case (Star r)
  have "lang (Star r) (c # w) \<longleftrightarrow> (\<exists>u v. w = u @ v \<and> lang r (c # u) \<and> lang (Star r) v)"
    using lang_Star_Cons by (metis append_Cons lang_Star)
  then show ?case by (auto simp: Star.IH intro: lang.intros)
qed (auto intro: lang.intros)

lemma is_match_lang: "is_match r w \<longleftrightarrow> lang r w"
  by (induction w arbitrary: r) (auto simp: nullable_lang deriv_lang)


lemma lang_Star_concat: "lang (Star r) w \<longleftrightarrow> (\<exists>ws. w = concat ws \<and> (\<forall>x \<in> set ws. lang r x))"
proof
  have "lang R w \<Longrightarrow> R = Star r \<Longrightarrow> \<exists>ws. w = concat ws \<and> (\<forall>x \<in> set ws. lang r x)" for R
  proof (induction rule: lang.induct)
    case (lang_Star0 r')
    show ?case by (rule exI [of _ "[]"]) simp
  next
    case (lang_Star r' x y)
    then obtain ws where "y = concat ws" "\<forall>x \<in> set ws. lang r x" by blast
    with lang_Star show ?case by (intro exI [of _ "x # ws"]) simp
  qed auto
  then show "lang (Star r) w \<Longrightarrow> \<exists>ws. w = concat ws \<and> (\<forall>x \<in> set ws. lang r x)" by blast
  have "\<forall>x \<in> set ws. lang r x \<Longrightarrow> lang (Star r) (concat ws)" for ws
    by (induction ws) (auto intro: lang.intros)
  then show "\<exists>ws. w = concat ws \<and> (\<forall>x \<in> set ws. lang r x) \<Longrightarrow> lang (Star r) w" by blast
qed

lemma lang_Star_OneOf: "lang (Star (OneOf cs)) w \<longleftrightarrow> set w \<subseteq> set cs"
proof -
  have "set w \<subseteq> set cs \<Longrightarrow> lang (Star (OneOf cs)) w"
  proof (induction w)
    case (Cons c w)
    then show ?case using lang_Star [of "OneOf cs" "[c]" w] by (auto intro: lang_OneOf)
  qed (rule lang_Star0)
  moreover have "lang R w \<Longrightarrow> R = Star (OneOf cs) \<Longrightarrow> set w \<subseteq> set cs" for R
    by (induction rule: lang.induct) auto
  ultimately show ?thesis by blast
qed

section \<open>Field names\<close>

definition lower_chars :: string where "lower_chars = ''abcdefghijklmnopqrstuvwxyz''"
definition upper_chars :: string where "upper_chars = ''ABCDEFGHIJKLMNOPQRSTUVWXYZ''"
definition digit_chars :: string where "digit_chars = ''0123456789''"

text \<open>\<open>[a-z_-][a-z0-9_-]*[a-z0-9]?\<close>\<close>

definition re_ident :: rexp where
  "re_ident = Seq (OneOf (lower_chars @ ''_-''))
     (Seq (Star (OneOf (lower_chars @ digit_chars @ ''_-''))) (Alt (OneOf (lower_chars @ digit_chars)) Eps))"

definition re_name :: rexp where
  "re_name = Seq (OneOf ''/'') (Star (Seq re_ident (OneOf ''/'')))"

definition re_child :: rexp where
  "re_child = re_ident"

definition re_set :: rexp where
  "re_set = Seq
     (Star (Alt
        (Seq (OneOf ''/'') (Seq (Alt (OneOf ''123456789'') Eps)
          (Seq (OneOf digit_chars) (Star (OneOf digit_chars)))))
        (Seq (OneOf ''/'') re_ident)))
     (Seq (OneOf ''/'') (Star (OneOf (upper_chars @ lower_chars @ digit_chars @ ''._-''))))"

definition assert_name :: "string \<Rightarrow> dash_error + unit" where
  "assert_name name = (if is_match re_name name then Inr () else Inl (InvalidFieldName name))"

text \<open>\<open>parent_name\<close> cuts a name after its last but one slash. A name with one slash has no parent.\<close>

fun upto_slash :: "string \<Rightarrow> string option" where
  "upto_slash [] = None"
| "upto_slash (c # s) = (if c = CHR ''/'' then Some (c # s) else upto_slash s)"

definition parent_name :: "string \<Rightarrow> string option" where
  "parent_name name =
     (case upto_slash (rev name) of
        None \<Rightarrow> None
      | Some r \<Rightarrow> map_option rev (upto_slash (tl r)))"

definition merge_name :: "string \<Rightarrow> string \<Rightarrow> dash_error + string" where
  "merge_name parent name =
     rbind (assert_name parent) (\<lambda>_.
     rbind (assert_name name) (\<lambda>_.
       Inr (butlast parent @ name)))"

text \<open>\<open>convert_name\<close>; \<open>snake\<close> is \<open>to_snake_case\<close> of the crate \<open>Inflector\<close>.\<close>

definition convert_name :: "(string \<Rightarrow> string) \<Rightarrow> string option \<Rightarrow> string \<Rightarrow> dash_error + string" where
  "convert_name snake parent name =
     (let converted = snake name in
      if (parent \<noteq> None \<or> name \<noteq> []) \<and> \<not> is_match re_child converted then Inl (InvalidPropertyName name)
      else case parent of
          Some p \<Rightarrow> Inr (p @ converted @ ''/'')
        | None \<Rightarrow> Inr (CHR ''/'' # converted))"

definition get_children_name :: "string \<Rightarrow> string option" where
  "get_children_name name =
     (case upto_slash (rev name) of
        None \<Rightarrow> None
      | Some r \<Rightarrow> Some (rev (takeWhile (\<lambda>c. c \<noteq> CHR ''/'') (tl r))))"

definition get_children_names :: "string list \<Rightarrow> string list" where
  "get_children_names names = List.map_filter get_children_name names"

section \<open>Names as lists of components\<close>

definition ident :: "string \<Rightarrow> bool" where
  "ident s \<longleftrightarrow> s \<noteq> [] \<and> hd s \<in> set (lower_chars @ ''_-'')
     \<and> set (tl s) \<subseteq> set (lower_chars @ digit_chars @ ''_-'')"

definition path :: "string list \<Rightarrow> string" where
  "path ks = CHR ''/'' # concat (map (\<lambda>k. k @ ''/'') ks)"

definition no_slash :: "string \<Rightarrow> bool" where
  "no_slash s \<longleftrightarrow> CHR ''/'' \<notin> set s"

lemma re_child_ident: "is_match re_child s \<longleftrightarrow> ident s"
proof
  assume "is_match re_child s"
  then have "lang re_child s" by (simp add: is_match_lang)
  then show "ident s"
    by (auto simp: re_child_def re_ident_def ident_def lang_Star_OneOf elim: in_set_takeD)
next
  assume *: "ident s"
  then obtain c t where s: "s = c # t" by (auto simp: ident_def neq_Nil_conv)
  with * have "lang re_child ([c] @ (t @ []))"
    unfolding re_child_def re_ident_def
    by (intro lang_Seq lang_OneOf lang_Alt2 lang_Eps) (auto simp: lang_Star_OneOf ident_def)
  with s show "is_match re_child s" by (simp add: is_match_lang)
qed

lemma ident_no_slash [simp]: "ident s \<Longrightarrow> no_slash s"
  by (cases s) (auto simp: ident_def no_slash_def lower_chars_def digit_chars_def)

lemma ident_nonempty [simp]: "\<not> ident []"
  by (simp add: ident_def)

lemma lang_segment: "lang (Seq re_ident (OneOf ''/'')) x \<longleftrightarrow> (\<exists>k. x = k @ ''/'' \<and> ident k)"
proof
  assume "lang (Seq re_ident (OneOf ''/'')) x"
  then obtain a b where x: "x = a @ b" and a: "lang re_ident a" and b: "lang (OneOf ''/'') b"
    by (rule lang_SeqE)
  from b have "b = ''/''" by (rule lang_OneOfE) simp
  with x a show "\<exists>k. x = k @ ''/'' \<and> ident k"
    using re_child_ident [of a] unfolding is_match_lang re_child_def by blast
next
  assume "\<exists>k. x = k @ ''/'' \<and> ident k"
  then obtain k where "x = k @ ''/''" "ident k" by blast
  moreover have "lang (OneOf ''/'') ''/''" by (rule lang_OneOf) simp
  ultimately show "lang (Seq re_ident (OneOf ''/'')) x"
    using re_child_ident [of k] unfolding is_match_lang re_child_def by (simp add: lang_Seq)
qed

lemma map_of_parts:
  assumes "\<And>x. x \<in> set ws \<Longrightarrow> \<exists>k. x = f k \<and> P k"
  shows "\<exists>ks. ws = map f ks \<and> (\<forall>k \<in> set ks. P k)"
  using assms
proof (induction ws)
  case (Cons w ws)
  then obtain ks k where "ws = map f ks" "\<forall>k \<in> set ks. P k" "w = f k" "P k"
    by (meson list.set_intros)
  then show ?case by (intro exI [of _ "k # ks"]) simp
qed simp

lemma lang_segments: "lang (Star (Seq re_ident (OneOf ''/''))) w
   \<longleftrightarrow> (\<exists>ks. w = concat (map (\<lambda>k. k @ ''/'') ks) \<and> (\<forall>k \<in> set ks. ident k))"
proof
  assume "lang (Star (Seq re_ident (OneOf ''/''))) w"
  then obtain ws where "w = concat ws" "\<forall>x \<in> set ws. \<exists>k. x = k @ ''/'' \<and> ident k"
    unfolding lang_Star_concat lang_segment by blast
  then show "\<exists>ks. w = concat (map (\<lambda>k. k @ ''/'') ks) \<and> (\<forall>k \<in> set ks. ident k)"
    using map_of_parts [of ws "\<lambda>k. k @ ''/''" ident] by blast
next
  assume "\<exists>ks. w = concat (map (\<lambda>k. k @ ''/'') ks) \<and> (\<forall>k \<in> set ks. ident k)"
  then obtain ks where "w = concat (map (\<lambda>k. k @ ''/'') ks)" "\<forall>k \<in> set ks. ident k" by blast
  then show "lang (Star (Seq re_ident (OneOf ''/''))) w"
    unfolding lang_Star_concat lang_segment by (intro exI [of _ "map (\<lambda>k. k @ ''/'') ks"]) simp
qed

lemma re_name_path: "is_match re_name s \<longleftrightarrow> (\<exists>ks. s = path ks \<and> (\<forall>k \<in> set ks. ident k))"
proof -
  have "lang re_name s \<longleftrightarrow> (\<exists>w. s = CHR ''/'' # w \<and> lang (Star (Seq re_ident (OneOf ''/''))) w)"
  proof
    assume "lang re_name s"
    then obtain a b where s: "s = a @ b" and a: "lang (OneOf ''/'') a"
      and b: "lang (Star (Seq re_ident (OneOf ''/''))) b"
      unfolding re_name_def by (rule lang_SeqE)
    from a have "a = ''/''" by (rule lang_OneOfE) simp
    with s b show "\<exists>w. s = CHR ''/'' # w \<and> lang (Star (Seq re_ident (OneOf ''/''))) w" by simp
  next
    assume "\<exists>w. s = CHR ''/'' # w \<and> lang (Star (Seq re_ident (OneOf ''/''))) w"
    then obtain w where "s = ''/'' @ w" "lang (Star (Seq re_ident (OneOf ''/''))) w" by auto
    moreover have "lang (OneOf ''/'') ''/''" by (rule lang_OneOf) simp
    ultimately show "lang re_name s" unfolding re_name_def by (simp only: lang_Seq)
  qed
  then show ?thesis unfolding is_match_lang lang_segments path_def by blast
qed

lemma path_Nil: "path [] = ''/''"
  by (simp add: path_def)

lemma path_snoc: "path (ks @ [k]) = path ks @ k @ ''/''"
  by (simp add: path_def)

lemma path_append: "path (ks @ js) = butlast (path ks) @ path js"
proof -
  have "path ks = butlast (path ks) @ ''/''"
    by (cases ks rule: rev_cases) (simp_all add: path_Nil path_snoc butlast_append)
  then have "path ks @ tl (path js) = butlast (path ks) @ path js"
    by (metis append.assoc append_Cons append_Nil list.sel(3) path_def)
  then show ?thesis by (simp add: path_def)
qed

lemma upto_slash_append: "no_slash s \<Longrightarrow> upto_slash (s @ CHR ''/'' # t) = Some (CHR ''/'' # t)"
  by (induction s) (auto simp: no_slash_def)

lemma upto_slash_no_slash: "no_slash s \<Longrightarrow> upto_slash s = None"
  by (induction s) (auto simp: no_slash_def)

lemma no_slash_rev [simp]: "no_slash (rev s) = no_slash s"
  by (simp add: no_slash_def)

lemma rev_path: "rev (path (ks @ [k])) = CHR ''/'' # rev k @ rev (path ks)"
  by (simp add: path_snoc)

lemma rev_path_slash: "\<exists>t. rev (path ks) = CHR ''/'' # t"
  by (cases ks rule: rev_cases) (auto simp: path_Nil rev_path)

lemma parent_name_path:
  "(\<forall>k \<in> set ks. no_slash k) \<Longrightarrow> parent_name (path ks) = (if ks = [] then None else Some (path (butlast ks)))"
proof (cases ks rule: rev_cases)
  case Nil
  then show ?thesis by (simp add: parent_name_def path_Nil)
next
  case (snoc js k)
  assume *: "\<forall>k \<in> set ks. no_slash k"
  obtain t where t: "rev (path js) = CHR ''/'' # t" using rev_path_slash by blast
  have "upto_slash (rev k @ CHR ''/'' # t) = Some (CHR ''/'' # t)"
    using * snoc by (intro upto_slash_append) simp
  moreover have "rev (CHR ''/'' # t) = path js" using t by (metis rev_rev_ident)
  ultimately show ?thesis
    by (simp add: snoc parent_name_def rev_path t)
qed

lemma get_children_name_path:
  "(\<forall>k \<in> set ks. no_slash k) \<Longrightarrow> get_children_name (path ks) = Some (if ks = [] then [] else last ks)"
proof (cases ks rule: rev_cases)
  case Nil
  then show ?thesis by (simp add: get_children_name_def path_Nil)
next
  case (snoc js k)
  assume *: "\<forall>k \<in> set ks. no_slash k"
  obtain t where t: "rev (path js) = CHR ''/'' # t" using rev_path_slash by blast
  have "takeWhile (\<lambda>c. c \<noteq> CHR ''/'') (rev k @ CHR ''/'' # t) = rev k"
    using * snoc by (subst takeWhile_append2) (auto simp: no_slash_def)
  then show ?thesis by (simp add: snoc get_children_name_def rev_path t)
qed

lemma no_slash_append_eq:
  "no_slash a \<Longrightarrow> no_slash b \<Longrightarrow> a @ CHR ''/'' # s = b @ CHR ''/'' # t \<longleftrightarrow> a = b \<and> s = t"
proof (induction a arbitrary: b)
  case Nil
  then show ?case by (cases b) (auto simp: no_slash_def)
next
  case (Cons x a)
  then show ?case by (cases b) (auto simp: no_slash_def)
qed

lemma concat_path_prefix:
  "\<lbrakk>\<forall>k \<in> set ks. no_slash k; \<forall>k \<in> set js. no_slash k;
    concat (map (\<lambda>k. k @ ''/'') ks) @ r = concat (map (\<lambda>k. k @ ''/'') js)\<rbrakk>
   \<Longrightarrow> \<exists>is. js = ks @ is \<and> r = concat (map (\<lambda>k. k @ ''/'') is)"
proof (induction ks arbitrary: js)
  case (Cons k ks)
  then obtain j js' where js: "js = j # js'" by (cases js) auto
  with Cons.prems have "k = j \<and> concat (map (\<lambda>k. k @ ''/'') ks) @ r = concat (map (\<lambda>k. k @ ''/'') js')"
    using no_slash_append_eq [of k j] by simp
  with Cons.IH [of js'] Cons.prems js show ?case by auto
qed simp

lemma path_inject:
  assumes "\<forall>k \<in> set ks. no_slash k" "\<forall>k \<in> set js. no_slash k"
  shows "path ks = path js \<longleftrightarrow> ks = js"
proof
  assume "path ks = path js"
  then obtain ls where "js = ks @ ls" "[] = concat (map (\<lambda>k. k @ ''/'') ls)"
    using concat_path_prefix [OF assms, of "[]"] by (auto simp: path_def)
  then show "ks = js" by (cases ls) auto
qed simp

end
