(* ===== verification/Ark_Text.thy ===== *)
theory Ark_Text imports Ark_Prelude "HOL-Library.Word" begin

text \<open>
  Machine integers and their text: \<open>str::parse\<close> of \<open>usize\<close> and \<open>i64\<close>, and what the parser makes of a printed
  number.
\<close>

type_synonym i64 = "64 word"
type_synonym u32 = "32 word"

section \<open>Parsing of scalars\<close>

definition is_digit :: "char \<Rightarrow> bool" where
  "is_digit c \<longleftrightarrow> 48 \<le> (of_char c :: nat) \<and> (of_char c :: nat) \<le> 57"

definition digits_value :: "string \<Rightarrow> nat" where
  "digits_value s = foldl (\<lambda>v c. 10 * v + ((of_char c :: nat) - 48)) 0 s"

text \<open>\<open>str::parse\<close> of an unsigned number below a bound: an optional plus sign and at least one digit.\<close>

definition parse_unsigned :: "nat \<Rightarrow> string \<Rightarrow> nat option" where
  "parse_unsigned bound s =
     (let t = (case s of c # r \<Rightarrow> if c = CHR ''+'' then r else s | [] \<Rightarrow> s) in
      if t \<noteq> [] \<and> list_all is_digit t \<and> digits_value t < bound then Some (digits_value t) else None)"

definition parse_usize :: "string \<Rightarrow> nat option" where
  "parse_usize = parse_unsigned (2 ^ 64)"

definition parse_i64 :: "string \<Rightarrow> i64 option" where
  "parse_i64 s =
     (case s of
        c # r \<Rightarrow>
          if c = CHR ''-'' then
            (if r \<noteq> [] \<and> list_all is_digit r \<and> digits_value r \<le> 2 ^ 63
             then Some (- word_of_nat (digits_value r)) else None)
          else map_option word_of_nat (parse_unsigned (2 ^ 63) s)
      | [] \<Rightarrow> None)"

text \<open>\<open>len().try_into::<u32>()\<close>\<close>

definition u32_of_len :: "nat \<Rightarrow> u32 option" where
  "u32_of_len n = (if n < 2 ^ 32 then Some (word_of_nat n) else None)"

definition show_int :: "int \<Rightarrow> string" where
  "show_int n = (if n < 0 then CHR ''-'' # show_nat (nat (- n)) else show_nat (nat n))"

section \<open>Ends of strings\<close>

text \<open>\<open>str::ends_with\<close> and \<open>str::trim\<close>; a string is a list of ASCII characters.\<close>

definition ends_with :: "string \<Rightarrow> string \<Rightarrow> bool" where
  "ends_with s p \<longleftrightarrow> length p \<le> length s \<and> drop (length s - length p) s = p"

definition is_space :: "char \<Rightarrow> bool" where
  "is_space c \<longleftrightarrow> c = CHR '' '' \<or> (9 \<le> (of_char c :: nat) \<and> (of_char c :: nat) \<le> 13)"

definition trim :: "string \<Rightarrow> string" where
  "trim s = rev (dropWhile is_space (rev (dropWhile is_space s)))"

text \<open>\<open>str::split\<close>, and \<open>str::replace\<close> of one character\<close>

fun split_on :: "char \<Rightarrow> string \<Rightarrow> string list" where
  "split_on d [] = [[]]"
| "split_on d (c # s) =
     (if c = d then [] # split_on d s
      else case split_on d s of x # xs \<Rightarrow> (c # x) # xs | [] \<Rightarrow> [[c]])"

definition replace_char :: "char \<Rightarrow> string \<Rightarrow> string \<Rightarrow> string" where
  "replace_char c r s = concat (map (\<lambda>x. if x = c then r else [x]) s)"

lemma split_on_append: "split_on d (x @ d # y) = split_on d x @ split_on d y"
proof (induction x)
  case (Cons c x)
  moreover have "split_on d x \<noteq> []" by (cases x) (auto split: list.split)
  ultimately show ?case by (auto split: list.split)
qed simp

section \<open>Printed numbers\<close>

lemma show_nat_digits: "list_all is_digit (show_nat n) \<and> show_nat n \<noteq> []"
proof (induction n rule: show_nat.induct)
  case (1 n)
  have digit: "is_digit (char_of (48 + d))" if "d < 10" for d :: nat
    using that by (simp add: is_digit_def)
  show ?case
  proof (cases "n < 10")
    case True
    with digit show ?thesis by (simp add: show_nat.simps)
  next
    case False
    with 1 digit [of "n mod 10"] show ?thesis by (simp add: show_nat.simps [of n])
  qed
qed

lemma digits_value_snoc [simp]: "digits_value (s @ [c]) = 10 * digits_value s + (of_char c - 48)"
  by (simp add: digits_value_def)

lemma digits_value_show: "digits_value (show_nat n) = n"
proof (induction n rule: show_nat.induct)
  case (1 n)
  show ?case
  proof (cases "n < 10")
    case True
    then show ?thesis by (simp add: show_nat.simps digits_value_def)
  next
    case False
    with 1 show ?thesis by (simp add: show_nat.simps [of n])
  qed
qed

lemma no_sign: "list_all is_digit s \<Longrightarrow> s \<noteq> [] \<Longrightarrow> hd s \<noteq> CHR ''+'' \<and> hd s \<noteq> CHR ''-''"
  by (cases s) (auto simp: is_digit_def)

lemma parse_unsigned_digits:
  "list_all is_digit s \<Longrightarrow> s \<noteq> [] \<Longrightarrow> digits_value s < bound \<Longrightarrow> parse_unsigned bound s = Some (digits_value s)"
  using no_sign [of s] by (cases s) (auto simp: parse_unsigned_def)

lemma parse_show_i64: "n < 2 ^ 63 \<Longrightarrow> parse_i64 (show_nat n) = Some (word_of_nat n)"
  using show_nat_digits [of n] no_sign [of "show_nat n"] parse_unsigned_digits [of "show_nat n" "2 ^ 63"]
    digits_value_show [of n]
  by (cases "show_nat n") (auto simp: parse_i64_def)

end
