(* ===== verification/Dash_Model.thy ===== *)
theory Dash_Model imports Dash_Name Ark_Text begin

text \<open>
  The data model of \<open>crates/dash/api/src/model.rs\<close>: the kinds a model field can have and the
  model resource (\<open>Dash_Wire\<close> has their encoding on the wire). An \<open>Integer\<close> is an \<open>i64\<close>, kept as a word of 64
  bits that is compared as signed, a length is a \<open>u32\<close>. A \<open>Number\<close> (\<open>OrderedFloat<f64>\<close>) is a type
  variable \<open>'f\<close>: what the code computes with it is an argument of the definitions that do.
\<close>


section \<open>Field kinds\<close>

datatype string_spec = SDynamic | SStatic u32 | SRange "u32 option" u32

definition default_string_spec :: string_spec where
  "default_string_spec = SDynamic"

datatype object_spec = ODynamic | OEnumerate "string list" | OStatic

definition default_object_spec :: object_spec where
  "default_object_spec = OStatic"

datatype date_default = Now

datatype 'f native_kind =
    KNone
  | KBoolean (bool_default: "bool option")
  | KInteger (int_default: "i64 option") (int_minimum: "i64 option") (int_maximum: "i64 option")
  | KNumber (num_default: "'f option") (num_minimum: "'f option") (num_maximum: "'f option")
  | KString (string_default: "string option") string_spec
  | KOneOfStrings (choice_default: "string option") (choices: "string list")
  | KDateTime "date_default option"
  | KIp
  | KUuid
  | KStringArray
  | KObject "string list" object_spec
  | KObjectArray "string list"

datatype extended_kind = KModel string

datatype 'f field_kind = Native "'f native_kind" | Extended extended_kind

definition default_native_kind :: "'f native_kind" where
  "default_native_kind = KNone"

definition default_field_kind :: "'f field_kind" where
  "default_field_kind = Native default_native_kind"

fun native_children :: "'f native_kind \<Rightarrow> string list option" where
  "native_children (KObject children spec) = Some children"
| "native_children (KObjectArray children) = Some children"
| "native_children kind = None"

fun extended_children :: "extended_kind \<Rightarrow> string list option" where
  "extended_children (KModel name) = None"

fun get_children :: "'f field_kind \<Rightarrow> string list option" where
  "get_children (Native kind) = native_children kind"
| "get_children (Extended kind) = extended_children kind"

text \<open>Writing through \<open>get_children_mut\<close>.\<close>

fun set_children :: "string list \<Rightarrow> 'f native_kind \<Rightarrow> 'f native_kind" where
  "set_children cs (KObject children spec) = KObject cs spec"
| "set_children cs (KObjectArray children) = KObjectArray cs"
| "set_children cs kind = kind"

datatype native_type =
    TNone | TBoolean | TInteger | TNumber | TString | TOneOfStrings | TDateTime | TIp | TUuid
  | TStringArray | TObject | TObjectArray

datatype extended_type = TModel

datatype kind_type = NativeType native_type | ExtendedType extended_type

fun native_to_type :: "'f native_kind \<Rightarrow> native_type" where
  "native_to_type KNone = TNone"
| "native_to_type (KBoolean d) = TBoolean"
| "native_to_type (KInteger d mn mx) = TInteger"
| "native_to_type (KNumber d mn mx) = TNumber"
| "native_to_type (KString d k) = TString"
| "native_to_type (KOneOfStrings d cs) = TOneOfStrings"
| "native_to_type (KDateTime d) = TDateTime"
| "native_to_type KIp = TIp"
| "native_to_type KUuid = TUuid"
| "native_to_type KStringArray = TStringArray"
| "native_to_type (KObject cs k) = TObject"
| "native_to_type (KObjectArray cs) = TObjectArray"

fun extended_to_type :: "extended_kind \<Rightarrow> extended_type" where
  "extended_to_type (KModel name) = TModel"

fun to_type :: "'f field_kind \<Rightarrow> kind_type" where
  "to_type (Native kind) = NativeType (native_to_type kind)"
| "to_type (Extended kind) = ExtendedType (extended_to_type kind)"

definition type_is_array :: "native_type \<Rightarrow> bool" where
  "type_is_array t \<longleftrightarrow> t = TStringArray \<or> t = TObjectArray"

definition is_array :: "'f native_kind \<Rightarrow> bool" where
  "is_array kind = type_is_array (native_to_type kind)"

fun to_natural :: "native_type \<Rightarrow> string" where
  "to_natural TNone = ''None''"
| "to_natural TBoolean = ''Boolean''"
| "to_natural TInteger = ''Integer''"
| "to_natural TNumber = ''Number''"
| "to_natural TString = ''String''"
| "to_natural TOneOfStrings = ''String''"
| "to_natural TDateTime = ''DateTime''"
| "to_natural TIp = ''Ip''"
| "to_natural TUuid = ''Uuid''"
| "to_natural TStringArray = ''String[]''"
| "to_natural TObject = ''Object''"
| "to_natural TObjectArray = ''Object[]''"

section \<open>Fields and models\<close>

text \<open>\<open>ModelFieldSpec<Kind>\<close>; its attribute is the one flag \<open>optional\<close>.\<close>

record 'k field =
  fd_name :: string
  fd_kind :: 'k
  fd_optional :: bool

type_synonym 'f native_field = "'f native_kind field"
type_synonym 'f any_field = "'f field_kind field"

fun native_of :: "string \<Rightarrow> bool \<Rightarrow> 'f field_kind \<Rightarrow> dash_error + 'f native_field" where
  "native_of name opt (Native kind) = Inr \<lparr>fd_name = name, fd_kind = kind, fd_optional = opt\<rparr>"
| "native_of name opt (Extended kind) = Inl (ExpectedNative name)"

definition try_into_native :: "'f any_field \<Rightarrow> dash_error + 'f native_field" where
  "try_into_native f = native_of (fd_name f) (fd_optional f) (fd_kind f)"

fun extended_of :: "string \<Rightarrow> bool \<Rightarrow> 'f field_kind \<Rightarrow> dash_error + extended_kind field" where
  "extended_of name opt (Extended kind) = Inr \<lparr>fd_name = name, fd_kind = kind, fd_optional = opt\<rparr>"
| "extended_of name opt (Native kind) = Inl (ExpectedExtended name)"

definition try_into_extended :: "'f any_field \<Rightarrow> dash_error + extended_kind field" where
  "try_into_extended f = extended_of (fd_name f) (fd_optional f) (fd_kind f)"

datatype 'f model_spec =
    MDynamic
  | MFields "'f any_field list"
  | MCustomResourceDefinitionRef string

definition default_model_spec :: "'f model_spec" where
  "default_model_spec = MDynamic"

datatype model_state = MPending | MReady | MDeleting

record 'f model_status =
  ms_state :: model_state
  ms_fields :: "'f native_field list option"

record 'f model_crd =
  mc_name :: string
  mc_spec :: "'f model_spec"
  mc_status :: "'f model_status option"

text \<open>\<open>get_fields_unchecked\<close> and \<open>into_fields_unchecked\<close> panic on a model without fields.\<close>

definition fields_unchecked :: "'f model_crd \<Rightarrow> dash_error + 'f native_field list" where
  "fields_unchecked model =
     (case mc_status model of
        None \<Rightarrow> Inl NoFields
      | Some status \<Rightarrow> (case ms_fields status of None \<Rightarrow> Inl NoFields | Some fs \<Rightarrow> Inr fs))"

text \<open>\<open>self.name.split('.').next()\<close>\<close>

definition plural :: "string \<Rightarrow> string" where
  "plural name = takeWhile (\<lambda>c. c \<noteq> CHR ''.'') name"

lemma set_children_same: "native_children kind = Some cs \<Longrightarrow> set_children cs kind = kind"
  by (cases kind) auto

lemma native_children_set [simp]:
  "native_children (set_children cs kind) = map_option (\<lambda>_. cs) (native_children kind)"
  by (cases kind) auto

end
