(* ===== verification/Dash_Json.thy ===== *)
theory Dash_Json imports Dash_Model begin

text \<open>
  JSON values as \<open>serde_json\<close> keeps them, and the assertions of \<open>crates/dash/provider/src/lib.rs\<close> and
  \<open>input.rs\<close> that a value is checked with. An object is a sorted map, as \<open>serde_json::Map\<close> is by
  default. The type \<open>'n\<close> of JSON numbers and the type \<open>'f\<close> of \<open>OrderedFloat<f64>\<close> are variables; what
  the code does with them is the record \<open>numbers\<close>, an argument of the definitions.
\<close>

section \<open>Values\<close>

datatype 'n json =
    JNull
  | JBool bool
  | JNumber 'n
  | JString string
  | JArray "'n json list"
  | JObject "(string \<times> 'n json) list"

datatype ordering = Less | Equal | Greater

record ('n, 'f) numbers =
  num_as_i64 :: "'n \<Rightarrow> i64 option"
  num_as_f64 :: "'n \<Rightarrow> 'f option"
  num_of_i64 :: "i64 \<Rightarrow> 'n"
  num_of_f64 :: "'f \<Rightarrow> 'n option"     \<comment> \<open>\<open>Number::from_f64\<close>, which refuses infinities and NaN\<close>
  num_parse :: "string \<Rightarrow> 'n option"  \<comment> \<open>\<open>Number::from_str\<close>\<close>
  f64_parse :: "string \<Rightarrow> 'f option"
  f64_show :: "'f \<Rightarrow> string"
  f64_cmp :: "'f \<Rightarrow> 'f \<Rightarrow> ordering"  \<comment> \<open>the total order of \<open>OrderedFloat\<close>\<close>
  f64_round :: "'f \<Rightarrow> i64"            \<comment> \<open>\<open>x.round() as i64\<close>\<close>

fun as_bool :: "'n json \<Rightarrow> bool option" where
  "as_bool (JBool b) = Some b"
| "as_bool v = None"

fun as_str :: "'n json \<Rightarrow> string option" where
  "as_str (JString s) = Some s"
| "as_str v = None"

fun as_i64 :: "('n, 'f) numbers \<Rightarrow> 'n json \<Rightarrow> i64 option" where
  "as_i64 N (JNumber n) = num_as_i64 N n"
| "as_i64 N v = None"

fun as_f64 :: "('n, 'f) numbers \<Rightarrow> 'n json \<Rightarrow> 'f option" where
  "as_f64 N (JNumber n) = num_as_f64 N n"
| "as_f64 N v = None"

section \<open>Options as results\<close>

definition or_fail :: "'e \<Rightarrow> 'a option \<Rightarrow> 'e + 'a" where
  "or_fail e x = (case x of None \<Rightarrow> Inl e | Some a \<Rightarrow> Inr a)"

lemma or_fail_Inr [simp]: "or_fail e x = Inr a \<longleftrightarrow> x = Some a"
  by (cases x) (auto simp: or_fail_def)

section \<open>Assertions on values\<close>

definition assert_contains :: "string \<Rightarrow> 'a list \<Rightarrow> 'a option \<Rightarrow> dash_error + unit" where
  "assert_contains name xs item =
     (case item of
        None \<Rightarrow> Inr ()
      | Some x \<Rightarrow> if x \<in> set xs then Inr () else Inl (NotContained name))"

fun string_spec_admits :: "string_spec \<Rightarrow> u32 \<Rightarrow> bool" where
  "string_spec_admits SDynamic n = True"
| "string_spec_admits (SStatic len) n = (n = len)"
| "string_spec_admits (SRange mn mx) n = ((case mn of None \<Rightarrow> True | Some m \<Rightarrow> \<not> n < m) \<and> \<not> mx < n)"

definition assert_string :: "string \<Rightarrow> string \<Rightarrow> string_spec \<Rightarrow> dash_error + unit" where
  "assert_string name s spec =
     rbind (or_fail (TooLongString name) (u32_of_len (length s))) (\<lambda>n.
       if string_spec_admits spec n then Inr () else Inl (BadLength name))"

text \<open>\<open>assert_cmp\<close> of \<open>input.rs\<close>: equal to the bound, or on the side of it that \<open>ord\<close> names.\<close>

definition assert_bound :: "('a \<Rightarrow> 'a \<Rightarrow> ordering) \<Rightarrow> string \<Rightarrow> 'a \<Rightarrow> 'a option \<Rightarrow> ordering \<Rightarrow> dash_error + unit" where
  "assert_bound cmp name subject obj ord =
     (case obj of
        None \<Rightarrow> Inr ()
      | Some b \<Rightarrow> if cmp subject b = Equal \<or> cmp subject b = ord then Inr () else Inl (Bound name))"

definition i64_cmp :: "i64 \<Rightarrow> i64 \<Rightarrow> ordering" where
  "i64_cmp a b = (if a = b then Equal else if a <s b then Less else Greater)"

text \<open>\<open>parse_api_version\<close>: a name and a version around exactly one slash.\<close>

definition parse_api_version :: "string \<Rightarrow> dash_error + string \<times> string" where
  "parse_api_version s =
     (case upto_slash s of
        None \<Rightarrow> Inl (InvalidVersion s)
      | Some r \<Rightarrow>
          if upto_slash (tl r) \<noteq> None then Inl (InvalidVersion s)
          else Inr (takeWhile (\<lambda>c. c \<noteq> CHR ''/'') s, tl r))"

section \<open>A concrete choice of numbers\<close>

text \<open>Integers for both types, for the examples the theorems are applied to.\<close>

definition int_as_i64 :: "int \<Rightarrow> i64 option" where
  "int_as_i64 n = (if - (2 ^ 63) \<le> n \<and> n < 2 ^ 63 then Some (word_of_int n) else None)"

definition int_parse :: "string \<Rightarrow> int option" where
  "int_parse s = map_option int (parse_unsigned (2 ^ 63) s)"

definition int_show :: "int \<Rightarrow> string" where
  "int_show n = ''0''"

definition int_cmp :: "int \<Rightarrow> int \<Rightarrow> ordering" where
  "int_cmp a b = (if a = b then Equal else if a < b then Less else Greater)"

definition int_numbers :: "(int, int) numbers" where
  "int_numbers = \<lparr>num_as_i64 = int_as_i64, num_as_f64 = Some, num_of_i64 = sint, num_of_f64 = Some,
     num_parse = int_parse, f64_parse = int_parse, f64_show = int_show, f64_cmp = int_cmp, f64_round = word_of_int\<rparr>"

lemma int_cmp_simps [simp]: "f64_cmp int_numbers = int_cmp"
  by (simp add: int_numbers_def)

end
