(* ===== verification/Dash_Fields.thy ===== *)
theory Dash_Fields imports Dash_Json begin

text \<open>
  The validator of model fields, \<open>crates/dash/operator/src/validator/model.rs\<close>: a list of declared
  fields, or the schema of a custom resource, becomes a list of native fields keyed by name. The parser
  keeps the map \<open>ModelFieldsParser.map\<close>; \<open>finalize\<close> checks the children of every aggregate and generates
  the objects that are missing between a field and the root.
\<close>

type_synonym 'f fields_map = "(string \<times> 'f native_field) list"

section \<open>Single fields\<close>

definition insert_field :: "string \<Rightarrow> 'f native_field \<Rightarrow> 'f fields_map \<Rightarrow> dash_error + 'f fields_map" where
  "insert_field name spec M =
     (if bt_lookup M name = None then Inr (bt_insert name spec M) else Inl (ConflictedField name))"

definition delete_field :: "string \<Rightarrow> 'f fields_map \<Rightarrow> 'f fields_map" where
  "delete_field name M = bt_remove name M"

definition assert_cmp :: "('a \<Rightarrow> 'a \<Rightarrow> bool) \<Rightarrow> string \<Rightarrow> 'a option \<Rightarrow> 'a option \<Rightarrow> dash_error + unit" where
  "assert_cmp le name a b =
     (case (a, b) of (Some x, Some y) \<Rightarrow> if le x y then Inr () else Inl (BadOrder name) | _ \<Rightarrow> Inr ())"

definition f64_le :: "('n, 'f) numbers \<Rightarrow> 'f \<Rightarrow> 'f \<Rightarrow> bool" where
  "f64_le N a b \<longleftrightarrow> f64_cmp N a b \<noteq> Greater"

definition assert_ordered :: "('a \<Rightarrow> 'a \<Rightarrow> bool) \<Rightarrow> string \<Rightarrow> 'a option \<Rightarrow> 'a option \<Rightarrow> 'a option \<Rightarrow> dash_error + unit" where
  "assert_ordered le name d mn mx =
     rbind (assert_cmp le name d mx) (\<lambda>_.
     rbind (assert_cmp le name mn d) (\<lambda>_.
       assert_cmp le name mn mx))"

definition default_length :: "string option \<Rightarrow> dash_error + u32 option" where
  "default_length d =
     (case d of
        None \<Rightarrow> Inr None
      | Some s \<Rightarrow> rbind (or_fail (TooLongString s) (u32_of_len (length s))) (\<lambda>n. Inr (Some n)))"

fun check_string_default :: "string \<Rightarrow> string option \<Rightarrow> string_spec \<Rightarrow> dash_error + unit" where
  "check_string_default name d SDynamic = Inr ()"
| "check_string_default name d (SStatic len) =
     rbind (default_length d) (\<lambda>n.
     rbind (assert_cmp (\<le>) name n (Some len)) (\<lambda>_.
       assert_cmp (\<le>) name (Some len) n))"
| "check_string_default name d (SRange mn mx) =
     rbind (default_length d) (\<lambda>n.
     rbind (assert_cmp (\<le>) name n (Some mx)) (\<lambda>_.
     rbind (assert_cmp (\<le>) name mn n) (\<lambda>_.
       assert_cmp (\<le>) name mn (Some mx))))"

text \<open>The kind of a declared field, checked; the children of an aggregate become a sorted set.\<close>

fun check_kind :: "('n, 'f) numbers \<Rightarrow> string \<Rightarrow> 'f native_kind \<Rightarrow> dash_error + 'f native_kind" where
  "check_kind N name (KInteger d mn mx) =
     rbind (assert_ordered (\<lambda>a b. a \<le>s b) name d mn mx) (\<lambda>_. Inr (KInteger d mn mx))"
| "check_kind N name (KNumber d mn mx) =
     rbind (assert_ordered (f64_le N) name d mn mx) (\<lambda>_. Inr (KNumber d mn mx))"
| "check_kind N name (KString d k) =
     rbind (check_string_default name d k) (\<lambda>_. Inr (KString d k))"
| "check_kind N name (KOneOfStrings d cs) =
     rbind (assert_contains name cs d) (\<lambda>_. Inr (KOneOfStrings d cs))"
| "check_kind N name (KObject cs k) = Inr (KObject (bt_set cs) k)"
| "check_kind N name (KObjectArray cs) = Inr (KObjectArray (bt_set cs))"
| "check_kind N name kind = Inr kind"

definition parse_field :: "('n, 'f) numbers \<Rightarrow> 'f native_field \<Rightarrow> 'f fields_map \<Rightarrow> dash_error + 'f fields_map" where
  "parse_field N field M =
     rbind (assert_name (fd_name field)) (\<lambda>_.
     rbind (check_kind N (fd_name field) (fd_kind field)) (\<lambda>kind.
       insert_field (fd_name field) (field\<lparr>fd_kind := kind\<rparr>) M))"

definition merge_field :: "('n, 'f) numbers \<Rightarrow> string \<Rightarrow> 'f native_field \<Rightarrow> 'f fields_map \<Rightarrow> dash_error + 'f fields_map" where
  "merge_field N parent field M =
     rbind (merge_name parent (fd_name field)) (\<lambda>name.
     rbind (case native_children (fd_kind field) of
              None \<Rightarrow> Inr (fd_kind field)
            | Some cs \<Rightarrow> rbind (traverse (merge_name parent) cs) (\<lambda>cs'. Inr (set_children cs' (fd_kind field))))
       (\<lambda>kind. parse_field N (field\<lparr>fd_name := name, fd_kind := kind\<rparr>) M))"

definition merge_fields :: "('n, 'f) numbers \<Rightarrow> string \<Rightarrow> 'f native_field list \<Rightarrow> 'f fields_map \<Rightarrow> dash_error + 'f fields_map" where
  "merge_fields N parent fs M = fold_result (merge_field N parent) fs M"

section \<open>Schemas of custom resources\<close>

text \<open>The part of \<open>JSONSchemaProps\<close> the code reads.\<close>

datatype ('n, 'f) json_schema = JsonSchema
  (js_type: "string option")
  (js_default: "'n json option")
  (js_minimum: "'f option")
  (js_maximum: "'f option")
  (js_format: "string option")
  (js_enum: "'n json list option")
  (js_properties: "(string \<times> ('n, 'f) json_schema) list option")
  (js_one_of: "('n, 'f) json_schema list option")
  (js_required: "string list option")
  (js_nullable: "bool option")

definition string_kind :: "string \<Rightarrow> ('n, 'f) json_schema \<Rightarrow> dash_error + 'f native_kind" where
  "string_kind name prop =
     (case js_format prop of
        Some fmt \<Rightarrow>
          if fmt = ''date-time'' then Inr (KDateTime None)
          else if fmt = ''ip'' \<or> fmt = ''ipv4'' then Inr KIp
          else if fmt = ''uuid'' then Inr KUuid
          else Inl (UnknownFormat name)
      | None \<Rightarrow>
         (let d = opt_bind (js_default prop) as_str in
          case js_enum prop of
            Some vs \<Rightarrow> Inr (KOneOfStrings d (bt_set (List.map_filter as_str vs)))
          | None \<Rightarrow> Inr (KString d default_string_spec)))"

definition scalar_kind ::
  "('n, 'f) numbers \<Rightarrow> string \<Rightarrow> string \<Rightarrow> ('n, 'f) json_schema \<Rightarrow> dash_error + 'f native_kind" where
  "scalar_kind N name ty prop =
     (if ty = ''boolean'' then Inr (KBoolean (opt_bind (js_default prop) as_bool))
      else if ty = ''integer'' then
        Inr (KInteger (opt_bind (js_default prop) (as_i64 N))
          (map_option (f64_round N) (js_minimum prop)) (map_option (f64_round N) (js_maximum prop)))
      else if ty = ''number'' then
        Inr (KNumber (opt_bind (js_default prop) (as_f64 N)) (js_minimum prop) (js_maximum prop))
      else if ty = ''string'' then string_kind name prop
      else Inl (UnknownType name))"

definition one_of_spec :: "('n, 'f) json_schema \<Rightarrow> object_spec" where
  "one_of_spec prop =
     (case js_one_of prop of
        Some alts \<Rightarrow> OEnumerate (concat (List.map_filter js_required alts))
      | None \<Rightarrow> OStatic)"

lemma size_in_pairs: "(nm, p) \<in> set props \<Longrightarrow> size p < Suc (size_list (size_prod (\<lambda>_. 0) size) props)"
  by (induction props) auto

lemma json_schema_size:
  "js_properties prop = Some props \<Longrightarrow> (nm, p) \<in> set props \<Longrightarrow> size p < size prop"
  by (cases "prop") (auto dest!: size_in_pairs)

text \<open>
  \<open>parse_json_property\<close> converts the name, decides the kind and inserts the field; an aggregate
  parses its properties first (\<open>parse_json_property_aggregation\<close>), whose names become its children.
\<close>

function parse_json_property ::
  "('n, 'f) numbers \<Rightarrow> (string \<Rightarrow> string) \<Rightarrow> string option \<Rightarrow> string \<Rightarrow> ('n, 'f) json_schema \<Rightarrow> 'f fields_map
    \<Rightarrow> dash_error + string \<times> 'f fields_map"
and parse_json_property_aggregation ::
  "('n, 'f) numbers \<Rightarrow> (string \<Rightarrow> string) \<Rightarrow> string \<Rightarrow> ('n, 'f) json_schema \<Rightarrow> 'f fields_map
    \<Rightarrow> dash_error + string list \<times> 'f fields_map"
where
  "parse_json_property N snake parent raw prop M =
     rbind (convert_name snake parent raw) (\<lambda>name.
     rbind
       (case js_type prop of
          None \<Rightarrow> Inl (UnknownType name)
        | Some ty \<Rightarrow>
            if ty = ''object'' then
              rbind (parse_json_property_aggregation N snake name prop M)
                (\<lambda>(cs, M1). Inr (KObject (bt_set cs) (one_of_spec prop), M1))
            else if ty = ''array'' then
              rbind (parse_json_property_aggregation N snake name prop M)
                (\<lambda>(cs, M1). Inr (KObjectArray (bt_set cs), M1))
            else rbind (scalar_kind N name ty prop) (\<lambda>kind. Inr (kind, M)))
       (\<lambda>(kind, M1).
          rbind (insert_field name
                  \<lparr>fd_name = name, fd_kind = kind, fd_optional = (js_nullable prop = Some True)\<rparr> M1)
            (\<lambda>M2. Inr (name, M2))))"
| "parse_json_property_aggregation N snake parent prop M =
     (case js_properties prop of
        None \<Rightarrow> Inr ([], M)
      | Some props \<Rightarrow>
          fold_result (\<lambda>(nm, p) (cs, M1).
              rbind (parse_json_property N snake (Some parent) nm p M1) (\<lambda>(c, M2). Inr (cs @ [c], M2)))
            props ([], M))"
  by pat_completeness auto
termination
  by (relation "measure (case_sum (\<lambda>(_, _, _, _, prop, _). 2 * size prop + 1) (\<lambda>(_, _, _, prop, _). 2 * size prop))")
    (auto dest!: json_schema_size)

definition metadata_field :: "string \<Rightarrow> 'f native_kind \<Rightarrow> 'f native_field" where
  "metadata_field name kind = \<lparr>fd_name = name, fd_kind = kind, fd_optional = False\<rparr>"

definition insert_custom_resource_metadata_fields :: "'f fields_map \<Rightarrow> dash_error + 'f fields_map" where
  "insert_custom_resource_metadata_fields M =
     fold_result (\<lambda>f. insert_field (fd_name f) f)
       [metadata_field ''/metadata/''
          (KObject [''/metadata/annotations/'', ''/metadata/labels/'', ''/metadata/name/''] OStatic),
        metadata_field ''/metadata/annotations/'' (KObject [] ODynamic),
        metadata_field ''/metadata/name/'' (KString None SDynamic),
        metadata_field ''/metadata/labels/'' (KObject [] ODynamic)]
       (delete_field ''/metadata/'' (delete_field ''/'' M))"

text \<open>The argument is \<open>def.schema.open_api_v3_schema\<close>.\<close>

definition parse_custom_resource_definition ::
  "('n, 'f) numbers \<Rightarrow> (string \<Rightarrow> string) \<Rightarrow> ('n, 'f) json_schema option \<Rightarrow> 'f fields_map \<Rightarrow> dash_error + 'f fields_map"
where
  "parse_custom_resource_definition N snake schema M =
     (case schema of
        None \<Rightarrow> Inr M
      | Some prop \<Rightarrow>
          rbind (parse_json_property N snake None [] prop M) (\<lambda>(_, M1).
            insert_custom_resource_metadata_fields M1))"

section \<open>The tree of fields\<close>

definition children_of :: "string \<Rightarrow> string list \<Rightarrow> string list" where
  "children_of name ks = filter (\<lambda>k. parent_name k = Some name) ks"

definition assert_children_by :: "string \<Rightarrow> string list \<Rightarrow> string list \<Rightarrow> dash_error + unit" where
  "assert_children_by name expected given =
     (if filter (\<lambda>e. \<forall>g \<in> set given. e \<noteq> g) expected = [] then Inr () else Inl (MissingChildren name))"

definition assert_children :: "string \<Rightarrow> string list \<Rightarrow> string list \<Rightarrow> dash_error + unit" where
  "assert_children name expected given =
     rbind (assert_children_by name expected given) (\<lambda>_. assert_children_by name given expected)"

fun starts_with :: "string \<Rightarrow> string \<Rightarrow> bool" where
  "starts_with s [] = True"
| "starts_with [] (p # ps) = False"
| "starts_with (c # s) (p # ps) = (c = p \<and> starts_with s ps)"

definition assert_child :: "string \<Rightarrow> string \<Rightarrow> dash_error + unit" where
  "assert_child parent child = (if starts_with child parent then Inr () else Inl (NotAChild child))"

definition assert_aggregation_type :: "string list \<Rightarrow> string \<Rightarrow> string list \<Rightarrow> dash_error + unit" where
  "assert_aggregation_type ks name cs =
     fold_result (\<lambda>child _. rbind (assert_child name child) (\<lambda>_. assert_contains name ks (Some child))) cs ()"

text \<open>The state of the loop: the map and the set \<open>generated_aggregations\<close>.\<close>

type_synonym 'f gen_state = "'f fields_map \<times> string list"

definition generated :: "string \<Rightarrow> string list \<Rightarrow> 'f native_field" where
  "generated name cs = \<lparr>fd_name = name, fd_kind = KObject cs OStatic, fd_optional = False\<rparr>"

lemma length_upto_slash: "upto_slash s = Some t \<Longrightarrow> 0 < length t \<and> length t \<le> length s"
  by (induction s) (auto split: if_splits)

lemma parent_name_shorter:
  assumes "parent_name s = Some p"
  shows "length p < length s"
proof -
  from assms obtain r t where r: "upto_slash (rev s) = Some r" and t: "upto_slash (tl r) = Some t" and p: "p = rev t"
    by (auto simp: parent_name_def split: option.splits)
  from length_upto_slash [OF r] length_upto_slash [OF t] p show ?thesis by (cases r) auto
qed

function create_parent_object :: "string option \<Rightarrow> 'f gen_state \<Rightarrow> dash_error + 'f gen_state" where
  "create_parent_object None (M, G) = Inr (M, G)"
| "create_parent_object (Some name) (M, G) =
     (let children = children_of name (map fst M);
          generate = create_parent_object (parent_name name)
            (bt_insert name (generated name (bt_set children)) M, name # G)
      in case bt_lookup M name of
           Some field \<Rightarrow>
             if name \<notin> set G then
               (case native_children (fd_kind field) of
                  Some given \<Rightarrow> rbind (assert_children name (bt_set children) given) (\<lambda>_. Inr (M, G))
                | None \<Rightarrow> Inr (M, G))
             else generate
         | None \<Rightarrow> generate)"
  by pat_completeness auto
termination
  by (relation "measure (\<lambda>(name, _). case name of None \<Rightarrow> 0 | Some s \<Rightarrow> Suc (length s))")
    (auto split: option.splits dest: parent_name_shorter)

function create_parent_objects :: "string \<Rightarrow> 'f gen_state \<Rightarrow> dash_error + 'f gen_state" where
  "create_parent_objects name s =
     (case parent_name name of
        None \<Rightarrow> create_parent_object None s
      | Some p \<Rightarrow> rbind (create_parent_object (Some p) s) (create_parent_objects p))"
  by pat_completeness auto
termination
  by (relation "measure (\<lambda>(name, _). length name)") (auto dest: parent_name_shorter)

definition finalize_step :: "string list \<Rightarrow> string \<times> 'f native_field \<Rightarrow> 'f gen_state \<Rightarrow> dash_error + 'f gen_state" where
  "finalize_step ks e s =
     rbind (case native_children (fd_kind (snd e)) of
              Some cs \<Rightarrow> assert_aggregation_type ks (fst e) cs
            | None \<Rightarrow> Inr ())
       (\<lambda>_. create_parent_objects (fst e) s)"

definition finalize_fields :: "'f fields_map \<Rightarrow> dash_error + 'f native_field list" where
  "finalize_fields M =
     rbind (fold_result (finalize_step (map fst M)) M (M, [])) (\<lambda>(M', _). Inr (map snd M'))"

section \<open>Validation\<close>

definition validate_native_fields ::
  "('n, 'f) numbers \<Rightarrow> 'f native_field list \<Rightarrow> dash_error + 'f native_field list" where
  "validate_native_fields N fs = rbind (fold_result (parse_field N) fs []) finalize_fields"

text \<open>\<open>load\<close> is \<open>KubernetesStorageClient::load_model\<close>, a call of the cluster that may fail.\<close>

definition validate_step ::
  "('n, 'f) numbers \<Rightarrow> (string \<Rightarrow> dash_error + 'f model_crd) \<Rightarrow> 'f any_field \<Rightarrow> 'f fields_map \<Rightarrow> dash_error + 'f fields_map"
where
  "validate_step N load field M =
     (case fd_kind field of
        Native _ \<Rightarrow> rbind (try_into_native field) (\<lambda>f. parse_field N f M)
      | Extended (KModel name) \<Rightarrow>
          rbind (load name) (\<lambda>model.
          rbind (fields_unchecked model) (\<lambda>fs. merge_fields N (fd_name field) fs M)))"

definition validate_fields ::
  "('n, 'f) numbers \<Rightarrow> (string \<Rightarrow> dash_error + 'f model_crd) \<Rightarrow> 'f any_field list \<Rightarrow> dash_error + 'f native_field list"
where
  "validate_fields N load spec = rbind (fold_result (validate_step N load) spec []) finalize_fields"

text \<open>\<open>load_def\<close> is \<open>load_custom_resource_definition\<close>, down to the schema of the version it finds.\<close>

definition validate_custom_resource_definition_ref ::
  "('n, 'f) numbers \<Rightarrow> (string \<Rightarrow> string) \<Rightarrow> (string \<Rightarrow> dash_error + ('n, 'f) json_schema option) \<Rightarrow> string
    \<Rightarrow> dash_error + 'f native_field list"
where
  "validate_custom_resource_definition_ref N snake load_def name =
     rbind (load_def name) (\<lambda>schema.
     rbind (parse_custom_resource_definition N snake schema []) (\<lambda>M.
     rbind (finalize_fields M) (validate_native_fields N)))"

definition validate_model ::
  "('n, 'f) numbers \<Rightarrow> (string \<Rightarrow> string) \<Rightarrow> (string \<Rightarrow> dash_error + 'f model_crd)
    \<Rightarrow> (string \<Rightarrow> dash_error + ('n, 'f) json_schema option) \<Rightarrow> 'f model_spec \<Rightarrow> dash_error + 'f native_field list"
where
  "validate_model N snake load load_def spec =
     (case spec of
        MDynamic \<Rightarrow> Inr [\<lparr>fd_name = ''/'', fd_kind = KObject [] ODynamic, fd_optional = True\<rparr>]
      | MFields fs \<Rightarrow> validate_fields N load fs
      | MCustomResourceDefinitionRef name \<Rightarrow> validate_custom_resource_definition_ref N snake load_def name)"

text \<open>
  A model may be deleted when it has no bindings and no claim that is ready. The arguments are the
  calls \<open>load_model_storage_bindings\<close> and \<open>load_model_claim\<close>; a claim is the state of its status.
\<close>

datatype claim_state = CPending | CReady | CReplacing | CDeleting

definition assert_empty_bindings :: "(string \<Rightarrow> dash_error + 'b list) \<Rightarrow> string \<Rightarrow> dash_error + unit" where
  "assert_empty_bindings load_bindings name =
     rbind (load_bindings name) (\<lambda>bs. if bs = [] then Inr () else Inl (ModelIsBound name))"

definition assert_empty_claims :: "(string \<Rightarrow> dash_error + claim_state option option) \<Rightarrow> string \<Rightarrow> dash_error + unit" where
  "assert_empty_claims load_claim name =
     rbind (load_claim name) (\<lambda>claim.
       if claim = Some (Some CReady) then Inl (ModelIsBound name) else Inr ())"

definition delete_model ::
  "(string \<Rightarrow> dash_error + 'b list) \<Rightarrow> (string \<Rightarrow> dash_error + claim_state option option) \<Rightarrow> 'f model_crd \<Rightarrow> dash_error + unit"
where
  "delete_model load_bindings load_claim crd =
     rbind (assert_empty_bindings load_bindings (mc_name crd)) (\<lambda>_. assert_empty_claims load_claim (mc_name crd))"

section \<open>What finalize establishes\<close>

definition keys :: "'f fields_map \<Rightarrow> string set" where
  "keys M = fst ` set M"

definition direct :: "'f fields_map \<Rightarrow> string \<Rightarrow> string set" where
  "direct M q = {k \<in> keys M. parent_name k = Some q}"

lemma keys_insert [simp]: "keys (bt_insert n f M) = insert n (keys M)"
  by (simp add: keys_def fst_set_bt_insert)

lemma lookup_keys: "bt_lookup M n = None \<longleftrightarrow> n \<notin> keys M"
  by (simp add: keys_def bt_lookup_None_iff)

lemma set_children_of: "set (children_of q (map fst M)) = direct M q"
  by (auto simp: children_of_def direct_def keys_def)

text \<open>A field is settled when it exists and its children are exactly the fields right below it.\<close>

definition settled :: "'f fields_map \<Rightarrow> string list \<Rightarrow> string \<Rightarrow> bool" where
  "settled M G q \<longleftrightarrow>
     (\<exists>f. bt_lookup M q = Some f \<and>
        (if q \<in> set G then f = generated q (sorted_list_of_set (direct M q))
         else \<forall>cs. native_children (fd_kind f) = Some cs \<longrightarrow> set cs = direct M q))"

text \<open>The generated part of a state: its fields were absent before, and each has a settled parent.\<close>

definition matures :: "'f gen_state \<Rightarrow> 'f gen_state \<Rightarrow> bool" where
  "matures s t \<longleftrightarrow>
     bt_wf (fst t) \<and> keys (fst t) = keys (fst s) \<union> set (snd t) \<and> set (snd s) \<subseteq> set (snd t)
     \<and> (\<forall>k. k \<notin> set (snd t) \<longrightarrow> bt_lookup (fst t) k = bt_lookup (fst s) k)
     \<and> (\<forall>g \<in> set (snd t) - set (snd s). g \<notin> keys (fst s) \<and> is_match re_name g
          \<and> settled (fst t) (snd t) g
          \<and> (\<forall>p. parent_name g = Some p \<longrightarrow> settled (fst t) (snd t) p))
     \<and> (\<forall>q. settled (fst s) (snd s) q \<longrightarrow> settled (fst t) (snd t) q)"

lemma matures_refl: "bt_wf M \<Longrightarrow> set G \<subseteq> keys M \<Longrightarrow> matures (M, G) (M, G)"
  by (auto simp: matures_def)

lemma maturesD:
  assumes "matures s t"
  shows matures_wf: "bt_wf (fst t)"
    and matures_keys: "keys (fst t) = keys (fst s) \<union> set (snd t)"
    and matures_sub: "set (snd s) \<subseteq> set (snd t)"
    and matures_lookup: "k \<notin> set (snd t) \<Longrightarrow> bt_lookup (fst t) k = bt_lookup (fst s) k"
    and matures_new: "g \<in> set (snd t) \<Longrightarrow> g \<notin> set (snd s) \<Longrightarrow> g \<notin> keys (fst s) \<and> is_match re_name g
          \<and> settled (fst t) (snd t) g \<and> (\<forall>p. parent_name g = Some p \<longrightarrow> settled (fst t) (snd t) p)"
    and matures_settled: "settled (fst s) (snd s) q \<Longrightarrow> settled (fst t) (snd t) q"
  using assms unfolding matures_def by blast+

lemma matures_trans:
  assumes a: "matures s t" and b: "matures t u"
  shows "matures s u"
  unfolding matures_def
proof (intro conjI ballI allI impI)
  show "bt_wf (fst u)" by (rule matures_wf [OF b])
  show "keys (fst u) = keys (fst s) \<union> set (snd u)"
    using matures_keys [OF a] matures_keys [OF b] matures_sub [OF b] by blast
  show "set (snd s) \<subseteq> set (snd u)" using matures_sub [OF a] matures_sub [OF b] by blast
  show "bt_lookup (fst u) k = bt_lookup (fst s) k" if "k \<notin> set (snd u)" for k
    using matures_lookup [OF a] matures_lookup [OF b that] that matures_sub [OF b] by (metis subsetD)
  show "settled (fst u) (snd u) q" if "settled (fst s) (snd s) q" for q
    by (rule matures_settled [OF b matures_settled [OF a that]])
  fix g assume g: "g \<in> set (snd u) - set (snd s)"
  have *: "g \<notin> keys (fst s) \<and> is_match re_name g
      \<and> settled (fst u) (snd u) g \<and> (\<forall>p. parent_name g = Some p \<longrightarrow> settled (fst u) (snd u) p)"
  proof (cases "g \<in> set (snd t)")
    case True
    with g matures_new [OF a True] matures_settled [OF b] show ?thesis by blast
  next
    case False
    with g matures_new [OF b _ False] matures_keys [OF a] show ?thesis by blast
  qed
  then show "g \<notin> keys (fst s)" "is_match re_name g" "settled (fst u) (snd u) g" by blast+
  show "settled (fst u) (snd u) p" if "parent_name g = Some p" for p using * that by blast
qed

lemma assert_children_Inr: "assert_children name expected given = Inr u \<longleftrightarrow> set expected = set given"
  by (auto simp: assert_children_def assert_children_by_def filter_empty_conv split: if_splits)

lemma re_name_parent:
  assumes "is_match re_name s" "parent_name s = Some p"
  shows "is_match re_name p"
proof -
  from assms(1) obtain ks where ks: "s = path ks" "\<forall>k \<in> set ks. ident k" by (auto simp: re_name_path)
  then have "\<forall>k \<in> set ks. no_slash k" by simp
  with assms(2) ks have "ks \<noteq> []" "p = path (butlast ks)"
    by (auto simp: parent_name_path split: if_splits)
  moreover have "\<forall>k \<in> set (butlast ks). ident k" using ks(2) by (auto dest: in_set_butlastD)
  ultimately show ?thesis by (auto simp: re_name_path)
qed

lemma parent_name_not_self [simp]: "parent_name n \<noteq> Some n"
  using parent_name_shorter by fastforce

lemma direct_insert:
  "direct (bt_insert n f M) q = (if parent_name n = Some q then insert n (direct M q) else direct M q)"
  by (auto simp: direct_def)

lemma settled_generate_self:
  "settled (bt_insert name (generated name (sorted_list_of_set (direct M name))) M) (name # G) name"
  by (simp add: settled_def bt_lookup_insert direct_insert)

lemma settled_generate_other:
  assumes "settled M G q" "parent_name name \<noteq> Some q" "q \<noteq> name"
  shows "settled (bt_insert name f M) (name # G) q"
  using assms unfolding settled_def bt_lookup_insert direct_insert by simp

lemma matures_generate:
  assumes t: "matures (bt_insert name (generated name (sorted_list_of_set (direct M name))) M, name # G) t"
    and absent: "name \<in> set G \<or> bt_lookup M name = None"
    and name: "is_match re_name name"
    and parent: "\<And>p. parent_name name = Some p \<Longrightarrow> settled (fst t) (snd t) p"
  shows "matures (M, G) t" and "settled (fst t) (snd t) name"
proof -
  let ?M = "bt_insert name (generated name (sorted_list_of_set (direct M name))) M"
  show self: "settled (fst t) (snd t) name"
    by (rule matures_settled [OF t]) (simp add: settled_generate_self)
  have sub: "insert name (set G) \<subseteq> set (snd t)" using matures_sub [OF t] by simp
  show "matures (M, G) t"
    unfolding matures_def fst_conv snd_conv
  proof (intro conjI ballI allI impI)
    show "bt_wf (fst t)" by (rule matures_wf [OF t])
    show "keys (fst t) = keys M \<union> set (snd t)" using matures_keys [OF t] sub by auto
    show "set G \<subseteq> set (snd t)" using sub by simp
    show "bt_lookup (fst t) k = bt_lookup M k" if "k \<notin> set (snd t)" for k
      using matures_lookup [OF t that] that sub by (auto simp: bt_lookup_insert)
    show "settled (fst t) (snd t) q" if "settled M G q" for q
      using self parent settled_generate_other [OF that] matures_settled [OF t] by (metis fst_conv snd_conv)
    fix g assume g: "g \<in> set (snd t) - set G"
    have *: "g \<notin> keys M \<and> is_match re_name g \<and> settled (fst t) (snd t) g
        \<and> (\<forall>p. parent_name g = Some p \<longrightarrow> settled (fst t) (snd t) p)"
    proof (cases "g = name")
      case True
      with g absent have "g \<notin> keys M" by (simp add: lookup_keys)
      with True name self parent show ?thesis by simp
    next
      case False
      with g matures_new [OF t] show ?thesis by auto
    qed
    then show "g \<notin> keys M" "is_match re_name g" "settled (fst t) (snd t) g" by blast+
    show "settled (fst t) (snd t) p" if "parent_name g = Some p" for p using * that by blast
  qed
qed

lemma create_parent_object_matures:
  "\<lbrakk>create_parent_object nm s = Inr t; bt_wf (fst s); set (snd s) \<subseteq> keys (fst s);
    \<And>n. nm = Some n \<Longrightarrow> is_match re_name n\<rbrakk>
   \<Longrightarrow> matures s t \<and> (\<forall>n. nm = Some n \<longrightarrow> settled (fst t) (snd t) n)"
proof (induction nm s rule: create_parent_object.induct)
  case (1 M G)
  then show ?case using matures_refl [of M G] by auto
next
  case (2 name M G)
  have children: "bt_set (children_of name (map fst M)) = sorted_list_of_set (direct M name)"
    by (simp add: bt_set_eq_sorted_list set_children_of)
  have name: "is_match re_name name" by (rule "2.prems"(4)) simp
  let ?s = "(bt_insert name (generated name (sorted_list_of_set (direct M name))) M, name # G)"
  have gen: ?case if absent: "name \<in> set G \<or> bt_lookup M name = None" and t: "create_parent_object (parent_name name) ?s = Inr t"
  proof -
    have "matures ?s t \<and> (\<forall>n. parent_name name = Some n \<longrightarrow> settled (fst t) (snd t) n)"
      using "2.IH" [OF refl] t "2.prems" children re_name_parent [OF name] by auto
    then show ?thesis using matures_generate [OF _ absent name] by simp
  qed
  show ?case
  proof (cases "bt_lookup M name")
    case None
    with gen "2.prems"(1) children show ?thesis by simp
  next
    case (Some f)
    show ?thesis
    proof (cases "name \<in> set G")
      case True
      with gen Some "2.prems"(1) children show ?thesis by simp
    next
      case False
      with Some "2.prems" have t: "t = (M, G)"
        and cs: "\<And>cs. native_children (fd_kind f) = Some cs \<Longrightarrow> set cs = direct M name"
        by (auto simp: assert_children_Inr set_children_of split: option.splits)
      with Some False "2.prems" show ?thesis by (auto simp: matures_refl settled_def)
    qed
  qed
qed

lemma create_parent_objects_matures:
  "\<lbrakk>create_parent_objects name s = Inr t; bt_wf (fst s); set (snd s) \<subseteq> keys (fst s); is_match re_name name\<rbrakk>
   \<Longrightarrow> matures s t \<and> (\<forall>p. parent_name name = Some p \<longrightarrow> settled (fst t) (snd t) p)"
proof (induction name s arbitrary: t rule: create_parent_objects.induct)
  case (1 name s)
  show ?case
  proof (cases "parent_name name")
    case None
    with 1 create_parent_object_matures [of None s t] show ?thesis by auto
  next
    case (Some p)
    with "1.prems" obtain u where u: "create_parent_object (Some p) s = Inr u"
      and t: "create_parent_objects p u = Inr t"
      by auto
    have p: "is_match re_name p" by (rule re_name_parent [OF "1.prems"(4) Some])
    have su: "matures s u \<and> settled (fst u) (snd u) p"
      using create_parent_object_matures [OF u "1.prems"(2,3)] p by simp
    have "set (snd u) \<subseteq> keys (fst u)" using su by (auto simp: matures_keys)
    with "1.IH" [OF Some u t] su p have "matures u t" by (auto simp: matures_wf)
    with su Some show ?thesis by (auto intro: matures_trans matures_settled)
  qed
qed

lemma starts_with_prefix: "starts_with s p \<longleftrightarrow> (\<exists>r. s = p @ r)"
  by (induction s p rule: starts_with.induct) auto

lemma fold_result_unit_Inr: "fold_result (\<lambda>x _. f x) xs () = Inr () \<longleftrightarrow> (\<forall>x \<in> set xs. f x = Inr ())"
  by (induction xs) auto

lemma assert_aggregation_type_Inr:
  "assert_aggregation_type ks name cs = Inr u \<longleftrightarrow> (\<forall>c \<in> set cs. starts_with c name \<and> c \<in> set ks)"
  by (auto simp: assert_aggregation_type_def fold_result_unit_Inr assert_child_def assert_contains_def)

definition step_done :: "string list \<Rightarrow> 'f gen_state \<Rightarrow> string \<times> 'f native_field \<Rightarrow> bool" where
  "step_done ks t e \<longleftrightarrow> (\<forall>p. parent_name (fst e) = Some p \<longrightarrow> settled (fst t) (snd t) p)
     \<and> (\<forall>cs. native_children (fd_kind (snd e)) = Some cs \<longrightarrow> (\<forall>c \<in> set cs. starts_with c (fst e) \<and> c \<in> set ks))"

lemma step_done_matures: "step_done ks s e \<Longrightarrow> matures s t \<Longrightarrow> step_done ks t e"
  unfolding step_done_def by (simp add: matures_settled)

lemma finalize_step_matures:
  assumes "finalize_step ks e s = Inr t" "bt_wf (fst s)" "set (snd s) \<subseteq> keys (fst s)" "is_match re_name (fst e)"
  shows "matures s t" and "step_done ks t e"
proof -
  from assms(1) have t: "create_parent_objects (fst e) s = Inr t"
    and cs: "\<And>cs. native_children (fd_kind (snd e)) = Some cs \<Longrightarrow> (\<forall>c \<in> set cs. starts_with c (fst e) \<and> c \<in> set ks)"
    by (auto simp: finalize_step_def assert_aggregation_type_Inr split: option.splits)
  from create_parent_objects_matures [OF t assms(2-4)] cs show "matures s t" and "step_done ks t e"
    unfolding step_done_def by blast+
qed

lemma finalize_steps:
  assumes "fold_result (finalize_step ks) es s = Inr t" "bt_wf (fst s)" "set (snd s) \<subseteq> keys (fst s)"
    and "\<And>e. e \<in> set es \<Longrightarrow> is_match re_name (fst e)"
  shows "matures s t \<and> (\<forall>e \<in> set es. step_done ks t e)"
  using assms
proof (induction es arbitrary: s)
  case Nil
  then show ?case using matures_refl [of "fst s" "snd s"] by simp
next
  case (Cons e es)
  then obtain u where u: "finalize_step ks e s = Inr u" and t: "fold_result (finalize_step ks) es u = Inr t"
    by auto
  have su: "matures s u" "step_done ks u e"
    using finalize_step_matures [OF u Cons.prems(2,3)] Cons.prems(4) by simp_all
  have "set (snd u) \<subseteq> keys (fst u)" using matures_keys [OF su(1)] by simp
  from Cons.IH [OF t matures_wf [OF su(1)] this] Cons.prems(4)
  have ih: "matures u t" "\<forall>e \<in> set es. step_done ks t e" by simp_all
  with su matures_trans [OF su(1) ih(1)] step_done_matures [OF su(2) ih(1)] show ?case by simp
qed

text \<open>A map of fields as the parser keeps it: each field under its own, valid name.\<close>

definition fields_ok :: "'f fields_map \<Rightarrow> bool" where
  "fields_ok M \<longleftrightarrow> bt_wf M \<and> (\<forall>(k, f) \<in> set M. fd_name f = k \<and> is_match re_name k)"

text \<open>
  The specification of a validated model: sorted, distinct and valid names, closed under parents, and
  the children of an aggregate are the fields right below it. The second alternative is a gap of the
  checks: an aggregate without fields below it may name itself as its child.
\<close>

definition field_tree :: "'f native_field list \<Rightarrow> bool" where
  "field_tree fs \<longleftrightarrow>
     sorted_wrt (<) (map fd_name fs)
     \<and> (\<forall>f \<in> set fs.
          is_match re_name (fd_name f)
          \<and> (case parent_name (fd_name f) of None \<Rightarrow> True | Some p \<Rightarrow> p \<in> fd_name ` set fs)
          \<and> (case native_children (fd_kind f) of
               None \<Rightarrow> True
             | Some cs \<Rightarrow>
                 set cs = set (children_of (fd_name f) (map fd_name fs))
                 \<or> children_of (fd_name f) (map fd_name fs) = [] \<and> set cs \<subseteq> {fd_name f}))"

lemma name_below:
  assumes "is_match re_name n" "is_match re_name q" "n = q @ r" "n \<noteq> q"
    and closed: "\<And>k p. k \<in> K \<Longrightarrow> parent_name k = Some p \<Longrightarrow> p \<in> K" and "n \<in> K"
  shows "\<exists>k \<in> K. parent_name k = Some q"
proof -
  from assms(1,2) obtain ns qs where ns: "n = path ns" "\<forall>k \<in> set ns. no_slash k"
    and qs: "q = path qs" "\<forall>k \<in> set qs. no_slash k"
    by (metis re_name_path ident_no_slash)
  with assms(3) obtain ls where ls: "ns = qs @ ls"
    using concat_path_prefix [OF qs(2) ns(2), of r] by (auto simp: path_def)
  have "ls \<noteq> [] \<Longrightarrow> path (qs @ ls) \<in> K \<Longrightarrow> \<forall>k \<in> set (qs @ ls). no_slash k \<Longrightarrow> \<exists>k \<in> K. parent_name k = Some q"
    for ls
  proof (induction ls rule: rev_induct)
    case (snoc l ls)
    from snoc.prems have parent: "parent_name (path (qs @ ls @ [l])) = Some (path (qs @ ls))"
      by (subst parent_name_path) (auto simp: butlast_append)
    show ?case
    proof (cases "ls = []")
      case True
      with parent snoc.prems(2) qs show ?thesis by auto
    next
      case False
      with snoc closed [OF _ parent] show ?thesis by auto
    qed
  qed simp
  moreover have "ls \<noteq> []" using ls ns assms(4) qs by auto
  ultimately show ?thesis using ls ns assms(6) qs by blast
qed

lemma finalize_fields_result:
  assumes "finalize_fields M = Inr fs" and ok: "fields_ok M"
  obtains M' G where "fs = map snd M'" "matures (M, []) (M', G)" "\<forall>e \<in> set M. step_done (map fst M) (M', G) e"
proof -
  from assms obtain M' G where t: "fold_result (finalize_step (map fst M)) M (M, []) = Inr (M', G)"
    and fs: "fs = map snd M'"
    by (auto simp: finalize_fields_def)
  have "\<And>e. e \<in> set M \<Longrightarrow> is_match re_name (fst e)" using ok by (auto simp: fields_ok_def)
  moreover have "bt_wf M" using ok by (simp add: fields_ok_def)
  ultimately show thesis using finalize_steps [OF t] fs that by auto
qed

lemma finalized_fields_ok:
  assumes g: "matures (M, []) (M', G)" and ok: "fields_ok M"
  shows "fields_ok M'"
    and "(k, f) \<in> set M' \<Longrightarrow> k \<in> set G \<and> f = generated k (sorted_list_of_set (direct M' k)) \<or> k \<notin> set G \<and> (k, f) \<in> set M"
    and "(k, f) \<in> set M \<Longrightarrow> k \<notin> set G \<and> (k, f) \<in> set M'"
proof -
  have wf: "bt_wf M" "bt_wf M'" using ok g by (auto simp: fields_ok_def dest: matures_wf)
  have new: "k \<notin> keys M \<and> is_match re_name k \<and> settled M' G k" if "k \<in> set G" for k
    using matures_new [OF g] that by simp
  show *: "k \<in> set G \<and> f = generated k (sorted_list_of_set (direct M' k)) \<or> k \<notin> set G \<and> (k, f) \<in> set M"
    if "(k, f) \<in> set M'" for k f
  proof (cases "k \<in> set G")
    case True
    from that wf have "bt_lookup M' k = Some f" by (simp add: bt_lookup_Some_iff)
    with True new [OF True] show ?thesis by (simp add: settled_def)
  next
    case False
    with matures_lookup [OF g] have "bt_lookup M' k = bt_lookup M k" by simp
    with False that wf show ?thesis by (simp flip: bt_lookup_Some_iff)
  qed
  show "(k, f) \<in> set M \<Longrightarrow> k \<notin> set G \<and> (k, f) \<in> set M'"
  proof -
    assume kf: "(k, f) \<in> set M"
    then have "k \<in> keys M" by (force simp: keys_def)
    with new have "k \<notin> set G" by blast
    with matures_lookup [OF g] have "bt_lookup M' k = bt_lookup M k" by simp
    with kf wf \<open>k \<notin> set G\<close> show ?thesis by (simp flip: bt_lookup_Some_iff)
  qed
  show "fields_ok M'"
    unfolding fields_ok_def
  proof (intro conjI ballI, unfold split_paired_all prod.case)
    fix k f assume "(k, f) \<in> set M'"
    from * [OF this] show "fd_name f = k \<and> is_match re_name k"
      using new ok by (auto simp: generated_def fields_ok_def)
  qed (rule wf)
qed

lemma fd_names: "fields_ok M \<Longrightarrow> map fd_name (map snd M) = map fst M"
  by (auto simp: fields_ok_def)

lemma fields_ok_name: "fields_ok M \<Longrightarrow> k \<in> keys M \<Longrightarrow> is_match re_name k"
  by (auto simp: fields_ok_def keys_def)

lemma finite_direct [simp]: "finite (direct M q)"
  by (simp add: direct_def keys_def)

lemma finalize_fields_tree:
  assumes fin: "finalize_fields M = Inr fs" and ok: "fields_ok M"
  shows "field_tree fs"
proof -
  obtain M' G where fs: "fs = map snd M'" and g: "matures (M, []) (M', G)"
    and steps: "\<forall>e \<in> set M. step_done (map fst M) (M', G) e"
    by (rule finalize_fields_result [OF fin ok])
  note ok' = finalized_fields_ok(1) [OF g ok] and origin = finalized_fields_ok(2) [OF g ok]
  have names: "map fd_name fs = map fst M'" using fd_names [OF ok'] fs by simp
  have parents: "settled M' G p" if k: "(k, f) \<in> set M'" and p: "parent_name k = Some p" for k f p
  proof (cases "k \<in> set G")
    case True
    with matures_new [OF g, of k] p show ?thesis by simp
  next
    case False
    with origin [OF k] have "(k, f) \<in> set M" by simp
    with steps have "step_done (map fst M) (M', G) (k, f)" by blast
    with p show ?thesis by (simp add: step_done_def)
  qed
  have closed: "p \<in> keys M'" if k: "k \<in> keys M'" and p: "parent_name k = Some p" for k p
  proof -
    from k obtain f where "(k, f) \<in> set M'" by (auto simp: keys_def)
    from parents [OF this p] show ?thesis by (metis lookup_keys option.distinct(1) settled_def)
  qed
  have children: "set cs = direct M' k \<or> direct M' k = {} \<and> set cs \<subseteq> {k}"
    if k: "(k, f) \<in> set M'" and cs: "native_children (fd_kind f) = Some cs" for k f cs
  proof (cases "k \<in> set G")
    case True
    with origin [OF k] have "f = generated k (sorted_list_of_set (direct M' k))" by simp
    with cs have "cs = sorted_list_of_set (direct M' k)" by (simp add: generated_def)
    then have "set cs = direct M' k" using finite_direct by simp
    then show ?thesis ..
  next
    case False
    with origin [OF k] have kM: "(k, f) \<in> set M" by simp
    show ?thesis
    proof (cases "direct M' k = {}")
      case True
      have "c = k" if c: "c \<in> set cs" for c
      proof (rule ccontr)
        assume "c \<noteq> k"
        from steps kM have "step_done (map fst M) (M', G) (k, f)" by blast
        with cs c have "starts_with c k" and cM: "c \<in> keys M"
          by (simp_all add: step_done_def keys_def)
        then obtain r where r: "c = k @ r" by (auto simp: starts_with_prefix)
        have "c \<in> keys M'" using cM matures_keys [OF g] by simp
        moreover have "is_match re_name c" "is_match re_name k"
          using fields_ok_name [OF ok] cM kM by (simp, simp add: keys_def image_iff, metis fst_conv)
        moreover have "\<exists>j \<in> keys M'. parent_name j = Some k"
          by (rule name_below [OF calculation(2,3) r \<open>c \<noteq> k\<close> _ calculation(1)]) (rule closed)
        ultimately show False using True by (simp add: direct_def)
      qed
      with True show ?thesis by auto
    next
      case False
      then obtain j where j: "j \<in> keys M'" "parent_name j = Some k" by (auto simp: direct_def)
      then obtain h where "(j, h) \<in> set M'" by (auto simp: keys_def)
      from parents [OF this j(2)] have "settled M' G k" .
      moreover have "bt_lookup M' k = Some f"
        using k ok' by (simp add: fields_ok_def bt_lookup_Some_iff)
      ultimately show ?thesis using cs \<open>k \<notin> set G\<close> by (simp add: settled_def)
    qed
  qed
  show ?thesis
    unfolding field_tree_def names
  proof (intro conjI ballI)
    show "sorted_wrt (<) (map fst M')" using ok' by (simp add: fields_ok_def bt_wf_def)
    fix f assume "f \<in> set fs"
    then obtain k where k: "(k, f) \<in> set M'" using fs by auto
    with ok' have n: "fd_name f = k" "is_match re_name k" by (auto simp: fields_ok_def)
    then show "is_match re_name (fd_name f)" by simp
    have "k \<in> keys M'" using k by (force simp: keys_def)
    moreover have "keys M' = fd_name ` set fs" by (metis keys_def list.set_map names)
    ultimately show "case parent_name (fd_name f) of None \<Rightarrow> True | Some p \<Rightarrow> p \<in> fd_name ` set fs"
      using closed n by (cases "parent_name k") simp_all
    have "children_of k (map fst M') = [] \<longleftrightarrow> direct M' k = {}"
      by (metis set_children_of set_empty)
    then show "case native_children (fd_kind f) of None \<Rightarrow> True
        | Some cs \<Rightarrow> set cs = set (children_of (fd_name f) (map fst M'))
            \<or> children_of (fd_name f) (map fst M') = [] \<and> set cs \<subseteq> {fd_name f}"
      using children [OF k] n by (cases "native_children (fd_kind f)") (simp_all add: set_children_of)
  qed
qed

section \<open>Declared defaults\<close>

text \<open>A comparison in which the two sides can be exchanged, as \<open>Ord\<close> requires.\<close>

locale total_cmp =
  fixes cmp :: "'a \<Rightarrow> 'a \<Rightarrow> ordering"
  assumes flip_less: "cmp a b = Less \<longleftrightarrow> cmp b a = Greater"
begin

lemma not_greater_flip: "cmp a b \<noteq> Greater \<longleftrightarrow> cmp b a = Equal \<or> cmp b a = Greater"
  by (metis flip_less ordering.exhaust ordering.distinct)

lemma ordered_bounds:
  assumes "assert_ordered (\<lambda>a b. cmp a b \<noteq> Greater) name (Some d) mn mx = Inr u"
  shows "assert_bound cmp n d mn Greater = Inr () \<and> assert_bound cmp n d mx Less = Inr ()"
  using assms not_greater_flip ordering.exhaust
  by (auto simp: assert_ordered_def assert_cmp_def assert_bound_def split: option.splits if_splits)

end

lemma i64_le_cmp: "(\<le>s) = (\<lambda>a b :: i64. i64_cmp a b \<noteq> Greater)"
  by (auto simp: fun_eq_iff i64_cmp_def word_sle_eq word_sless_alt intro: signed_word_eqI)

interpretation i64: total_cmp i64_cmp
  by unfold_locales (auto simp: i64_cmp_def word_sless_alt dest: signed_word_eqI)

text \<open>The provider would accept the default of a field as its value.\<close>

fun default_admitted :: "('n, 'f) numbers \<Rightarrow> 'f native_kind \<Rightarrow> bool" where
  "default_admitted N (KInteger (Some d) mn mx) =
     (assert_bound i64_cmp [] d mn Greater = Inr () \<and> assert_bound i64_cmp [] d mx Less = Inr ())"
| "default_admitted N (KNumber (Some d) mn mx) =
     (assert_bound (f64_cmp N) [] d mn Greater = Inr () \<and> assert_bound (f64_cmp N) [] d mx Less = Inr ())"
| "default_admitted N (KString (Some s) spec) =
     (case u32_of_len (length s) of None \<Rightarrow> True | Some n \<Rightarrow> string_spec_admits spec n)"
| "default_admitted N (KOneOfStrings (Some s) cs) = (assert_contains [] cs (Some s) = Inr ())"
| "default_admitted N kind = True"

lemma check_string_default_admits:
  assumes "check_string_default name (Some s) spec = Inr u"
  shows "case u32_of_len (length s) of None \<Rightarrow> True | Some n \<Rightarrow> string_spec_admits spec n"
  using assms
  by (cases spec) (auto simp: default_length_def assert_cmp_def or_fail_def split: option.splits if_splits)

lemma check_kind_admits:
  assumes N: "total_cmp (f64_cmp N)" and c: "check_kind N name kind = Inr kind'"
  shows "default_admitted N kind'"
proof (cases kind)
  case (KInteger d mn mx)
  with c have "assert_ordered (\<lambda>a b. i64_cmp a b \<noteq> Greater) name d mn mx = Inr () \<and> kind' = KInteger d mn mx"
    by (simp add: i64_le_cmp)
  then show ?thesis using i64.ordered_bounds by (cases d) auto
next
  case (KNumber d mn mx)
  with c have "assert_ordered (\<lambda>a b. f64_cmp N a b \<noteq> Greater) name d mn mx = Inr () \<and> kind' = KNumber d mn mx"
    by (simp add: f64_le_def [abs_def])
  then show ?thesis using total_cmp.ordered_bounds [OF N] by (cases d) auto
next
  case (KString d spec)
  with c have "check_string_default name d spec = Inr ()" and k: "kind' = KString d spec" by auto
  then show ?thesis using check_string_default_admits [of name _ spec "()"] by (cases d) auto
next
  case (KOneOfStrings d cs)
  with c show ?thesis by (cases d) (auto simp: assert_contains_def split: if_splits)
qed (use c in auto)

section \<open>What a validated model satisfies\<close>

text \<open>The maps the parser builds: valid names, and kinds that passed a check \<open>P\<close>.\<close>

definition parsed_ok :: "('f native_kind \<Rightarrow> bool) \<Rightarrow> 'f fields_map \<Rightarrow> bool" where
  "parsed_ok P M \<longleftrightarrow> fields_ok M \<and> (\<forall>(k, f) \<in> set M. P (fd_kind f))"

definition checks :: "('n, 'f) numbers \<Rightarrow> ('f native_kind \<Rightarrow> bool) \<Rightarrow> bool" where
  "checks N P \<longleftrightarrow> (\<forall>name kind kind'. check_kind N name kind = Inr kind' \<longrightarrow> P kind') \<and> (\<forall>cs. P (KObject cs OStatic))"

lemma parsed_ok_Nil [simp]: "parsed_ok P []"
  by (simp add: parsed_ok_def fields_ok_def)

lemma parse_field_Inr:
  assumes "parse_field N field M = Inr M'"
  obtains kind where "is_match re_name (fd_name field)" "check_kind N (fd_name field) (fd_kind field) = Inr kind"
    "bt_lookup M (fd_name field) = None" "M' = bt_insert (fd_name field) (field\<lparr>fd_kind := kind\<rparr>) M"
  using assms by (auto simp: parse_field_def assert_name_def insert_field_def split: if_splits)

lemma parse_field_ok:
  assumes "parse_field N field M = Inr M'" "parsed_ok P M" "checks N P"
  shows "parsed_ok P M'"
proof -
  obtain kind where name: "is_match re_name (fd_name field)" and
    kind: "check_kind N (fd_name field) (fd_kind field) = Inr kind" and
    M': "M' = bt_insert (fd_name field) (field\<lparr>fd_kind := kind\<rparr>) M"
    using assms(1) by (rule parse_field_Inr)
  have wf: "bt_wf M" using assms(2) by (simp add: parsed_ok_def fields_ok_def)
  have "P kind" using assms(3) kind by (auto simp: checks_def)
  with name assms(2) show ?thesis
    unfolding M' parsed_ok_def fields_ok_def set_bt_insert [OF wf] by auto
qed

lemma merge_field_ok:
  "merge_field N parent field M = Inr M' \<Longrightarrow> parsed_ok P M \<Longrightarrow> checks N P \<Longrightarrow> parsed_ok P M'"
  by (auto simp: merge_field_def dest: parse_field_ok)

lemma validate_step_ok:
  assumes "validate_step N load field M = Inr M'" "parsed_ok P M" "checks N P"
  shows "parsed_ok P M'"
proof (cases "fd_kind field")
  case (Native k)
  with assms show ?thesis by (auto simp: validate_step_def intro: parse_field_ok)
next
  case (Extended e)
  then obtain name where "fd_kind field = Extended (KModel name)" by (cases e) auto
  with assms(1) obtain fs where fs: "fold_result (merge_field N (fd_name field)) fs M = Inr M'"
    by (auto simp: validate_step_def merge_fields_def)
  show ?thesis
    by (rule fold_result_invariant [OF fs, of "parsed_ok P"]) (use assms merge_field_ok in blast)+
qed

lemma finalize_parsed_ok:
  assumes fin: "finalize_fields M = Inr fs" and ok: "parsed_ok P M" and "checks N P"
  shows "field_tree fs \<and> (\<forall>f \<in> set fs. P (fd_kind f)) \<and> snd ` set M \<subseteq> set fs"
proof -
  have fok: "fields_ok M" using ok by (simp add: parsed_ok_def)
  obtain M' G where fs: "fs = map snd M'" and g: "matures (M, []) (M', G)"
    by (rule finalize_fields_result [OF fin fok])
  have "P (fd_kind f)" if f: "f \<in> set fs" for f
  proof -
    from f fs obtain k where "(k, f) \<in> set M'" by auto
    from finalized_fields_ok(2) [OF g fok this] show ?thesis
      using ok assms(3) by (auto simp: parsed_ok_def generated_def checks_def)
  qed
  moreover have "snd ` set M \<subseteq> set fs"
    using finalized_fields_ok(3) [OF g fok] fs by force
  ultimately show ?thesis using finalize_fields_tree [OF fin fok] by blast
qed

lemma validate_native_fields_ok:
  assumes "validate_native_fields N spec = Inr fs" "checks N P"
  shows "field_tree fs \<and> (\<forall>f \<in> set fs. P (fd_kind f))"
proof -
  from assms(1) obtain M where M: "fold_result (parse_field N) spec [] = Inr M" and fin: "finalize_fields M = Inr fs"
    by (auto simp: validate_native_fields_def)
  have "parsed_ok P M"
    by (rule fold_result_invariant [OF M, of "parsed_ok P"]) (use assms(2) parse_field_ok in auto)
  from finalize_parsed_ok [OF fin this assms(2)] show ?thesis by blast
qed

lemma validate_fields_ok:
  assumes "validate_fields N load spec = Inr fs" "checks N P"
  shows "field_tree fs \<and> (\<forall>f \<in> set fs. P (fd_kind f))"
proof -
  from assms(1) obtain M where M: "fold_result (validate_step N load) spec [] = Inr M" and fin: "finalize_fields M = Inr fs"
    by (auto simp: validate_fields_def)
  have "parsed_ok P M"
    by (rule fold_result_invariant [OF M, of "parsed_ok P"]) (use assms(2) validate_step_ok in auto)
  from finalize_parsed_ok [OF fin this assms(2)] show ?thesis by blast
qed

lemma validate_model_ok:
  assumes "validate_model N snake load load_def spec = Inr fs" "checks N P" "P (KObject [] ODynamic)"
  shows "field_tree fs \<and> (\<forall>f \<in> set fs. P (fd_kind f))"
proof (cases spec)
  case MDynamic
  have "is_match re_name ''/''" "parent_name ''/'' = None"
    by (simp_all add: re_name_def seq_def alt_def parent_name_def)
  moreover have "fs = [\<lparr>fd_name = ''/'', fd_kind = KObject [] ODynamic, fd_optional = True\<rparr>]"
    using MDynamic assms(1) by (simp add: validate_model_def)
  ultimately show ?thesis using assms(3) by (simp add: field_tree_def children_of_def)
next
  case (MFields spec')
  with assms show ?thesis by (simp add: validate_model_def validate_fields_ok)
next
  case (MCustomResourceDefinitionRef name)
  with assms show ?thesis
    by (auto simp: validate_model_def validate_custom_resource_definition_ref_def dest: validate_native_fields_ok)
qed

definition sample_fields :: "int any_field list" where
  "sample_fields =
     [\<lparr>fd_name = ''/a/b/'', fd_kind = Native (KNumber (Some 5) (Some 0) (Some 10)), fd_optional = False\<rparr>,
      \<lparr>fd_name = ''/c/'', fd_kind = Native (KOneOfStrings (Some ''x'') [''x'', ''y'']), fd_optional = True\<rparr>]"

definition sample_tree :: "int native_field list" where
  "sample_tree =
     [\<lparr>fd_name = ''/'', fd_kind = KObject [''/a/'', ''/c/''] OStatic, fd_optional = False\<rparr>,
      \<lparr>fd_name = ''/a/'', fd_kind = KObject [''/a/b/''] OStatic, fd_optional = False\<rparr>,
      \<lparr>fd_name = ''/a/b/'', fd_kind = KNumber (Some 5) (Some 0) (Some 10), fd_optional = False\<rparr>,
      \<lparr>fd_name = ''/c/'', fd_kind = KOneOfStrings (Some ''x'') [''x'', ''y''], fd_optional = True\<rparr>]"

lemma sample_validates:
  "validate_model int_numbers id (\<lambda>_. Inl NoFields) (\<lambda>_. Inl NoFields) (MFields sample_fields) = Inr sample_tree"
  by code_simp

text \<open>C22: The fields of a validated model form a tree, whatever the model was declared as (a dynamic
  object, a list of fields that may refer to other models, or a custom resource): the names are sorted,
  distinct and match the regular expression, the parent of every field is a field, and the children an
  aggregate names are exactly the fields right below it. The one gap is that an aggregate without fields
  below it may name itself. Source: \<open>ModelValidator::validate_model\<close>, \<open>ModelFieldsParser::finalize\<close> in
  \<open>dash/operator/src/validator/model.rs\<close>.\<close>

theorem validated_model_is_a_tree:
  assumes "validate_model N snake load load_def spec = Inr fs"
  shows "field_tree fs"
  using validate_model_ok [OF assms, of "\<lambda>_. True"] by (simp add: checks_def)

theorem validated_model_is_a_tree_witness: "field_tree sample_tree"
  by (rule validated_model_is_a_tree [OF sample_validates])

text \<open>C23: A default that a validated model declares is a value the provider accepts for that field: an
  integer or a number lies within the bounds of the field, a string has an admitted length, a choice is
  among the choices. The hypothesis is the law of \<open>Ord\<close> for the order of numbers. Source: \<open>parse_field\<close> in
  \<open>dash/operator/src/validator/model.rs\<close> against the assertions of \<open>dash/provider/src/input.rs\<close> and
  \<open>lib.rs\<close>.\<close>

theorem validated_defaults_are_admitted:
  assumes "total_cmp (f64_cmp N)" and "validate_model N snake load load_def spec = Inr fs"
  shows "list_all (\<lambda>f. default_admitted N (fd_kind f)) fs"
  using validate_model_ok [OF assms(2), of "default_admitted N"] check_kind_admits [OF assms(1)]
  by (auto simp: checks_def list_all_iff)

theorem validated_defaults_are_admitted_witness:
  "list_all (\<lambda>f. default_admitted int_numbers (fd_kind f)) sample_tree"
  by (rule validated_defaults_are_admitted [OF _ sample_validates])
    (unfold_locales, simp add: int_cmp_def)

text \<open>Two models the checks let pass: a leaf with a field below it, and a root that is its own child.\<close>

lemma leaf_parent_validates:
  "validate_model int_numbers id (\<lambda>_. Inl NoFields) (\<lambda>_. Inl NoFields)
     (MFields [\<lparr>fd_name = ''/a/'', fd_kind = Native KIp, fd_optional = False\<rparr>,
               \<lparr>fd_name = ''/a/b/'', fd_kind = Native KIp, fd_optional = False\<rparr>])
   = Inr [\<lparr>fd_name = ''/'', fd_kind = KObject [''/a/''] OStatic, fd_optional = False\<rparr>,
          \<lparr>fd_name = ''/a/'', fd_kind = KIp, fd_optional = False\<rparr>,
          \<lparr>fd_name = ''/a/b/'', fd_kind = KIp, fd_optional = False\<rparr>]"
  by code_simp

definition self_root :: "'f native_field list" where
  "self_root = [\<lparr>fd_name = ''/'', fd_kind = KObject [''/''] OStatic, fd_optional = False\<rparr>]"

lemma self_root_validates: "validate_native_fields int_numbers self_root = Inr self_root"
  by code_simp

end
