(* ===== verification/Dash_Input.thy ===== *)
theory Dash_Input imports Dash_Fields begin

text \<open>
  The input templates of \<open>crates/dash/provider/src/input.rs\<close>: a JSON value that is built field by field
  under the control of a validated model. \<open>InputTemplate\<close> takes the inputs of a task, whose objects may
  be references into a storage; \<open>ItemTemplate\<close> takes an object of the cluster. A field is found by
  walking its name from the root, which creates what is missing on the way.

  The reference \<open>&mut Value\<close> that \<open>get_field\<close> returns is modelled by the value it points to and the
  function that puts a new one in its place. An error drops the template: the callers of the code own
  it and stop at the first error. A recursion of the code has the depth of its stack as an argument and
  fails with \<open>StackOverflow\<close> when it is used up.
\<close>

section \<open>Formats\<close>

text \<open>What the code takes from the crates \<open>chrono\<close>, \<open>uuid\<close> and \<open>Inflector\<close>, the address parser and the clock.\<close>

record formats =
  fm_datetime :: "string \<Rightarrow> bool"
  fm_ip :: "string \<Rightarrow> bool"
  fm_uuid :: "string \<Rightarrow> bool"
  fm_snake :: "string \<Rightarrow> string"
  fm_now :: string

definition assert_type :: "(string \<Rightarrow> bool) \<Rightarrow> string \<Rightarrow> dash_error + unit" where
  "assert_type parses s = (if parses s then Inr () else Inl (ParseError s))"

section \<open>Walking a name\<close>

datatype cursor_entry = EnterArray string nat | EnterObject string string

fun cursor :: "string \<Rightarrow> string list \<Rightarrow> cursor_entry list" where
  "cursor basename [] = []"
| "cursor basename (child # rest) =
     (case parse_usize child of
        Some index \<Rightarrow> EnterArray basename index # cursor basename rest
      | None \<Rightarrow>
          let basename' = (if child = [] then basename else basename @ child @ ''/'') in
          EnterObject basename' child # cursor basename' rest)"

definition cursor_of_name :: "string \<Rightarrow> cursor_entry list" where
  "cursor_of_name name = cursor ''/'' (split_on CHR ''/'' name)"

text \<open>A found field, with its value and the way to replace it, or the map after a failed search.\<close>

datatype ('b, 'n) located =
    Found 'b "'n json" "'n json \<Rightarrow> 'n json"
  | Missing "'n json"

definition resize_json :: "nat \<Rightarrow> 'n json list \<Rightarrow> 'n json list" where
  "resize_json n vs = take n vs @ replicate (n - length vs) JNull"

fun wrap :: "('n json \<Rightarrow> 'n json) \<Rightarrow> ('b, 'n) located \<Rightarrow> ('b, 'n) located" where
  "wrap g (Found b x put) = Found b x (\<lambda>y. g (put y))"
| "wrap g (Missing v) = Missing (g v)"

text \<open>Indexing an array out of its bounds panics. A null value becomes an array of \<open>index\<close> nulls.\<close>

definition index_array ::
  "('n json \<Rightarrow> dash_error + ('b, 'n) located) \<Rightarrow> nat \<Rightarrow> 'n json list \<Rightarrow> dash_error + ('b, 'n) located" where
  "index_array rest index vs =
     (if index < length vs then rbind (rest (vs ! index)) (\<lambda>l. Inr (wrap (\<lambda>y. JArray (vs[index := y])) l))
      else Inl IndexPanic)"

definition enter_array ::
  "string \<Rightarrow> ('n json \<Rightarrow> dash_error + ('b, 'n) located) \<Rightarrow> nat \<Rightarrow> 'n json \<Rightarrow> dash_error + ('b, 'n) located" where
  "enter_array name rest index v =
     (case v of
        JNull \<Rightarrow> index_array rest index (replicate index JNull)
      | JArray vs \<Rightarrow>
          index_array rest index
            (if length vs \<le> index then resize_json ((index + 1) mod 2 ^ 64) vs else vs)
      | _ \<Rightarrow> Inl (BadAccess name))"

definition enter_object ::
  "string \<Rightarrow> ('n json \<Rightarrow> dash_error + ('b, 'n) located) \<Rightarrow> string \<Rightarrow> 'n json \<Rightarrow> dash_error + ('b, 'n) located" where
  "enter_object name rest child v =
     (case v of
        JNull \<Rightarrow> rbind (rest JNull) (\<lambda>l. Inr (wrap (\<lambda>y. JObject [(child, y)]) l))
      | JObject m \<Rightarrow>
          rbind (rest (case bt_lookup m child of Some x \<Rightarrow> x | None \<Rightarrow> JNull))
            (\<lambda>l. Inr (wrap (\<lambda>y. JObject (bt_insert child y m)) l))
      | _ \<Rightarrow> Inl (BadAccess name))"

text \<open>
  The loop of \<open>get_field\<close> and \<open>try_get_field\<close>. An array entry without a field is an error in both; an
  object entry without a field is an error when \<open>strict\<close> (\<open>InputTemplate\<close>) and ends the search with
  \<open>Ok(None)\<close> otherwise (\<open>ItemTemplate\<close>). \<open>B\<close> is the lookup in \<open>basemap\<close>.
\<close>

fun walk ::
  "bool \<Rightarrow> (string \<Rightarrow> 'b option) \<Rightarrow> string \<Rightarrow> 'b \<Rightarrow> cursor_entry list \<Rightarrow> 'n json \<Rightarrow> dash_error + ('b, 'n) located" where
  "walk strict B name bf [] v = Inr (Found bf v (\<lambda>y. y))"
| "walk strict B name bf (EnterArray basename index # es) v =
     (case B basename of
        None \<Rightarrow> Inl (NoSuchField name)
      | Some bf' \<Rightarrow> enter_array name (walk strict B name bf' es) index v)"
| "walk strict B name bf (EnterObject basename child # es) v =
     (if child = [] then walk strict B name bf es v
      else case B basename of
          None \<Rightarrow> if strict then Inl (NoSuchField name) else Inr (Missing v)
        | Some bf' \<Rightarrow> enter_object name (walk strict B name bf' es) child v)"

definition walk_name ::
  "bool \<Rightarrow> (string \<Rightarrow> 'b option) \<Rightarrow> string \<Rightarrow> 'n json \<Rightarrow> dash_error + ('b, 'n) located" where
  "walk_name strict B name v =
     (case B ''/'' of
        None \<Rightarrow> Inl NoRootField
      | Some bf \<Rightarrow> walk strict B name bf (cursor_of_name name) v)"

section \<open>Templates\<close>

record 'f input_field_spec =
  fs_original :: "'f any_field option"
  fs_parsed :: "'f native_field"

record ('n, 'f) input_template =
  it_basemap :: "(string \<times> 'f input_field_spec) list"
  it_map :: "'n json"

definition input_new_empty :: "'f any_field list \<Rightarrow> 'f native_field list \<Rightarrow> ('n, 'f) input_template" where
  "input_new_empty original parsed =
     \<lparr>it_basemap = bt_of_list (map (\<lambda>p.
          (fd_name p, \<lparr>fs_original = find (\<lambda>q. fd_name q = fd_name p) original, fs_parsed = p\<rparr>)) parsed),
      it_map = JNull\<rparr>"

definition input_get_field ::
  "(string \<times> 'f input_field_spec) list \<Rightarrow> string \<Rightarrow> 'n json
    \<Rightarrow> dash_error + 'f input_field_spec \<times> 'n json \<times> ('n json \<Rightarrow> 'n json)" where
  "input_get_field B name v =
     rbind (walk_name True (bt_lookup B) name v) (\<lambda>l.
       case l of Found f x put \<Rightarrow> Inr (f, x, put) | Missing _ \<Rightarrow> Inl (NoSuchField name))"

record ('n, 'f) item_template =
  im_basemap :: "(string \<times> 'f native_field) list"
  im_map :: "'n json"

definition item_new_empty :: "'f native_field list \<Rightarrow> ('n, 'f) item_template" where
  "item_new_empty parsed = \<lparr>im_basemap = bt_of_list (map (\<lambda>p. (fd_name p, p)) parsed), im_map = JNull\<rparr>"

definition item_try_get_field ::
  "(string \<times> 'f native_field) list \<Rightarrow> string \<Rightarrow> 'n json \<Rightarrow> dash_error + ('f native_field, 'n) located" where
  "item_try_get_field B name v = walk_name False (bt_lookup B) name v"

definition item_get_field ::
  "(string \<times> 'f native_field) list \<Rightarrow> string \<Rightarrow> 'n json
    \<Rightarrow> dash_error + 'f native_field \<times> 'n json \<times> ('n json \<Rightarrow> 'n json)" where
  "item_get_field B name v =
     rbind (item_try_get_field B name v) (\<lambda>l.
       case l of Found f x put \<Rightarrow> Inr (f, x, put) | Missing _ \<Rightarrow> Inl (NoSuchField name))"

section \<open>Scalar fields\<close>

fun is_null :: "'n json \<Rightarrow> bool" where
  "is_null JNull = True"
| "is_null v = False"

text \<open>\<open>assert_optional\<close>: a default value is tolerated and nothing is written.\<close>

definition assert_optional :: "string \<Rightarrow> bool \<Rightarrow> bool \<Rightarrow> dash_error + 'a option" where
  "assert_optional name is_default opt =
     (if opt \<and> is_default then Inr None else Inl (TypeMismatch name))"

definition assign :: "'a \<Rightarrow> dash_error + 'a option" where
  "assign x = Inr (Some x)"

definition assert_range :: "('a \<Rightarrow> 'a \<Rightarrow> ordering) \<Rightarrow> string \<Rightarrow> 'a \<Rightarrow> 'a option \<Rightarrow> 'a option \<Rightarrow> dash_error + unit" where
  "assert_range cmp name x mn mx =
     rbind (assert_bound cmp name x mn Greater) (\<lambda>_. assert_bound cmp name x mx Less)"

definition or_else :: "'a option \<Rightarrow> 'a option \<Rightarrow> 'a option" where
  "or_else a b = (case a of Some x \<Rightarrow> Some x | None \<Rightarrow> b)"

fun only_strings :: "'n json list \<Rightarrow> 'n json list" where
  "only_strings [] = []"
| "only_strings (JString s # vs) = JString s # only_strings vs"
| "only_strings (v # vs) = only_strings vs"

text \<open>The value a string check lets through, for the four kinds that only look at a string.\<close>

fun check_string :: "formats \<Rightarrow> string \<Rightarrow> 'f native_kind \<Rightarrow> string \<Rightarrow> dash_error + unit" where
  "check_string F name (KString d spec) s = assert_string name s spec"
| "check_string F name (KOneOfStrings d cs) s = assert_contains name cs (Some s)"
| "check_string F name (KDateTime d) s = assert_type (fm_datetime F) s"
| "check_string F name KIp s = assert_type (fm_ip F) s"
| "check_string F name KUuid s = assert_type (fm_uuid F) s"
| "check_string F name kind s = Inl (TypeMismatch name)"

section \<open>ItemTemplate\<close>

text \<open>The scalar arms of \<open>update_field_value_impl\<close>: the value to assign, if any.\<close>

definition string_value :: "formats \<Rightarrow> string \<Rightarrow> 'f native_kind \<Rightarrow> 'n json \<Rightarrow> bool \<Rightarrow> dash_error + 'n json option" where
  "string_value F name kind value opt =
     (case as_str value of
        Some s \<Rightarrow> rbind (check_string F name kind s) (\<lambda>_. assign value)
      | None \<Rightarrow> assert_optional name (is_null value) opt)"

fun item_scalar ::
  "('n, 'f) numbers \<Rightarrow> formats \<Rightarrow> string \<Rightarrow> 'f native_kind \<Rightarrow> 'n json \<Rightarrow> bool \<Rightarrow> dash_error + 'n json option" where
  "item_scalar N F name KNone value opt = assign JNull"
| "item_scalar N F name (KBoolean d) value opt =
     (if as_bool value \<noteq> None then assign value else assert_optional name (is_null value) opt)"
| "item_scalar N F name (KInteger d mn mx) value opt =
     (case as_i64 N value of
        Some n \<Rightarrow> rbind (assert_range i64_cmp name n mn mx) (\<lambda>_. assign value)
      | None \<Rightarrow> assert_optional name (is_null value) opt)"
| "item_scalar N F name (KNumber d mn mx) value opt =
     (case as_f64 N value of
        Some n \<Rightarrow> rbind (assert_range (f64_cmp N) name n mn mx) (\<lambda>_. assign value)
      | None \<Rightarrow> assert_optional name (is_null value) opt)"
| "item_scalar N F name KStringArray value opt =
     (case value of
        JArray vs \<Rightarrow> assign (JArray (only_strings vs))
      | _ \<Rightarrow> assert_optional name (is_null value) opt)"
| "item_scalar N F name kind value opt = string_value F name kind value opt"

definition put_assigned :: "('n json \<Rightarrow> 'n json) \<Rightarrow> 'n json \<Rightarrow> 'n json option \<Rightarrow> 'n json" where
  "put_assigned put field x = put (case x of Some y \<Rightarrow> y | None \<Rightarrow> field)"

definition sub_array :: "string \<Rightarrow> nat \<Rightarrow> string" where
  "sub_array parent index = parent @ show_nat index @ ''/''"

definition sub_object :: "(string \<Rightarrow> string) \<Rightarrow> string \<Rightarrow> string \<Rightarrow> string" where
  "sub_object snake parent child = parent @ snake child @ ''/''"

lemma size_in_members: "(c, x) \<in> set m \<Longrightarrow> size x < Suc (size_list (size_prod (\<lambda>_. 0) size) m)"
  by (induction m) auto

lemma size_nth_list: "i < length xs \<Longrightarrow> size (xs ! i) < Suc (size_list size xs)"
  using size_list_estimation' [of "xs ! i" xs "size (xs ! i)" size] by simp

text \<open>\<open>v\<close> is \<open>self.map\<close>; the recursion is over the value that is written.\<close>

function item_update ::
  "('n, 'f) numbers \<Rightarrow> formats \<Rightarrow> (string \<times> 'f native_field) list \<Rightarrow> string \<Rightarrow> 'n json \<Rightarrow> bool \<Rightarrow> 'n json \<Rightarrow> dash_error + 'n json"
where
  "item_update N F B name value opt v =
     rbind (item_try_get_field B name v) (\<lambda>l. case l of
         Missing v' \<Rightarrow> Inr v'
       | Found f field put \<Rightarrow>
          (let opt' = opt \<or> fd_optional f in
           case fd_kind f of
             KObject _ kind \<Rightarrow>
               (case value of
                  JObject m \<Rightarrow>
                    (case kind of
                       ODynamic \<Rightarrow> Inr (put (JObject m))
                     | _ \<Rightarrow> fold_result (\<lambda>(child, x). item_update N F B (sub_object (fm_snake F) name child) x opt')
                              m (put field))
                | _ \<Rightarrow> rbind (assert_optional name (is_null value) opt') (\<lambda>x. Inr (put_assigned put field x)))
           | KObjectArray _ \<Rightarrow>
               (case value of
                  JArray vs \<Rightarrow>
                    fold_result (\<lambda>(index, x). item_update N F B (sub_array name index) x opt')
                      (enumerate 0 vs) (put field)
                | _ \<Rightarrow> rbind (assert_optional name (is_null value) opt') (\<lambda>x. Inr (put_assigned put field x)))
           | kind \<Rightarrow> rbind (item_scalar N F name kind value opt') (\<lambda>x. Inr (put_assigned put field x))))"
  by pat_completeness auto

termination
  by (relation "measure (\<lambda>(N, F, B, name, value, opt, v). size value)")
    (auto simp: in_set_enumerate_eq size_in_members dest: size_nth_list)

declare item_update.simps [simp del]

section \<open>Default values\<close>

text \<open>
  \<open>fill_default_value\<close> is the same code in both templates; \<open>get\<close> is their \<open>get_field\<close>. A null value
  takes the default of its field. \<open>depth\<close> bounds the depth of the recursion.
\<close>

definition fill_with :: "string \<Rightarrow> bool \<Rightarrow> 'n json \<Rightarrow> (dash_error + 'n json) option \<Rightarrow> dash_error + 'n json option" where
  "fill_with name opt field dflt =
     (if is_null field then
        (case dflt of
           Some d \<Rightarrow> rbind d assign
         | None \<Rightarrow> if opt then Inr None else Inl (MissingValue name))
      else Inr None)"

fun fill_scalar ::
  "('n, 'f) numbers \<Rightarrow> formats \<Rightarrow> string \<Rightarrow> 'f native_kind \<Rightarrow> 'n json \<Rightarrow> bool \<Rightarrow> dash_error + 'n json option" where
  "fill_scalar N F name KNone field opt = assign JNull"
| "fill_scalar N F name (KBoolean d) field opt = fill_with name opt field (map_option (\<lambda>b. Inr (JBool b)) d)"
| "fill_scalar N F name (KInteger d mn mx) field opt =
     fill_with name opt field (map_option (\<lambda>n. Inr (JNumber (num_of_i64 N n))) d)"
| "fill_scalar N F name (KNumber d mn mx) field opt =
     fill_with name opt field
       (map_option (\<lambda>x. rbind (or_fail (ParseError name) (num_parse N (f64_show N x))) (\<lambda>n. Inr (JNumber n))) d)"
| "fill_scalar N F name (KString d spec) field opt = fill_with name opt field (map_option (\<lambda>s. Inr (JString s)) d)"
| "fill_scalar N F name (KOneOfStrings d cs) field opt = fill_with name opt field (map_option (\<lambda>s. Inr (JString s)) d)"
| "fill_scalar N F name (KDateTime d) field opt =
     fill_with name opt field (map_option (\<lambda>_. Inr (JString (fm_now F))) d)"
| "fill_scalar N F name KStringArray field opt = (if is_null field then assign (JArray []) else Inr None)"
| "fill_scalar N F name kind field opt = fill_with name opt field None"

type_synonym ('n, 'f) getter =
  "string \<Rightarrow> 'n json \<Rightarrow> dash_error + 'f native_field \<times> 'n json \<times> ('n json \<Rightarrow> 'n json)"

fun fill_default ::
  "('n, 'f) numbers \<Rightarrow> formats \<Rightarrow> ('n, 'f) getter \<Rightarrow> nat \<Rightarrow> string \<Rightarrow> bool \<Rightarrow> bool \<Rightarrow> 'n json \<Rightarrow> dash_error + 'n json"
where
  "fill_default N F get 0 name opt atom v = Inl StackOverflow"
| "fill_default N F get (Suc depth) name opt atom v =
     rbind (get name v) (\<lambda>(f, field, put).
       let opt' = opt \<or> fd_optional f;
           fill_children = (\<lambda>children.
             fold_result (\<lambda>child. fill_default N F get depth (name @ child @ ''/'') opt' True)
               (get_children_names children)
               (put (if is_null field then JObject [] else field)))
       in case fd_kind f of
            KObject children _ \<Rightarrow> fill_children children
          | KObjectArray children \<Rightarrow>
              if atom then
                let field' = (if is_null field then JArray [] else field) in
                (case field' of
                   JArray vs \<Rightarrow>
                     fold_result (\<lambda>index. fill_default N F get depth (sub_array name index) opt' False)
                       [0 ..< length vs] (put field')
                 | _ \<Rightarrow> Inr (put field'))
              else fill_children children
          | kind \<Rightarrow> rbind (fill_scalar N F name kind field opt') (\<lambda>x. Inr (put_assigned put field x)))"

declare fill_default.simps [simp del]

definition item_finalize :: "('n, 'f) numbers \<Rightarrow> formats \<Rightarrow> nat \<Rightarrow> ('n, 'f) item_template \<Rightarrow> dash_error + 'n json" where
  "item_finalize N F depth T = fill_default N F (item_get_field (im_basemap T)) depth ''/'' False True (im_map T)"

definition item_update_field_value ::
  "('n, 'f) numbers \<Rightarrow> formats \<Rightarrow> string \<Rightarrow> 'n json \<Rightarrow> ('n, 'f) item_template \<Rightarrow> dash_error + ('n, 'f) item_template" where
  "item_update_field_value N F name value T =
     rbind (item_update N F (im_basemap T) name value False (im_map T)) (\<lambda>v. Inr (T\<lparr>im_map := v\<rparr>))"

text \<open>\<open>convert_model_item\<close> of \<open>storage/kubernetes.rs\<close>; \<open>item\<close> is the object as a JSON value.\<close>

definition convert_model_item ::
  "('n, 'f) numbers \<Rightarrow> formats \<Rightarrow> nat \<Rightarrow> 'n json \<Rightarrow> 'f native_field list \<Rightarrow> dash_error + 'n json" where
  "convert_model_item N F depth item parsed =
     rbind (item_update_field_value N F ''/'' item (item_new_empty parsed)) (item_finalize N F depth)"

section \<open>InputTemplate\<close>

text \<open>\<open>StorageClient::get_by_field\<close> over \<open>get\<close>, the lookup of an item of a model by its name.\<close>

definition get_by_field ::
  "(string \<Rightarrow> string \<Rightarrow> dash_error + 'n json) \<Rightarrow> 'f any_field option \<Rightarrow> string \<Rightarrow> dash_error + 'n json" where
  "get_by_field storage spec ref =
     (case map_option fd_kind spec of
        None \<Rightarrow> Inl NativeReference
      | Some (Native _) \<Rightarrow> Inl NativeReference
      | Some (Extended (KModel model)) \<Rightarrow> storage model ref)"

text \<open>The scalar arms for a JSON value: other than an item, an input may give a string to be parsed.\<close>

fun input_scalar ::
  "('n, 'f) numbers \<Rightarrow> formats \<Rightarrow> string \<Rightarrow> 'f native_kind \<Rightarrow> 'n json \<Rightarrow> bool \<Rightarrow> dash_error + 'n json option" where
  "input_scalar N F name KNone value opt = assign JNull"
| "input_scalar N F name (KBoolean d) value opt =
     (case value of
        JBool b \<Rightarrow> assign (JBool b)
      | JString s \<Rightarrow> rbind (or_fail (ParseError s) (parse_bool s)) (\<lambda>b. assign (JBool b))
      | _ \<Rightarrow> assert_optional name (is_null value) opt)"
| "input_scalar N F name (KInteger d mn mx) value opt =
     (case or_else (as_i64 N value) (opt_bind (as_str value) parse_i64) of
        Some n \<Rightarrow> rbind (assert_range i64_cmp name n mn mx) (\<lambda>_. assign (JNumber (num_of_i64 N n)))
      | None \<Rightarrow> assert_optional name (is_null value) opt)"
| "input_scalar N F name (KNumber d mn mx) value opt =
     (case opt_bind (or_else (as_f64 N value) (opt_bind (as_str value) (f64_parse N)))
             (\<lambda>x. map_option (Pair x) (num_of_f64 N x)) of
        Some (x, n) \<Rightarrow> rbind (assert_range (f64_cmp N) name x mn mx) (\<lambda>_. assign (JNumber n))
      | None \<Rightarrow> assert_optional name (is_null value) opt)"
| "input_scalar N F name KStringArray value opt =
     (case value of
        JString s \<Rightarrow> assign (JArray (map JString (split_on CHR '','' s)))
      | JArray vs \<Rightarrow> assign (JArray (only_strings vs))
      | _ \<Rightarrow> assert_optional name (is_null value) opt)"
| "input_scalar N F name kind value opt = string_value F name kind value opt"

fun input_update ::
  "('n, 'f) numbers \<Rightarrow> formats \<Rightarrow> (string \<Rightarrow> string \<Rightarrow> dash_error + 'n json) \<Rightarrow> (string \<times> 'f input_field_spec) list
    \<Rightarrow> nat \<Rightarrow> string \<Rightarrow> 'n json \<Rightarrow> bool \<Rightarrow> 'n json \<Rightarrow> dash_error + 'n json"
where
  "input_update N F storage B 0 name value opt v = Inl StackOverflow"
| "input_update N F storage B (Suc depth) name value opt v =
     rbind (input_get_field B name v) (\<lambda>(spec, field, put).
       let f = fs_parsed spec; opt' = opt \<or> fd_optional f in
       case fd_kind f of
         KObject _ kind \<Rightarrow>
           (case value of
              JString ref \<Rightarrow>
                rbind (get_by_field storage (fs_original spec) ref) (\<lambda>value'.
                  input_update N F storage B depth name value' opt' (put field))
            | JObject m \<Rightarrow>
                (case kind of
                   ODynamic \<Rightarrow> Inr (put (JObject m))
                 | _ \<Rightarrow> fold_result (\<lambda>(child, x).
                            input_update N F storage B depth (sub_object (fm_snake F) name child) x opt')
                          m (put field))
            | _ \<Rightarrow> rbind (assert_optional name (is_null value) opt') (\<lambda>x. Inr (put_assigned put field x)))
       | KObjectArray _ \<Rightarrow>
           (case value of
              JArray vs \<Rightarrow>
                fold_result (\<lambda>(index, x). input_update N F storage B depth (sub_array name index) x opt')
                  (enumerate 0 vs) (put field)
            | _ \<Rightarrow> rbind (assert_optional name (is_null value) opt') (\<lambda>x. Inr (put_assigned put field x)))
       | kind \<Rightarrow> rbind (input_scalar N F name kind value opt') (\<lambda>x. Inr (put_assigned put field x)))"

declare input_update.simps [simp del]

text \<open>The scalar arms for an input that is given as a string.\<close>

fun input_scalar_string ::
  "('n, 'f) numbers \<Rightarrow> formats \<Rightarrow> string \<Rightarrow> 'f native_kind \<Rightarrow> string \<Rightarrow> dash_error + 'n json" where
  "input_scalar_string N F name KNone s = Inr JNull"
| "input_scalar_string N F name (KBoolean d) s =
     rbind (or_fail (ParseError s) (parse_bool s)) (\<lambda>b. Inr (JBool b))"
| "input_scalar_string N F name (KInteger d mn mx) s =
     rbind (or_fail (ParseError s) (parse_i64 s)) (\<lambda>n.
     rbind (assert_range i64_cmp name n mn mx) (\<lambda>_. Inr (JNumber (num_of_i64 N n))))"
| "input_scalar_string N F name (KNumber d mn mx) s =
     rbind (or_fail (ParseError s) (f64_parse N s)) (\<lambda>x.
     rbind (assert_range (f64_cmp N) name x mn mx) (\<lambda>_.
     rbind (or_fail (ParseError s) (num_parse N s)) (\<lambda>n. Inr (JNumber n))))"
| "input_scalar_string N F name kind s = rbind (check_string F name kind s) (\<lambda>_. Inr (JString s))"

definition input_update_string ::
  "('n, 'f) numbers \<Rightarrow> formats \<Rightarrow> (string \<Rightarrow> string \<Rightarrow> dash_error + 'n json) \<Rightarrow> (string \<times> 'f input_field_spec) list
    \<Rightarrow> nat \<Rightarrow> string \<Rightarrow> string \<Rightarrow> bool \<Rightarrow> 'n json \<Rightarrow> dash_error + 'n json"
where
  "input_update_string N F storage B depth name s opt v =
     rbind (input_get_field B name v) (\<lambda>(spec, field, put).
       let f = fs_parsed spec; opt' = opt \<or> fd_optional f in
       case fd_kind f of
         KStringArray \<Rightarrow> input_update N F storage B depth name (JString s) opt' (put field)
       | KObject _ _ \<Rightarrow>
           rbind (get_by_field storage (fs_original spec) s) (\<lambda>value.
             input_update N F storage B depth name value opt' (put field))
       | KObjectArray _ \<Rightarrow> rbind (assert_optional name (s = []) opt') (\<lambda>x. Inr (put_assigned put field x))
       | kind \<Rightarrow> rbind (input_scalar_string N F name kind s) (\<lambda>x. Inr (put x)))"

definition input_update_field_string ::
  "('n, 'f) numbers \<Rightarrow> formats \<Rightarrow> (string \<Rightarrow> string \<Rightarrow> dash_error + 'n json) \<Rightarrow> nat \<Rightarrow> string \<Rightarrow> string
    \<Rightarrow> ('n, 'f) input_template \<Rightarrow> dash_error + ('n, 'f) input_template" where
  "input_update_field_string N F storage depth name s T =
     rbind (input_update_string N F storage (it_basemap T) depth name s False (it_map T))
       (\<lambda>v. Inr (T\<lparr>it_map := v\<rparr>))"

definition input_update_field_value ::
  "('n, 'f) numbers \<Rightarrow> formats \<Rightarrow> (string \<Rightarrow> string \<Rightarrow> dash_error + 'n json) \<Rightarrow> nat \<Rightarrow> string \<Rightarrow> 'n json
    \<Rightarrow> ('n, 'f) input_template \<Rightarrow> dash_error + ('n, 'f) input_template" where
  "input_update_field_value N F storage depth name value T =
     rbind (input_update N F storage (it_basemap T) depth name value False (it_map T))
       (\<lambda>v. Inr (T\<lparr>it_map := v\<rparr>))"

definition input_fill_default ::
  "('n, 'f) numbers \<Rightarrow> formats \<Rightarrow> (string \<times> 'f input_field_spec) list \<Rightarrow> nat \<Rightarrow> string \<Rightarrow> bool \<Rightarrow> bool
    \<Rightarrow> 'n json \<Rightarrow> dash_error + 'n json" where
  "input_fill_default N F B =
     fill_default N F (\<lambda>name v. rbind (input_get_field B name v) (\<lambda>(spec, x, put). Inr (fs_parsed spec, x, put)))"

definition input_finalize :: "('n, 'f) numbers \<Rightarrow> formats \<Rightarrow> nat \<Rightarrow> ('n, 'f) input_template \<Rightarrow> dash_error + 'n json" where
  "input_finalize N F depth T = input_fill_default N F (it_basemap T) depth ''/'' False True (it_map T)"

text \<open>\<open>InputFieldString::from_str\<close>: the value is what follows the last slash, the last group of the
  expression.\<close>

definition input_field_from_str :: "string \<Rightarrow> dash_error + string \<times> string" where
  "input_field_from_str s =
     (if is_match re_set s then
        Inr (rev (dropWhile (\<lambda>c. c \<noteq> CHR ''/'') (rev s)), rev (takeWhile (\<lambda>c. c \<noteq> CHR ''/'') (rev s)))
      else Inl (InvalidInput s))"

text \<open>\<open>Name::from_str\<close>\<close>

definition name_from_str :: "string \<Rightarrow> dash_error + string" where
  "name_from_str s = (if is_match re_child s then Inr s else Inl (InvalidInput s))"

end
