(* ===== verification/Dash_Focus.thy ===== *)
theory Dash_Focus imports Dash_Input begin

text \<open>
  The laws of a walk through a template: what is put into a found field is found there again, and a
  walk along a longer name is a walk inside the field that the shorter name finds. With them the
  updates of \<open>Dash_Input\<close>, which name every field from the root, are shown equal to recursions over
  the value of one field.
\<close>

section \<open>Names and their components\<close>

definition join_name :: "string list \<Rightarrow> string" where
  "join_name cs = concat (map (\<lambda>c. c @ ''/'') cs)"

lemma join_name_root: "join_name [[]] = ''/''"
  by (simp add: join_name_def)

lemma join_name_snoc: "join_name (cs @ [c]) = join_name cs @ c @ ''/''"
  by (simp add: join_name_def)

lemma path_join_name: "path ks = join_name ([] # ks)"
  by (simp add: path_def join_name_def)

lemma split_on_no_slash: "no_slash s \<Longrightarrow> split_on CHR ''/'' s = [s]"
  by (induction s) (auto simp: no_slash_def)

lemma split_join_name: "\<forall>c \<in> set cs. no_slash c \<Longrightarrow> split_on CHR ''/'' (join_name cs) = cs @ [[]]"
proof (induction cs)
  case (Cons c cs)
  have "join_name (c # cs) = c @ CHR ''/'' # join_name cs" by (simp add: join_name_def)
  with Cons show ?case by (simp add: split_on_append split_on_no_slash)
qed (simp add: join_name_def)

lemma show_nat_no_slash [simp]: "no_slash (show_nat n)"
proof -
  have "CHR ''/'' \<notin> set (show_nat n)"
    using show_nat_digits [of n] by (auto simp: list_all_iff is_digit_def)
  then show ?thesis by (simp add: no_slash_def)
qed

text \<open>The key in \<open>basemap\<close> that a walk has reached after some components.\<close>

definition base_step :: "string \<Rightarrow> string \<Rightarrow> string" where
  "base_step bn c = (if c = [] \<or> parse_usize c \<noteq> None then bn else bn @ c @ ''/'')"

definition base :: "string list \<Rightarrow> string" where
  "base cs = foldl base_step ''/'' cs"

lemma base_simps [simp]: "base [] = ''/''" "base (cs @ [c]) = base_step (base cs) c"
  by (simp_all add: base_def)

lemma parse_usize_Nil [simp]: "parse_usize [] = None"
  by (simp add: parse_usize_def parse_unsigned_def)

lemma base_step_Nil [simp]: "base_step bn [] = bn"
  by (simp add: base_step_def)

lemma cursor_append: "cursor bn (cs @ ds) = cursor bn cs @ cursor (foldl base_step bn cs) ds"
  by (induction bn cs rule: cursor.induct) (auto simp: base_step_def Let_def split: option.split)

section \<open>Laws of a walk\<close>

definition bind_found ::
  "dash_error + ('b, 'n) located \<Rightarrow> ('b \<Rightarrow> 'n json \<Rightarrow> dash_error + ('b, 'n) located) \<Rightarrow> dash_error + ('b, 'n) located" where
  "bind_found r k =
     rbind r (\<lambda>l. case l of
         Missing v \<Rightarrow> Inr (Missing v)
       | Found b x put \<Rightarrow> rbind (k b x) (\<lambda>l'. Inr (wrap put l')))"

lemma wrap_wrap: "wrap g (wrap h l) = wrap (\<lambda>y. g (h y)) l"
  by (cases l) auto

lemma wrap_id [simp]: "wrap (\<lambda>y. y) l = l"
  by (cases l) auto

lemma bind_found_simps [simp]:
  "bind_found (Inl e) k = Inl e"
  "bind_found (Inr (Missing v)) k = Inr (Missing v)"
  "bind_found (Inr (Found b x put)) k = rbind (k b x) (\<lambda>l'. Inr (wrap put l'))"
  by (simp_all add: bind_found_def)

lemma bind_found_wrap:
  "bind_found (rbind r (\<lambda>l. Inr (wrap g l))) k = rbind (bind_found r k) (\<lambda>l. Inr (wrap g l))"
proof (cases r)
  case (Inr l)
  then show ?thesis by (cases l) (auto simp: rbind_assoc wrap_wrap)
qed simp

lemma enter_array_bind:
  "enter_array name (\<lambda>v. bind_found (rest v) k) i v = bind_found (enter_array name rest i v) k"
  by (auto simp: enter_array_def index_array_def bind_found_wrap split: json.split)

lemma enter_object_bind:
  "enter_object name (\<lambda>v. bind_found (rest v) k) c v = bind_found (enter_object name rest c v) k"
  by (auto simp: enter_object_def bind_found_wrap split: json.split)

lemma walk_append:
  fixes v :: "'n json"
  shows "walk strict B name bf (es @ fs) v = bind_found (walk strict B name bf es v) (\<lambda>b. walk strict B name b fs)"
proof (induction es arbitrary: bf v)
  case (Cons e es)
  have ih: "walk strict B name bf' (es @ fs)
      = (\<lambda>v :: 'n json. bind_found (walk strict B name bf' es v) (\<lambda>b. walk strict B name b fs))" for bf'
    by (rule ext) (rule Cons.IH)
  show ?case
  proof (cases e)
    case (EnterArray bn i)
    then show ?thesis by (cases "B bn") (simp_all add: ih enter_array_bind)
  next
    case (EnterObject bn c)
    then show ?thesis by (cases "B bn") (simp_all add: Cons.IH ih enter_object_bind)
  qed
qed (simp add: bind_found_def)

text \<open>The name only matters for the errors.\<close>

lemma index_array_same:
  "(\<And>v l. rest v = Inr l \<longleftrightarrow> rest' v = Inr l) \<Longrightarrow> index_array rest i vs = Inr l \<longleftrightarrow> index_array rest' i vs = Inr l"
  by (auto simp: index_array_def)

lemma walk_any_name: "walk strict B name bf es v = Inr l \<longleftrightarrow> walk strict B name' bf es v = Inr l"
proof (induction es arbitrary: bf v l)
  case (Cons e es)
  show ?case
  proof (cases e)
    case (EnterArray bn i)
    with Cons.IH show ?thesis
      by (auto simp: enter_array_def index_array_def split: option.split json.split)
  next
    case (EnterObject bn c)
    with Cons.IH show ?thesis
      by (auto simp: enter_object_def split: option.split json.split)
  qed
qed simp

text \<open>What is put into a found field is found again, with the same way to replace it.\<close>

lemma bt_insert_insert [simp]: "bt_insert k v (bt_insert k w m) = bt_insert k v m"
  by (induction m) auto

lemma walk_put:
  "walk strict B name bf es v = Inr (Found b x put) \<Longrightarrow> walk strict B name bf es (put y) = Inr (Found b y put)"
proof (induction es arbitrary: bf v x put)
  case (Cons e es)
  have wrapD: "wrap g l = Found b x put \<Longrightarrow> \<exists>p. l = Found b x p \<and> put = (\<lambda>y. g (p y))" for g l
    by (cases l) auto
  show ?case
  proof (cases e)
    case (EnterArray bn i)
    with Cons.prems obtain bf' vs p where bf': "B bn = Some bf'" and i: "i < length vs"
      and p: "walk strict B name bf' es (vs ! i) = Inr (Found b x p)" "put = (\<lambda>y. JArray (vs[i := p y]))"
      by (auto simp: enter_array_def index_array_def dest!: wrapD split: option.splits json.splits if_splits)
    from Cons.IH [OF p(1)] i bf' EnterArray show ?thesis
      by (simp add: p(2) enter_array_def index_array_def)
  next
    case (EnterObject bn c)
    show ?thesis
    proof (cases "c = []")
      case True
      with Cons EnterObject show ?thesis by auto
    next
      case False
      with Cons.prems EnterObject obtain bf' z m p where bf': "B bn = Some bf'"
        and p: "walk strict B name bf' es z = Inr (Found b x p)"
        and m: "put = (\<lambda>y. JObject [(c, p y)]) \<or> put = (\<lambda>y. JObject (bt_insert c (p y) m))"
        by (auto simp: enter_object_def dest!: wrapD split: option.splits json.splits if_splits)
      from m Cons.IH [OF p] bf' EnterObject False show ?thesis
        by (auto simp: enter_object_def bt_lookup_insert)
    qed
  qed
qed auto

section \<open>Fields of a list of components\<close>

definition focus :: "bool \<Rightarrow> (string \<Rightarrow> 'b option) \<Rightarrow> string list \<Rightarrow> 'n json \<Rightarrow> dash_error + ('b, 'n) located" where
  "focus strict B cs v =
     (case B ''/'' of None \<Rightarrow> Inl NoRootField | Some bf \<Rightarrow> walk strict B [] bf (cursor ''/'' cs) v)"

text \<open>One component further inside the value of a field.\<close>

definition child_step ::
  "bool \<Rightarrow> (string \<Rightarrow> 'b option) \<Rightarrow> string \<Rightarrow> 'b \<Rightarrow> string \<Rightarrow> 'n json \<Rightarrow> dash_error + ('b, 'n) located" where
  "child_step strict B bn b c x = walk strict B [] b (cursor bn [c]) x"

lemma focus_snoc:
  "focus strict B (cs @ [c]) v = bind_found (focus strict B cs v) (\<lambda>b. child_step strict B (base cs) b c)"
  by (cases "B ''/''")
    (simp_all add: focus_def child_step_def [abs_def] cursor_append walk_append flip: base_def)

lemma focus_put: "focus strict B cs v = Inr (Found b x put) \<Longrightarrow> focus strict B cs (put y) = Inr (Found b y put)"
  by (auto simp: focus_def dest: walk_put split: option.splits)

lemma focus_root: "focus strict B [[]] v = (case B ''/'' of None \<Rightarrow> Inl NoRootField | Some bf \<Rightarrow> Inr (Found bf v (\<lambda>y. y)))"
  by (simp add: focus_def split: option.split)

lemma walk_name_focus:
  assumes "\<forall>c \<in> set cs. no_slash c"
  shows "walk_name strict B (join_name cs) v = Inr l \<longleftrightarrow> focus strict B cs v = Inr l"
proof (cases "B ''/''")
  case (Some bf)
  have last: "walk strict B n b (cursor bn [[]]) x = Inr (Found b x (\<lambda>y. y))" for n b bn x
    by (simp add: Let_def)
  have "walk strict B n bf (cursor_of_name (join_name cs)) v = walk strict B n bf (cursor ''/'' cs) v" for n
  proof -
    have "walk strict B n bf (cursor_of_name (join_name cs)) v
        = bind_found (walk strict B n bf (cursor ''/'' cs) v) (\<lambda>b x. Inr (Found b x (\<lambda>y. y)))"
      unfolding cursor_of_name_def split_join_name [OF assms] cursor_append walk_append
      by (rule arg_cong [where f = "bind_found r" for r], intro ext, rule last)
    also have "\<dots> = walk strict B n bf (cursor ''/'' cs) v"
      by (cases "walk strict B n bf (cursor ''/'' cs) v") (auto simp: bind_found_def split: located.split)
    finally show ?thesis .
  qed
  with Some show ?thesis
    by (simp add: walk_name_def focus_def walk_any_name [of _ _ "join_name cs" _ _ _ _ "[]"])
qed (simp add: walk_name_def focus_def)

text \<open>A fold of updates through a fixed way to replace a value is a fold over the value.\<close>

lemma fold_through:
  assumes "\<And>c x w. c \<in> set cs \<Longrightarrow> f c (put x) = Inr w \<longleftrightarrow> (\<exists>y. g c x = Inr y \<and> w = put y)"
  shows "fold_result f cs (put x) = Inr w \<longleftrightarrow> (\<exists>y. fold_result g cs x = Inr y \<and> w = put y)"
  using assms
proof (induction cs arbitrary: x)
  case (Cons c cs)
  have "fold_result f (c # cs) (put x) = Inr w \<longleftrightarrow> (\<exists>z. g c x = Inr z \<and> fold_result f cs (put z) = Inr w)"
    using Cons.prems [of c] by auto
  also have "\<dots> \<longleftrightarrow> (\<exists>z y. g c x = Inr z \<and> fold_result g cs z = Inr y \<and> w = put y)"
    using Cons.IH [OF Cons.prems] by auto
  finally show ?case by auto
qed auto

section \<open>Updates over the value of a field\<close>

text \<open>The update of a field seen from inside: \<open>x\<close> is its current value, \<open>b\<close> its declaration.\<close>

definition in_child ::
  "dash_error + ('b, 'n) located \<Rightarrow> ('b \<Rightarrow> 'n json \<Rightarrow> dash_error + 'n json) \<Rightarrow> dash_error + 'n json" where
  "in_child r k =
     rbind r (\<lambda>l. case l of Missing x \<Rightarrow> Inr x | Found b y put \<Rightarrow> rbind (k b y) (\<lambda>y'. Inr (put y')))"

function item_update_in ::
  "('n, 'f) numbers \<Rightarrow> formats \<Rightarrow> (string \<Rightarrow> 'f native_field option) \<Rightarrow> string \<Rightarrow> 'f native_field
    \<Rightarrow> 'n json \<Rightarrow> bool \<Rightarrow> 'n json \<Rightarrow> dash_error + 'n json"
where
  "item_update_in N F B bn f value opt x =
     (let opt' = opt \<or> fd_optional f in
      case fd_kind f of
        KObject _ kind \<Rightarrow>
          (case value of
             JObject m \<Rightarrow>
               (case kind of
                  ODynamic \<Rightarrow> Inr (JObject m)
                | _ \<Rightarrow> fold_result (\<lambda>(child, w) y.
                         in_child (child_step False B bn f (fm_snake F child) y)
                           (\<lambda>f' z. item_update_in N F B (base_step bn (fm_snake F child)) f' w opt' z)) m x)
           | _ \<Rightarrow> rbind (assert_optional [] (is_null value) opt') (\<lambda>w. Inr (put_assigned (\<lambda>y. y) x w)))
      | KObjectArray _ \<Rightarrow>
          (case value of
             JArray vs \<Rightarrow>
               fold_result (\<lambda>(index, w) y.
                   in_child (child_step False B bn f (show_nat index) y)
                     (\<lambda>f' z. item_update_in N F B (base_step bn (show_nat index)) f' w opt' z))
                 (enumerate 0 vs) x
           | _ \<Rightarrow> rbind (assert_optional [] (is_null value) opt') (\<lambda>w. Inr (put_assigned (\<lambda>y. y) x w)))
      | kind \<Rightarrow> rbind (item_scalar N F [] kind value opt') (\<lambda>w. Inr (put_assigned (\<lambda>y. y) x w)))"
  by pat_completeness auto
termination
  by (relation "measure (\<lambda>(N, F, B, bn, f, value, opt, x). size value)")
    (auto simp: in_set_enumerate_eq size_in_members dest: size_nth_list)

declare item_update_in.simps [simp del]

text \<open>The name only matters for the errors.\<close>

lemma assert_optional_any: "assert_optional name b opt = Inr x \<longleftrightarrow> assert_optional name' b opt = Inr x"
  by (simp add: assert_optional_def)

lemma assert_range_any: "assert_range cmp name n mn mx = Inr u \<longleftrightarrow> assert_range cmp name' n mn mx = Inr u"
  by (auto simp: assert_range_def assert_bound_def split: option.splits)

lemma check_string_any: "check_string F name k s = Inr u \<longleftrightarrow> check_string F name' k s = Inr u"
  by (cases k) (auto simp: assert_string_def assert_contains_def or_fail_def split: option.splits)

lemma string_value_any: "string_value F name k v opt = Inr x \<longleftrightarrow> string_value F name' k v opt = Inr x"
  using check_string_any [of F name k] assert_optional_any [of name _ opt x name']
  by (auto simp: string_value_def split: option.splits)

lemma item_scalar_any: "item_scalar N F name k v opt = Inr x \<longleftrightarrow> item_scalar N F name' k v opt = Inr x"
proof -
  note any = assert_optional_any [of name _ opt x name'] assert_range_any [of _ name _ _ _ _ name']
  show ?thesis
    by (cases k; cases v) (auto simp: any string_value_any [of F name _ _ _ _ name'] split: option.splits)
qed

text \<open>The outcome of an update, given where its field was found.\<close>

definition updates_found ::
  "('b \<Rightarrow> 'n json \<Rightarrow> dash_error + 'n json) \<Rightarrow> dash_error + ('b, 'n) located \<Rightarrow> 'n json \<Rightarrow> bool" where
  "updates_found k r w \<longleftrightarrow>
     (\<exists>l. r = Inr l \<and> (case l of Missing u \<Rightarrow> w = u | Found f x put \<Rightarrow> \<exists>y. k f x = Inr y \<and> w = put y))"

lemma updates_found_in_child: "updates_found k r w \<longleftrightarrow> in_child r k = Inr w"
proof (cases r)
  case (Inr l)
  then show ?thesis by (cases l) (auto simp: updates_found_def in_child_def)
qed (simp add: updates_found_def in_child_def)

lemma updates_found_snoc:
  assumes "focus strict B cs v = Inr (Found b x put)"
  shows "updates_found k (focus strict B (cs @ [c]) (put z)) w
    \<longleftrightarrow> (\<exists>y. in_child (child_step strict B (base cs) b c z) k = Inr y \<and> w = put y)"
proof -
  have "focus strict B (cs @ [c]) (put z)
      = rbind (child_step strict B (base cs) b c z) (\<lambda>l. Inr (wrap put l))"
    by (simp add: focus_snoc focus_put [OF assms])
  then show ?thesis
    unfolding updates_found_in_child
  proof (cases "child_step strict B (base cs) b c z")
    case (Inr l)
    then show "focus strict B (cs @ [c]) (put z) = rbind (child_step strict B (base cs) b c z) (\<lambda>l. Inr (wrap put l))
      \<Longrightarrow> in_child (focus strict B (cs @ [c]) (put z)) k = Inr w
        \<longleftrightarrow> (\<exists>y. in_child (child_step strict B (base cs) b c z) k = Inr y \<and> w = put y)"
      by (cases l) (auto simp: in_child_def)
  qed (simp add: in_child_def)
qed

lemma sub_object_join: "sub_object snake (join_name cs) c = join_name (cs @ [snake c])"
  by (simp add: sub_object_def join_name_snoc)

lemma sub_array_join: "sub_array (join_name cs) i = join_name (cs @ [show_nat i])"
  by (simp add: sub_array_def join_name_snoc)

lemma put_assigned_through: "put_assigned put x w = put (put_assigned (\<lambda>y. y) x w)"
  by (simp add: put_assigned_def)

lemma rbind_assign_through:
  assumes "\<And>a. r = Inr a \<longleftrightarrow> r' = Inr a"
  shows "(\<exists>a. r = Inr a \<and> put_assigned put x a = u)
    \<longleftrightarrow> (\<exists>y. (\<exists>a. r' = Inr a \<and> put_assigned (\<lambda>y. y) x a = y) \<and> u = put y)"
  using assms by (auto simp: put_assigned_through [of put])

lemma item_update_focus:
  assumes "\<And>s. no_slash (fm_snake F s)" and "\<forall>c \<in> set cs. no_slash c"
  shows "item_update N F B (join_name cs) value opt v = Inr w
    \<longleftrightarrow> updates_found (\<lambda>f. item_update_in N F (bt_lookup B) (base cs) f value opt) (focus False (bt_lookup B) cs v) w"
  using assms(2)
proof (induction "value" arbitrary: cs opt v w rule: measure_induct_rule [where f = size])
  case (less "value")
  note walk = walk_name_focus [OF less.prems, of False "bt_lookup B" v]
  show ?case
  proof (cases "focus False (bt_lookup B) cs v")
    case (Inl e)
    with walk have "\<And>l. walk_name False (bt_lookup B) (join_name cs) v \<noteq> Inr l" by auto
    then show ?thesis
      by (auto simp: Inl item_update.simps updates_found_def item_try_get_field_def)
  next
    case (Inr l)
    with walk have got: "item_try_get_field B (join_name cs) v = Inr l"
      by (simp add: item_try_get_field_def)
    show ?thesis
    proof (cases l)
      case (Missing u)
      with got Inr show ?thesis by (auto simp: item_update.simps updates_found_def)
    next
      case (Found f x put)
      have found: "focus False (bt_lookup B) cs v = Inr (Found f x put)" using Inr Found by simp
      have child: "item_update N F B (join_name (cs @ [c])) w' opt' (put z) = Inr u
          \<longleftrightarrow> (\<exists>y. in_child (child_step False (bt_lookup B) (base cs) f c z)
                 (\<lambda>f' z'. item_update_in N F (bt_lookup B) (base_step (base cs) c) f' w' opt' z') = Inr y \<and> u = put y)"
        if "size w' < size value" "no_slash c" for w' c opt' z u
        using less.IH [OF that(1), of "cs @ [c]"] less.prems that(2) updates_found_snoc [OF found]
        by simp
      show ?thesis
      proof (cases "fd_kind f")
        case (KObject kids kind)
        show ?thesis
        proof (cases "value")
          case (JObject m)
          have fold: "fold_result (\<lambda>(child, x). item_update N F B (sub_object (fm_snake F) (join_name cs) child) x opt')
                m (put x) = Inr u
              \<longleftrightarrow> (\<exists>y. fold_result (\<lambda>(child, w) y.
                     in_child (child_step False (bt_lookup B) (base cs) f (fm_snake F child) y)
                       (\<lambda>f' z. item_update_in N F (bt_lookup B) (base_step (base cs) (fm_snake F child)) f' w opt' z))
                     m x = Inr y \<and> u = put y)" for opt' u
            by (rule fold_through)
              (clarsimp simp: sub_object_join child size_in_members JObject assms(1))
          from KObject JObject fold show ?thesis
            by (cases kind)
              (auto simp add: item_update.simps [of N F B _ "JObject m"] got Found updates_found_def found
                item_update_in.simps [of N F _ _ _ "JObject m"] Let_def)
        qed (simp_all add: item_update.simps [of N F B "join_name cs"] got Found updates_found_def found KObject
            item_update_in.simps [of N F "bt_lookup B" "base cs"] Let_def
            rbind_assign_through [OF assert_optional_any [of "join_name cs" _ _ _ "[]"]])
      next
        case (KObjectArray kids)
        show ?thesis
        proof (cases "value")
          case (JArray vs)
          have fold: "fold_result (\<lambda>(index, x). item_update N F B (sub_array (join_name cs) index) x opt')
                (enumerate 0 vs) (put x) = Inr u
              \<longleftrightarrow> (\<exists>y. fold_result (\<lambda>(index, w) y.
                     in_child (child_step False (bt_lookup B) (base cs) f (show_nat index) y)
                       (\<lambda>f' z. item_update_in N F (bt_lookup B) (base_step (base cs) (show_nat index)) f' w opt' z))
                     (enumerate 0 vs) x = Inr y \<and> u = put y)" for opt' u
            by (rule fold_through)
              (clarsimp simp: sub_array_join child JArray in_set_enumerate_eq dest!: size_nth_list)
          from KObjectArray JArray fold show ?thesis
            by (simp add: item_update.simps [of N F B _ "JArray vs"] got Found updates_found_def found
                item_update_in.simps [of N F _ _ _ "JArray vs"] Let_def)
        qed (simp_all add: item_update.simps [of N F B "join_name cs"] got Found updates_found_def found KObjectArray
            item_update_in.simps [of N F "bt_lookup B" "base cs"] Let_def
            rbind_assign_through [OF assert_optional_any [of "join_name cs" _ _ _ "[]"]])
      qed (simp_all add: item_update.simps [of N F B "join_name cs"] got Found updates_found_def found
          item_update_in.simps [of N F "bt_lookup B" "base cs"] Let_def
          rbind_assign_through [OF item_scalar_any [of N F "join_name cs" _ _ _ _ "[]"]] del: item_scalar.simps)
    qed
  qed
qed

section \<open>Defaults over the value of a field\<close>

definition in_field ::
  "dash_error + ('b, 'n) located \<Rightarrow> ('b \<Rightarrow> 'n json \<Rightarrow> dash_error + 'n json) \<Rightarrow> dash_error + 'n json" where
  "in_field r k =
     rbind r (\<lambda>l. case l of
         Missing x \<Rightarrow> Inl (NoSuchField [])
       | Found b y put \<Rightarrow> rbind (k b y) (\<lambda>y'. Inr (put y')))"

fun fill_in ::
  "('n, 'f) numbers \<Rightarrow> formats \<Rightarrow> (string \<Rightarrow> 'f native_field option) \<Rightarrow> nat \<Rightarrow> string \<Rightarrow> 'f native_field
    \<Rightarrow> bool \<Rightarrow> bool \<Rightarrow> 'n json \<Rightarrow> dash_error + 'n json"
where
  "fill_in N F B 0 bn f opt atom x = Inl StackOverflow"
| "fill_in N F B (Suc depth) bn f opt atom x =
     (let opt' = opt \<or> fd_optional f;
          fill_children = (\<lambda>children.
            fold_result (\<lambda>c y. in_field (child_step False B bn f c y)
                (\<lambda>f'. fill_in N F B depth (base_step bn c) f' opt' True))
              (get_children_names children) (if is_null x then JObject [] else x))
      in case fd_kind f of
           KObject children _ \<Rightarrow> fill_children children
         | KObjectArray children \<Rightarrow>
             if atom then
               let x' = (if is_null x then JArray [] else x) in
               (case x' of
                  JArray vs \<Rightarrow>
                    fold_result (\<lambda>i y. in_field (child_step False B bn f (show_nat i) y)
                        (\<lambda>f'. fill_in N F B depth (base_step bn (show_nat i)) f' opt' False))
                      [0 ..< length vs] x'
                | _ \<Rightarrow> Inr x')
             else fill_children children
         | kind \<Rightarrow> rbind (fill_scalar N F [] kind x opt') (\<lambda>w. Inr (put_assigned (\<lambda>y. y) x w)))"

declare fill_in.simps [simp del]

lemma fill_with_any:
  "(case d of Some r \<Rightarrow> (case d' of Some r' \<Rightarrow> (\<forall>x. r = Inr x \<longleftrightarrow> r' = Inr x) | None \<Rightarrow> False) | None \<Rightarrow> d' = None)
   \<Longrightarrow> fill_with name opt x d = Inr w \<longleftrightarrow> fill_with name' opt x d' = Inr w"
  by (auto simp: fill_with_def split: option.splits)

lemma fill_scalar_any: "fill_scalar N F name k x opt = Inr w \<longleftrightarrow> fill_scalar N F name' k x opt = Inr w"
  by (cases k) (auto intro!: fill_with_any split: option.split)

lemma no_slash_children: "c \<in> set (get_children_names cs) \<Longrightarrow> no_slash c"
  by (auto simp: get_children_names_def get_children_name_def set_map_filter no_slash_def
      split: option.splits) (metis set_takeWhileD)

lemma in_field_snoc:
  assumes "focus strict B cs v = Inr (Found b x put)"
  shows "(\<exists>f z p. focus strict B (cs @ [c]) (put y) = Inr (Found f z p) \<and> (\<exists>u. k f z = Inr u \<and> w = p u))
    \<longleftrightarrow> (\<exists>u. in_field (child_step strict B (base cs) b c y) k = Inr u \<and> w = put u)"
proof -
  have "focus strict B (cs @ [c]) (put y)
      = rbind (child_step strict B (base cs) b c y) (\<lambda>l. Inr (wrap put l))"
    by (simp add: focus_snoc focus_put [OF assms])
  then show ?thesis
  proof (cases "child_step strict B (base cs) b c y")
    case (Inr l)
    then show "focus strict B (cs @ [c]) (put y) = rbind (child_step strict B (base cs) b c y) (\<lambda>l. Inr (wrap put l))
      \<Longrightarrow> ?thesis"
      by (cases l) (auto simp: in_field_def)
  qed (simp add: in_field_def)
qed

lemma fill_default_focus:
  assumes "\<forall>c \<in> set cs. no_slash c"
  shows "fill_default N F (item_get_field B) depth (join_name cs) opt atom v = Inr w
    \<longleftrightarrow> (\<exists>f x put. focus False (bt_lookup B) cs v = Inr (Found f x put)
          \<and> (\<exists>y. fill_in N F (bt_lookup B) depth (base cs) f opt atom x = Inr y \<and> w = put y))"
  using assms
proof (induction depth arbitrary: cs opt atom v w)
  case 0
  then show ?case by (simp add: fill_default.simps fill_in.simps)
next
  case (Suc depth)
  have get: "item_get_field B (join_name cs) v = Inr (f, x, put)
      \<longleftrightarrow> focus False (bt_lookup B) cs v = Inr (Found f x put)" for f x put
  proof -
    have "item_get_field B (join_name cs) v = Inr (f, x, put)
        \<longleftrightarrow> walk_name False (bt_lookup B) (join_name cs) v = Inr (Found f x put)"
      by (cases "walk_name False (bt_lookup B) (join_name cs) v")
        (auto simp: item_get_field_def item_try_get_field_def split: located.split)
    with walk_name_focus [OF Suc.prems] show ?thesis by simp
  qed
  show ?case
  proof (cases "\<exists>f x put. focus False (bt_lookup B) cs v = Inr (Found f x put)")
    case False
    with get have "\<And>r. item_get_field B (join_name cs) v \<noteq> Inr r" by auto
    with False show ?thesis by (auto simp: fill_default.simps)
  next
    case True
    then obtain f x put where found: "focus False (bt_lookup B) cs v = Inr (Found f x put)" by blast
    have child: "fill_default N F (item_get_field B) depth (join_name (cs @ [c])) opt' atom' (put y) = Inr u
        \<longleftrightarrow> (\<exists>z. in_field (child_step False (bt_lookup B) (base cs) f c y)
               (\<lambda>f'. fill_in N F (bt_lookup B) depth (base_step (base cs) c) f' opt' atom') = Inr z \<and> u = put z)"
      if "no_slash c" for c opt' atom' y u
      using Suc.IH [of "cs @ [c]" opt' atom' "put y" u] Suc.prems that in_field_snoc [OF found] by simp
    have kids: "fold_result (\<lambda>c. fill_default N F (item_get_field B) depth (join_name cs @ c @ ''/'') opt' True)
          (get_children_names children) (put y) = Inr u
        \<longleftrightarrow> (\<exists>z. fold_result (\<lambda>c y. in_field (child_step False (bt_lookup B) (base cs) f c y)
               (\<lambda>f'. fill_in N F (bt_lookup B) depth (base_step (base cs) c) f' opt' True))
             (get_children_names children) y = Inr z \<and> u = put z)" for children opt' y u
      by (rule fold_through) (use child no_slash_children in \<open>simp flip: join_name_snoc\<close>)
    have items: "fold_result (\<lambda>i. fill_default N F (item_get_field B) depth (sub_array (join_name cs) i) opt' False)
          is (put y) = Inr u
        \<longleftrightarrow> (\<exists>z. fold_result (\<lambda>i y. in_field (child_step False (bt_lookup B) (base cs) f (show_nat i) y)
               (\<lambda>f'. fill_in N F (bt_lookup B) depth (base_step (base cs) (show_nat i)) f' opt' False))
             is y = Inr z \<and> u = put z)" for "is" opt' y u
      by (rule fold_through) (use child in \<open>simp add: sub_array_join\<close>)
    have got: "item_get_field B (join_name cs) v = Inr (f, x, put)" using get found by simp
    show ?thesis
    proof (cases "fd_kind f")
      case (KObject children spec)
      then show ?thesis
        by (simp add: fill_default.simps fill_in.simps got found kids Let_def)
    next
      case (KObjectArray children)
      then show ?thesis
        by (cases atom; cases x)
          (auto simp add: fill_default.simps fill_in.simps got found kids items Let_def)
    qed (simp_all add: fill_default.simps fill_in.simps got found Let_def
        rbind_assign_through [OF fill_scalar_any [of N F "join_name cs" _ _ _ _ "[]"]] del: fill_scalar.simps)
  qed
qed

section \<open>The conversion of an item\<close>

definition declared :: "'f native_field list \<Rightarrow> string \<Rightarrow> 'f native_field option" where
  "declared fs = bt_lookup (bt_of_list (map (\<lambda>p. (fd_name p, p)) fs))"

lemma convert_model_item_in:
  assumes "\<And>s. no_slash (fm_snake F s)"
  shows "convert_model_item N F depth item fs = Inr w
    \<longleftrightarrow> (\<exists>f y. declared fs ''/'' = Some f \<and> item_update_in N F (declared fs) ''/'' f item False JNull = Inr y
          \<and> fill_in N F (declared fs) depth ''/'' f False True y = Inr w)"
proof -
  have root: "\<forall>c \<in> set [[]]. no_slash c" by (simp add: no_slash_def)
  have base: "base [[]] = ''/''" using base_simps(2) [of "[]" "[]"] by simp
  note upd = item_update_focus [OF assms root, of N _ item False JNull, unfolded join_name_root focus_root base]
  note fill = fill_default_focus [OF root, of N F _ depth False True _ w, unfolded join_name_root focus_root base]
  let ?B = "bt_of_list (map (\<lambda>p. (fd_name p, p)) fs)"
  have "convert_model_item N F depth item fs
      = rbind (item_update N F ?B ''/'' item False JNull) (fill_default N F (item_get_field ?B) depth ''/'' False True)"
    by (simp add: convert_model_item_def item_update_field_value_def item_finalize_def [abs_def] item_new_empty_def rbind_assoc)
  then show ?thesis
    by (auto simp: upd fill updates_found_def declared_def split: option.splits)
qed

end
