(* ===== verification/Dash_Conform.thy ===== *)
theory Dash_Conform imports Dash_Focus begin

text \<open>
  What it means for a JSON value to conform to a model, and that \<open>convert_model_item\<close> only returns
  values that do. The proof goes through a weaker predicate, in which parts may still be null, that
  every update keeps and that filling in the defaults turns into conformance.
\<close>

section \<open>Conformance\<close>

fun is_string :: "'n json \<Rightarrow> bool" where
  "is_string (JString s) = True"
| "is_string v = False"

text \<open>A scalar value. A default of a number is accepted as the parser of \<open>serde_json\<close> reads it, and the
  default of a date is the time of the conversion.\<close>

fun scalar_conforms :: "('n, 'f) numbers \<Rightarrow> formats \<Rightarrow> 'f native_kind \<Rightarrow> 'n json \<Rightarrow> bool" where
  "scalar_conforms N F KNone v = (v = JNull)"
| "scalar_conforms N F (KBoolean d) v = (as_bool v \<noteq> None)"
| "scalar_conforms N F (KInteger d mn mx) v =
     (case as_i64 N v of None \<Rightarrow> False | Some n \<Rightarrow> assert_range i64_cmp [] n mn mx = Inr ())"
| "scalar_conforms N F (KNumber d mn mx) v =
     ((case as_f64 N v of None \<Rightarrow> False | Some x \<Rightarrow> assert_range (f64_cmp N) [] x mn mx = Inr ())
      \<or> (case d of None \<Rightarrow> False | Some x \<Rightarrow> map_option JNumber (num_parse N (f64_show N x)) = Some v))"
| "scalar_conforms N F (KString d spec) v =
     (case as_str v of
        None \<Rightarrow> False
      | Some s \<Rightarrow> (case u32_of_len (length s) of None \<Rightarrow> d = Some s | Some n \<Rightarrow> string_spec_admits spec n))"
| "scalar_conforms N F (KOneOfStrings d cs) v = (case as_str v of None \<Rightarrow> False | Some s \<Rightarrow> s \<in> set cs)"
| "scalar_conforms N F (KDateTime d) v =
     (case as_str v of None \<Rightarrow> False | Some s \<Rightarrow> fm_datetime F s \<or> d \<noteq> None \<and> s = fm_now F)"
| "scalar_conforms N F KIp v = (case as_str v of None \<Rightarrow> False | Some s \<Rightarrow> fm_ip F s)"
| "scalar_conforms N F KUuid v = (case as_str v of None \<Rightarrow> False | Some s \<Rightarrow> fm_uuid F s)"
| "scalar_conforms N F KStringArray v = (case v of JArray vs \<Rightarrow> list_all is_string vs | _ \<Rightarrow> False)"
| "scalar_conforms N F (KObject cs k) v = False"
| "scalar_conforms N F (KObjectArray cs) v = False"

text \<open>
  A value conforms at a field: an object has exactly the declared children, each conforming; a dynamic
  object is any object; an array of objects holds such objects; a scalar is checked, and may be null
  when the field or one around it is optional.
\<close>

definition same_keys :: "'a list \<Rightarrow> 'a list \<Rightarrow> bool" where
  "same_keys xs ys \<longleftrightarrow> list_all (\<lambda>x. x \<in> set ys) xs \<and> list_all (\<lambda>y. y \<in> set xs) ys"

lemma same_keys_set: "same_keys xs ys \<longleftrightarrow> set xs = set ys"
  by (auto simp: same_keys_def list_all_iff)

lemma size_array_member:
  "x \<in> set vs \<Longrightarrow> x = JObject m \<Longrightarrow> (c, y) \<in> set m \<Longrightarrow> size y < Suc (size_list size vs)"
  using size_list_estimation' [of x vs "size x" size] size_in_members [of c y m] by simp

function conforms ::
  "('n, 'f) numbers \<Rightarrow> formats \<Rightarrow> (string \<Rightarrow> 'f native_field option) \<Rightarrow> bool \<Rightarrow> string \<Rightarrow> 'n json \<Rightarrow> bool" where
  "conforms N F B opt bn v =
     (case B bn of
        None \<Rightarrow> False
      | Some f \<Rightarrow>
         (let opt' = opt \<or> fd_optional f in
          case fd_kind f of
            KObject cs kind \<Rightarrow>
              (case v of
                 JObject m \<Rightarrow>
                   kind = ODynamic
                   \<or> same_keys (map fst m) (get_children_names cs)
                     \<and> list_all (\<lambda>(c, x). conforms N F B opt' (bn @ c @ ''/'') x) m
               | _ \<Rightarrow> False)
          | KObjectArray cs \<Rightarrow>
              (case v of
                 JArray vs \<Rightarrow>
                   list_all (\<lambda>x. case x of
                       JObject m \<Rightarrow>
                         same_keys (map fst m) (get_children_names cs)
                         \<and> list_all (\<lambda>(c, y). conforms N F B opt' (bn @ c @ ''/'') y) m
                     | _ \<Rightarrow> False) vs
               | _ \<Rightarrow> False)
          | kind \<Rightarrow> scalar_conforms N F kind v \<or> v = JNull \<and> opt'))"
  by pat_completeness auto
termination
  by (relation "measure (\<lambda>(N, F, B, opt, bn, v). size v)")
    (auto simp: size_in_members dest: size_array_member)

declare conforms.simps [simp del]

fun is_scalar :: "'f native_kind \<Rightarrow> bool" where
  "is_scalar (KObject cs k) = False"
| "is_scalar (KObjectArray cs) = False"
| "is_scalar k = True"

section \<open>Partial values\<close>

definition plain_key :: "string \<Rightarrow> bool" where
  "plain_key c \<longleftrightarrow> c \<noteq> [] \<and> no_slash c \<and> parse_usize c = None"

text \<open>The values a template can hold between two updates. \<open>arr\<close> says whether an array of objects may
  already be an empty array.\<close>

inductive partial :: "('n, 'f) numbers \<Rightarrow> formats \<Rightarrow> (string \<Rightarrow> 'f native_field option) \<Rightarrow> bool \<Rightarrow> string \<Rightarrow> 'n json \<Rightarrow> bool"
  for N F B arr where
  partial_null: "B bn = Some f \<Longrightarrow> partial N F B arr bn JNull"
| partial_scalar: "B bn = Some f \<Longrightarrow> is_scalar (fd_kind f) \<Longrightarrow> scalar_conforms N F (fd_kind f) v \<Longrightarrow> partial N F B arr bn v"
| partial_dynamic: "B bn = Some f \<Longrightarrow> fd_kind f = KObject cs ODynamic \<Longrightarrow> partial N F B arr bn (JObject m)"
| partial_object: "B bn = Some f \<Longrightarrow> fd_kind f = KObject cs k \<Longrightarrow> k \<noteq> ODynamic \<Longrightarrow> bt_wf m
    \<Longrightarrow> (\<And>c x. (c, x) \<in> set m \<Longrightarrow> plain_key c \<and> partial N F B arr (bn @ c @ ''/'') x) \<Longrightarrow> partial N F B arr bn (JObject m)"
| partial_array: "B bn = Some f \<Longrightarrow> fd_kind f = KObjectArray cs \<Longrightarrow> arr \<Longrightarrow> partial N F B arr bn (JArray [])"

inductive_cases partialE: "partial N F B arr bn v"

lemma partial_declared: "partial N F B arr bn v \<Longrightarrow> \<exists>f. B bn = Some f"
  by (auto elim: partial.cases)

lemma partial_arr: "partial N F B False bn v \<Longrightarrow> partial N F B True bn v"
  by (induction rule: partial.induct) (auto intro: partial.intros)

lemma partial_objectD:
  assumes "partial N F B arr bn x" "B bn = Some f" "fd_kind f = KObject cs k" "k \<noteq> ODynamic"
  shows "x = JNull \<or> (\<exists>m. x = JObject m \<and> bt_wf m \<and> (\<forall>(c, y) \<in> set m. plain_key c \<and> partial N F B arr (bn @ c @ ''/'') y))"
  by (rule partialE [OF assms(1)]) (use assms in auto)

lemma partial_arrayD:
  assumes "partial N F B arr bn x" "B bn = Some f" "fd_kind f = KObjectArray cs"
  shows "x = JNull \<or> arr \<and> x = JArray []"
  by (rule partialE [OF assms(1)]) (use assms in auto)

lemma partial_scalarD:
  assumes "partial N F B arr bn x" "B bn = Some f" "is_scalar (fd_kind f)"
  shows "x = JNull \<or> scalar_conforms N F (fd_kind f) x"
  by (rule partialE [OF assms(1)]) (use assms in auto)

lemma partial_dynamicD:
  assumes "partial N F B arr bn x" "B bn = Some f" "fd_kind f = KObject cs ODynamic"
  shows "x = JNull \<or> (\<exists>m. x = JObject m)"
  by (rule partialE [OF assms(1)]) (use assms in auto)

text \<open>Putting a partial value in place of a child.\<close>

lemma partial_put_child:
  assumes "B bn = Some f" "fd_kind f = KObject cs k" "k \<noteq> ODynamic" "plain_key c"
    and "x = JNull \<and> put = (\<lambda>y. JObject [(c, y)]) \<or> (\<exists>m. x = JObject m \<and> put = (\<lambda>y. JObject (bt_insert c y m)))"
    and "partial N F B arr bn x" and "partial N F B arr (bn @ c @ ''/'') y"
  shows "partial N F B arr bn (put y)"
  using partial_objectD [OF assms(6,1-3)] assms(5)
proof (elim disjE conjE exE)
  fix m m'
  assume x: "x = JObject m" "x = JObject m'" and wf: "bt_wf m"
    and m: "\<forall>(c, y) \<in> set m. plain_key c \<and> partial N F B arr (bn @ c @ ''/'') y"
    and put: "put = (\<lambda>y. JObject (bt_insert c y m'))"
  have "partial N F B arr bn (JObject (bt_insert c y m))"
  proof (rule partial_object)
    show "B bn = Some f" "fd_kind f = KObject cs k" "k \<noteq> ODynamic" by fact+
  qed (use wf m assms(4,7) in \<open>auto simp: set_bt_insert\<close>)
  with x put show ?thesis by simp
qed (use assms in \<open>auto intro: partial_object simp: bt_wf_Cons\<close>)

section \<open>Updates keep partial values\<close>

lemma child_step_simps:
  fixes x :: "'a json"
  shows "child_step s B bn f [] x = Inr (Found f x (\<lambda>y. y))"
  "plain_key c \<Longrightarrow> B (bn @ c @ ''/'') = None \<Longrightarrow> child_step False B bn f c x = Inr (Missing x)"
  "plain_key c \<Longrightarrow> B (bn @ c @ ''/'') = Some f'
    \<Longrightarrow> child_step s B bn f c x = enter_object [] (\<lambda>v. Inr (Found f' v (\<lambda>y. y))) c x"
  "parse_usize c = Some i \<Longrightarrow> B bn = Some f'
    \<Longrightarrow> child_step s B bn f c x = enter_array [] (\<lambda>v. Inr (Found f' v (\<lambda>y. y))) i x"
proof -
  have [simp]: "walk s B [] f' [] = (\<lambda>v :: 'a json. Inr (Found f' v (\<lambda>y. y)))" for s f'
    by (rule ext) simp
  show "child_step s B bn f [] x = Inr (Found f x (\<lambda>y. y))"
  "plain_key c \<Longrightarrow> B (bn @ c @ ''/'') = None \<Longrightarrow> child_step False B bn f c x = Inr (Missing x)"
  "plain_key c \<Longrightarrow> B (bn @ c @ ''/'') = Some f'
    \<Longrightarrow> child_step s B bn f c x = enter_object [] (\<lambda>v. Inr (Found f' v (\<lambda>y. y))) c x"
  "parse_usize c = Some i \<Longrightarrow> B bn = Some f'
    \<Longrightarrow> child_step s B bn f c x = enter_array [] (\<lambda>v. Inr (Found f' v (\<lambda>y. y))) i x"
    by (simp_all add: child_step_def plain_key_def Let_def)
qed

lemma parse_usize_nonempty: "parse_usize c = Some i \<Longrightarrow> c \<noteq> []"
  by auto

lemma child_step_object:
  assumes f: "B bn = Some f" "fd_kind f = KObject cs k" "k \<noteq> ODynamic"
    and x: "partial N F B arr bn x" and l: "child_step False B bn f c x = Inr l" and c: "no_slash c"
  shows "c = [] \<and> l = Found f x (\<lambda>y. y)
    \<or> plain_key c \<and> B (bn @ c @ ''/'') = None \<and> l = Missing x
    \<or> plain_key c \<and> (\<exists>f' y put. B (bn @ c @ ''/'') = Some f' \<and> l = Found f' y put
        \<and> (x = JNull \<and> put = (\<lambda>y. JObject [(c, y)]) \<or> (\<exists>m. x = JObject m \<and> put = (\<lambda>y. JObject (bt_insert c y m))))
        \<and> partial N F B arr (bn @ c @ ''/'') y)"
proof (cases "c = []")
  case True
  with l show ?thesis by (simp add: child_step_simps)
next
  case ne: False
  note shape = partial_objectD [OF x f]
  show ?thesis
  proof (cases "parse_usize c")
    case (Some i)
    with l f shape show ?thesis
      by (auto simp: child_step_simps enter_array_def index_array_def)
  next
    case None
    with ne c have key: "plain_key c" by (simp add: plain_key_def)
    show ?thesis
    proof (cases "B (bn @ c @ ''/'')")
      case None
      with key l show ?thesis by (simp add: child_step_simps)
    next
      case (Some f')
      from shape show ?thesis
      proof (elim disjE exE conjE)
        assume "x = JNull"
        with l key Some show ?thesis
          by (auto simp: child_step_simps enter_object_def intro: partial_null)
      next
        fix m assume xm: "x = JObject m" and wf: "bt_wf m"
          and m: "\<forall>(c, y) \<in> set m. plain_key c \<and> partial N F B arr (bn @ c @ ''/'') y"
        have "partial N F B arr (bn @ c @ ''/'') (case bt_lookup m c of Some y \<Rightarrow> y | None \<Rightarrow> JNull)"
        proof (cases "bt_lookup m c")
          case None
          with Some show ?thesis by (auto intro: partial_null)
        next
          case (Some y)
          then have "(c, y) \<in> set m" using wf by (simp add: bt_lookup_Some_iff)
          with Some m show ?thesis by auto
        qed
        with l key Some xm show ?thesis
          by (auto simp: child_step_simps enter_object_def)
      qed
    qed
  qed
qed

lemma string_value_conforms:
  "string_value F [] k v opt = Inr (Some w) \<Longrightarrow> is_scalar k \<Longrightarrow> scalar_conforms N F k w"
  by (cases k)
    (auto simp: string_value_def assign_def assert_optional_def assert_string_def assert_contains_def
      assert_type_def split: option.splits if_splits)

lemma only_strings: "list_all is_string (only_strings vs)"
  by (induction vs rule: only_strings.induct) auto

lemma item_scalar_conforms:
  "item_scalar N F [] k v opt = Inr (Some w) \<Longrightarrow> is_scalar k \<Longrightarrow> scalar_conforms N F k w"
  using string_value_conforms [of F k v opt w N]
  by (cases k; cases v) (auto simp: assign_def assert_optional_def only_strings split: option.splits if_splits)

lemma put_partial:
  assumes "B bn = Some f" "is_scalar (fd_kind f)" "partial N F B arr bn x"
    and "\<And>w. r = Some w \<Longrightarrow> scalar_conforms N F (fd_kind f) w"
  shows "partial N F B arr bn (put_assigned (\<lambda>y. y) x r)"
  using assms by (cases r) (auto simp: put_assigned_def intro: partial_scalar)

lemma assert_optional_None: "assert_optional name b opt = Inr r \<Longrightarrow> r = None"
  by (simp add: assert_optional_def split: if_splits)

lemma parse_show_zero: "parse_usize (show_nat 0) = Some 0"
proof -
  have "show_nat 0 = ''0''" by (subst show_nat.simps) code_simp
  then show ?thesis
    by (simp add: parse_usize_def parse_unsigned_def is_digit_def digits_value_def)
qed

lemma item_update_in_scalar:
  "is_scalar (fd_kind f) \<Longrightarrow> item_update_in N F B bn f value opt x
     = rbind (item_scalar N F [] (fd_kind f) value (opt \<or> fd_optional f)) (\<lambda>w. Inr (put_assigned (\<lambda>y. y) x w))"
  by (cases "fd_kind f") (simp_all add: item_update_in.simps [of N F B bn f] Let_def del: item_scalar.simps)

lemma item_update_in_scalar_partial:
  assumes y: "item_update_in N F B bn f value opt x = Inr y" and f: "B bn = Some f" "is_scalar (fd_kind f)"
    and x: "partial N F B arr bn x"
  shows "partial N F B arr bn y"
proof -
  from y obtain r where r: "item_scalar N F [] (fd_kind f) value (opt \<or> fd_optional f) = Inr r"
    and y: "y = put_assigned (\<lambda>y. y) x r"
    by (auto simp: item_update_in_scalar [where N = N and F = F, OF f(2)])
  show ?thesis
    unfolding y by (rule put_partial [OF f x]) (use r item_scalar_conforms f(2) in blast)
qed

lemma item_update_in_rest:
  assumes "fd_kind f = KObject cs k \<and> (\<forall>m. value \<noteq> JObject m)
      \<or> fd_kind f = KObjectArray cs \<and> (\<forall>v vs. value \<noteq> JArray (v # vs))"
    and "item_update_in N F B bn f value opt x = Inr y"
  shows "y = x"
proof (cases "value")
  case (JArray vs)
  with assms show ?thesis
    by (cases vs) (auto simp: item_update_in.simps [of N F B bn f] Let_def put_assigned_def dest!: assert_optional_None)
next
  case (JObject m)
  with assms show ?thesis
    by (auto simp: item_update_in.simps [of N F B bn f] Let_def put_assigned_def dest!: assert_optional_None)
qed (use assms in \<open>auto simp: item_update_in.simps [of N F B bn f] Let_def put_assigned_def
    dest!: assert_optional_None\<close>)

lemma item_update_in_partial:
  assumes snake: "\<And>s. no_slash (fm_snake F s)"
  shows "item_update_in N F B bn f value opt x = Inr y \<Longrightarrow> B bn = Some f \<Longrightarrow> partial N F B False bn x
    \<Longrightarrow> partial N F B False bn y"
proof (induction "value" arbitrary: bn f opt x y rule: measure_induct_rule [where f = size])
  case (less "value")
  note x = less.prems(3) and f = less.prems(2)
  show ?case
  proof (cases "fd_kind f")
    case (KObject cs k)
    show ?thesis
    proof (cases "\<exists>m. value = JObject m")
      case True
      then obtain m where m: "value = JObject m" by blast
      show ?thesis
      proof (cases "k = ODynamic")
        case True
        with KObject m less.prems show ?thesis
          by (auto simp: item_update_in.simps intro: partial_dynamic)
      next
        case False
        have upd: "partial N F B False bn z'"
          if z: "in_child (child_step False B bn f (fm_snake F c) z)
                (\<lambda>f' u. item_update_in N F B (base_step bn (fm_snake F c)) f' w opt' u) = Inr z'"
            and w: "(c, w) \<in> set m" and pz: "partial N F B False bn z" for c w z z' opt'
        proof -
          from z obtain l where l: "child_step False B bn f (fm_snake F c) z = Inr l"
            by (auto simp: in_child_def)
          have ih: "item_update_in N F B bn' f' w opt' u = Inr u' \<Longrightarrow> B bn' = Some f' \<Longrightarrow> partial N F B False bn' u
              \<Longrightarrow> partial N F B False bn' u'" for bn' f' u u'
            using less.IH [of w bn' f' opt' u u'] m size_in_members [OF w] by simp
          from child_step_object [OF f KObject False pz l snake]
          consider (same) "fm_snake F c = []" "l = Found f z (\<lambda>y. y)" | (missing) "l = Missing z"
            | (found) f' u put where "plain_key (fm_snake F c)" "B (bn @ fm_snake F c @ ''/'') = Some f'"
                "l = Found f' u put" "partial N F B False (bn @ fm_snake F c @ ''/'') u"
                "z = JNull \<and> put = (\<lambda>y. JObject [(fm_snake F c, y)])
                  \<or> (\<exists>m. z = JObject m \<and> put = (\<lambda>y. JObject (bt_insert (fm_snake F c) y m)))"
            by blast
          then show ?thesis
          proof cases
            case same
            with z l ih [OF _ f pz] show ?thesis by (auto simp: in_child_def)
          next
            case missing
            with z l pz show ?thesis by (simp add: in_child_def)
          next
            case (found f' u put)
            note key = found(1) and f' = found(2) and lf = found(3) and u = found(4) and put = found(5)
            have "base_step bn (fm_snake F c) = bn @ fm_snake F c @ ''/''"
              using key by (simp add: base_step_def plain_key_def)
            with z l lf obtain u' where "item_update_in N F B (bn @ fm_snake F c @ ''/'') f' w opt' u = Inr u'"
              and z': "z' = put u'"
              by (auto simp: in_child_def)
            from ih [OF this(1) f' u] show ?thesis
              unfolding z' by (rule partial_put_child [OF f KObject False key put pz])
          qed
        qed
        from KObject m False less.prems(1)
        have fold: "fold_result (\<lambda>(c, w) z. in_child (child_step False B bn f (fm_snake F c) z)
            (\<lambda>f' u. item_update_in N F B (base_step bn (fm_snake F c)) f' w (opt \<or> fd_optional f) u)) m x = Inr y"
          by (cases k) (simp_all add: item_update_in.simps [of N F B bn f "JObject m"] Let_def)
        show ?thesis
          by (rule fold_result_invariant [OF fold, of "partial N F B False bn"]) (use x upd in auto)
      qed
    next
      case False
      with KObject item_update_in_rest [OF _ less.prems(1)] x show ?thesis by simp
    qed
  next
    case (KObjectArray cs)
    have null: "x = JNull" using partial_arrayD [OF x f KObjectArray] by simp
    have zero: "child_step False B bn f (show_nat 0) x = Inl IndexPanic"
      using f null by (simp add: child_step_simps(4) [OF parse_show_zero] enter_array_def index_array_def)
    show ?thesis
    proof (cases "\<exists>v vs. value = JArray (v # vs)")
      case True
      then obtain v vs where "value = JArray (v # vs)" by blast
      with KObjectArray less.prems(1) zero show ?thesis
        by (simp add: item_update_in.simps [of N F B bn f "JArray (v # vs)"] Let_def in_child_def)
    next
      case False
      with KObjectArray item_update_in_rest [OF _ less.prems(1)] x show ?thesis by simp
    qed
  qed (rule item_update_in_scalar_partial [OF less.prems(1) f _ x]; simp)+
qed

section \<open>The fields of a validated model\<close>

definition tree_lookup :: "(string \<Rightarrow> 'f native_field option) \<Rightarrow> bool" where
  "tree_lookup B \<longleftrightarrow>
     (\<forall>n f. B n = Some f \<longrightarrow> is_match re_name n
        \<and> (\<forall>cs. native_children (fd_kind f) = Some cs \<longrightarrow>
             set cs = {m. B m \<noteq> None \<and> parent_name m = Some n}
             \<or> {m. B m \<noteq> None \<and> parent_name m = Some n} = {} \<and> set cs \<subseteq> {n}))"

lemma declared_mem:
  assumes "sorted_wrt (<) (map fd_name fs)"
  shows "declared fs n = Some f \<longleftrightarrow> f \<in> set fs \<and> fd_name f = n"
proof -
  have "distinct (map fd_name fs)" using assms by (simp add: strict_sorted_iff)
  then have "distinct (map fst (rev (map (\<lambda>p. (fd_name p, p)) fs)))"
    by (simp add: rev_map comp_def distinct_map)
  then have "map_of (rev (map (\<lambda>p. (fd_name p, p)) fs)) n = Some f \<longleftrightarrow> (n, f) \<in> set (rev (map (\<lambda>p. (fd_name p, p)) fs))"
    by (rule map_of_eq_Some_iff)
  then show ?thesis by (auto simp: declared_def bt_lookup_of_list)
qed

lemma declared_tree:
  assumes "field_tree fs"
  shows "tree_lookup (declared fs)"
  unfolding tree_lookup_def
proof (intro allI impI)
  fix n f assume "declared fs n = Some f"
  from assms have sorted: "sorted_wrt (<) (map fd_name fs)" by (simp add: field_tree_def)
  note mem = declared_mem [OF sorted]
  have f: "f \<in> set fs" "fd_name f = n" using \<open>declared fs n = Some f\<close> mem by auto
  have dom: "declared fs m \<noteq> None \<longleftrightarrow> m \<in> fd_name ` set fs" for m
    using mem [of m] by (auto simp: image_iff)
  have direct: "set (children_of n (map fd_name fs)) = {m. declared fs m \<noteq> None \<and> parent_name m = Some n}"
    using dom by (auto simp: children_of_def)
  from assms f have re: "is_match re_name n" and kids: "case native_children (fd_kind f) of
        None \<Rightarrow> True
      | Some cs \<Rightarrow> set cs = set (children_of n (map fd_name fs))
          \<or> children_of n (map fd_name fs) = [] \<and> set cs \<subseteq> {n}"
    by (auto simp: field_tree_def)
  have "set cs = set (children_of n (map fd_name fs)) \<or> set (children_of n (map fd_name fs)) = {} \<and> set cs \<subseteq> {n}"
    if "native_children (fd_kind f) = Some cs" for cs
    using kids that by auto
  with re show "is_match re_name n \<and> (\<forall>cs. native_children (fd_kind f) = Some cs \<longrightarrow>
      set cs = {m. declared fs m \<noteq> None \<and> parent_name m = Some n}
      \<or> {m. declared fs m \<noteq> None \<and> parent_name m = Some n} = {} \<and> set cs \<subseteq> {n})"
    unfolding direct by blast
qed

lemma ident_plain: "ident c \<Longrightarrow> plain_key c"
proof -
  assume c: "ident c"
  then obtain h t where h: "c = h # t" and "h \<in> set (lower_chars @ ''_-'')"
    by (auto simp: ident_def neq_Nil_conv)
  then have "h \<noteq> CHR ''+'' \<and> \<not> is_digit h"
    by (auto simp: lower_chars_def is_digit_def)
  with c h show ?thesis by (simp add: plain_key_def parse_usize_def parse_unsigned_def)
qed

lemma path_child: "path (ks @ [k]) = path ks @ k @ ''/''"
  by (simp add: path_def)

lemma tree_child_iff:
  assumes B: "tree_lookup B" and f: "B bn = Some f"
  shows "plain_key c \<and> B (bn @ c @ ''/'') \<noteq> None
    \<longleftrightarrow> ident c \<and> B (bn @ c @ ''/'') \<noteq> None \<and> parent_name (bn @ c @ ''/'') = Some bn"
proof -
  from B f have "is_match re_name bn" by (auto simp: tree_lookup_def)
  then obtain ks where ks: "bn = path ks" "\<forall>k \<in> set ks. ident k" by (auto simp: re_name_path)
  have parent: "parent_name (bn @ c @ ''/'') = Some bn" if "no_slash c"
    using ks that parent_name_path [of "ks @ [c]"] by (auto simp: path_child)
  have "ident c" if c: "no_slash c" and "B (bn @ c @ ''/'') \<noteq> None"
  proof -
    from that(2) B have "is_match re_name (bn @ c @ ''/'')" by (auto simp: tree_lookup_def)
    then obtain js where js: "bn @ c @ ''/'' = path js" "\<forall>k \<in> set js. ident k" by (auto simp: re_name_path)
    have "path (ks @ [c]) = path js" using js(1) ks(1) by (simp add: path_child)
    then have "ks @ [c] = js" using path_inject [of "ks @ [c]" js] ks(2) js(2) c by auto
    with js(2) show ?thesis by auto
  qed
  with parent show ?thesis by (auto simp: plain_key_def intro: ident_plain [unfolded plain_key_def, THEN conjunct1]
      dest: ident_plain [unfolded plain_key_def])
qed

definition child_keys :: "(string \<Rightarrow> 'f native_field option) \<Rightarrow> string \<Rightarrow> string set" where
  "child_keys B bn = {c. plain_key c \<and> B (bn @ c @ ''/'') \<noteq> None}"

lemma tree_children:
  assumes B: "tree_lookup B" and f: "B bn = Some f" and cs: "native_children (fd_kind f) = Some cs"
  shows "set (get_children_names cs) = child_keys B bn
    \<or> child_keys B bn = {} \<and> (\<forall>c \<in> set (get_children_names cs). plain_key c \<or> c = [] \<and> bn = ''/'')"
proof -
  from B f have "is_match re_name bn" by (auto simp: tree_lookup_def)
  then obtain ks where ks: "bn = path ks" "\<forall>k \<in> set ks. ident k" by (auto simp: re_name_path)
  have kids: "child_keys B bn = {c. ident c \<and> B (bn @ c @ ''/'') \<noteq> None \<and> parent_name (bn @ c @ ''/'') = Some bn}"
    unfolding child_keys_def using tree_child_iff [OF B f] by blast
  have direct: "B m \<noteq> None \<and> parent_name m = Some bn \<longleftrightarrow> (\<exists>c \<in> child_keys B bn. m = bn @ c @ ''/'')" for m
  proof
    assume m: "B m \<noteq> None \<and> parent_name m = Some bn"
    with B have "is_match re_name m" by (auto simp: tree_lookup_def)
    then obtain js where js: "m = path js" "\<forall>k \<in> set js. ident k" by (auto simp: re_name_path)
    have ns: "\<forall>k \<in> set js. no_slash k" using js(2) by simp
    with m js ks have ne: "js \<noteq> []" and "path (butlast js) = path ks"
      by (auto simp: parent_name_path split: if_splits)
    then have "butlast js = ks"
      using path_inject [of "butlast js" ks] ns ks(2) by (auto dest: in_set_butlastD)
    with ne have "js = ks @ [last js]" by (metis append_butlast_last_id)
    then have "m = bn @ last js @ ''/''" "ident (last js)" using js ks path_child by (metis, metis last_in_set ne)
    with m kids show "\<exists>c \<in> child_keys B bn. m = bn @ c @ ''/''" by blast
  qed (use kids in auto)
  have name: "get_children_name (bn @ c @ ''/'') = Some c" if "c \<in> child_keys B bn" for c
  proof -
    have "no_slash c" using that by (simp add: child_keys_def plain_key_def)
    then have "get_children_name (path (ks @ [c])) = Some c"
      using ks(2) by (subst get_children_name_path) auto
    with ks show ?thesis by (simp add: path_child)
  qed
  from B f cs consider (tree) "set cs = {m. B m \<noteq> None \<and> parent_name m = Some bn}"
    | (leaf) "{m. B m \<noteq> None \<and> parent_name m = Some bn} = {}" "set cs \<subseteq> {bn}"
    unfolding tree_lookup_def by blast
  then show ?thesis
  proof cases
    case tree
    then have "set cs = (\<lambda>c. bn @ c @ ''/'') ` child_keys B bn" using direct by auto
    then have "set (get_children_names cs) = child_keys B bn"
      using name by (auto simp: get_children_names_def set_map_filter)
    then show ?thesis ..
  next
    case leaf
    have "c \<notin> child_keys B bn" for c
    proof
      assume "c \<in> child_keys B bn"
      then have "bn @ c @ ''/'' \<in> {m. B m \<noteq> None \<and> parent_name m = Some bn}"
        unfolding mem_Collect_eq direct by blast
      with leaf(1) show False by blast
    qed
    then have "child_keys B bn = {}" by blast
    moreover have "plain_key c \<or> c = [] \<and> bn = ''/''" if "c \<in> set (get_children_names cs)" for c
    proof -
      from that leaf have "get_children_name bn = Some c"
        by (auto simp: get_children_names_def set_map_filter)
      moreover have "\<forall>k \<in> set ks. no_slash k" using ks(2) by simp
      ultimately have "c = (if ks = [] then [] else last ks)"
        using get_children_name_path [of ks] ks(1) by simp
      with ks show ?thesis by (auto simp: path_Nil intro: ident_plain)
    qed
    ultimately show ?thesis by blast
  qed
qed

section \<open>Defaults make a partial value conform\<close>

text \<open>What the code relies on: the order of numbers is one of \<open>Ord\<close>, and an integer that becomes a JSON
  number is read back as itself.\<close>

definition lawful :: "('n, 'f) numbers \<Rightarrow> bool" where
  "lawful N \<longleftrightarrow> total_cmp (f64_cmp N) \<and> (\<forall>n. num_as_i64 N (num_of_i64 N n) = Some n)"

lemma fill_with_cases:
  assumes "fill_with name opt x d = Inr r"
  shows "r = None \<and> (x = JNull \<longrightarrow> opt) \<or> x = JNull \<and> (\<exists>y. d = Some (Inr y) \<and> r = Some y)"
  using assms by (cases x) (auto simp: fill_with_def assign_def split: option.splits if_splits)

lemma put_assigned_simps [simp]:
  "put_assigned put x None = put x" "put_assigned put x (Some y) = put y"
  by (simp_all add: put_assigned_def)

lemma fill_scalar_conforms:
  assumes r: "fill_scalar N F [] k x opt = Inr r" and N: "lawful N" and k: "is_scalar k" "default_admitted N k"
    and x: "x = JNull \<or> scalar_conforms N F k x"
  shows "scalar_conforms N F k (put_assigned (\<lambda>y. y) x r) \<or> put_assigned (\<lambda>y. y) x r = JNull \<and> opt"
proof (cases k)
  case (KStringArray)
  with r x show ?thesis by (cases x) (auto simp: assign_def)
next
  case KNone
  with r show ?thesis by (auto simp: assign_def)
next
  case (KInteger d mn mx)
  with r k N x show ?thesis
    by (cases d) (auto simp: lawful_def assert_range_def dest!: fill_with_cases)
next
  case (KNumber d mn mx)
  with r x show ?thesis
    by (cases d) (auto simp: rbind_eq_Inr dest!: fill_with_cases)
next
  case (KString d spec)
  with r k x show ?thesis
    by (cases d) (auto dest!: fill_with_cases split: option.splits)
next
  case (KOneOfStrings d cs)
  with r k x show ?thesis
    by (cases d) (auto simp: assert_contains_def dest!: fill_with_cases split: if_splits)
qed (use r x k in \<open>auto dest!: fill_with_cases\<close>)

lemma fold_tracks:
  assumes "fold_result g cs x = Inr y" "J {} x"
    and "\<And>c D x y. c \<in> set cs \<Longrightarrow> J D x \<Longrightarrow> g c x = Inr y \<Longrightarrow> J (insert c D) y"
  shows "J (set cs) y"
proof -
  have "fold_result g cs x = Inr y \<Longrightarrow> J D x \<Longrightarrow> (\<And>c D x y. c \<in> set cs \<Longrightarrow> J D x \<Longrightarrow> g c x = Inr y \<Longrightarrow> J (insert c D) y)
      \<Longrightarrow> J (D \<union> set cs) y" for D
  proof (induction cs arbitrary: x D)
    case (Cons c cs)
    then obtain z where z: "g c x = Inr z" "fold_result g cs z = Inr y" by auto
    have "J (insert c D) z" using Cons.prems(3) [of c D x z] Cons.prems(2) z(1) by simp
    from Cons.IH [OF z(2) this] Cons.prems(3) show ?case by auto
  qed auto
  from this [of "{}"] assms show ?thesis by simp
qed

text \<open>A root that is its own child is filled in for ever.\<close>

lemma fill_in_self_loop:
  assumes "native_children (fd_kind f) = Some cs" "get_children_names cs = [] # rest" "\<And>cs. fd_kind f \<noteq> KObjectArray cs"
  shows "fill_in N F B depth bn f opt True x \<noteq> Inr y"
proof (induction depth arbitrary: opt x y)
  case 0
  show ?case by (simp add: fill_in.simps)
next
  case (Suc depth)
  from assms obtain k where k: "fd_kind f = KObject cs k" by (cases "fd_kind f") auto
  from Suc show ?case by (auto simp: fill_in.simps k Let_def assms(2) child_step_simps in_field_def)
qed

lemma fill_in_scalar:
  "is_scalar (fd_kind f) \<Longrightarrow> fill_in N F B (Suc depth) bn f opt atom x
     = rbind (fill_scalar N F [] (fd_kind f) x (opt \<or> fd_optional f)) (\<lambda>w. Inr (put_assigned (\<lambda>y. y) x w))"
  by (cases "fd_kind f") (simp_all add: fill_in.simps Let_def del: fill_scalar.simps)

lemma conforms_scalar:
  "B bn = Some f \<Longrightarrow> is_scalar (fd_kind f) \<Longrightarrow>
     conforms N F B opt bn v \<longleftrightarrow> scalar_conforms N F (fd_kind f) v \<or> v = JNull \<and> (opt \<or> fd_optional f)"
  by (cases "fd_kind f") (simp_all add: conforms.simps [of N F B opt bn v])

text \<open>The objects met while the children of a field are filled in one after the other.\<close>

definition filling ::
  "('n, 'f) numbers \<Rightarrow> formats \<Rightarrow> (string \<Rightarrow> 'f native_field option) \<Rightarrow> bool \<Rightarrow> string \<Rightarrow> string set \<Rightarrow> 'n json \<Rightarrow> bool" where
  "filling N F B opt bn D y \<longleftrightarrow>
     (\<exists>m. y = JObject m \<and> bt_wf m \<and> D \<subseteq> fst ` set m
        \<and> (\<forall>(c, x) \<in> set m. plain_key c \<and> partial N F B True (bn @ c @ ''/'') x
             \<and> (c \<in> D \<longrightarrow> conforms N F B opt (bn @ c @ ''/'') x)))"

lemma filling_insert:
  assumes "filling N F B opt bn D (JObject m)" "plain_key c"
    and "partial N F B True (bn @ c @ ''/'') z" "conforms N F B opt (bn @ c @ ''/'') z"
  shows "filling N F B opt bn (insert c D) (JObject (bt_insert c z m))"
  using assms unfolding filling_def
  by (auto simp: set_bt_insert fst_set_bt_insert)

lemma filling_partial:
  assumes "filling N F B opt bn D y" "B bn = Some f" "fd_kind f = KObject cs k" "k \<noteq> ODynamic"
  shows "partial N F B True bn y"
proof -
  from assms(1) obtain m where m: "y = JObject m" "bt_wf m"
      "\<forall>(c, x) \<in> set m. plain_key c \<and> partial N F B True (bn @ c @ ''/'') x \<and> (c \<in> D \<longrightarrow> conforms N F B opt (bn @ c @ ''/'') x)"
    unfolding filling_def by blast
  have "partial N F B True bn (JObject m)"
  proof (rule partial_object)
    show "B bn = Some f" "fd_kind f = KObject cs k" "k \<noteq> ODynamic" by fact+
  qed (use m in auto)
  with m show ?thesis by simp
qed

lemma filling_conforms:
  assumes y: "filling N F B (opt \<or> fd_optional f) bn (set (get_children_names cs)) y"
    and f: "B bn = Some f" "fd_kind f = KObject cs k"
    and names: "set (get_children_names cs) = child_keys B bn"
  shows "conforms N F B opt bn y"
proof -
  from y obtain m where m: "y = JObject m" "set (get_children_names cs) \<subseteq> fst ` set m"
      and all: "\<forall>(c, x) \<in> set m. plain_key c \<and> partial N F B True (bn @ c @ ''/'') x
             \<and> (c \<in> set (get_children_names cs) \<longrightarrow> conforms N F B (opt \<or> fd_optional f) (bn @ c @ ''/'') x)"
    unfolding filling_def by blast
  have each: "\<And>c x. (c, x) \<in> set m \<Longrightarrow> plain_key c \<and> partial N F B True (bn @ c @ ''/'') x
       \<and> (c \<in> set (get_children_names cs) \<longrightarrow> conforms N F B (opt \<or> fd_optional f) (bn @ c @ ''/'') x)"
    using all by auto
  have key: "c \<in> set (get_children_names cs)" if "(c, x) \<in> set m" for c x
    using each [OF that] partial_declared [of N F B True "bn @ c @ ''/''" x] names
    by (auto simp: child_keys_def)
  have "set (map fst m) = set (get_children_names cs)" using m(2) key by force
  moreover have "list_all (\<lambda>(c, x). conforms N F B (opt \<or> fd_optional f) (bn @ c @ ''/'') x) m"
    using each key by (auto simp: list_all_iff)
  ultimately show ?thesis
    using f m(1) by (simp add: conforms.simps [of N F B opt bn "JObject m"] same_keys_set)
qed
lemma in_field_Inr: "in_field r k = Inr y \<longleftrightarrow> (\<exists>b z put u. r = Inr (Found b z put) \<and> k b z = Inr u \<and> y = put u)"
proof (cases r)
  case (Inr l)
  then show ?thesis by (cases l) (auto simp: in_field_def)
qed (simp add: in_field_def)

lemma child_step_in_object:
  assumes "plain_key c" "B (bn @ c @ ''/'') = Some f'"
  shows "child_step s B bn f c (JObject m)
    = Inr (Found f' (case bt_lookup m c of Some x \<Rightarrow> x | None \<Rightarrow> JNull) (\<lambda>y. JObject (bt_insert c y m)))"
  by (simp add: child_step_simps(3) [where B = B, OF assms] enter_object_def)

lemma fill_in_object:
  "fd_kind f = KObject cs k \<Longrightarrow> fill_in N F B (Suc depth) bn f opt atom x
     = fold_result (\<lambda>c y. in_field (child_step False B bn f c y)
           (\<lambda>f'. fill_in N F B depth (base_step bn c) f' (opt \<or> fd_optional f) True))
         (get_children_names cs) (if is_null x then JObject [] else x)"
  by (simp add: fill_in.simps)

lemma is_null_iff: "is_null x \<longleftrightarrow> x = JNull"
  by (cases x) auto

lemma filling_step:
  assumes ih: "\<And>bn f x y. fill_in N F B depth bn f opt True x = Inr y \<Longrightarrow> B bn = Some f \<Longrightarrow> partial N F B True bn x
      \<Longrightarrow> conforms N F B opt bn y \<and> partial N F B True bn y"
    and c: "c \<in> child_keys B bn" and x: "filling N F B opt bn D x"
    and y: "in_field (child_step False B bn f c x) (\<lambda>f'. fill_in N F B depth (base_step bn c) f' opt True) = Inr y"
  shows "filling N F B opt bn (insert c D) y"
proof -
  from c obtain f' where key: "plain_key c" and f': "B (bn @ c @ ''/'') = Some f'"
    by (auto simp: child_keys_def)
  from x obtain m where m: "x = JObject m" "bt_wf m"
    and all: "\<forall>(c, x) \<in> set m. plain_key c \<and> partial N F B True (bn @ c @ ''/'') x \<and> (c \<in> D \<longrightarrow> conforms N F B opt (bn @ c @ ''/'') x)"
    unfolding filling_def by blast
  let ?z = "case bt_lookup m c of Some x \<Rightarrow> x | None \<Rightarrow> JNull"
  have z: "partial N F B True (bn @ c @ ''/'') ?z"
  proof (cases "bt_lookup m c")
    case None
    with f' show ?thesis by (auto intro: partial_null)
  next
    case (Some u)
    then have "(c, u) \<in> set m" using m(2) by (simp add: bt_lookup_Some_iff)
    with Some all show ?thesis by auto
  qed
  have "base_step bn c = bn @ c @ ''/''" using key by (simp add: base_step_def plain_key_def)
  with y obtain u where u: "fill_in N F B depth (bn @ c @ ''/'') f' opt True ?z = Inr u"
    and yu: "y = JObject (bt_insert c u m)"
    by (auto simp: m(1) in_field_Inr child_step_in_object [where B = B, OF key f'])
  from ih [OF u f' z] x key m show ?thesis
    unfolding yu by (auto intro: filling_insert)
qed

lemma fill_in_object_conforms:
  assumes ih: "\<And>opt bn f x y. fill_in N F B depth bn f opt True x = Inr y \<Longrightarrow> B bn = Some f \<Longrightarrow> partial N F B True bn x
      \<Longrightarrow> conforms N F B opt bn y \<and> partial N F B True bn y"
    and B: "tree_lookup B" and f: "B bn = Some f" "fd_kind f = KObject cs k" "k \<noteq> ODynamic"
    and x: "partial N F B True bn x" and y: "fill_in N F B (Suc depth) bn f opt True x = Inr y"
  shows "conforms N F B opt bn y \<and> partial N F B True bn y"
proof -
  let ?opt = "opt \<or> fd_optional f" and ?x = "if is_null x then JObject [] else x"
  let ?step = "\<lambda>c y. in_field (child_step False B bn f c y) (\<lambda>f'. fill_in N F B depth (base_step bn c) f' ?opt True)"
  have fold: "fold_result ?step (get_children_names cs) ?x = Inr y"
    using y by (simp only: fill_in_object [OF f(2)])
  have start: "filling N F B ?opt bn {} ?x"
    using partial_objectD [OF x f] by (auto simp: filling_def)
  have names: "set (get_children_names cs) = child_keys B bn"
  proof (rule ccontr)
    assume "set (get_children_names cs) \<noteq> child_keys B bn"
    with tree_children [OF B f(1)] f(2) have none: "child_keys B bn = {}"
      and odd: "\<And>c. c \<in> set (get_children_names cs) \<Longrightarrow> plain_key c \<or> c = [] \<and> bn = ''/''"
      by auto
    with \<open>set (get_children_names cs) \<noteq> child_keys B bn\<close> obtain c rest where cs: "get_children_names cs = c # rest"
      by (cases "get_children_names cs") auto
    with odd consider "plain_key c" | "c = []" by auto
    then show False
    proof cases
      case 1
      with none have "B (bn @ c @ ''/'') = None" by (auto simp: child_keys_def)
      with 1 fold cs show False by (auto simp: in_field_Inr child_step_simps)
    next
      case 2
      with cs y fill_in_self_loop [of f cs rest N F B "Suc depth" bn opt x y] f(2) show False by auto
    qed
  qed
  have "filling N F B ?opt bn (set (get_children_names cs)) y"
  proof (rule fold_tracks [OF fold, of "filling N F B ?opt bn"])
    show "filling N F B ?opt bn {} ?x" by (rule start)
    fix c D u v
    assume c: "c \<in> set (get_children_names cs)" and u: "filling N F B ?opt bn D u" and v: "?step c u = Inr v"
    show "filling N F B ?opt bn (insert c D) v"
    proof (rule filling_step [OF _ _ u v])
      show "c \<in> child_keys B bn" using c names by simp
    qed (rule ih)
  qed
  with filling_conforms [OF this f(1,2) names] filling_partial [OF this f] show ?thesis by simp
qed

lemma fill_in_dynamic:
  assumes ih: "\<And>opt bn f x y. fill_in N F B depth bn f opt True x = Inr y \<Longrightarrow> B bn = Some f \<Longrightarrow> partial N F B True bn x
      \<Longrightarrow> conforms N F B opt bn y \<and> partial N F B True bn y"
    and B: "tree_lookup B" and f: "B bn = Some f" "fd_kind f = KObject cs ODynamic"
    and x: "partial N F B True bn x" and y: "fill_in N F B (Suc depth) bn f opt True x = Inr y"
  shows "\<exists>m. y = JObject m"
proof -
  let ?opt = "opt \<or> fd_optional f" and ?x = "if is_null x then JObject [] else x"
  have fold: "fold_result (\<lambda>c y. in_field (child_step False B bn f c y)
        (\<lambda>f'. fill_in N F B depth (base_step bn c) f' ?opt True)) (get_children_names cs) ?x = Inr y"
    using y by (simp only: fill_in_object [OF f(2)])
  show ?thesis
  proof (rule fold_result_invariant [OF fold, of "\<lambda>y. \<exists>m. y = JObject m"])
    show "\<exists>m. ?x = JObject m" using partial_dynamicD [OF x f] by auto
    fix c u v
    assume c: "c \<in> set (get_children_names cs)" and u: "\<exists>m. u = JObject m"
      and v: "in_field (child_step False B bn f c u) (\<lambda>f'. fill_in N F B depth (base_step bn c) f' ?opt True) = Inr v"
    from u obtain m where m: "u = JObject m" by blast
    from tree_children [OF B f(1)] f(2) c have "plain_key c \<or> c = []"
      by (auto simp: child_keys_def)
    then show "\<exists>m. v = JObject m"
    proof
      assume key: "plain_key c"
      show ?thesis
      proof (cases "B (bn @ c @ ''/'')")
        case None
        with key v show ?thesis by (auto simp: in_field_Inr child_step_simps)
      next
        case (Some f')
        with v m show ?thesis by (auto simp: in_field_Inr child_step_in_object [where B = B, OF key Some])
      qed
    next
      assume "c = []"
      with v m have "fill_in N F B depth bn f ?opt True (JObject m) = Inr v"
        by (auto simp: in_field_Inr child_step_simps)
      from ih [OF this f(1) partial_dynamic] f have "conforms N F B ?opt bn v" by blast
      with f show ?thesis by (auto simp: conforms.simps [of N F B _ bn v] split: json.splits)
    qed
  qed
qed

lemma fill_in_conforms:
  assumes N: "lawful N" and B: "tree_lookup B" and d: "\<And>n f. B n = Some f \<Longrightarrow> default_admitted N (fd_kind f)"
  shows "fill_in N F B depth bn f opt True x = Inr y \<Longrightarrow> B bn = Some f \<Longrightarrow> partial N F B True bn x
    \<Longrightarrow> conforms N F B opt bn y \<and> partial N F B True bn y"
proof (induction depth arbitrary: bn f opt x y)
  case 0
  then show ?case by (simp add: fill_in.simps)
next
  case (Suc depth)
  note y = Suc.prems(1) and f = Suc.prems(2) and x = Suc.prems(3)
  show ?case
  proof (cases "is_scalar (fd_kind f)")
    case True
    with y obtain r where r: "fill_scalar N F [] (fd_kind f) x (opt \<or> fd_optional f) = Inr r"
      and yr: "y = put_assigned (\<lambda>y. y) x r"
      by (auto simp: fill_in_scalar simp del: fill_scalar.simps)
    from fill_scalar_conforms [OF r N True d [OF f] partial_scalarD [OF x f True]]
    show ?thesis
      using True f by (auto simp: conforms_scalar yr intro: partial_scalar partial_null)
  next
    case False
    then consider (obj) cs k where "fd_kind f = KObject cs k" | (arr) cs where "fd_kind f = KObjectArray cs"
      by (cases "fd_kind f") auto
    then show ?thesis
    proof cases
      case (obj cs k)
      show ?thesis
      proof (cases "k = ODynamic")
        case True
        with obj have dyn: "fd_kind f = KObject cs ODynamic" by simp
        have "\<exists>m. y = JObject m" by (rule fill_in_dynamic [OF _ B f dyn x y]) (rule Suc.IH)
        then obtain m where m: "y = JObject m" ..
        with dyn f show ?thesis
          by (auto simp: conforms.simps [of N F B opt bn "JObject m"] intro: partial_dynamic)
      next
        case False
        show ?thesis by (rule fill_in_object_conforms [OF _ B f obj False x y]) (rule Suc.IH)
      qed
    next
      case (arr cs)
      with y partial_arrayD [OF x f arr] have "y = JArray []"
        by (auto simp: fill_in.simps)
      with arr f show ?thesis
        by (auto simp: conforms.simps [of N F B opt bn "JArray []"] intro: partial_array)
    qed
  qed
qed

end
