(* ===== verification/Dash_Correct.thy ===== *)
theory Dash_Correct imports Dash_Conform begin

text \<open>
  The properties of models, their validation and the templates that span several components: a
  converted item conforms to its model, how deep the filling of defaults recurses, where the templates
  panic or run for ever, and that inputs given as strings and as values agree.
\<close>

section \<open>Depth of the recursion\<close>

lemma walk_errors: "walk strict B name bf es v \<noteq> Inl StackOverflow"
proof (induction es arbitrary: bf v)
  case (Cons e es)
  then show ?case
    by (cases e) (auto simp: enter_array_def index_array_def enter_object_def rbind_eq_Inl split: option.split json.split)
qed simp

lemma get_field_errors: "item_get_field B name v \<noteq> Inl StackOverflow"
proof -
  have "item_try_get_field B name v \<noteq> Inl StackOverflow"
    by (auto simp: item_try_get_field_def walk_name_def walk_errors split: option.split)
  then show ?thesis
    by (auto simp: item_get_field_def rbind_eq_Inl split: located.splits)
qed

lemma fill_scalar_errors: "fill_scalar N F name k x opt \<noteq> Inl StackOverflow"
  by (cases k) (auto simp: fill_with_def assign_def or_fail_def rbind_eq_Inl split: option.splits)

text \<open>More depth does not change a result that did not run out of it.\<close>

lemma fill_default_mono:
  "fill_default N F get depth name opt atom v \<noteq> Inl StackOverflow
   \<Longrightarrow> fill_default N F get (Suc depth) name opt atom v = fill_default N F get depth name opt atom v"
proof (induction depth arbitrary: name opt atom v)
  case 0
  then show ?case by (simp add: fill_default.simps)
next
  case (Suc depth)
  show ?case
  proof (cases "get name v")
    case (Inl e)
    then show ?thesis by (simp add: fill_default.simps)
  next
    case (Inr r)
    obtain f field put where r: "r = (f, field, put)" by (cases r)
    have kids: "fold_result (\<lambda>c. fill_default N F get (Suc depth) (name @ c @ ''/'') opt' True) cs u
        = fold_result (\<lambda>c. fill_default N F get depth (name @ c @ ''/'') opt' True) cs u"
      if "fold_result (\<lambda>c. fill_default N F get depth (name @ c @ ''/'') opt' True) cs u \<noteq> Inl StackOverflow" for opt' cs u
      by (rule fold_result_agree [OF that]) (rule Suc.IH)
    have items: "fold_result (\<lambda>i. fill_default N F get (Suc depth) (sub_array name i) opt' False) is u
        = fold_result (\<lambda>i. fill_default N F get depth (sub_array name i) opt' False) is u"
      if "fold_result (\<lambda>i. fill_default N F get depth (sub_array name i) opt' False) is u \<noteq> Inl StackOverflow" for opt' "is" u
      by (rule fold_result_agree [OF that]) (rule Suc.IH)
    have unfold: "fill_default N F get (Suc d) name opt atom v =
        (let opt' = opt \<or> fd_optional f;
           fill_children = (\<lambda>children.
             fold_result (\<lambda>child. fill_default N F get d (name @ child @ ''/'') opt' True)
               (get_children_names children) (put (if is_null field then JObject [] else field)))
         in case fd_kind f of
            KObject children _ \<Rightarrow> fill_children children
          | KObjectArray children \<Rightarrow>
              if atom then
                let field' = (if is_null field then JArray [] else field) in
                (case field' of
                   JArray vs \<Rightarrow>
                     fold_result (\<lambda>index. fill_default N F get d (sub_array name index) opt' False)
                       [0 ..< length vs] (put field')
                 | _ \<Rightarrow> Inr (put field'))
              else fill_children children
          | kind \<Rightarrow> rbind (fill_scalar N F name kind field opt') (\<lambda>x. Inr (put_assigned put field x)))" for d
      by (simp add: fill_default.simps Inr r)
    from Suc.prems show ?thesis
      unfolding unfold [of "Suc depth"] unfold [of depth] Let_def
      by (auto simp: kids items split: native_kind.splits json.splits if_splits)
  qed
qed

lemma fill_default_enough:
  assumes "fill_default N F get d name opt atom v \<noteq> Inl StackOverflow" "d \<le> depth"
  shows "fill_default N F get depth name opt atom v = fill_default N F get d name opt atom v"
  using assms(2)
proof (induction depth rule: dec_induct)
  case (step n)
  with assms(1) fill_default_mono [of N F get n name opt atom v] show ?case by simp
qed simp

lemma child_step_base:
  assumes "child_step strict B bn b c x = Inr (Found f z put)" "B bn = Some b"
  shows "B (base_step bn c) = Some f"
  using assms
  by (auto simp: child_step_def base_step_def enter_array_def index_array_def enter_object_def Let_def
      split: option.splits json.splits if_splits)

lemma wrap_FoundD: "wrap g l = Found f x put \<Longrightarrow> \<exists>p. l = Found f x p"
  by (cases l) auto

lemma focus_base: "focus strict B cs v = Inr (Found f x put) \<Longrightarrow> B (base cs) = Some f"
proof (induction cs arbitrary: f x put rule: rev_induct)
  case Nil
  then show ?case by (auto simp: focus_def split: option.splits)
next
  case (snoc c cs)
  from snoc.prems obtain l where l: "focus strict B cs v = Inr l"
    by (auto simp: focus_snoc bind_found_def)
  show ?case
  proof (cases l)
    case (Found b z p)
    with l have found: "focus strict B cs v = Inr (Found b z p)" by simp
    with snoc.prems obtain q where "child_step strict B (base cs) b c z = Inr (Found f x q)"
      by (auto simp: focus_snoc dest!: wrap_FoundD)
    with child_step_base snoc.IH [OF found] show ?thesis by auto
  next
    case (Missing u)
    with l snoc.prems show ?thesis by (simp add: focus_snoc)
  qed
qed

definition longest :: "string list \<Rightarrow> nat" where
  "longest ns = foldr (\<lambda>n l. max (length n) l) ns 0"

lemma longest_ge: "n \<in> set ns \<Longrightarrow> length n \<le> longest ns"
  by (induction ns) (auto simp: longest_def)

text \<open>A name is at most as deep as it is long; an array of objects takes one more level.\<close>

definition depth_needed :: "'f native_field list \<Rightarrow> nat" where
  "depth_needed fs = 2 * longest (map fd_name fs) + 3"

definition self_rooted :: "'f native_field list \<Rightarrow> bool" where
  "self_rooted fs \<longleftrightarrow>
     list_ex (\<lambda>f. fd_name f = ''/'' \<and> (case native_children (fd_kind f) of None \<Rightarrow> False | Some cs \<Rightarrow> ''/'' \<in> set cs)) fs"

text \<open>The depth a recursion at a field still needs.\<close>

definition enough :: "(string \<Rightarrow> 'f native_field option) \<Rightarrow> nat \<Rightarrow> string \<Rightarrow> bool \<Rightarrow> nat \<Rightarrow> bool" where
  "enough B l bn atom d \<longleftrightarrow> 0 < d \<and> (B bn \<noteq> None \<longrightarrow> 2 * (l - length bn) + (if atom then 2 else 1) < d)"

lemma enough_child:
  assumes "enough B l bn atom (Suc d)" "B bn = Some f" "c \<noteq> []" "parse_usize c = None"
    and l: "\<And>n f. B n = Some f \<Longrightarrow> length n \<le> l"
  shows "enough B l (base_step bn c) True d"
proof -
  have "length bn + 2 \<le> length (base_step bn c)"
    using assms(3,4) by (cases c) (auto simp: base_step_def)
  moreover have "length (base_step bn c) \<le> l" if "B (base_step bn c) \<noteq> None"
    using that l by auto
  ultimately show ?thesis using assms(1,2) by (auto simp: enough_def split: if_splits)
qed

lemma enough_item:
  assumes "enough B l bn True (Suc d)" "B bn = Some f" "c \<noteq> []"
    and l: "\<And>n f. B n = Some f \<Longrightarrow> length n \<le> l"
  shows "enough B l (base_step bn c) False d"
proof (cases "parse_usize c")
  case None
  have "length bn + 2 \<le> length (base_step bn c)"
    using None assms(3) by (cases c) (auto simp: base_step_def)
  moreover have "length (base_step bn c) \<le> l" if "B (base_step bn c) \<noteq> None"
    using that l by auto
  ultimately show ?thesis using assms(1,2) by (auto simp: enough_def)
next
  case (Some i)
  with assms(1,2) show ?thesis by (auto simp: enough_def base_step_def)
qed

lemma item_get_field_found:
  "item_get_field BM name v = Inr (f, x, put) \<longleftrightarrow> walk_name False (bt_lookup BM) name v = Inr (Found f x put)"
proof (cases "walk_name False (bt_lookup BM) name v")
  case (Inr l)
  then show ?thesis by (cases l) (auto simp: item_get_field_def item_try_get_field_def)
qed (simp add: item_get_field_def item_try_get_field_def)

lemma fill_default_finishes:
  assumes B: "tree_lookup (bt_lookup BM)"
    and l: "\<And>n f. bt_lookup BM n = Some f \<Longrightarrow> length n \<le> l"
    and root: "\<And>f cs. bt_lookup BM ''/'' = Some f \<Longrightarrow> native_children (fd_kind f) = Some cs \<Longrightarrow> [] \<notin> set (get_children_names cs)"
  shows "\<forall>c \<in> set cs. no_slash c \<Longrightarrow> enough (bt_lookup BM) l (base cs) atom d
    \<Longrightarrow> fill_default N F (item_get_field BM) d (join_name cs) opt atom v \<noteq> Inl StackOverflow"
proof (induction d arbitrary: cs opt atom v)
  case 0
  then show ?case by (simp add: enough_def)
next
  case (Suc d)
  show ?case
  proof (cases "item_get_field BM (join_name cs) v")
    case (Inl e)
    with get_field_errors [of BM "join_name cs" v] show ?thesis by (auto simp: fill_default.simps)
  next
    case (Inr r)
    obtain f x put where r: "r = (f, x, put)" by (cases r)
    have "walk_name False (bt_lookup BM) (join_name cs) v = Inr (Found f x put)"
      using Inr r by (simp add: item_get_field_found)
    then have "focus False (bt_lookup BM) cs v = Inr (Found f x put)"
      using walk_name_focus [OF Suc.prems(1)] by blast
    then have f: "bt_lookup BM (base cs) = Some f" by (rule focus_base)
    have kids: "fold_result (\<lambda>c. fill_default N F (item_get_field BM) d (join_name cs @ c @ ''/'') opt' True)
          (get_children_names children) u \<noteq> Inl StackOverflow"
      if ch: "native_children (fd_kind f) = Some children" for children opt' u
    proof (rule fold_result_no_error)
      fix c w assume c: "c \<in> set (get_children_names children)"
      have "plain_key c"
        using tree_children [OF B f ch] c root [of f children] ch f by (auto simp: child_keys_def)
      then have plain: "c \<noteq> []" "parse_usize c = None" "no_slash c" by (auto simp: plain_key_def)
      have "enough (bt_lookup BM) l (base (cs @ [c])) True d"
        using enough_child [OF Suc.prems(2) f plain(1,2)] l by simp
      with Suc.IH [of "cs @ [c]" True opt' w] Suc.prems(1) plain(3)
      show "fill_default N F (item_get_field BM) d (join_name cs @ c @ ''/'') opt' True w \<noteq> Inl StackOverflow"
        by (simp add: join_name_snoc)
    qed
    have items: "fold_result (\<lambda>i. fill_default N F (item_get_field BM) d (sub_array (join_name cs) i) opt' False) is u
        \<noteq> Inl StackOverflow" if "atom" for opt' "is" u
    proof (rule fold_result_no_error)
      fix i w
      have "enough (bt_lookup BM) l (base (cs @ [show_nat i])) False d"
        using enough_item [of "bt_lookup BM" l "base cs" d f "show_nat i"] Suc.prems(2) that f l show_nat_digits by simp
      with Suc.IH [of "cs @ [show_nat i]" False opt' w] Suc.prems(1)
      show "fill_default N F (item_get_field BM) d (sub_array (join_name cs) i) opt' False w \<noteq> Inl StackOverflow"
        by (simp add: sub_array_join)
    qed
    show ?thesis
    proof (cases "is_scalar (fd_kind f)")
      case True
      then have "fill_default N F (item_get_field BM) (Suc d) (join_name cs) opt atom v
          = rbind (fill_scalar N F (join_name cs) (fd_kind f) x (opt \<or> fd_optional f)) (\<lambda>w. Inr (put_assigned put x w))"
        by (cases "fd_kind f") (simp_all add: fill_default.simps Inr r Let_def del: fill_scalar.simps)
      then show ?thesis by (simp add: rbind_eq_Inl fill_scalar_errors)
    next
      case False
      then consider (obj) children k where "fd_kind f = KObject children k"
        | (arr) children where "fd_kind f = KObjectArray children"
        by (cases "fd_kind f") auto
      then show ?thesis
      proof cases
        case (obj children k)
        with kids [of children] show ?thesis by (simp add: fill_default.simps Inr r Let_def)
      next
        case (arr children)
        with kids [of children] items show ?thesis
          by (auto simp: fill_default.simps Inr r Let_def split: json.split)
      qed
    qed
  qed
qed

section \<open>Converted items\<close>

lemma convert_conforms:
  assumes N: "lawful N" and snake: "\<And>s. no_slash (fm_snake F s)"
    and fs: "validate_model N snake load load_def spec = Inr fs"
    and v: "convert_model_item N F depth item fs = Inr v"
  shows "conforms N F (declared fs) False ''/'' v"
proof -
  have cmp: "total_cmp (f64_cmp N)" using N by (simp add: lawful_def)
  have ok: "field_tree fs \<and> (\<forall>f \<in> set fs. default_admitted N (fd_kind f))"
    by (rule validate_model_ok [OF fs]) (use check_kind_admits [OF cmp] in \<open>auto simp: checks_def\<close>)
  then have sorted: "sorted_wrt (<) (map fd_name fs)" by (simp add: field_tree_def)
  from v [unfolded convert_model_item_in [OF snake]] obtain f y where f: "declared fs ''/'' = Some f"
    and y: "item_update_in N F (declared fs) ''/'' f item False JNull = Inr y"
    and fill: "fill_in N F (declared fs) depth ''/'' f False True y = Inr v"
    by blast
  have "partial N F (declared fs) True ''/'' y"
    by (rule partial_arr, rule item_update_in_partial [OF snake y f]) (rule partial_null, rule f)
  then show ?thesis
    using fill_in_conforms [OF N declared_tree _ fill f] ok declared_mem [OF sorted] by blast
qed

definition sample_formats :: formats where
  "sample_formats = \<lparr>fm_datetime = \<lambda>_. False, fm_ip = \<lambda>_. True, fm_uuid = \<lambda>_. False, fm_snake = filter (\<lambda>c. c \<noteq> CHR ''/''),
     fm_now = ''now''\<rparr>"

lemma sample_snake: "no_slash (fm_snake sample_formats s)"
  by (simp add: sample_formats_def no_slash_def)

lemma int_numbers_lawful: "lawful int_numbers"
proof -
  have "total_cmp int_cmp" by unfold_locales (simp add: int_cmp_def)
  moreover have "int_as_i64 (sint n) = Some n" for n :: i64
    using sint_greater_eq [of n] sint_less [of n] by (simp add: int_as_i64_def)
  ultimately show ?thesis by (simp add: lawful_def int_numbers_def)
qed

definition sample_item :: "int json" where
  "sample_item = JObject [(''a'', JObject [(''b'', JNumber 7), (''unknown'', JBool True)])]"

lemma sample_basemap:
  "bt_of_list (map (\<lambda>p. (fd_name p, p)) sample_tree) = map (\<lambda>p. (fd_name p, p)) sample_tree"
  by code_simp

lemma sample_updates:
  "item_update int_numbers sample_formats (map (\<lambda>p. (fd_name p, p)) sample_tree) ''/'' sample_item False JNull
    = Inr (JObject [(''a'', JObject [(''b'', JNumber 7)])])"
  by (simp add: sample_item_def sample_tree_def sample_formats_def
      item_update.simps [of _ _ _ _ "JObject m" for m] item_update.simps [of _ _ _ _ "JNumber n" for n]
      item_update.simps [of _ _ _ _ "JBool b" for b] item_try_get_field_def walk_name_def cursor_of_name_def Let_def
      parse_usize_def parse_unsigned_def is_digit_def enter_object_def sub_object_def put_assigned_def assign_def
      assert_range_def assert_bound_def int_cmp_def int_numbers_def)

lemma sample_fills:
  "fill_default int_numbers sample_formats (item_get_field (map (\<lambda>p. (fd_name p, p)) sample_tree)) 3 ''/'' False True
      (JObject [(''a'', JObject [(''b'', JNumber 7)])])
    = Inr (JObject [(''a'', JObject [(''b'', JNumber 7)]), (''c'', JString ''x'')])"
  by (simp add: sample_tree_def numeral_3_eq_3 fill_default.simps item_get_field_def item_try_get_field_def
      walk_name_def cursor_of_name_def parse_usize_def parse_unsigned_def is_digit_def enter_object_def
      get_children_names_def get_children_name_def List.map_filter_simps put_assigned_def fill_with_def assign_def Let_def)

lemma sample_converts:
  "convert_model_item int_numbers sample_formats 3 sample_item sample_tree
    = Inr (JObject [(''a'', JObject [(''b'', JNumber 7)]), (''c'', JString ''x'')])"
  by (simp add: convert_model_item_def item_update_field_value_def item_finalize_def item_new_empty_def
      sample_basemap sample_updates sample_fills)

text \<open>C21: An item that is converted for a validated model conforms to it: an object has exactly the fields
  the model declares below it, each with a value that passes the check of its kind (type, bounds, choices,
  format), null only where the field or one around it is optional. What the item had beyond the model is
  dropped. The hypotheses are the laws of the order and the conversion of numbers, and that the snake case of
  a name has no slash. Source: \<open>convert_model_item\<close> in \<open>dash/provider/src/storage/kubernetes.rs\<close>,
  \<open>ItemTemplate\<close> in \<open>input.rs\<close>.\<close>

theorem converted_item_conforms:
  assumes "lawful N" "\<And>s. no_slash (fm_snake F s)"
    and "validate_model N snake load load_def spec = Inr fs"
    and "convert_model_item N F depth item fs = Inr v"
  shows "conforms N F (declared fs) False ''/'' v"
  by (rule convert_conforms [OF assms])

theorem converted_item_conforms_witness:
  "conforms int_numbers sample_formats (declared sample_tree) False ''/''
     (JObject [(''a'', JObject [(''b'', JNumber 7)]), (''c'', JString ''x'')])"
  by (rule converted_item_conforms [OF int_numbers_lawful sample_snake sample_validates sample_converts])

section \<open>Arrays of objects\<close>

lemma walk_panics_any_name: "walk strict B name bf es v = Inl IndexPanic \<longleftrightarrow> walk strict B name' bf es v = Inl IndexPanic"
proof (induction es arbitrary: bf v)
  case (Cons e es)
  show ?case
  proof (cases e)
    case (EnterArray bn i)
    with Cons.IH show ?thesis
      by (auto simp: enter_array_def index_array_def rbind_eq_Inl split: option.split json.split)
  next
    case (EnterObject bn c)
    with Cons.IH show ?thesis
      by (auto simp: enter_object_def rbind_eq_Inl split: option.split json.split)
  qed
qed simp


lemma walk_name_panics:
  assumes "\<forall>c \<in> set cs. no_slash c"
  shows "walk_name strict B (join_name cs) v = Inl IndexPanic \<longleftrightarrow> focus strict B cs v = Inl IndexPanic"
proof (cases "B ''/''")
  case (Some bf)
  have "walk strict B n bf (cursor_of_name (join_name cs)) v = Inl IndexPanic
      \<longleftrightarrow> walk strict B n bf (cursor ''/'' cs) v = Inl IndexPanic" for n
  proof (cases "walk strict B n bf (cursor ''/'' cs) v")
    case (Inr l)
    then show ?thesis
      unfolding cursor_of_name_def split_join_name [OF assms] cursor_append walk_append
      by (cases l) (simp_all add: Let_def)
  qed (simp add: cursor_of_name_def split_join_name [OF assms] cursor_append walk_append)
  with Some show ?thesis
    by (simp add: walk_name_def focus_def walk_panics_any_name [of _ _ "join_name cs" _ _ _ "[]"])
qed (simp add: walk_name_def focus_def)

text \<open>The first element of an array that was null is out of its bounds: the array has no elements.\<close>

lemma first_index_panics:
  fixes v :: "'n json"
  assumes "\<forall>c \<in> set cs. no_slash c" and found: "walk_name strict B (join_name cs) v = Inr (Found f JNull put)"
  shows "walk_name strict B (sub_array (join_name cs) 0) (put JNull) = Inl IndexPanic"
proof -
  have f: "focus strict B cs v = Inr (Found f JNull put)"
    using walk_name_focus [OF assms(1)] found by blast
  have "child_step strict B (base cs) f (show_nat 0) (JNull :: 'n json) = Inl IndexPanic"
    using focus_base [OF f] by (simp add: child_step_simps(4) [OF parse_show_zero] enter_array_def index_array_def)
  then have "focus strict B (cs @ [show_nat 0]) (put JNull) = Inl IndexPanic"
    by (simp add: focus_snoc focus_put [OF f])
  then show ?thesis
    using walk_name_panics [of "cs @ [show_nat 0]" strict B "put JNull"] assms(1) by (simp add: sub_array_join)
qed

text \<open>A list of objects cannot be given for a field that holds nothing yet: with the first element the
  template panics, since \<open>get_field\<close> turns the null value into an array of \<open>index\<close> (here 0) nulls and
  then indexes it. Only the empty list is taken. Source: \<open>ItemTemplate::get_field\<close> and
  \<open>update_field_value_impl\<close> in \<open>dash/provider/src/input.rs\<close>.\<close>

theorem object_array_items_panic:
  assumes "\<forall>c \<in> set cs. no_slash c" and "item_get_field B (join_name cs) v = Inr (f, JNull, put)"
    and "fd_kind f = KObjectArray children"
  shows "item_update N F B (join_name cs) (JArray (w # ws)) opt v = Inl IndexPanic"
proof -
  have found: "walk_name False (bt_lookup B) (join_name cs) v = Inr (Found f JNull put)"
    using assms(2) by (simp add: item_get_field_found)
  have "item_update N F B (sub_array (join_name cs) 0) w opt' (put JNull) = Inl IndexPanic" for opt'
    by (subst item_update.simps) (simp add: item_try_get_field_def first_index_panics [OF assms(1) found])
  then show ?thesis
    using assms(3) found
    by (simp add: item_update.simps [of N F B "join_name cs" "JArray (w # ws)"] item_try_get_field_def Let_def)
qed

definition sample_list :: "(string \<times> int native_field) list" where
  "sample_list =
     [(''/'', \<lparr>fd_name = ''/'', fd_kind = KObject [''/xs/''] OStatic, fd_optional = False\<rparr>),
      (''/xs/'', \<lparr>fd_name = ''/xs/'', fd_kind = KObjectArray [], fd_optional = False\<rparr>)]"

theorem object_array_items_panic_witness:
  "item_update int_numbers sample_formats sample_list ''/xs/'' (JArray [JObject []]) False JNull = Inl IndexPanic"
proof -
  have "item_get_field sample_list (join_name [[], ''xs'']) JNull
      = Inr (\<lparr>fd_name = ''/xs/'', fd_kind = KObjectArray [], fd_optional = False\<rparr>, JNull, \<lambda>y. JObject [(''xs'', y)])"
    by (simp add: sample_list_def join_name_def item_get_field_def item_try_get_field_def walk_name_def
        cursor_of_name_def parse_usize_def parse_unsigned_def is_digit_def enter_object_def Let_def)
  from object_array_items_panic [OF _ this, where children = "[]" and N = int_numbers and F = sample_formats
      and w = "JObject []" and ws = "[]" and opt = False]
  show ?thesis
    by (simp add: join_name_def no_slash_def)
qed

section \<open>Filling in the defaults ends\<close>

lemma self_child_is_root:
  assumes "tree_lookup B" "B n = Some f" "native_children (fd_kind f) = Some cs" "[] \<in> set (get_children_names cs)"
  shows "n = ''/'' \<and> ''/'' \<in> set cs"
proof -
  from assms(4) obtain m where m: "m \<in> set cs" "get_children_name m = Some []"
    by (auto simp: get_children_names_def List.map_filter_def)
  have name: "m = ''/''" if "is_match re_name m"
  proof -
    from that obtain ks where ks: "m = path ks" "\<forall>k \<in> set ks. ident k" by (auto simp: re_name_path)
    then have "ks = [] \<or> last ks = []" using m(2) get_children_name_path [of ks] by (auto split: if_splits)
    moreover have "ident (last ks)" if "ks \<noteq> []" using ks(2) that by simp
    ultimately have "ks = []" by (auto simp: ident_def)
    with ks(1) show ?thesis by (simp add: path_Nil)
  qed
  from assms(1-3) consider "B m \<noteq> None" "parent_name m = Some n" | "m = n"
    using m(1) unfolding tree_lookup_def by blast
  then show ?thesis
  proof cases
    case 1
    then have "is_match re_name m" using assms(1) by (auto simp: tree_lookup_def)
    from name [OF this] 1 show ?thesis by (simp add: parent_name_def)
  next
    case 2
    then have "is_match re_name m" using assms(1,2) by (auto simp: tree_lookup_def)
    from name [OF this] 2 m(1) show ?thesis by simp
  qed
qed

lemma base_root: "base [[]] = ''/''"
  using base_simps(2) [of "[]" "[]"] by simp

lemma finalize_ends:
  assumes fs: "validate_model N snake load load_def spec = Inr fs" and root: "\<not> self_rooted fs"
  shows "item_finalize M F (depth_needed fs) ((item_new_empty fs)\<lparr>im_map := v\<rparr>) \<noteq> Inl StackOverflow"
proof -
  let ?BM = "bt_of_list (map (\<lambda>p. (fd_name p, p)) fs)"
  have tree: "field_tree fs" using validate_model_ok [OF fs, of "\<lambda>_. True"] by (simp add: checks_def)
  then have mem: "\<And>n f. declared fs n = Some f \<longleftrightarrow> f \<in> set fs \<and> fd_name f = n"
    by (intro declared_mem) (simp add: field_tree_def)
  have look: "bt_lookup ?BM = declared fs" by (simp add: declared_def fun_eq_iff)
  note B = declared_tree [OF tree]
  have "fill_default M F (item_get_field ?BM) (depth_needed fs) (join_name [[]]) False True v \<noteq> Inl StackOverflow"
  proof (rule fill_default_finishes [where l = "longest (map fd_name fs)"])
    show "tree_lookup (bt_lookup ?BM)" using B look by simp
    fix n f assume "bt_lookup ?BM n = Some f"
    then show "length n \<le> longest (map fd_name fs)" using mem look by (auto intro: longest_ge)
  next
    fix f cs assume "bt_lookup ?BM ''/'' = Some f" "native_children (fd_kind f) = Some cs"
    then show "[] \<notin> set (get_children_names cs)"
      using self_child_is_root [OF B, of "''/''" f cs] root mem look by (auto simp: self_rooted_def list_ex_iff)
  next
    show "enough (bt_lookup ?BM) (longest (map fd_name fs)) (base [[]]) True (depth_needed fs)"
      by (auto simp: enough_def depth_needed_def base_root)
  qed (simp add: no_slash_def)
  then show ?thesis by (simp add: item_finalize_def item_new_empty_def join_name_root)
qed

text \<open>C24: Filling in the defaults ends for every validated model whose root does not name itself, whatever
  the template holds: twice the length of the longest name and three more is a depth of recursion that is
  never used up, and more depth does not change the outcome. Source: \<open>ItemTemplate::finalize\<close> and
  \<open>fill_default_value\<close> in \<open>dash/provider/src/input.rs\<close>.\<close>

theorem defaults_terminate:
  assumes "validate_model N snake load load_def spec = Inr fs" and "\<not> self_rooted fs" and "depth_needed fs \<le> depth"
  shows "item_finalize M F depth ((item_new_empty fs)\<lparr>im_map := v\<rparr>) \<noteq> Inl StackOverflow
    \<and> item_finalize M F depth ((item_new_empty fs)\<lparr>im_map := v\<rparr>)
      = item_finalize M F (depth_needed fs) ((item_new_empty fs)\<lparr>im_map := v\<rparr>)"
  using finalize_ends [OF assms(1,2), of M F v, unfolded item_finalize_def]
  by (simp add: item_finalize_def fill_default_enough [OF _ assms(3)])

theorem defaults_terminate_witness:
  "item_finalize int_numbers sample_formats 100 ((item_new_empty sample_tree)\<lparr>im_map := sample_item\<rparr>)
    \<noteq> Inl StackOverflow
    \<and> item_finalize int_numbers sample_formats 100 ((item_new_empty sample_tree)\<lparr>im_map := sample_item\<rparr>)
      = item_finalize int_numbers sample_formats (depth_needed sample_tree) ((item_new_empty sample_tree)\<lparr>im_map := sample_item\<rparr>)"
proof (rule defaults_terminate [OF sample_validates])
  show "\<not> self_rooted sample_tree" "depth_needed sample_tree \<le> 100" by code_simp+
qed

text \<open>A model whose only field is a root that names itself as its child passes the validator, and then
  filling in the defaults never ends: no depth is enough, whatever the template holds. The child of the root
  has the name of the root, so the recursion comes back to it. Source: \<open>assert_aggregation_type\<close> in
  \<open>dash/operator/src/validator/model.rs\<close>, \<open>fill_default_value\<close> in \<open>dash/provider/src/input.rs\<close>.\<close>

theorem self_rooted_model_never_finishes:
  "validate_native_fields int_numbers self_root = Inr self_root
   \<and> item_finalize N F depth ((item_new_empty self_root)\<lparr>im_map := v\<rparr>) = Inl StackOverflow"
proof -
  have get: "item_get_field [(''/'', \<lparr>fd_name = ''/'', fd_kind = KObject [''/''] OStatic, fd_optional = False\<rparr>)]
        (CHR ''/'' # replicate k CHR ''/'') v
      = Inr (\<lparr>fd_name = ''/'', fd_kind = KObject [''/''] OStatic, fd_optional = False\<rparr>, v, \<lambda>y. y)" for k v
  proof -
    have "CHR ''/'' # replicate k CHR ''/'' = join_name ([] # replicate k [])"
      by (induction k) (simp_all add: join_name_def)
    moreover have "focus False B ([] # replicate k []) v = Inr (Found f v (\<lambda>y. y))" if "B ''/'' = Some f"
      for B and f :: "'c native_field"
      using that by (induction k) (simp_all add: focus_def Let_def)
    ultimately show ?thesis
      by (subst item_get_field_found) (simp add: walk_name_focus no_slash_def)
  qed
  have "fill_default N F (item_get_field [(''/'', \<lparr>fd_name = ''/'', fd_kind = KObject [''/''] OStatic, fd_optional = False\<rparr>)])
      depth (CHR ''/'' # replicate k CHR ''/'') opt True v = Inl StackOverflow" for k opt v
  proof (induction depth arbitrary: k opt v)
    case (Suc depth)
    from Suc.IH [of "Suc k"] show ?case
      by (simp add: fill_default.simps get Let_def get_children_names_def get_children_name_def List.map_filter_simps replicate_append_same)
  qed (simp add: fill_default.simps)
  from this [of 0] show ?thesis
    by (simp add: self_root_validates [unfolded self_root_def] item_finalize_def item_new_empty_def self_root_def bt_of_list_def)
qed

section \<open>Inputs as strings and as values\<close>

lemma input_get_field_put:
  assumes "input_get_field B name v = Inr (spec, field, put)"
  shows "input_get_field B name (put y) = Inr (spec, y, put)"
proof -
  obtain l where l: "walk_name True (bt_lookup B) name v = Inr l"
    using assms by (cases "walk_name True (bt_lookup B) name v") (auto simp: input_get_field_def)
  with assms have "walk_name True (bt_lookup B) name v = Inr (Found spec field put)"
    by (cases l) (auto simp: input_get_field_def)
  then have "walk_name True (bt_lookup B) name (put y) = Inr (Found spec y put)"
    by (auto simp: walk_name_def dest: walk_put split: option.splits)
  then show ?thesis by (simp add: input_get_field_def)
qed

lemma input_scalar_string_agrees:
  assumes "is_scalar k" "case k of KNumber _ _ _ \<Rightarrow> False | KStringArray \<Rightarrow> False | _ \<Rightarrow> True"
  shows "input_scalar_string N F name k s = Inr x \<longleftrightarrow> input_scalar N F name k (JString s) opt = Inr (Some x)"
  using assms
  by (cases k) (auto simp: assign_def string_value_def or_fail_def opt_bind_def or_else_def assert_optional_def
      split: option.splits)

lemma input_scalar_of_string:
  assumes "is_scalar k"
  shows "input_scalar N F name k (JString s) opt \<noteq> Inr None"
  using assms
  by (cases k) (auto simp: assign_def string_value_def rbind_eq_Inr assert_optional_def split: option.splits)

text \<open>C25: An input given as the string \<open>s\<close> and an input given as the JSON string \<open>s\<close> are taken alike: one
  is accepted exactly when the other is, with the same outcome, for every kind of field but two. A number
  keeps its digits only as a string, and an array of objects takes the empty string only there. Source:
  \<open>update_field_string_impl\<close> and \<open>update_field_value_impl\<close> of \<open>InputTemplate\<close> in
  \<open>dash/provider/src/input.rs\<close>.\<close>

theorem string_and_value_inputs_agree:
  assumes found: "input_get_field B name v = Inr (spec, field, put)"
    and kind: "case fd_kind (fs_parsed spec) of KNumber _ _ _ \<Rightarrow> False | KObjectArray _ \<Rightarrow> False | _ \<Rightarrow> True"
  shows "input_update_string N F storage B (Suc depth) name s opt v = Inr w
    \<longleftrightarrow> input_update N F storage B (Suc (Suc depth)) name (JString s) opt v = Inr w"
proof (cases "is_scalar (fd_kind (fs_parsed spec)) \<and> fd_kind (fs_parsed spec) \<noteq> KStringArray")
  case True
  let ?k = "fd_kind (fs_parsed spec)" and ?opt = "opt \<or> fd_optional (fs_parsed spec)"
  have "input_update_string N F storage B (Suc depth) name s opt v
      = rbind (input_scalar_string N F name ?k s) (\<lambda>x. Inr (put x))"
    using True by (cases ?k) (simp_all add: input_update_string_def found Let_def del: input_scalar_string.simps)
  moreover have "input_update N F storage B (Suc (Suc depth)) name (JString s) opt v
      = rbind (input_scalar N F name ?k (JString s) ?opt) (\<lambda>x. Inr (put_assigned put field x))"
    using True by (cases ?k)
      (simp_all add: input_update.simps(2) [of N F storage B "Suc depth"] found Let_def del: input_scalar.simps)
  moreover have "case ?k of KNumber _ _ _ \<Rightarrow> False | KStringArray \<Rightarrow> False | _ \<Rightarrow> True"
    using True kind by (cases ?k) simp_all
  ultimately show ?thesis
    using True input_scalar_string_agrees [of ?k N F name s _ ?opt] input_scalar_of_string [of ?k N F name s ?opt]
    by (auto simp: put_assigned_def split: option.splits)
next
  case False
  with kind consider "fd_kind (fs_parsed spec) = KStringArray" | children k where "fd_kind (fs_parsed spec) = KObject children k"
    by (cases "fd_kind (fs_parsed spec)") auto
  then show ?thesis
    by cases
      (simp_all add: input_update_string_def input_update.simps found input_get_field_put [OF found] Let_def assign_def)
qed

definition sample_inputs :: "(string \<times> int input_field_spec) list" where
  "sample_inputs = bt_of_list [(''/'', \<lparr>fs_original = None, fs_parsed = metadata_field ''/'' (KObject [''/on/''] OStatic)\<rparr>),
     (''/on/'', \<lparr>fs_original = None, fs_parsed = metadata_field ''/on/'' (KBoolean None)\<rparr>)]"

theorem string_and_value_inputs_agree_witness:
  "input_update int_numbers sample_formats (\<lambda>_ _. Inl NoFields) sample_inputs 2 ''/on/'' (JString ''true'') False JNull
     = Inr (JObject [(''on'', JBool True)])"
proof -
  have get: "input_get_field sample_inputs ''/on/'' (JNull :: int json)
      = Inr (\<lparr>fs_original = None, fs_parsed = metadata_field ''/on/'' (KBoolean None)\<rparr>, JNull, \<lambda>y. JObject [(''on'', y)])"
    by (simp add: sample_inputs_def bt_of_list_def input_get_field_def walk_name_def
        cursor_of_name_def parse_usize_def parse_unsigned_def is_digit_def enter_object_def Let_def)
  have "input_update_string int_numbers sample_formats (\<lambda>_ _. Inl NoFields) sample_inputs 1 ''/on/'' ''true'' False JNull
      = Inr (JObject [(''on'', JBool True)])"
    by (simp add: input_update_string_def get metadata_field_def parse_bool_def or_fail_def Let_def)
  with string_and_value_inputs_agree [OF get, of int_numbers sample_formats "\<lambda>_ _. Inl NoFields" 0 "''true''" False]
  show ?thesis by (simp add: metadata_field_def numeral_2_eq_2)
qed

end
