(* ===== verification/Dash_Wire.thy ===== *)
theory Dash_Wire imports Dash_Json begin

text \<open>
  How the fields of a model are written to and read from JSON (\<open>ModelFieldSpec\<close> and its kinds in
  \<open>crates/dash/api/src/model.rs\<close>): the enum of the module \<open>serialize\<close> is written, the one of the module
  \<open>deserialize\<close> is read, and the kinds of a native field use one derived enum for both. \<open>serde\<close> names
  variants and fields in camel case, tags a value with the name of its variant, and merges the entries of
  a flattened member into the object around it. Objects are sorted maps.
\<close>

section \<open>Writing\<close>

definition json_object :: "(string \<times> 'n json) list \<Rightarrow> 'n json" where
  "json_object entries = JObject (bt_of_list entries)"

definition write_option :: "('a \<Rightarrow> 'n json) \<Rightarrow> 'a option \<Rightarrow> 'n json" where
  "write_option write x = (case x of None \<Rightarrow> JNull | Some a \<Rightarrow> write a)"

definition write_i64 :: "('n, 'f) numbers \<Rightarrow> i64 \<Rightarrow> 'n json" where
  "write_i64 N i = JNumber (num_of_i64 N i)"

definition write_u32 :: "('n, 'f) numbers \<Rightarrow> u32 \<Rightarrow> 'n json" where
  "write_u32 N n = JNumber (num_of_i64 N (ucast n))"

text \<open>An infinity or NaN is written as null.\<close>

definition write_f64 :: "('n, 'f) numbers \<Rightarrow> 'f \<Rightarrow> 'n json" where
  "write_f64 N x = (case num_of_f64 N x of Some n \<Rightarrow> JNumber n | None \<Rightarrow> JNull)"

definition write_strings :: "string list \<Rightarrow> 'n json" where
  "write_strings ss = JArray (map JString ss)"

fun write_date_default :: "date_default \<Rightarrow> 'n json" where
  "write_date_default Now = JString ''Now''"

text \<open>The name of the variant, and the object of its fields.\<close>

fun write_string_spec :: "('n, 'f) numbers \<Rightarrow> string_spec \<Rightarrow> string \<times> 'n json" where
  "write_string_spec N SDynamic = (''dynamic'', json_object [])"
| "write_string_spec N (SStatic len) = (''static'', json_object [(''length'', write_u32 N len)])"
| "write_string_spec N (SRange mn mx) =
     (''range'', json_object [(''minimum'', write_option (write_u32 N) mn), (''maximum'', write_u32 N mx)])"

fun write_object_spec :: "object_spec \<Rightarrow> 'n json" where
  "write_object_spec ODynamic = json_object [(''dynamic'', json_object [])]"
| "write_object_spec (OEnumerate cs) =
     json_object [(''enumerate'', json_object [(''choices'', write_strings cs)])]"
| "write_object_spec OStatic = json_object [(''static'', json_object [])]"

text \<open>The derived \<open>Serialize\<close> of \<open>ModelFieldKindNativeSpec\<close>; the string kind is flattened into its variant.\<close>

fun write_native :: "('n, 'f) numbers \<Rightarrow> 'f native_kind \<Rightarrow> string \<times> 'n json" where
  "write_native N KNone = (''none'', json_object [])"
| "write_native N (KBoolean d) = (''boolean'', json_object [(''default'', write_option JBool d)])"
| "write_native N (KInteger d mn mx) = (''integer'', json_object [(''default'', write_option (write_i64 N) d),
     (''minimum'', write_option (write_i64 N) mn), (''maximum'', write_option (write_i64 N) mx)])"
| "write_native N (KNumber d mn mx) = (''number'', json_object [(''default'', write_option (write_f64 N) d),
     (''minimum'', write_option (write_f64 N) mn), (''maximum'', write_option (write_f64 N) mx)])"
| "write_native N (KString d k) =
     (''string'', json_object [(''default'', write_option JString d), write_string_spec N k])"
| "write_native N (KOneOfStrings d cs) =
     (''oneOfStrings'', json_object [(''default'', write_option JString d), (''choices'', write_strings cs)])"
| "write_native N (KDateTime d) =
     (''dateTime'', json_object [(''default'', write_option write_date_default d)])"
| "write_native N KIp = (''ip'', json_object [])"
| "write_native N KUuid = (''uuid'', json_object [])"
| "write_native N KStringArray = (''stringArray'', json_object [])"
| "write_native N (KObject cs k) =
     (''object'', json_object [(''children'', write_strings cs), (''kind'', write_object_spec k)])"
| "write_native N (KObjectArray cs) = (''objectArray'', json_object [(''children'', write_strings cs)])"

text \<open>The enum of the module \<open>serialize\<close> has the variants of both kinds.\<close>

fun write_kind :: "('n, 'f) numbers \<Rightarrow> 'f field_kind \<Rightarrow> string \<times> 'n json" where
  "write_kind N (Native kind) = write_native N kind"
| "write_kind N (Extended (KModel name)) = (''model'', json_object [(''name'', JString name)])"

text \<open>\<open>ModelFieldSpec<Kind>\<close>: the kind and the attribute are flattened.\<close>

definition write_field :: "('k \<Rightarrow> string \<times> 'n json) \<Rightarrow> 'k field \<Rightarrow> 'n json" where
  "write_field write f =
     json_object [(''name'', JString (fd_name f)), write (fd_kind f), (''optional'', JBool (fd_optional f))]"

section \<open>Reading\<close>

text \<open>The members of a struct, by name: an object, or an array that gives them in order.\<close>

definition struct_members :: "string list \<Rightarrow> 'n json \<Rightarrow> dash_error + (string \<Rightarrow> 'n json option)" where
  "struct_members names v =
     (case v of
        JObject m \<Rightarrow> Inr (bt_lookup m)
      | JArray xs \<Rightarrow> if length xs \<le> length names then Inr (map_of (zip names xs)) else Inl (TypeMismatch ''array'')
      | _ \<Rightarrow> Inl (TypeMismatch ''struct''))"

text \<open>A member that has to be there, one with a default, and one of type \<open>Option\<close> with a default.\<close>

definition required_member :: "('n json \<Rightarrow> dash_error + 'a) \<Rightarrow> string \<Rightarrow> (string \<Rightarrow> 'n json option) \<Rightarrow> dash_error + 'a" where
  "required_member read name m = (case m name of None \<Rightarrow> Inl (MissingValue name) | Some v \<Rightarrow> read v)"

definition member_or :: "'a \<Rightarrow> ('n json \<Rightarrow> dash_error + 'a) \<Rightarrow> string \<Rightarrow> (string \<Rightarrow> 'n json option) \<Rightarrow> dash_error + 'a" where
  "member_or d read name m = (case m name of None \<Rightarrow> Inr d | Some v \<Rightarrow> read v)"

definition read_option :: "('n json \<Rightarrow> dash_error + 'a) \<Rightarrow> 'n json \<Rightarrow> dash_error + 'a option" where
  "read_option read v = (if v = JNull then Inr None else rbind (read v) (\<lambda>a. Inr (Some a)))"

definition option_member ::
  "('n json \<Rightarrow> dash_error + 'a) \<Rightarrow> string \<Rightarrow> (string \<Rightarrow> 'n json option) \<Rightarrow> dash_error + 'a option" where
  "option_member read = member_or None (read_option read)"

definition read_bool :: "'n json \<Rightarrow> dash_error + bool" where
  "read_bool v = or_fail (TypeMismatch ''bool'') (as_bool v)"

definition read_string :: "'n json \<Rightarrow> dash_error + string" where
  "read_string v = or_fail (TypeMismatch ''string'') (as_str v)"

definition read_i64 :: "('n, 'f) numbers \<Rightarrow> 'n json \<Rightarrow> dash_error + i64" where
  "read_i64 N v = or_fail (TypeMismatch ''i64'') (as_i64 N v)"

definition read_u32 :: "('n, 'f) numbers \<Rightarrow> 'n json \<Rightarrow> dash_error + u32" where
  "read_u32 N v = rbind (read_i64 N v) (\<lambda>i.
     if 0 \<le> sint i \<and> sint i < 2 ^ 32 then Inr (ucast i) else Inl (TypeMismatch ''u32''))"

definition read_f64 :: "('n, 'f) numbers \<Rightarrow> 'n json \<Rightarrow> dash_error + 'f" where
  "read_f64 N v = or_fail (TypeMismatch ''f64'') (as_f64 N v)"

definition read_strings :: "'n json \<Rightarrow> dash_error + string list" where
  "read_strings v = (case v of JArray vs \<Rightarrow> traverse read_string vs | _ \<Rightarrow> Inl (TypeMismatch ''array''))"

text \<open>A unit variant is its name, or an object that maps its name to null.\<close>

definition read_date_default :: "'n json \<Rightarrow> dash_error + date_default" where
  "read_date_default v =
     (case v of
        JString s \<Rightarrow> if s = ''Now'' then Inr Now else Inl (UnknownVariant s)
      | JObject [(s, u)] \<Rightarrow>
          if s \<noteq> ''Now'' then Inl (UnknownVariant s) else if u = JNull then Inr Now else Inl (TypeMismatch ''unit'')
      | _ \<Rightarrow> Inl (TypeMismatch ''enum''))"

text \<open>A flattened enum is the first entry whose key is the name of one of its variants.\<close>

definition flat_variant :: "string list \<Rightarrow> (string \<times> 'n json) list \<Rightarrow> (string \<times> 'n json) option" where
  "flat_variant names m = List.find (\<lambda>(k, _). k \<in> set names) m"

text \<open>An enum that is not flattened is an object of one entry; all its variants here have a struct.\<close>

definition single_variant :: "'n json \<Rightarrow> dash_error + string \<times> 'n json" where
  "single_variant v =
     (case v of
        JObject [(tag, u)] \<Rightarrow> Inr (tag, u)
      | _ \<Rightarrow> Inl (TypeMismatch ''enum''))"

definition read_string_spec :: "('n, 'f) numbers \<Rightarrow> string \<times> 'n json \<Rightarrow> dash_error + string_spec" where
  "read_string_spec N w =
     (let (tag, v) = w in
      if tag = ''dynamic'' then rbind (struct_members [] v) (\<lambda>_. Inr SDynamic)
      else if tag = ''static'' then
        rbind (struct_members [''length''] v) (\<lambda>m.
        rbind (required_member (read_u32 N) ''length'' m) (\<lambda>len. Inr (SStatic len)))
      else if tag = ''range'' then
        rbind (struct_members [''minimum'', ''maximum''] v) (\<lambda>m.
        rbind (option_member (read_u32 N) ''minimum'' m) (\<lambda>mn.
        rbind (required_member (read_u32 N) ''maximum'' m) (\<lambda>mx. Inr (SRange mn mx))))
      else Inl (UnknownVariant tag))"

definition read_object_spec :: "'n json \<Rightarrow> dash_error + object_spec" where
  "read_object_spec v = rbind (single_variant v) (\<lambda>(tag, u).
     if tag = ''dynamic'' then rbind (struct_members [] u) (\<lambda>_. Inr ODynamic)
     else if tag = ''enumerate'' then
       rbind (struct_members [''choices''] u) (\<lambda>m.
       rbind (required_member read_strings ''choices'' m) (\<lambda>cs. Inr (OEnumerate cs)))
     else if tag = ''static'' then rbind (struct_members [] u) (\<lambda>_. Inr OStatic)
     else Inl (UnknownVariant tag))"

text \<open>
  The variant \<open>String\<close> has a flattened member, so only an object is read. What \<open>serde\<close> does when the
  object names no string kind, for a member that is flattened and has a default, is the argument \<open>absent\<close>:
  nothing that is written here lacks the kind.
\<close>

definition read_string_kind ::
  "('n, 'f) numbers \<Rightarrow> (dash_error + string_spec) \<Rightarrow> 'n json \<Rightarrow> dash_error + 'f native_kind" where
  "read_string_kind N absent v =
     (case v of
        JObject m \<Rightarrow>
          rbind (option_member read_string ''default'' (bt_lookup m)) (\<lambda>d.
          rbind (case flat_variant [''dynamic'', ''static'', ''range''] m of
                   None \<Rightarrow> absent | Some w \<Rightarrow> read_string_spec N w) (\<lambda>k.
          Inr (KString d k)))
      | _ \<Rightarrow> Inl (TypeMismatch ''struct''))"

definition read_native ::
  "('n, 'f) numbers \<Rightarrow> (dash_error + string_spec) \<Rightarrow> string \<times> 'n json \<Rightarrow> dash_error + 'f native_kind" where
  "read_native N absent w =
     (let (tag, v) = w in
      if tag = ''none'' then rbind (struct_members [] v) (\<lambda>_. Inr KNone)
      else if tag = ''boolean'' then
        rbind (struct_members [''default''] v) (\<lambda>m.
        rbind (option_member read_bool ''default'' m) (\<lambda>d. Inr (KBoolean d)))
      else if tag = ''integer'' then
        rbind (struct_members [''default'', ''minimum'', ''maximum''] v) (\<lambda>m.
        rbind (option_member (read_i64 N) ''default'' m) (\<lambda>d.
        rbind (option_member (read_i64 N) ''minimum'' m) (\<lambda>mn.
        rbind (option_member (read_i64 N) ''maximum'' m) (\<lambda>mx. Inr (KInteger d mn mx)))))
      else if tag = ''number'' then
        rbind (struct_members [''default'', ''minimum'', ''maximum''] v) (\<lambda>m.
        rbind (option_member (read_f64 N) ''default'' m) (\<lambda>d.
        rbind (option_member (read_f64 N) ''minimum'' m) (\<lambda>mn.
        rbind (option_member (read_f64 N) ''maximum'' m) (\<lambda>mx. Inr (KNumber d mn mx)))))
      else if tag = ''string'' then read_string_kind N absent v
      else if tag = ''oneOfStrings'' then
        rbind (struct_members [''default'', ''choices''] v) (\<lambda>m.
        rbind (option_member read_string ''default'' m) (\<lambda>d.
        rbind (required_member read_strings ''choices'' m) (\<lambda>cs. Inr (KOneOfStrings d cs))))
      else if tag = ''dateTime'' then
        rbind (struct_members [''default''] v) (\<lambda>m.
        rbind (option_member read_date_default ''default'' m) (\<lambda>d. Inr (KDateTime d)))
      else if tag = ''ip'' then rbind (struct_members [] v) (\<lambda>_. Inr KIp)
      else if tag = ''uuid'' then rbind (struct_members [] v) (\<lambda>_. Inr KUuid)
      else if tag = ''stringArray'' then rbind (struct_members [] v) (\<lambda>_. Inr KStringArray)
      else if tag = ''object'' then
        rbind (struct_members [''children'', ''kind''] v) (\<lambda>m.
        rbind (member_or [] read_strings ''children'' m) (\<lambda>cs.
        rbind (member_or default_object_spec read_object_spec ''kind'' m) (\<lambda>k. Inr (KObject cs k))))
      else if tag = ''objectArray'' then
        rbind (struct_members [''children''] v) (\<lambda>m.
        rbind (member_or [] read_strings ''children'' m) (\<lambda>cs. Inr (KObjectArray cs)))
      else Inl (UnknownVariant tag))"

text \<open>The enum of the module \<open>deserialize\<close>: the native variants but \<open>StringArray\<close>, and \<open>Model\<close>.\<close>

definition read_kind ::
  "('n, 'f) numbers \<Rightarrow> (dash_error + string_spec) \<Rightarrow> string \<times> 'n json \<Rightarrow> dash_error + 'f field_kind" where
  "read_kind N absent w =
     (let (tag, v) = w in
      if tag = ''model'' then
        rbind (struct_members [''name''] v) (\<lambda>m.
        rbind (required_member read_string ''name'' m) (\<lambda>name. Inr (Extended (KModel name))))
      else if tag = ''stringArray'' then Inl (UnknownVariant tag)
      else rbind (read_native N absent w) (\<lambda>kind. Inr (Native kind)))"

definition read_variants :: "string list" where
  "read_variants = [''none'', ''boolean'', ''integer'', ''number'', ''string'', ''oneOfStrings'', ''dateTime'',
     ''ip'', ''uuid'', ''object'', ''objectArray'', ''model'']"

definition native_variants :: "string list" where
  "native_variants = [''none'', ''boolean'', ''integer'', ''number'', ''string'', ''oneOfStrings'', ''dateTime'',
     ''ip'', ''uuid'', ''stringArray'', ''object'', ''objectArray'']"

definition read_field ::
  "string list \<Rightarrow> (string \<times> 'n json \<Rightarrow> dash_error + 'k) \<Rightarrow> 'n json \<Rightarrow> dash_error + 'k field" where
  "read_field variants read v =
     (case v of
        JObject m \<Rightarrow>
          rbind (required_member read_string ''name'' (bt_lookup m)) (\<lambda>name.
          rbind (case flat_variant variants m of
                   None \<Rightarrow> Inl (MissingValue ''kind'') | Some w \<Rightarrow> read w) (\<lambda>kind.
          rbind (member_or False read_bool ''optional'' (bt_lookup m)) (\<lambda>opt.
          Inr \<lparr>fd_name = name, fd_kind = kind, fd_optional = opt\<rparr>)))
      | _ \<Rightarrow> Inl (TypeMismatch ''struct''))"

definition serialize_field :: "('n, 'f) numbers \<Rightarrow> 'f any_field \<Rightarrow> 'n json" where
  "serialize_field N = write_field (write_kind N)"

definition deserialize_field ::
  "('n, 'f) numbers \<Rightarrow> (dash_error + string_spec) \<Rightarrow> 'n json \<Rightarrow> dash_error + 'f any_field" where
  "deserialize_field N absent = read_field read_variants (read_kind N absent)"

definition serialize_native_field :: "('n, 'f) numbers \<Rightarrow> 'f native_field \<Rightarrow> 'n json" where
  "serialize_native_field N = write_field (write_native N)"

definition deserialize_native_field ::
  "('n, 'f) numbers \<Rightarrow> (dash_error + string_spec) \<Rightarrow> 'n json \<Rightarrow> dash_error + 'f native_field" where
  "deserialize_native_field N absent = read_field native_variants (read_native N absent)"

section \<open>Round trips\<close>

text \<open>Numbers that are written can be read back.\<close>

definition wire_numbers :: "('n, 'f) numbers \<Rightarrow> bool" where
  "wire_numbers N \<longleftrightarrow> (\<forall>i. num_as_i64 N (num_of_i64 N i) = Some i) \<and>
     (\<forall>x n. num_of_f64 N x = Some n \<longrightarrow> num_as_f64 N n = Some x)"

text \<open>What is left of a kind on the wire: bounds and defaults that JSON has no number for are gone.\<close>

definition finite_only :: "('n, 'f) numbers \<Rightarrow> 'f option \<Rightarrow> 'f option" where
  "finite_only N x = (case x of Some a \<Rightarrow> if num_of_f64 N a = None then None else Some a | None \<Rightarrow> None)"

fun wire_native :: "('n, 'f) numbers \<Rightarrow> 'f native_kind \<Rightarrow> 'f native_kind" where
  "wire_native N (KNumber d mn mx) = KNumber (finite_only N d) (finite_only N mn) (finite_only N mx)"
| "wire_native N kind = kind"

fun wire_kind :: "('n, 'f) numbers \<Rightarrow> 'f field_kind \<Rightarrow> 'f field_kind" where
  "wire_kind N (Native kind) = Native (wire_native N kind)"
| "wire_kind N (Extended kind) = Extended kind"

lemma struct_members_object [simp]: "struct_members names (json_object es) = Inr (map_of (rev es))"
  by (simp add: struct_members_def json_object_def bt_lookup_of_list fun_eq_iff)

lemma json_object_not_null [simp]: "json_object es \<noteq> JNull"
  by (simp add: json_object_def)

lemma single_variant_object [simp]: "single_variant (json_object [(tag, v)]) = Inr (tag, v)"
  by (simp add: single_variant_def json_object_def bt_of_list_def)

lemma read_write_strings [simp]: "read_strings (write_strings ss) = Inr ss"
  by (simp add: read_strings_def write_strings_def traverse_Inr_iff list_all2_map1 list_all2_same read_string_def or_fail_def)

lemma read_write_option:
  "(\<And>a. read (write a) = Inr a \<and> write a \<noteq> JNull) \<Longrightarrow> read_option read (write_option write x) = Inr x"
  by (cases x) (auto simp: read_option_def write_option_def)

lemma read_write_bool [simp]: "read_option read_bool (write_option JBool d) = Inr d"
  by (rule read_write_option) (simp add: read_bool_def or_fail_def)

lemma read_write_string [simp]:
  "read_string (JString s) = Inr s" "read_option read_string (write_option JString d) = Inr d"
  by (simp_all add: read_string_def or_fail_def read_write_option)

lemma read_write_date [simp]: "read_option read_date_default (write_option write_date_default d) = Inr d"
proof (rule read_write_option)
  show "read_date_default (write_date_default a) = Inr a \<and> write_date_default a \<noteq> JNull" for a
    by (cases a) (simp add: read_date_default_def)
qed

lemma read_write_i64:
  "wire_numbers N \<Longrightarrow> read_i64 N (write_i64 N i) = Inr i"
  "wire_numbers N \<Longrightarrow> read_option (read_i64 N) (write_option (write_i64 N) d) = Inr d"
  by (simp_all add: read_i64_def write_i64_def or_fail_def wire_numbers_def read_write_option)

lemma read_write_f64:
  "wire_numbers N \<Longrightarrow> read_option (read_f64 N) (write_option (write_f64 N) x) = Inr (finite_only N x)"
  by (auto simp: read_option_def read_f64_def write_option_def write_f64_def or_fail_def wire_numbers_def
      finite_only_def split: option.split)

lemma u32_in_i64: "sint (ucast (n :: u32) :: i64) = uint n" "ucast (ucast n :: i64) = n"
proof -
  have "uint n < 2 ^ 32" using uint_lt2p [of n] by simp
  then show "sint (ucast n :: i64) = uint n"
    by (simp add: signed_ucast_eq) (rule signed_take_bit_int_eq_self; simp add: order_trans [OF _ uint_ge_0])
  show "ucast (ucast n :: i64) = n"
    by (rule bit_word_eqI) (simp add: bit_unsigned_iff)
qed

lemma read_write_u32:
  assumes "wire_numbers N"
  shows "read_u32 N (write_u32 N n) = Inr n" and "read_option (read_u32 N) (write_option (write_u32 N) d) = Inr d"
proof -
  show u: "read_u32 N (write_u32 N n) = Inr n" for n
    using uint_lt2p [of n] assms
    by (simp add: read_u32_def read_i64_def write_u32_def or_fail_def wire_numbers_def u32_in_i64)
  show "read_option (read_u32 N) (write_option (write_u32 N) d) = Inr d"
    by (rule read_write_option) (use u in \<open>simp add: write_u32_def\<close>)
qed

lemmas member_defs = required_member_def member_or_def option_member_def

lemma read_write_string_spec:
  "wire_numbers N \<Longrightarrow> read_string_spec N (write_string_spec N k) = Inr k"
  by (cases k) (simp_all add: read_string_spec_def member_defs read_write_u32)

lemma read_write_object_spec [simp]: "read_object_spec (write_object_spec k) = Inr k"
  by (cases k) (simp_all add: read_object_spec_def member_defs)

text \<open>A flattened enum is found, whatever other entries are there, when one variant is written.\<close>

lemma find_unique_key:
  assumes "distinct (map fst m)" and "(k, v) \<in> set m" and "P k" and "\<And>k'. k' \<in> fst ` set m \<Longrightarrow> P k' \<Longrightarrow> k' = k"
  shows "List.find (\<lambda>(k, _). P k) m = Some (k, v)"
  using assms
proof (induction m)
  case (Cons e m)
  obtain k' v' where e: "e = (k', v')" by fastforce
  show ?case
  proof (cases "k' = k")
    case True
    then have "(k, v) \<notin> set m" using Cons.prems(1) e by (force simp: image_iff)
    with True Cons.prems(2,3) e show ?thesis by auto
  next
    case False
    with Cons.prems(4) [of k'] e have "\<not> P k'" by auto
    with False Cons e show ?thesis by auto
  qed
qed simp

lemma keys_of_list: "fst ` set (bt_of_list es) = fst ` set es"
proof -
  have "k \<in> fst ` set (bt_of_list es) \<longleftrightarrow> k \<in> fst ` set es" for k
    using bt_lookup_None_iff [of "bt_of_list es" k] by (simp add: bt_lookup_of_list map_of_eq_None_iff)
  then show ?thesis by blast
qed

lemma flat_variant_found:
  assumes "k \<in> set names" and "map_of (rev es) k = Some v" and "\<forall>k' \<in> fst ` set es. k' \<in> set names \<longrightarrow> k' = k"
  shows "flat_variant names (bt_of_list es) = Some (k, v)"
  unfolding flat_variant_def
proof (rule find_unique_key)
  show "distinct (map fst (bt_of_list es))" by (simp add: bt_wf_distinct)
  show "(k, v) \<in> set (bt_of_list es)"
    using assms(2) by (simp add: bt_lookup_Some_iff [symmetric] bt_lookup_of_list)
qed (use assms keys_of_list [of es] in auto)

lemma read_write_string_kind:
  assumes N: "wire_numbers N"
  shows "read_string_kind N absent (json_object [(''default'', write_option JString d), write_string_spec N k])
     = Inr (KString d k)"
proof -
  obtain tag v where w: "write_string_spec N k = (tag, v)" by fastforce
  then have tag: "tag \<in> set [''dynamic'', ''static'', ''range'']" by (cases k) auto
  then have "flat_variant [''dynamic'', ''static'', ''range''] (bt_of_list [(''default'', write_option JString d), (tag, v)])
      = Some (tag, v)"
    by (intro flat_variant_found) auto
  moreover have "tag \<noteq> ''default''" using tag by auto
  ultimately show ?thesis
    using read_write_string_spec [OF N, of k]
    by (simp add: w json_object_def read_string_kind_def bt_lookup_of_list member_defs)
qed

lemma read_write_native:
  "wire_numbers N \<Longrightarrow> read_native N absent (write_native N kind) = Inr (wire_native N kind)"
  by (cases kind) (simp_all add: read_native_def member_defs read_write_i64 read_write_f64 read_write_string_kind)

lemma write_native_tag: "fst (write_native N kind) \<in> set native_variants"
  by (cases kind) (simp_all add: native_variants_def)

lemma write_native_string_array: "fst (write_native N kind) = ''stringArray'' \<longleftrightarrow> kind = KStringArray"
  by (cases kind) simp_all

lemma read_write_kind:
  assumes "wire_numbers N" and "kind \<noteq> Native KStringArray"
  shows "read_kind N absent (write_kind N kind) = Inr (wire_kind N kind)" and "fst (write_kind N kind) \<in> set read_variants"
proof -
  show "read_kind N absent (write_kind N kind) = Inr (wire_kind N kind)"
  proof (cases kind)
    case (Native native)
    obtain tag v where w: "write_native N native = (tag, v)" by fastforce
    then have "tag \<noteq> ''model''" "tag \<noteq> ''stringArray''"
      using write_native_tag [of N native] write_native_string_array [of N native] Native assms(2)
      by (auto simp: native_variants_def)
    with Native w read_write_native [OF assms(1), of absent native] show ?thesis by (simp add: read_kind_def)
  next
    case (Extended ext)
    then show ?thesis by (cases ext) (simp add: read_kind_def member_defs)
  qed
  show "fst (write_kind N kind) \<in> set read_variants"
  proof (cases kind)
    case (Native native)
    then show ?thesis
      using write_native_tag [of N native] write_native_string_array [of N native] assms(2)
      by (auto simp: native_variants_def read_variants_def)
  next
    case (Extended ext)
    then show ?thesis by (cases ext) (simp add: read_variants_def)
  qed
qed

lemma read_write_field:
  assumes "fst (write (fd_kind f)) \<in> set variants" and "''name'' \<notin> set variants" "''optional'' \<notin> set variants"
  shows "read_field variants read (write_field write f) = rbind (read (write (fd_kind f))) (\<lambda>kind. Inr \<lparr>fd_name = fd_name f, fd_kind = kind, fd_optional = fd_optional f\<rparr>)"
proof -
  obtain tag v where w: "write (fd_kind f) = (tag, v)" by fastforce
  with assms have t: "tag \<noteq> ''name''" "tag \<noteq> ''optional''" "tag \<in> set variants" by auto
  let ?es = "[(''name'', JString (fd_name f)), (tag, v), (''optional'', JBool (fd_optional f))]"
  have "flat_variant variants (bt_of_list ?es) = Some (tag, v)"
    using t assms(2,3) by (intro flat_variant_found) auto
  moreover have "write_field write f = JObject (bt_of_list ?es)"
    by (simp add: write_field_def json_object_def w)
  ultimately show ?thesis
    using t by (simp add: read_field_def bt_lookup_of_list member_defs read_bool_def or_fail_def w)
qed

lemma flat_variant_absent:
  assumes "\<forall>k \<in> fst ` set es. k \<notin> set names"
  shows "flat_variant names (bt_of_list es) = None"
proof -
  from assms have "\<forall>k \<in> fst ` set (bt_of_list es). k \<notin> set names" by (simp only: keys_of_list)
  then show ?thesis by (auto simp: flat_variant_def find_None_iff)
qed

lemma read_unknown_kind:
  fixes N :: "('n, 'f) numbers"
  assumes "fd_kind f = Native KStringArray"
  shows "deserialize_field N absent (serialize_field N f) = Inl (MissingValue ''kind'')"
proof -
  let ?es = "[(''name'', JString (fd_name f)), (''stringArray'', json_object []), (''optional'', JBool (fd_optional f))]
      :: (string \<times> 'n json) list"
  have "flat_variant read_variants (bt_of_list ?es) = None"
    by (rule flat_variant_absent) (simp add: read_variants_def)
  moreover have "serialize_field N f = JObject (bt_of_list ?es)"
    by (simp add: serialize_field_def write_field_def json_object_def assms)
  ultimately show ?thesis
    by (simp add: deserialize_field_def read_field_def bt_lookup_of_list member_defs)
qed

text \<open>C26: a field of a model is read back from JSON as it was written, name, kind, bounds and all, with two
  exceptions. A default or bound of a \<open>Number\<close> that is infinite or NaN is written as null and comes back as
  none. And a field of kind \<open>StringArray\<close> cannot be read: the enum that is written has that variant, the enum
  that is read has not. The native fields of a model's status, which have one derived enum for both, are read
  back for every kind. It is assumed of the numbers of JSON that an \<open>i64\<close> and a finite \<open>f64\<close> are read back
  as themselves.\<close>

theorem field_roundtrip:
  assumes N: "wire_numbers N"
  shows "deserialize_field N absent (serialize_field N f) =
      (if fd_kind f = Native KStringArray then Inl (MissingValue ''kind'')
       else Inr \<lparr>fd_name = fd_name f, fd_kind = wire_kind N (fd_kind f), fd_optional = fd_optional f\<rparr>) \<and>
    deserialize_native_field N absent (serialize_native_field N g) =
      Inr \<lparr>fd_name = fd_name g, fd_kind = wire_native N (fd_kind g), fd_optional = fd_optional g\<rparr>"
proof -
  have "deserialize_field N absent (serialize_field N f) =
      Inr \<lparr>fd_name = fd_name f, fd_kind = wire_kind N (fd_kind f), fd_optional = fd_optional f\<rparr>"
    if "fd_kind f \<noteq> Native KStringArray"
    using read_write_kind [OF N that]
    by (simp add: deserialize_field_def serialize_field_def read_write_field read_variants_def)
  moreover have "deserialize_native_field N absent (serialize_native_field N g) =
      Inr \<lparr>fd_name = fd_name g, fd_kind = wire_native N (fd_kind g), fd_optional = fd_optional g\<rparr>"
    using read_write_native [OF N] write_native_tag [of N "fd_kind g"]
    by (simp add: deserialize_native_field_def serialize_native_field_def read_write_field native_variants_def)
  ultimately show ?thesis by (simp add: read_unknown_kind)
qed

definition image_field :: "int any_field" where
  "image_field = \<lparr>fd_name = ''/image/'', fd_kind = Native (KString (Some ''latest'') (SRange None 64)), fd_optional = True\<rparr>"

definition tags_field :: "int native_field" where
  "tags_field = \<lparr>fd_name = ''/tags/'', fd_kind = KStringArray, fd_optional = False\<rparr>"

lemma int_numbers_wire: "wire_numbers int_numbers"
proof -
  have "int_as_i64 (sint n) = Some n" for n :: i64
    using sint_greater_eq [of n] sint_less [of n] by (simp add: int_as_i64_def)
  then show ?thesis by (simp add: wire_numbers_def int_numbers_def)
qed

theorem field_roundtrip_witness:
  "deserialize_field int_numbers (Inl NoFields) (serialize_field int_numbers image_field) = Inr image_field \<and>
   deserialize_native_field int_numbers (Inl NoFields) (serialize_native_field int_numbers tags_field) = Inr tags_field"
  using field_roundtrip [OF int_numbers_wire, of "Inl NoFields" image_field tags_field]
  by (simp add: image_field_def tags_field_def)

end
