(* ===== verification/Vine_Kube.thy ===== *)
theory Vine_Kube imports Kube_Monad Ark_Text "HOL-Library.Product_Lexorder" begin

text \<open>
  The objects of the desktop service \<open>crates/vine\<close> (\<open>vine/api\<close>) and the world of Kubernetes they live in.
  A node, a user, a box and a namespace carry labels, which say who uses what. Every call of the API may
  fail: the world carries the answers to come (\<open>vw_faults\<close>), and a call that fails changes nothing.
\<close>

section \<open>Users, roles and bindings\<close>

type_synonym labels = "(string \<times> string) list"

record user_role =
  ro_admin :: bool
  ro_dev :: bool
  ro_ops :: bool

definition user_role_default :: user_role where
  "user_role_default = \<lparr>ro_admin = False, ro_dev = False, ro_ops = False\<rparr>"

definition role_or :: "user_role \<Rightarrow> user_role \<Rightarrow> user_role" where
  "role_or a b =
     \<lparr>ro_admin = (ro_admin a \<or> ro_admin b), ro_dev = (ro_dev a \<or> ro_dev b), ro_ops = (ro_ops a \<or> ro_ops b)\<rparr>"

definition sum_roles :: "user_role list \<Rightarrow> user_role" where
  "sum_roles rs = (case rs of [] \<Rightarrow> user_role_default | r # rs' \<Rightarrow> foldl role_or r rs')"

text \<open>Of a quota only the limits of the compute resources are read; the rest goes to the templates.\<close>

record box_quota =
  bq_limits :: "(string \<times> string) list option"

record user_role_binding =
  rb_user :: string
  rb_role :: string
  rb_expired :: "int option"

record 'b user_box_binding =
  bb_user :: string
  bb_box :: 'b
  bb_autologin :: bool
  bb_expired :: "int option"

record 'q user_quota_binding =
  qb_user :: string
  qb_quota :: 'q
  qb_expired :: "int option"

record user_spec =
  us_alias :: "string option"
  us_name :: string

record user_cr =
  ur_spec :: user_spec
  ur_labels :: labels

definition preferred_name :: "string \<Rightarrow> user_cr \<Rightarrow> string" where
  "preferred_name name u = (case us_alias (ur_spec u) of Some a \<Rightarrow> a | None \<Rightarrow> name)"

definition user_namespace_with :: "string \<Rightarrow> string" where
  "user_namespace_with user_name = ''vine-session-'' @ user_name"

definition user_namespace :: "string \<Rightarrow> user_cr \<Rightarrow> string" where
  "user_namespace name u = user_namespace_with (preferred_name name u)"

datatype user_auth_error =
    AuthorizationTokenMalformed
  | AuthorizationTokenNotFound
  | NamespaceNotAllowed
  | NamespaceTokenMalformed
  | PrimaryKeyMalformed
  | UserNotAdmin
  | UserNotRegistered
  | SessionNotBinded

datatype user_session_error =
    AlreadyLoggedInByNode string
  | AlreadyLoggedInByUser string
  | AuthError user_auth_error
  | NodeNotFound
  | NodeNotInCluster
  | NodeReserved
  | QuotaMismatched

datatype user_session_response = Accept box_quota user_spec | Refused user_session_error

section \<open>Nodes and volumes\<close>

record node_condition =
  nc_type :: string
  nc_status :: string
  nc_heartbeat :: "int option"

text \<open>\<open>nd_spec\<close> stands for the whole specification, which is only passed on.\<close>

record node_cr =
  nd_labels :: labels
  nd_spec :: "string option"
  nd_conditions :: "node_condition list option"
  nd_allocatable :: "(string \<times> string) list option"
  nd_capacity :: "(string \<times> string) list option"

type_synonym secret_ref = "string option \<times> string option"

record csi_source =
  cs_driver :: string
  cs_attributes :: "(string \<times> string) list option"
  cs_handle :: string
  cs_expand_secret :: "secret_ref option"
  cs_stage_secret :: "secret_ref option"

record pv_spec =
  ps_access_modes :: "string list option"
  ps_capacity :: "(string \<times> string) list option"
  ps_claim_ref :: "(string \<times> string) option"
  ps_csi :: "csi_source option"
  ps_reclaim_policy :: "string option"
  ps_storage_class :: "string option"
  ps_volume_mode :: "string option"

record pvolume =
  pv_annotations :: "labels option"
  pv_labels :: "labels option"
  pv_spec :: "pv_spec option"

record pvc_spec =
  pc_access_modes :: "string list option"
  pc_resources :: "(string \<times> string) list option"
  pc_storage_class :: "string option"
  pc_volume_mode :: "string option"
  pc_volume_name :: "string option"

record pclaim =
  pm_annotations :: "labels option"
  pm_labels :: "labels option"
  pm_spec :: "pvc_spec option"

record secret =
  sc_annotations :: "labels option"
  sc_labels :: "labels option"
  sc_data :: "(string \<times> string) list option"
  sc_type :: "string option"

section \<open>The world\<close>

text \<open>
  Cluster-wide objects are keyed by name, the others by namespace and name. \<open>vw_objects\<close> holds the objects
  that templates have made, by API group, kind, namespace (none for a cluster-wide object) and name,
  \<open>vw_pods\<close> the pods with their namespace and their label \<open>app\<close>. Instants are milliseconds.
\<close>

type_synonym api_object = "string \<times> string \<times> string option \<times> string"

record vine_world =
  vw_now :: int
  vw_nodes :: "(string \<times> node_cr) list"
  vw_users :: "(string \<times> user_cr) list"
  vw_boxes :: "(string \<times> labels) list"
  vw_namespaces :: "(string \<times> labels) list"
  vw_roles :: "(string \<times> user_role) list"
  vw_role_bindings :: "user_role_binding list"
  vw_box_bindings :: "string user_box_binding list"
  vw_quotas :: "(string \<times> box_quota) list"
  vw_quota_bindings :: "string user_quota_binding list"
  vw_objects :: "api_object list"
  vw_pods :: "(string \<times> string) list"
  vw_claims :: "((string \<times> string) \<times> pclaim) list"
  vw_volumes :: "(string \<times> pvolume) list"
  vw_secrets :: "((string \<times> string) \<times> secret) list"
  vw_faults :: "bool list"

datatype vine_error = VApi | VMissing string | VExists string | VBail string | VPanic | VBoth vine_error vine_error

type_synonym 'a vine = "(vine_world, vine_error, 'a) api"

text \<open>One call of the API: the next answer decides whether it goes through.\<close>

definition vapi :: "'a vine \<Rightarrow> 'a vine" where
  "vapi m w =
     (case vw_faults w of
        [] \<Rightarrow> m w
      | False # fs \<Rightarrow> m (w\<lparr>vw_faults := fs\<rparr>)
      | True # fs \<Rightarrow> (Inl VApi, w\<lparr>vw_faults := fs\<rparr>))"

definition vread :: "(vine_world \<Rightarrow> 'a) \<Rightarrow> 'a vine" where
  "vread f = vapi (\<lambda>w. (Inr (f w), w))"

definition vwrite :: "(vine_world \<Rightarrow> vine_world) \<Rightarrow> unit vine" where
  "vwrite f = vapi (\<lambda>w. (Inr (), f w))"

text \<open>The clock is read without a call.\<close>

definition clock :: "int vine" where
  "clock w = (Inr (vw_now w), w)"

definition from_result :: "vine_error + 'a \<Rightarrow> 'a vine" where
  "from_result r = (case r of Inl e \<Rightarrow> kfail e | Inr x \<Rightarrow> kret x)"

section \<open>What is outside\<close>

text \<open>What a session is made of, and what its templates are rendered with.\<close>

record session_spec =
  ss_box_quota :: "box_quota option"
  ss_node_name :: string
  ss_node :: node_cr
  ss_persistence :: bool
  ss_role :: "user_role option"
  ss_user_name :: string

record session_context =
  sx_name :: string
  sx_namespace :: string
  sx_spec :: session_spec

text \<open>Of a rendered document the model keeps its types (version and kind) and its names, of a kind of the API
  its group and whether it is namespaced.\<close>

record document =
  dc_types :: "(string \<times> string) option"
  dc_name :: "string option"
  dc_namespace :: "string option"

record api_resource =
  ar_group :: string
  ar_kind :: string
  ar_namespaced :: bool

text \<open>
  \<open>ve_apply\<close> is the server-side apply of labels by a field manager, where \<open>None\<close> is a null
  value; \<open>ve_from_millis\<close> is \<open>DateTime::from_timestamp_millis\<close>; \<open>ve_render\<close> renders a template file with \<open>tera\<close>
  and reads the YAML documents, \<open>ve_discover\<close> lists the kinds of an API group in a version, or in the one
  that is recommended; the rest is the arithmetic of \<open>f64\<close>.
\<close>

record 'f vine_env =
  ve_apply :: "string \<Rightarrow> labels \<Rightarrow> (string \<times> string option) list \<Rightarrow> labels"
  ve_from_millis :: "i64 \<Rightarrow> int option"
  ve_render :: "string \<Rightarrow> session_context \<Rightarrow> document list option"
  ve_discover :: "string \<Rightarrow> string option \<Rightarrow> api_resource list option"
  ve_f64_parse :: "string \<Rightarrow> 'f option"
  ve_f64_scale :: "'f \<Rightarrow> nat \<Rightarrow> 'f"
  ve_f64_ge :: "'f \<Rightarrow> 'f \<Rightarrow> bool"

text \<open>The server sets the labels that are given with a value and leaves those alone that are not given.
  What a null value does depends on the other managers, so nothing is said about it.\<close>

definition lawful_apply :: "'f vine_env \<Rightarrow> bool" where
  "lawful_apply E \<longleftrightarrow>
     (\<forall>m ls ps k. bt_lookup (ve_apply E m ls ps) k
        = (case map_of ps k of
             None \<Rightarrow> bt_lookup ls k
           | Some (Some v) \<Rightarrow> Some v
           | Some None \<Rightarrow> bt_lookup (ve_apply E m ls ps) k))"

lemma lawful_apply_set: "lawful_apply E \<Longrightarrow> map_of ps k = Some (Some v) \<Longrightarrow> bt_lookup (ve_apply E m ls ps) k = Some v"
  unfolding lawful_apply_def by (metis option.simps(5))

lemma lawful_apply_other: "lawful_apply E \<Longrightarrow> map_of ps k = None \<Longrightarrow> bt_lookup (ve_apply E m ls ps) k = bt_lookup ls k"
  unfolding lawful_apply_def by (metis option.simps(4))

text \<open>Predicates that do not depend on the answers to come.\<close>

definition ignores_answers :: "(vine_world \<Rightarrow> bool) \<Rightarrow> bool" where
  "ignores_answers I \<longleftrightarrow> (\<forall>w fs. I (w\<lparr>vw_faults := fs\<rparr>) = I w)"

lemma kvalid_vapi:
  assumes "ignores_answers P" and "\<And>w. P w \<Longrightarrow> Q (Inl VApi) w" and "kvalid P m Q"
  shows "kvalid P (vapi m) Q"
  using assms by (auto simp: kvalid_def vapi_def ignores_answers_def split: list.split bool.split)

lemma kvalid_vread:
  assumes "ignores_answers P" and "\<And>w. P w \<Longrightarrow> Q (Inl VApi) w" and "\<And>w. P w \<Longrightarrow> Q (Inr (f w)) w"
  shows "kvalid P (vread f) Q"
  unfolding vread_def by (rule kvalid_vapi) (use assms in \<open>auto simp: kvalid_def\<close>)

lemma kvalid_vwrite:
  assumes "ignores_answers P" and "\<And>w. P w \<Longrightarrow> Q (Inl VApi) w" and "\<And>w. P w \<Longrightarrow> Q (Inr ()) (f w)"
  shows "kvalid P (vwrite f) Q"
  unfolding vwrite_def by (rule kvalid_vapi) (use assms in \<open>auto simp: kvalid_def\<close>)

lemma kvalid_clock: "(\<And>w. P w \<Longrightarrow> Q (Inr (vw_now w)) w) \<Longrightarrow> kvalid P clock Q"
  by (simp add: kvalid_def clock_def)

end
