(* ===== verification/Vine_Template.thy ===== *)
theory Vine_Template imports Vine_Kube begin

text \<open>
  The client of \<open>crates/dash/provider/src/client/job.rs\<close>: it renders a template to a list of documents, finds
  the kind of each in the API, and creates, applies or deletes the objects one by one. Of an object the model
  keeps that it exists. A deleted object is gone at once.
\<close>

section \<open>Loading\<close>

record object_template =
  ot_resource :: api_resource
  ot_immutable :: bool
  ot_name :: string
  ot_namespace :: string
  ot_types :: "string \<times> string"

text \<open>The name, the namespace and the types of a document.\<close>

definition prepare_document ::
  "bool \<Rightarrow> session_context \<Rightarrow> document \<Rightarrow> vine_error + string \<times> string \<times> string \<times> string" where
  "prepare_document use_prefix ctx d =
     (let name = (case dc_name d of Some n \<Rightarrow> n | None \<Rightarrow> sx_name ctx);
          namespace = (case dc_namespace d of Some n \<Rightarrow> n | None \<Rightarrow> sx_namespace ctx) in
      if use_prefix \<and> take (length (sx_name ctx)) name \<noteq> sx_name ctx
      then Inl (VBail ''name should be started with'')
      else if use_prefix \<and> take (length (sx_namespace ctx)) namespace \<noteq> sx_namespace ctx
      then Inl (VBail ''namespace should be started with'')
      else case dc_types d of
          None \<Rightarrow> Inl (VBail ''untyped document is not supported'')
        | Some types \<Rightarrow> Inr (name, namespace, types))"

definition api_group_version :: "string \<Rightarrow> string \<times> string option" where
  "api_group_version api_version =
     (case split_on CHR ''/'' api_version of
        g # v # _ \<Rightarrow> (g, Some v)
      | _ \<Rightarrow> ([], None))"

definition find_resource :: "'f vine_env \<Rightarrow> string \<Rightarrow> string \<Rightarrow> vine_error + api_resource" where
  "find_resource E api_version kind =
     (let (g, v) = api_group_version api_version in
      case ve_discover E g v of
        None \<Rightarrow> Inl (VMissing g)
      | Some resources \<Rightarrow>
          (case find (\<lambda>ar. ar_kind ar = kind) resources of
             None \<Rightarrow> Inl (VBail ''Cannot find CRD'')
           | Some ar \<Rightarrow> Inr ar))"

definition is_immutable :: "api_resource \<Rightarrow> bool" where
  "is_immutable ar \<longleftrightarrow>
     (ar_group ar, ar_kind ar) \<in> {([], ''PersistentVolume''), (''storage.k8s.io'', ''StorageClass'')}"

definition load_document :: "'f vine_env \<Rightarrow> bool \<Rightarrow> session_context \<Rightarrow> document \<Rightarrow> object_template vine" where
  "load_document E use_prefix ctx d =
     kbind (from_result (prepare_document use_prefix ctx d)) (\<lambda>(name, namespace, api_version, kind).
     kbind (vread (\<lambda>_. find_resource E api_version kind)) (\<lambda>found.
     kbind (from_result found) (\<lambda>ar.
       kret \<lparr>ot_resource = ar, ot_immutable = is_immutable ar, ot_name = name, ot_namespace = namespace,
             ot_types = (api_version, kind)\<rparr>)))"

definition load_template :: "'f vine_env \<Rightarrow> bool \<Rightarrow> string \<Rightarrow> session_context \<Rightarrow> object_template list vine" where
  "load_template E use_prefix file ctx =
     (case ve_render E file ctx of
        None \<Rightarrow> kfail (VBail ''render'')
      | Some documents \<Rightarrow> kmap (load_document E use_prefix ctx) documents)"

section \<open>Objects\<close>

definition object_key :: "object_template \<Rightarrow> api_object" where
  "object_key t = (ar_group (ot_resource t), ar_kind (ot_resource t),
     (if ar_namespaced (ot_resource t) then Some (ot_namespace t) else None), ot_name t)"

definition get_object :: "object_template \<Rightarrow> bool vine" where
  "get_object t = vread (\<lambda>w. object_key t \<in> set (vw_objects w))"

text \<open>Applying an object that exists leaves it existing.\<close>

definition create_object :: "object_template \<Rightarrow> bool \<Rightarrow> unit vine" where
  "create_object t found =
     (if found then if ot_immutable t then kret () else vwrite (\<lambda>w. w)
      else vwrite (\<lambda>w. w\<lparr>vw_objects := List.insert (object_key t) (vw_objects w)\<rparr>))"

text \<open>Persistent volume claims are not deleted.\<close>

definition is_claim :: "object_template \<Rightarrow> bool" where
  "is_claim t \<longleftrightarrow> ot_types t = (''v1'', ''PersistentVolumeClaim'')"

definition delete_object :: "object_template \<Rightarrow> bool \<Rightarrow> unit vine" where
  "delete_object t found =
     (if is_claim t then kret ()
      else if found then vwrite (\<lambda>w. w\<lparr>vw_objects := removeAll (object_key t) (vw_objects w)\<rparr>)
      else kret ())"

definition for_objects :: "(object_template \<Rightarrow> bool \<Rightarrow> unit vine) \<Rightarrow> object_template list \<Rightarrow> unit vine" where
  "for_objects f ts =
     kbind (kmap (\<lambda>t. kbind (get_object t) (f t)) ts) (\<lambda>_. kret ())"

section \<open>The client\<close>

definition execute_template ::
  "'f vine_env \<Rightarrow> bool \<Rightarrow> string \<Rightarrow> session_context \<Rightarrow> (object_template \<Rightarrow> bool \<Rightarrow> unit vine) \<Rightarrow> unit vine" where
  "execute_template E use_prefix file ctx f = kbind (load_template E use_prefix file ctx) (for_objects f)"

definition create_named :: "'f vine_env \<Rightarrow> bool \<Rightarrow> string \<Rightarrow> session_context \<Rightarrow> unit vine" where
  "create_named E use_prefix file ctx = execute_template E use_prefix file ctx create_object"

definition delete_named :: "'f vine_env \<Rightarrow> bool \<Rightarrow> string \<Rightarrow> session_context \<Rightarrow> unit vine" where
  "delete_named E use_prefix file ctx = execute_template E use_prefix file ctx delete_object"

fun all_exist :: "object_template list \<Rightarrow> bool vine" where
  "all_exist [] = kret True"
| "all_exist (t # ts) = kbind (get_object t) (\<lambda>found. if found then all_exist ts else kret False)"

definition exists_named :: "'f vine_env \<Rightarrow> bool \<Rightarrow> string \<Rightarrow> session_context \<Rightarrow> bool vine" where
  "exists_named E use_prefix file ctx = kbind (load_template E use_prefix file ctx) all_exist"

end
