(* ===== verification/Vine_Storage.thy ===== *)
theory Vine_Storage imports Vine_Template begin

text \<open>
  The shared volumes of a session, \<open>crates/vine/storage/src/lib.rs\<close>: the claims that the guest namespace
  shares are cloned into the namespace of a user, over static copies of their volumes. The clones are made
  one after the other; the code polls them concurrently.
\<close>

section \<open>Calls\<close>

definition namespace_shared :: string where
  "namespace_shared = ''vine-guest''"

definition list_shared_claims :: "(string \<times> pclaim) list vine" where
  "list_shared_claims = vread (\<lambda>w.
     List.map_filter (\<lambda>((ns, name), c).
         if ns = namespace_shared
           \<and> (case pm_labels c of None \<Rightarrow> False | Some ls \<Rightarrow> bt_lookup ls ''vine.ulagbulag.io/shared'' = Some ''true'')
         then Some (name, c) else None) (vw_claims w))"

definition get_claim :: "string \<Rightarrow> string \<Rightarrow> pclaim option vine" where
  "get_claim ns name = vread (\<lambda>w. bt_lookup (vw_claims w) (ns, name))"

definition create_claim :: "string \<Rightarrow> string \<Rightarrow> pclaim \<Rightarrow> unit vine" where
  "create_claim ns name c = vapi (\<lambda>w.
     if bt_lookup (vw_claims w) (ns, name) = None
     then (Inr (), w\<lparr>vw_claims := bt_insert (ns, name) c (vw_claims w)\<rparr>) else (Inl (VExists name), w))"

definition get_volume :: "string \<Rightarrow> pvolume option vine" where
  "get_volume name = vread (\<lambda>w. bt_lookup (vw_volumes w) name)"

definition create_volume :: "string \<Rightarrow> pvolume \<Rightarrow> unit vine" where
  "create_volume name v = vapi (\<lambda>w.
     if bt_lookup (vw_volumes w) name = None
     then (Inr (), w\<lparr>vw_volumes := bt_insert name v (vw_volumes w)\<rparr>) else (Inl (VExists name), w))"

definition replace_volume :: "string \<Rightarrow> pvolume \<Rightarrow> unit vine" where
  "replace_volume name v = vapi (\<lambda>w.
     if bt_lookup (vw_volumes w) name = None then (Inl (VMissing name), w)
     else (Inr (), w\<lparr>vw_volumes := bt_insert name v (vw_volumes w)\<rparr>))"

definition get_secret :: "string \<Rightarrow> string \<Rightarrow> secret option vine" where
  "get_secret ns name = vread (\<lambda>w. bt_lookup (vw_secrets w) (ns, name))"

definition create_secret :: "string \<Rightarrow> string \<Rightarrow> secret \<Rightarrow> unit vine" where
  "create_secret ns name s = vapi (\<lambda>w.
     if bt_lookup (vw_secrets w) (ns, name) = None
     then (Inr (), w\<lparr>vw_secrets := bt_insert (ns, name) s (vw_secrets w)\<rparr>) else (Inl (VExists name), w))"

definition require :: "vine_error \<Rightarrow> 'a option \<Rightarrow> 'a vine" where
  "require e x = (case x of None \<Rightarrow> kfail e | Some a \<Rightarrow> kret a)"

section \<open>Volumes\<close>

definition release_pv :: "string \<Rightarrow> pvolume \<Rightarrow> pvolume vine" where
  "release_pv name v =
     (case pv_spec v of
        Some s \<Rightarrow>
          if ps_claim_ref s = None then kret v
          else (let v' = v\<lparr>pv_spec := Some (s\<lparr>ps_claim_ref := None\<rparr>)\<rparr> in
                kbind (replace_volume name v') (\<lambda>_. kret v'))
      | None \<Rightarrow> kbind (replace_volume name v) (\<lambda>_. kret v))"

definition retain_pv_on_delete :: "string \<Rightarrow> pvolume \<Rightarrow> pvolume vine" where
  "retain_pv_on_delete name v =
     (case pv_spec v of
        Some s \<Rightarrow>
          if ps_reclaim_policy s = Some ''Retain'' then kret v
          else (let v' = v\<lparr>pv_spec := Some (s\<lparr>ps_reclaim_policy := Some ''Retain''\<rparr>)\<rparr> in
                kbind (replace_volume name v') (\<lambda>_. kret v'))
      | None \<Rightarrow> kbind (replace_volume name v) (\<lambda>_. kret v))"

text \<open>\<open>get_or_create_user_level_cephfs_secret\<close>\<close>

definition is_cephfs :: "pvolume \<Rightarrow> bool" where
  "is_cephfs v =
     (case opt_bind (pv_annotations v) (\<lambda>a. bt_lookup a ''pv.kubernetes.io/provisioned-by'') of
        None \<Rightarrow> False
      | Some p \<Rightarrow> ends_with p ''.cephfs.csi.ceph.com'')"

definition secret_namespace :: "pvolume \<Rightarrow> string option" where
  "secret_namespace v = opt_bind (pv_spec v) (\<lambda>s. opt_bind (ps_csi s) (\<lambda>c. opt_bind (cs_expand_secret c) snd))"

definition secret_user_name :: string where
  "secret_user_name = ''rook-csi-cephfs-user''"

definition secret_data :: "string \<Rightarrow> secret \<Rightarrow> string option" where
  "secret_data key s = opt_bind (sc_data s) (\<lambda>d. bt_lookup d key)"

definition get_or_create_user_level_cephfs_secret :: "pvolume \<Rightarrow> secret_ref vine" where
  "get_or_create_user_level_cephfs_secret v =
     (if \<not> is_cephfs v then kfail (VBail ''unsupported PV sharing'')
      else
        kbind (require (VBail ''PV's CSI ControllerExpandSecretRef is missing'') (secret_namespace v)) (\<lambda>ns.
        kbind (get_secret ns secret_user_name) (\<lambda>found.
          case found of
            Some _ \<Rightarrow> kret (Some secret_user_name, Some ns)
          | None \<Rightarrow>
              kbind (get_secret ns ''rook-csi-cephfs-node'') (\<lambda>source.
              kbind (require (VBail ''failed to find a Rook CephFS node secret'') source) (\<lambda>s.
              kbind (require (VBail ''adminID'') (secret_data ''adminID'' s)) (\<lambda>uid.
              kbind (require (VBail ''adminKey'') (secret_data ''adminKey'' s)) (\<lambda>key.
              kbind (create_secret ns secret_user_name
                       (s\<lparr>sc_data := Some [(''userID'', uid), (''userKey'', key)]\<rparr>)) (\<lambda>_.
                kret (Some secret_user_name, Some ns)))))))))"

text \<open>The copy of a volume in the namespace \<open>ns\<close>.\<close>

definition default_csi :: csi_source where
  "default_csi = \<lparr>cs_driver = [], cs_attributes = None, cs_handle = [], cs_expand_secret = None, cs_stage_secret = None\<rparr>"

definition default_pv_spec :: pv_spec where
  "default_pv_spec =
     \<lparr>ps_access_modes = None, ps_capacity = None, ps_claim_ref = None, ps_csi = None, ps_reclaim_policy = None,
      ps_storage_class = None, ps_volume_mode = None\<rparr>"

definition unwrap_or :: "'a \<Rightarrow> 'a option \<Rightarrow> 'a" where
  "unwrap_or d x = (case x of None \<Rightarrow> d | Some a \<Rightarrow> a)"

definition static_attributes :: "(string \<times> string) list \<Rightarrow> (string \<times> string) list" where
  "static_attributes attrs =
     bt_insert ''staticVolume'' ''true''
       (bt_insert ''rootPath'' (unwrap_or [] (bt_lookup attrs ''subvolumePath'')) attrs)"

definition cloned_pv :: "string \<Rightarrow> secret_ref \<Rightarrow> pvolume \<Rightarrow> pvolume" where
  "cloned_pv ns ref v =
     (let s = unwrap_or default_pv_spec (pv_spec v);
          c = unwrap_or default_csi (ps_csi s) in
      \<lparr>pv_annotations = pv_annotations v, pv_labels = pv_labels v,
       pv_spec = Some \<lparr>ps_access_modes = ps_access_modes s, ps_capacity = ps_capacity s, ps_claim_ref = None,
         ps_csi = Some \<lparr>cs_driver = cs_driver c, cs_attributes = Some (static_attributes (unwrap_or [] (cs_attributes c))),
           cs_handle = cs_handle c @ ''-'' @ ns, cs_expand_secret = None, cs_stage_secret = Some ref\<rparr>,
         ps_reclaim_policy = ps_reclaim_policy s, ps_storage_class = ps_storage_class s,
         ps_volume_mode = ps_volume_mode s\<rparr>\<rparr>)"

text \<open>\<open>clone_pv\<close>; the name of the copy is what the caller uses of the result.\<close>

definition clone_pv :: "string \<Rightarrow> string \<Rightarrow> string vine" where
  "clone_pv ns source_name =
     (let target_name = source_name @ ''-'' @ ns in
      kbind (get_volume target_name) (\<lambda>found.
        case found of
          Some v \<Rightarrow> kbind (release_pv target_name v) (\<lambda>_. kret target_name)
        | None \<Rightarrow>
            kbind (get_volume source_name) (\<lambda>source.
            kbind (require (VBail ''failed to find a shared PV'') source) (\<lambda>v.
            kbind (retain_pv_on_delete source_name v) (\<lambda>v'.
            kbind (get_or_create_user_level_cephfs_secret v') (\<lambda>ref.
            kbind (create_volume target_name (cloned_pv ns ref v')) (\<lambda>_. kret target_name)))))))"

section \<open>Claims\<close>

definition cloned_pvc :: "string \<Rightarrow> pclaim \<Rightarrow> pclaim" where
  "cloned_pvc volume c =
     (let s = pm_spec c in
      \<lparr>pm_annotations = pm_annotations c, pm_labels = pm_labels c,
       pm_spec = Some \<lparr>pc_access_modes = opt_bind s pc_access_modes, pc_resources = opt_bind s pc_resources,
         pc_storage_class = opt_bind s pc_storage_class, pc_volume_mode = opt_bind s pc_volume_mode,
         pc_volume_name = Some volume\<rparr>\<rparr>)"

definition clone_pvc :: "string \<Rightarrow> string \<times> pclaim \<Rightarrow> unit vine" where
  "clone_pvc ns = (\<lambda>(name, c).
     kbind (get_claim ns name) (\<lambda>found.
       case found of
         Some _ \<Rightarrow> kret ()
       | None \<Rightarrow>
           kbind (require (VBail ''shared PVC is not ready'') (opt_bind (pm_spec c) pc_volume_name)) (\<lambda>pv_name.
           kbind (clone_pv ns pv_name) (\<lambda>volume.
             create_claim ns name (cloned_pvc volume c)))))"

definition get_or_create_shared_pvcs :: "string \<Rightarrow> unit vine" where
  "get_or_create_shared_pvcs ns = kbind list_shared_claims (\<lambda>cs. kbind (kmap (clone_pvc ns) cs) (\<lambda>_. kret ()))"

end
