(* ===== verification/Vine_Session.thy ===== *)
theory Vine_Session imports Vine_Storage begin

text \<open>
  Desktop sessions: who is bound to a node is written in the labels of the node, the user, the box and the
  namespace. \<open>SessionManager\<close> of \<open>crates/vine/session/src/lib.rs\<close> writes them, \<open>get_session_ref\<close> of
  \<open>crates/ark/api/src/lib.rs\<close> and \<open>is_allocable\<close> read them. The objects of the session come from the
  template \<open>user-session.yaml.j2\<close>; of the namespace's own template the model keeps the namespace.
\<close>

section \<open>Reading labels\<close>

definition label_bind_by_user :: string where "label_bind_by_user = ''ark.ulagbulag.io/bind.user''"
definition label_bind_namespace :: string where "label_bind_namespace = ''ark.ulagbulag.io/bind.namespace''"
definition label_bind_node :: string where "label_bind_node = ''ark.ulagbulag.io/bind.node''"
definition label_bind_persistent :: string where "label_bind_persistent = ''ark.ulagbulag.io/bind.persistent''"
definition label_bind_status :: string where "label_bind_status = ''ark.ulagbulag.io/bind''"
definition label_bind_timestamp :: string where "label_bind_timestamp = ''ark.ulagbulag.io/bind.timestamp''"

lemmas label_defs = label_bind_by_user_def label_bind_namespace_def label_bind_node_def
  label_bind_persistent_def label_bind_status_def label_bind_timestamp_def

record session_ref =
  sr_namespace :: string
  sr_node_name :: string
  sr_timestamp :: "int option"
  sr_user_name :: string

datatype session_ref_error =
  NotBinded | NamespaceMissing | NodeNameMissing | UserNameMissing | SessionStarting | TimestampMissing

definition get_session_ref :: "'f vine_env \<Rightarrow> labels \<Rightarrow> session_ref_error + session_ref" where
  "get_session_ref E ls =
     (if bt_lookup ls label_bind_status \<noteq> Some ''true'' then Inl NotBinded
      else case bt_lookup ls label_bind_namespace of
          None \<Rightarrow> Inl NamespaceMissing
        | Some ns \<Rightarrow>
          (case bt_lookup ls label_bind_node of
             None \<Rightarrow> Inl NodeNameMissing
           | Some n \<Rightarrow>
             (let ts = opt_bind (bt_lookup ls label_bind_timestamp) (\<lambda>t. opt_bind (parse_i64 t) (ve_from_millis E)) in
              case bt_lookup ls label_bind_by_user of
                None \<Rightarrow> Inl UserNameMissing
              | Some u \<Rightarrow> Inr \<lparr>sr_namespace = ns, sr_node_name = n, sr_timestamp = ts, sr_user_name = u\<rparr>)))"

definition is_started :: "int \<Rightarrow> session_ref \<Rightarrow> bool option" where
  "is_started now r = (case sr_timestamp r of None \<Rightarrow> None | Some t \<Rightarrow> Some (t + 5 * 1000 \<le> now))"

definition assert_started :: "int \<Rightarrow> session_ref \<Rightarrow> session_ref_error + unit" where
  "assert_started now r =
     (case is_started now r of
        Some True \<Rightarrow> Inr ()
      | Some False \<Rightarrow> Inl SessionStarting
      | None \<Rightarrow> Inl TimestampMissing)"

definition is_persistent :: "labels \<Rightarrow> bool" where
  "is_persistent ls = (case opt_bind (bt_lookup ls label_bind_persistent) parse_bool of Some b \<Rightarrow> b | None \<Rightarrow> False)"

definition is_persistent_by :: "labels \<Rightarrow> string \<Rightarrow> bool" where
  "is_persistent_by ls user_name \<longleftrightarrow>
     is_persistent ls
     \<and> (case bt_lookup ls label_bind_by_user of None \<Rightarrow> False | Some v \<Rightarrow> v = user_name \<or> v = [])"

datatype allocation_state =
  AllocatedByMyself | AllocatedByOtherNode string | AllocatedByOtherUser string | NotAllocated

definition check_by_key :: "labels \<Rightarrow> string \<Rightarrow> string option \<Rightarrow> string option" where
  "check_by_key ls key v =
     opt_bind v (\<lambda>v. case bt_lookup ls key of Some l \<Rightarrow> if l \<noteq> v then Some l else None | None \<Rightarrow> None)"

definition is_allocable :: "labels \<Rightarrow> string option \<Rightarrow> string \<Rightarrow> allocation_state" where
  "is_allocable ls node_name user_name =
     (if check_by_key ls label_bind_status (Some ''false'') = None then NotAllocated
      else case check_by_key ls label_bind_node node_name of
          Some n \<Rightarrow> AllocatedByOtherNode n
        | None \<Rightarrow>
          (case check_by_key ls label_bind_by_user (Some user_name) of
             Some u \<Rightarrow> AllocatedByOtherUser u
           | None \<Rightarrow> AllocatedByMyself))"

section \<open>Writing labels\<close>

text \<open>\<open>None\<close> is the JSON value null.\<close>

definition get_label :: "int \<Rightarrow> string \<Rightarrow> string option \<Rightarrow> bool \<Rightarrow> (string \<times> string option) list" where
  "get_label now node_name user_name persistent =
     [(label_bind_by_user, user_name),
      (label_bind_namespace, map_option user_namespace_with user_name),
      (label_bind_node, Some node_name),
      (label_bind_persistent, Some (show_bool persistent)),
      (label_bind_status, Some (show_bool (user_name \<noteq> None))),
      (label_bind_timestamp, map_option (\<lambda>_. show_int now) user_name)]"

text \<open>\<open>label_with_api\<close>: an object that does not exist is not made by applying labels to it.\<close>

definition label_with_api ::
  "'f vine_env \<Rightarrow> (vine_world \<Rightarrow> labels option) \<Rightarrow> (labels \<Rightarrow> vine_world \<Rightarrow> vine_world)
    \<Rightarrow> string \<Rightarrow> session_spec \<Rightarrow> string option \<Rightarrow> unit vine" where
  "label_with_api E get put name spec user_name = vapi (\<lambda>w.
     case get w of
       None \<Rightarrow> (Inl (VMissing name), w)
     | Some ls \<Rightarrow>
        (Inr (), put (ve_apply E ''vine-session'' ls
             (get_label (vw_now w) (ss_node_name spec) user_name (is_persistent (nd_labels (ss_node spec))))) w))"

definition node_labels :: "string \<Rightarrow> vine_world \<Rightarrow> labels option" where
  "node_labels n w = map_option nd_labels (bt_lookup (vw_nodes w) n)"

definition set_node_labels :: "string \<Rightarrow> labels \<Rightarrow> vine_world \<Rightarrow> vine_world" where
  "set_node_labels n ls w =
     (case bt_lookup (vw_nodes w) n of
        None \<Rightarrow> w
      | Some nd \<Rightarrow> w\<lparr>vw_nodes := bt_insert n (nd\<lparr>nd_labels := ls\<rparr>) (vw_nodes w)\<rparr>)"

definition user_labels :: "string \<Rightarrow> vine_world \<Rightarrow> labels option" where
  "user_labels u w = map_option ur_labels (bt_lookup (vw_users w) u)"

definition set_user_labels :: "string \<Rightarrow> labels \<Rightarrow> vine_world \<Rightarrow> vine_world" where
  "set_user_labels u ls w =
     (case bt_lookup (vw_users w) u of
        None \<Rightarrow> w
      | Some x \<Rightarrow> w\<lparr>vw_users := bt_insert u (x\<lparr>ur_labels := ls\<rparr>) (vw_users w)\<rparr>)"

definition label_node :: "'f vine_env \<Rightarrow> session_spec \<Rightarrow> string option \<Rightarrow> unit vine" where
  "label_node E spec user_name =
     label_with_api E (node_labels (ss_node_name spec)) (set_node_labels (ss_node_name spec))
       (ss_node_name spec) spec user_name"

definition label_user :: "'f vine_env \<Rightarrow> session_spec \<Rightarrow> bool \<Rightarrow> unit vine" where
  "label_user E spec create =
     label_with_api E (user_labels (ss_user_name spec)) (set_user_labels (ss_user_name spec))
       (ss_user_name spec) spec (if create then Some (ss_user_name spec) else None)"

definition try_label_box :: "'f vine_env \<Rightarrow> session_spec \<Rightarrow> string option \<Rightarrow> unit vine" where
  "try_label_box E spec user_name =
     kbind (vread (\<lambda>w. bt_lookup (vw_boxes w) (ss_node_name spec))) (\<lambda>found.
       if found = None then kret ()
       else label_with_api E (\<lambda>w. bt_lookup (vw_boxes w) (ss_node_name spec))
              (\<lambda>ls w. w\<lparr>vw_boxes := bt_insert (ss_node_name spec) ls (vw_boxes w)\<rparr>)
              (ss_node_name spec) spec user_name)"

text \<open>The template of the namespace, rendered and applied.\<close>

definition namespace_template :: "(string \<times> string option) list" where
  "namespace_template = [(''pod-security.kubernetes.io/enforce'', Some ''privileged'')]"

definition create_namespace :: "'f vine_env \<Rightarrow> string \<Rightarrow> unit vine" where
  "create_namespace E ns = vwrite (\<lambda>w.
     w\<lparr>vw_namespaces := bt_insert ns
        (case bt_lookup (vw_namespaces w) ns of
           None \<Rightarrow> [(''pod-security.kubernetes.io/enforce'', ''privileged'')]
         | Some ls \<Rightarrow> ve_apply E ''dash-provider'' ls namespace_template) (vw_namespaces w)\<rparr>)"

definition label_namespace :: "'f vine_env \<Rightarrow> string \<Rightarrow> session_spec \<Rightarrow> string option \<Rightarrow> unit vine" where
  "label_namespace E ns spec user_name =
     kbind (create_namespace E ns) (\<lambda>_.
       label_with_api E (\<lambda>w. bt_lookup (vw_namespaces w) ns)
         (\<lambda>ls w. w\<lparr>vw_namespaces := bt_insert ns ls (vw_namespaces w)\<rparr>) ns spec user_name)"

section \<open>SessionManager\<close>

text \<open>\<open>ns\<close> is the namespace the manager was made for; its client takes any names.\<close>

definition get_context :: "string \<Rightarrow> session_spec \<Rightarrow> session_context" where
  "get_context ns spec = \<lparr>sx_name = [], sx_namespace = ns, sx_spec = spec\<rparr>"

definition template_session_filename :: string where
  "template_session_filename = ''user-session.yaml.j2''"

definition exists_template :: "'f vine_env \<Rightarrow> string \<Rightarrow> session_spec \<Rightarrow> bool vine" where
  "exists_template E ns spec = exists_named E False template_session_filename (get_context ns spec)"

definition create_template :: "'f vine_env \<Rightarrow> string \<Rightarrow> session_spec \<Rightarrow> unit vine" where
  "create_template E ns spec = create_named E False template_session_filename (get_context ns spec)"

definition delete_template :: "'f vine_env \<Rightarrow> string \<Rightarrow> session_spec \<Rightarrow> unit vine" where
  "delete_template E ns spec = delete_named E False template_session_filename (get_context ns spec)"

definition delete_pods :: "string \<Rightarrow> unit vine" where
  "delete_pods ns = vwrite (\<lambda>w. w\<lparr>vw_pods := filter (\<lambda>(n, app). \<not> (n = ns \<and> app = ''desktop'')) (vw_pods w)\<rparr>)"

definition create_session :: "'f vine_env \<Rightarrow> string \<Rightarrow> session_spec \<Rightarrow> unit vine" where
  "create_session E ns spec =
     (let u = Some (ss_user_name spec) in
      kbind (label_node E spec u) (\<lambda>_.
      kbind (label_namespace E ns spec u) (\<lambda>_.
      kbind (label_user E spec True) (\<lambda>_.
      kbind (try_label_box E spec u) (\<lambda>_.
      kbind (get_or_create_shared_pvcs ns) (\<lambda>_.
        create_template E ns spec))))))"

definition delete_session :: "'f vine_env \<Rightarrow> string \<Rightarrow> session_spec \<Rightarrow> unit vine" where
  "delete_session E ns spec =
     kbind (delete_template E ns spec) (\<lambda>_.
     kbind (delete_pods ns) (\<lambda>_.
     kbind (try_label_box E spec None) (\<lambda>_.
     kbind (label_user E spec False) (\<lambda>_.
     kbind (label_namespace E ns spec None) (\<lambda>_.
       label_node E spec None)))))"

definition try_create :: "'f vine_env \<Rightarrow> string \<Rightarrow> session_spec \<Rightarrow> bool \<Rightarrow> unit vine" where
  "try_create E ns spec delete_on_fail w =
     (case create_session E ns spec w of
        (Inr _, w') \<Rightarrow> (Inr (), w')
      | (Inl e, w') \<Rightarrow>
          if delete_on_fail then
            (case delete_session E ns spec w' of
               (Inr _, w'') \<Rightarrow> (Inl e, w'')
             | (Inl e', w'') \<Rightarrow> (Inl (VBoth e e'), w''))
          else (Inl e, w'))"

text \<open>A node that is not ready, and has not been for half an hour.\<close>

definition is_ready_lately :: "int \<Rightarrow> node_cr \<Rightarrow> bool" where
  "is_ready_lately now nd =
     (case opt_bind (nd_conditions nd) (find (\<lambda>c. nc_type c = ''Ready'')) of
        None \<Rightarrow> False
      | Some c \<Rightarrow>
          nc_status c = ''True''
          \<or> (case nc_heartbeat c of None \<Rightarrow> False | Some t \<Rightarrow> now - t \<le> 30 * 60 * 1000))"

definition try_delete_session :: "'f vine_env \<Rightarrow> string \<Rightarrow> string \<Rightarrow> node_cr \<Rightarrow> string option vine" where
  "try_delete_session E ns name nd =
     kbind clock (\<lambda>now.
       case rbind (get_session_ref E (nd_labels nd)) (\<lambda>r. rbind (assert_started now r) (\<lambda>_. Inr r)) of
         Inl _ \<Rightarrow> kret None
       | Inr r \<Rightarrow>
           (let spec = \<lparr>ss_box_quota = None, ss_node_name = name, ss_node = nd,
                        ss_persistence = is_persistent (nd_labels nd), ss_role = None,
                        ss_user_name = sr_user_name r\<rparr> in
            kbind (if is_ready_lately now nd then kbind (exists_template E ns spec) (\<lambda>b. kret (\<not> b)) else kret True) (\<lambda>gone.
              if gone then kbind (delete_session E ns spec) (\<lambda>_. kret (Some (sr_user_name r)))
              else kret None)))"

section \<open>Sessions for batch commands\<close>

text \<open>\<open>collect_user_sessions\<close> and \<open>BatchCommandUsers::filter\<close> of \<open>batch.rs\<close>; \<open>re\<close> compiles a regular
  expression.\<close>

definition collect_user_sessions :: "'f vine_env \<Rightarrow> session_ref list vine" where
  "collect_user_sessions E = vread (\<lambda>w.
     List.map_filter (\<lambda>(_, nd). case get_session_ref E (nd_labels nd) of Inr r \<Rightarrow> Some r | Inl _ \<Rightarrow> None) (vw_nodes w))"

datatype batch_users = BatchAll | BatchList "string list" | BatchPattern string

definition batch_filter ::
  "(string \<Rightarrow> (string \<Rightarrow> bool) option) \<Rightarrow> batch_users \<Rightarrow> session_ref list \<Rightarrow> vine_error + session_ref list" where
  "batch_filter re users sessions =
     (case users of
        BatchAll \<Rightarrow> Inr sessions
      | BatchList items \<Rightarrow> Inr (filter (\<lambda>s. sr_user_name s \<in> set items) sessions)
      | BatchPattern p \<Rightarrow>
          (case re p of
             None \<Rightarrow> Inl (VBail ''failed to parse box regex pattern'')
           | Some matches \<Rightarrow> Inr (filter (\<lambda>s. matches (sr_user_name s)) sessions)))"

end
