(* ===== verification/Vine_Login.thy ===== *)
theory Vine_Login imports Vine_Session begin

text \<open>
  Login and logout (\<open>crates/vine/rbac/src/session.rs\<close>, \<open>login.rs\<close>, \<open>logout.rs\<close>, \<open>node_selector.rs\<close>) and the
  two controllers of \<open>crates/vine/operator\<close> that call them: one logs users in and out of the nodes they
  are bound to (\<open>user_box_binding.rs\<close>), one ends the sessions of nodes that are gone (\<open>user_session.rs\<close>).
  Each handler is taken as one step.
\<close>

section \<open>Quotas\<close>

definition quantity_units :: "(string \<times> nat) list" where
  "quantity_units =
     [(''m'', 1),
      (''Ki'', 1000 * (2 * 2 ^ 10)), (''Mi'', 1000 * (2 * 2 ^ 20)), (''Gi'', 1000 * (2 * 2 ^ 30)),
      (''Ti'', 1000 * (2 * 2 ^ 40)), (''Pi'', 1000 * (2 * 2 ^ 50)), (''Ei'', 1000 * (2 * 2 ^ 60)),
      (''K'', 1000 * (10 * 2 ^ 3)), (''M'', 1000 * (10 * 2 ^ 6)), (''G'', 1000 * (10 * 2 ^ 9)),
      (''T'', 1000 * (10 * 2 ^ 12)), (''P'', 1000 * (10 * 2 ^ 15)), (''E'', 1000 * (10 * 2 ^ 18))]"

text \<open>The value of a quantity, \<open>None\<close> when the number does not parse. Two characters are cut off for any
  unit, which panics on a shorter text.\<close>

definition parse_quantity :: "'f vine_env \<Rightarrow> string \<Rightarrow> vine_error + 'f option" where
  "parse_quantity E q =
     (let t = trim q in
      case find (\<lambda>(p, _). ends_with t p) quantity_units of
        Some (_, weight) \<Rightarrow>
          if length t < 2 then Inl VPanic
          else Inr (map_option (\<lambda>v. ve_f64_scale E v weight) (ve_f64_parse E (take (length t - 2) t)))
      | None \<Rightarrow> Inr (map_option (\<lambda>v. ve_f64_scale E v 1000) (ve_f64_parse E t)))"

definition is_affordable_atomic :: "'f vine_env \<Rightarrow> string option \<Rightarrow> string \<Rightarrow> vine_error + bool" where
  "is_affordable_atomic E capacity requirement =
     (case capacity of
        None \<Rightarrow> Inr True
      | Some c \<Rightarrow>
          rbind (parse_quantity E c) (\<lambda>x.
            case x of
              None \<Rightarrow> Inr False
            | Some x \<Rightarrow>
                rbind (parse_quantity E requirement) (\<lambda>y.
                  case y of None \<Rightarrow> Inr False | Some y \<Rightarrow> Inr (ve_f64_ge E x y))))"

text \<open>\<open>Iterator::all\<close> and \<open>find\<close> with a test that may panic.\<close>

fun all_result :: "('a \<Rightarrow> 'e + bool) \<Rightarrow> 'a list \<Rightarrow> 'e + bool" where
  "all_result f [] = Inr True"
| "all_result f (x # xs) = rbind (f x) (\<lambda>b. if b then all_result f xs else Inr False)"

fun find_result :: "('a \<Rightarrow> 'e + bool) \<Rightarrow> 'a list \<Rightarrow> 'e + 'a option" where
  "find_result f [] = Inr None"
| "find_result f (x # xs) = rbind (f x) (\<lambda>b. if b then Inr (Some x) else find_result f xs)"

definition is_affordable ::
  "'f vine_env \<Rightarrow> (string \<times> string) list option \<Rightarrow> box_quota \<Rightarrow> vine_error + bool" where
  "is_affordable E capacity q =
     (case bq_limits q of
        None \<Rightarrow> Inr True
      | Some limits \<Rightarrow>
          all_result (\<lambda>(key, requirement).
            is_affordable_atomic E (opt_bind capacity (\<lambda>c. bt_lookup c key)) requirement) limits)"

section \<open>Bindings\<close>

text \<open>The filter that every list of bindings goes through: a timestamp is kept when it is in the past.\<close>

definition binding_kept :: "int \<Rightarrow> int option \<Rightarrow> bool" where
  "binding_kept now expired = (case expired of None \<Rightarrow> True | Some t \<Rightarrow> t < now)"

definition role_bindings_of :: "int \<Rightarrow> string \<Rightarrow> (string \<times> user_role) list \<Rightarrow> user_role_binding list \<Rightarrow> user_role" where
  "role_bindings_of now user_name roles bs =
     sum_roles (List.map_filter (\<lambda>b.
       if rb_user b = user_name \<and> binding_kept now (rb_expired b) then bt_lookup roles (rb_role b) else None) bs)"

definition quota_bindings_of ::
  "int \<Rightarrow> string \<Rightarrow> (string \<times> box_quota) list \<Rightarrow> string user_quota_binding list \<Rightarrow> box_quota list" where
  "quota_bindings_of now user_name quotas bs =
     List.map_filter (\<lambda>b.
       if qb_user b = user_name \<and> binding_kept now (qb_expired b) then bt_lookup quotas (qb_quota b) else None) bs"

definition is_reserved :: "int \<Rightarrow> string \<Rightarrow> string \<Rightarrow> string user_box_binding list \<Rightarrow> bool" where
  "is_reserved now box_name user_name bs =
     (let kept = filter (\<lambda>b. bb_box b = box_name \<and> binding_kept now (bb_expired b)) bs in
      kept \<noteq> [] \<and> list_all (\<lambda>b. bb_user b \<noteq> user_name) kept)"

section \<open>Login and logout\<close>

definition assert_allocable :: "labels \<Rightarrow> string option \<Rightarrow> string \<Rightarrow> user_session_response option" where
  "assert_allocable ls box_name user_name =
     (case is_allocable ls box_name user_name of
        AllocatedByMyself \<Rightarrow> None
      | NotAllocated \<Rightarrow> None
      | AllocatedByOtherNode n \<Rightarrow> Some (Refused (AlreadyLoggedInByNode n))
      | AllocatedByOtherUser u \<Rightarrow> Some (Refused (AlreadyLoggedInByUser u)))"

text \<open>What the handler has found out when it starts to change things, or its answer.\<close>

definition admit ::
  "'f vine_env \<Rightarrow> string \<Rightarrow> string \<Rightarrow> bool \<Rightarrow> (user_session_response + session_spec \<times> box_quota \<times> user_spec) vine" where
  "admit E box_name user_name check_resources =
     kbind clock (\<lambda>now.
     kbind (vread (\<lambda>w. bt_lookup (vw_users w) user_name)) (\<lambda>found.
     case found of
       None \<Rightarrow> kret (Inl (Refused (AuthError UserNotRegistered)))
     | Some user \<Rightarrow>
     case assert_allocable (ur_labels user) None user_name of
       Some err \<Rightarrow> kret (Inl err)
     | None \<Rightarrow>
     (let name = preferred_name user_name user in
     kbind (vread (\<lambda>w. bt_lookup (vw_nodes w) box_name)) (\<lambda>box.
     if box = None then kret (Inl (Refused NodeNotFound)) else
     kbind (vread (\<lambda>w. bt_lookup (vw_nodes w) box_name)) (\<lambda>found.
     case found of
       None \<Rightarrow> kret (Inl (Refused NodeNotInCluster))
     | Some nd \<Rightarrow>
     case assert_allocable (nd_labels nd) (Some box_name) name of
       Some err \<Rightarrow> kret (Inl err)
     | None \<Rightarrow>
     (let resources = (if check_resources then nd_allocatable nd else nd_capacity nd) in
     kbind (vread vw_box_bindings) (\<lambda>bindings.
     if is_reserved now box_name name bindings then kret (Inl (Refused NodeReserved)) else
     kbind (vread vw_quotas) (\<lambda>quotas.
     kbind (vread vw_quota_bindings) (\<lambda>quota_bindings.
     kbind (from_result (find_result (is_affordable E resources) (quota_bindings_of now name quotas quota_bindings))) (\<lambda>box_quota.
     kbind (vread vw_roles) (\<lambda>roles.
     kbind (vread vw_role_bindings) (\<lambda>role_bindings.
     case box_quota of
       None \<Rightarrow> kret (Inl (Refused QuotaMismatched))
     | Some q \<Rightarrow>
         kret (Inr (\<lparr>ss_box_quota = Some q, ss_node_name = box_name, ss_node = nd,
                     ss_persistence = is_persistent (nd_labels nd),
                     ss_role = Some (role_bindings_of now name roles role_bindings),
                     ss_user_name = name\<rparr>, q, ur_spec user))))))))))))))"

text \<open>\<open>SessionManager::try_new\<close> reads the templates, which may fail.\<close>

definition execute_with ::
  "'f vine_env \<Rightarrow> string \<Rightarrow> string \<Rightarrow> bool \<Rightarrow> (string \<Rightarrow> session_spec \<Rightarrow> unit vine) \<Rightarrow> user_session_response vine" where
  "execute_with E box_name user_name check_resources f =
     kbind (admit E box_name user_name check_resources) (\<lambda>r.
       case r of
         Inl answer \<Rightarrow> kret answer
       | Inr (spec, q, user) \<Rightarrow>
           kbind (vread (\<lambda>_. ())) (\<lambda>_.
           kbind (f (user_namespace_with (ss_user_name spec)) spec) (\<lambda>_. kret (Accept q user))))"

definition login :: "'f vine_env \<Rightarrow> string \<Rightarrow> string \<Rightarrow> bool \<Rightarrow> user_session_response vine" where
  "login E box_name user_name logout_on_failed =
     execute_with E box_name user_name True (\<lambda>ns spec. try_create E ns spec logout_on_failed)"

definition logout :: "'f vine_env \<Rightarrow> string \<Rightarrow> string \<Rightarrow> user_session_response vine" where
  "logout E box_name user_name = execute_with E box_name user_name False (delete_session E)"

section \<open>Controllers\<close>

datatype requeue = RequeueAfter int | AwaitChange

definition binding_fallback :: int where
  "binding_fallback = 30 * 1000"

definition session_fallback :: int where
  "session_fallback = 30 * 60 * 1000"

text \<open>The outcome is only logged; a panic is not caught.\<close>

definition logged :: "'a vine \<Rightarrow> unit vine" where
  "logged m w = (case m w of (Inl VPanic, w') \<Rightarrow> (Inl VPanic, w') | (_, w') \<Rightarrow> (Inr (), w'))"

definition update_node_autologin :: "'f vine_env \<Rightarrow> string \<Rightarrow> string option \<Rightarrow> unit vine" where
  "update_node_autologin E name user_name = vapi (\<lambda>w.
     case node_labels name w of
       None \<Rightarrow> (Inl (VMissing name), w)
     | Some ls \<Rightarrow>
         (Inr (), set_node_labels name
            (ve_apply E ''vine-operator'' ls
               [(label_bind_by_user, user_name), (label_bind_persistent, Some (show_bool (user_name \<noteq> None)))]) w))"

definition enable_autologin :: "'f vine_env \<Rightarrow> string \<Rightarrow> string \<Rightarrow> unit vine" where
  "enable_autologin E name user_name =
     kbind (vread (\<lambda>w. bt_lookup (vw_nodes w) name)) (\<lambda>found.
       case found of
         None \<Rightarrow> kret ()
       | Some nd \<Rightarrow>
           if is_persistent (nd_labels nd) \<and> \<not> is_persistent_by (nd_labels nd) user_name then kret ()
           else kbind (update_node_autologin E name (Some user_name)) (\<lambda>_.
                  logged (login E name user_name False)))"

definition disable_autologin :: "'f vine_env \<Rightarrow> string \<Rightarrow> string \<Rightarrow> unit vine" where
  "disable_autologin E name user_name =
     kbind (vread (\<lambda>w. bt_lookup (vw_nodes w) name)) (\<lambda>found.
       case found of
         None \<Rightarrow> kret ()
       | Some nd \<Rightarrow>
           if \<not> is_persistent_by (nd_labels nd) user_name then kret ()
           else kbind (update_node_autologin E name None) (\<lambda>_.
                  logged (logout E name user_name)))"

definition reconcile_binding :: "'f vine_env \<Rightarrow> string user_box_binding \<Rightarrow> requeue vine" where
  "reconcile_binding E b =
     kbind clock (\<lambda>now.
       let is_expired = (case bb_expired b of None \<Rightarrow> False | Some t \<Rightarrow> now < t) in
       kbind (if bb_autologin b \<and> \<not> is_expired then enable_autologin E (bb_box b) (bb_user b)
              else disable_autologin E (bb_box b) (bb_user b)) (\<lambda>_.
         case bb_expired b of
           Some t \<Rightarrow>
             if \<not> is_expired then
               (let remained = t - now in
                kret (RequeueAfter (if 0 \<le> remained then remained + binding_fallback else binding_fallback)))
             else kret AwaitChange
         | None \<Rightarrow> kret (RequeueAfter binding_fallback)))"

definition reconcile_node :: "'f vine_env \<Rightarrow> string \<Rightarrow> node_cr \<Rightarrow> requeue vine" where
  "reconcile_node E name nd =
     (case bt_lookup (nd_labels nd) label_bind_by_user of
        None \<Rightarrow> kret (RequeueAfter session_fallback)
      | Some user_name \<Rightarrow>
          if bt_lookup (nd_labels nd) label_bind_persistent = Some ''true'' then kret (RequeueAfter session_fallback)
          else
            (\<lambda>w. case vread (\<lambda>_. ()) w of
                (Inl _, w') \<Rightarrow> (Inr (RequeueAfter session_fallback), w')
              | (Inr _, w') \<Rightarrow>
                  kbind (logged (try_delete_session E (user_namespace_with user_name) name nd))
                    (\<lambda>_. kret (RequeueAfter session_fallback)) w'))"

section \<open>Runs\<close>

datatype vine_event =
    EvLogin string string bool
  | EvLogout string string
  | EvBinding nat
  | EvNode string
  | EvTick nat
  | EvAnswers "bool list"

definition vine_step :: "'f vine_env \<Rightarrow> vine_event \<Rightarrow> vine_world \<Rightarrow> vine_world" where
  "vine_step E ev w =
     (case ev of
        EvLogin b u d \<Rightarrow> snd (login E b u d w)
      | EvLogout b u \<Rightarrow> snd (logout E b u w)
      | EvBinding i \<Rightarrow> if i < length (vw_box_bindings w) then snd (reconcile_binding E (vw_box_bindings w ! i) w) else w
      | EvNode n \<Rightarrow>
          (case bt_lookup (vw_nodes w) n of None \<Rightarrow> w | Some nd \<Rightarrow> snd (reconcile_node E n nd w))
      | EvTick d \<Rightarrow> w\<lparr>vw_now := vw_now w + int d\<rparr>
      | EvAnswers fs \<Rightarrow> w\<lparr>vw_faults := fs\<rparr>)"

definition vine_run :: "'f vine_env \<Rightarrow> vine_event list \<Rightarrow> vine_world \<Rightarrow> vine_world" where
  "vine_run E evs w = foldl (\<lambda>w ev. vine_step E ev w) w evs"

end
