(* ===== verification/Vine_Auth.thy ===== *)
theory Vine_Auth imports Vine_Login begin

text \<open>
  Who a request comes from and what it may see: \<open>UserAuthPayload::primary_key\<close> of
  \<open>crates/vine/api/src/user_auth.rs\<close> and \<open>crates/vine/rbac/src/auth.rs\<close>. The decoding of the token
  (base64 and JSON), the parser of mail addresses and the lower case of a text are outside.
\<close>

section \<open>Primary keys\<close>

record auth_payload =
  ap_id :: "string option"
  ap_email :: string
  ap_name :: "string option"
  ap_username :: string
  ap_roles :: string

record auth_env =
  ae_decode :: "string \<Rightarrow> auth_payload option"  \<comment> \<open>base64, then JSON\<close>
  ae_email :: "string \<Rightarrow> string option"         \<comment> \<open>\<open>EmailAddress::from_str\<close>, as text\<close>
  ae_lower :: "string \<Rightarrow> string"                \<comment> \<open>\<open>str::to_lowercase\<close>\<close>

definition encode_key :: "auth_env \<Rightarrow> string \<Rightarrow> string" where
  "encode_key A s =
     replace_char CHR ''_'' ''-u-'' (replace_char CHR ''@'' ''-at-''
       (replace_char CHR ''.'' ''-d-'' (replace_char CHR ''-'' ''-s-'' (ae_lower A s))))"

definition primary_key :: "auth_env \<Rightarrow> auth_payload \<Rightarrow> string option" where
  "primary_key A p =
     (if ap_username p \<noteq> [] then Some (''name-'' @ encode_key A (ap_username p))
      else case ae_email A (ap_email p) of
          Some m \<Rightarrow> Some (''email-'' @ encode_key A m)
        | None \<Rightarrow> (case ap_id p of Some i \<Rightarrow> Some (''id-'' @ encode_key A i) | None \<Rightarrow> None))"

section \<open>Requests\<close>

text \<open>The two headers that are read; the inner \<open>None\<close> is a value that is not text.\<close>

record http_request =
  rq_authorization :: "string option option"
  rq_namespace :: "string option option"

definition get_user_token :: "http_request \<Rightarrow> user_auth_error + string" where
  "get_user_token r =
     (case rq_authorization r of
        None \<Rightarrow> Inl AuthorizationTokenNotFound
      | Some None \<Rightarrow> Inl AuthorizationTokenMalformed
      | Some (Some t) \<Rightarrow>
          if take 7 t = ''Bearer '' then Inr (drop 7 t) else Inl AuthorizationTokenNotFound)"

definition get_user_name_of_token :: "auth_env \<Rightarrow> string \<Rightarrow> user_auth_error + string" where
  "get_user_name_of_token A token =
     (case (case split_on CHR ''.'' token of _ # payload # _ \<Rightarrow> ae_decode A payload | _ \<Rightarrow> None) of
        None \<Rightarrow> Inl AuthorizationTokenMalformed
      | Some p \<Rightarrow> (case primary_key A p of None \<Rightarrow> Inl PrimaryKeyMalformed | Some k \<Rightarrow> Inr k))"

definition get_user_name :: "auth_env \<Rightarrow> http_request \<Rightarrow> user_auth_error + string" where
  "get_user_name A r = rbind (get_user_token r) (get_user_name_of_token A)"

definition check_user_namespace :: "string option \<Rightarrow> string \<Rightarrow> user_cr \<Rightarrow> user_role \<Rightarrow> user_auth_error + string" where
  "check_user_namespace ns name u role =
     (case ns of
        Some n \<Rightarrow> if ro_admin role \<or> n = user_namespace name u then Inr n else Inl NamespaceNotAllowed
      | None \<Rightarrow> Inr (user_namespace name u))"

definition get_user_namespace :: "http_request \<Rightarrow> string \<Rightarrow> user_cr \<Rightarrow> user_role \<Rightarrow> user_auth_error + string" where
  "get_user_namespace r name u role =
     (case rq_namespace r of
        Some (Some n) \<Rightarrow> check_user_namespace (Some n) name u role
      | Some None \<Rightarrow> Inl NamespaceTokenMalformed
      | None \<Rightarrow> Inr (user_namespace name u))"

section \<open>Sessions\<close>

text \<open>A call whose failure is turned into a value.\<close>

definition attempt :: "'a vine \<Rightarrow> 'a option vine" where
  "attempt m w = (case m w of (Inl VPanic, w') \<Rightarrow> (Inl VPanic, w') | (Inl _, w') \<Rightarrow> (Inr None, w') | (Inr x, w') \<Rightarrow> (Inr (Some x), w'))"

definition list_or_empty :: "(vine_world \<Rightarrow> 'a list) \<Rightarrow> 'a list vine" where
  "list_or_empty f = kbind (attempt (vread f)) (\<lambda>r. kret (case r of Some xs \<Rightarrow> xs | None \<Rightarrow> []))"

record user_session =
  se_box_bindings :: "string user_box_binding list"
  se_box_name :: "string option"
  se_box_quota_bindings :: "box_quota user_quota_binding list"
  se_namespace :: string
  se_token :: "string option"
  se_role :: user_role
  se_user :: "string \<times> user_cr"
  se_user_name :: string

definition get_user_role :: "string \<Rightarrow> user_cr \<Rightarrow> int \<Rightarrow> user_role vine" where
  "get_user_role name u now =
     kbind (list_or_empty vw_roles) (\<lambda>roles.
     kbind (list_or_empty vw_role_bindings) (\<lambda>bindings.
       kret (role_bindings_of now (preferred_name name u) roles bindings)))"

text \<open>The nodes whose last condition holds. A node without a specification panics.\<close>

definition ready_boxes :: "(string \<times> node_cr) list \<Rightarrow> vine_error + (string \<times> string) list" where
  "ready_boxes nodes =
     traverse (\<lambda>(n, nd). case nd_spec nd of None \<Rightarrow> Inl VPanic | Some s \<Rightarrow> Inr (n, s))
       (filter (\<lambda>(_, nd). case nd_conditions nd of
            None \<Rightarrow> False
          | Some cs \<Rightarrow> cs \<noteq> [] \<and> nc_status (last cs) = ''True'') nodes)"

definition session_box_bindings ::
  "int \<Rightarrow> string \<Rightarrow> (string \<times> string) list \<Rightarrow> string user_box_binding list \<Rightarrow> string user_box_binding list" where
  "session_box_bindings now user_name boxes bs =
     List.map_filter (\<lambda>b.
       if bb_user b = user_name \<and> binding_kept now (bb_expired b)
       then map_option (\<lambda>s. b\<lparr>bb_box := s\<rparr>) (bt_lookup boxes (bb_box b)) else None) bs"

definition session_quota_bindings ::
  "int \<Rightarrow> string \<Rightarrow> (string \<times> box_quota) list \<Rightarrow> string user_quota_binding list \<Rightarrow> box_quota user_quota_binding list" where
  "session_quota_bindings now user_name quotas bs =
     List.map_filter (\<lambda>b.
       if qb_user b = user_name \<and> binding_kept now (qb_expired b)
       then map_option (\<lambda>q. \<lparr>qb_user = qb_user b, qb_quota = q, qb_expired = qb_expired b\<rparr>)
              (bt_lookup quotas (qb_quota b))
       else None) bs"

definition current_box :: "labels \<Rightarrow> string option" where
  "current_box ls =
     (if bt_lookup ls label_bind_status = Some ''true'' then bt_lookup ls label_bind_node else None)"

text \<open>\<open>from_request_with_timestamp\<close>: \<open>Config::incluster\<close> and \<open>Client::try_from\<close> may fail like a call.\<close>

definition from_request :: "auth_env \<Rightarrow> http_request \<Rightarrow> (user_auth_error + user_session) vine" where
  "from_request A r =
     kbind clock (\<lambda>now.
     case rbind (get_user_token r) (\<lambda>t. rbind (get_user_name_of_token A t) (\<lambda>k. Inr (t, k))) of
       Inl e \<Rightarrow> kret (Inl e)
     | Inr (token, key) \<Rightarrow>
     kbind (attempt (vread (\<lambda>w. bt_lookup (vw_users w) key))) (\<lambda>found.
     case opt_bind found id of
       None \<Rightarrow> kret (Inl UserNotRegistered)
     | Some u \<Rightarrow>
     (let user_name = preferred_name key u in
     kbind (get_user_role key u now) (\<lambda>role.
     case get_user_namespace r key u role of
       Inl e \<Rightarrow> kret (Inl e)
     | Inr ns \<Rightarrow>
     kbind (attempt (vread (\<lambda>_. ()))) (\<lambda>config.
     if config = None then kret (Inl NamespaceNotAllowed) else
     kbind (attempt (vread (\<lambda>_. ()))) (\<lambda>client.
     if client = None then kret (Inl NamespaceNotAllowed) else
     kbind (list_or_empty vw_nodes) (\<lambda>nodes.
     kbind (from_result (ready_boxes nodes)) (\<lambda>boxes.
     kbind (list_or_empty vw_box_bindings) (\<lambda>box_bindings.
     kbind (list_or_empty vw_quotas) (\<lambda>quotas.
     kbind (list_or_empty vw_quota_bindings) (\<lambda>quota_bindings.
       kret (Inr
         \<lparr>se_box_bindings = session_box_bindings now user_name boxes box_bindings,
          se_box_name = current_box (ur_labels u),
          se_box_quota_bindings = session_quota_bindings now user_name quotas quota_bindings,
          se_namespace = ns, se_token = Some token, se_role = role, se_user = (key, u),
          se_user_name = user_name\<rparr>))))))))))))"

definition assert_admin :: "user_session \<Rightarrow> user_auth_error + unit" where
  "assert_admin s = (if ro_admin (se_role s) then Inr () else Inl UserNotAdmin)"

definition namespaced :: "string option \<Rightarrow> user_session \<Rightarrow> user_auth_error + user_session" where
  "namespaced ns s =
     rbind (check_user_namespace ns (fst (se_user s)) (snd (se_user s)) (se_role s))
       (\<lambda>n. Inr (s\<lparr>se_namespace := n\<rparr>))"

definition try_into_ark_session :: "user_session \<Rightarrow> user_auth_error + session_ref" where
  "try_into_ark_session s =
     (case se_box_name s of
        None \<Rightarrow> Inl SessionNotBinded
      | Some b \<Rightarrow>
          Inr \<lparr>sr_namespace = se_namespace s, sr_node_name = b, sr_timestamp = None, sr_user_name = se_user_name s\<rparr>)"

end
