(* ===== verification/Vine_Correct.thy ===== *)
theory Vine_Correct imports Vine_Auth begin

text \<open>
  What login, logout and the controllers of the desktop service guarantee, whatever calls of the API fail.
\<close>

section \<open>What admission reads\<close>

text \<open>A handler that only uses up answers.\<close>

named_theorems reading \<open>introduction rules for handlers that only read\<close>

definition reads_only :: "'a vine \<Rightarrow> bool" where
  "reads_only m \<longleftrightarrow> (\<forall>w. \<exists>fs. snd (m w) = w\<lparr>vw_faults := fs\<rparr>)"

lemma same_faults: "\<exists>fs. w = w\<lparr>vw_faults := fs\<rparr>"
  by (rule exI [of _ "vw_faults w"]) simp

lemma reads_only_kret [reading]: "reads_only (kret x)"
  by (simp add: reads_only_def same_faults)

lemma reads_only_from_result [reading]: "reads_only (from_result r)"
  by (cases r) (simp_all add: from_result_def reads_only_def kfail_def same_faults)

lemma reads_only_clock [reading]: "reads_only clock"
  by (simp add: reads_only_def clock_def same_faults)

lemma reads_only_vread [reading]: "reads_only (vread f)"
  by (auto simp: reads_only_def vread_def vapi_def same_faults split: list.split bool.split)

lemma reads_only_kbind [reading]:
  assumes "reads_only m" "\<And>x. reads_only (f x)"
  shows "reads_only (kbind m f)"
proof -
  have "\<exists>fs. snd (kbind m f w) = w\<lparr>vw_faults := fs\<rparr>" for w
  proof (cases "m w")
    case (Pair r w')
    with assms(1) obtain fs where w': "w' = w\<lparr>vw_faults := fs\<rparr>" by (metis reads_only_def snd_conv)
    show ?thesis
    proof (cases r)
      case (Inl e)
      with Pair w' show ?thesis by (auto simp: kbind_def)
    next
      case (Inr x)
      from assms(2) obtain fs' where "snd (f x w') = w'\<lparr>vw_faults := fs'\<rparr>" by (auto simp: reads_only_def)
      with Pair Inr w' show ?thesis by (auto simp: kbind_def)
    qed
  qed
  then show ?thesis by (simp add: reads_only_def)
qed

lemma reads_only_if [reading]: "reads_only m \<Longrightarrow> reads_only m' \<Longrightarrow> reads_only (if b then m else m')"
  by simp

lemma reads_only_option [reading]:
  "reads_only m \<Longrightarrow> (\<And>y. reads_only (f y)) \<Longrightarrow> reads_only (case x of None \<Rightarrow> m | Some y \<Rightarrow> f y)"
  by (cases x) auto

lemma reads_only_sum [reading]:
  "(\<And>y. reads_only (f y)) \<Longrightarrow> (\<And>y. reads_only (g y)) \<Longrightarrow> reads_only (case x of Inl y \<Rightarrow> f y | Inr y \<Rightarrow> g y)"
  by (cases x) auto

lemma reads_only_Let [reading]: "reads_only (f x) \<Longrightarrow> reads_only (Let x f)"
  by simp

lemma reads_only_admit: "reads_only (admit E box_name user_name check)"
  unfolding admit_def by (intro reading)

lemma reads_onlyD: "reads_only m \<Longrightarrow> m w = (r, w') \<Longrightarrow> \<exists>fs. w' = w\<lparr>vw_faults := fs\<rparr>"
  unfolding reads_only_def by (metis snd_conv)

lemma vread_bind:
  assumes "kbind (vread f) k w = (Inr y, w')"
  shows "\<exists>fs. k (f (w\<lparr>vw_faults := fs\<rparr>)) (w\<lparr>vw_faults := fs\<rparr>) = (Inr y, w')"
proof (cases "vw_faults w")
  case Nil
  with assms have "k (f w) w = (Inr y, w')" by (simp add: kbind_def vread_def vapi_def)
  then show ?thesis by (intro exI [of _ "vw_faults w"]) simp
next
  case (Cons b fs)
  with assms show ?thesis
    by (cases b) (auto simp: kbind_def vread_def vapi_def intro: exI [of _ fs])
qed

lemma clock_bind [simp]: "kbind clock k w = k (vw_now w) w"
  by (simp add: kbind_def clock_def)

lemma from_result_bind: "kbind (from_result r) k w = (Inr y, w') \<Longrightarrow> \<exists>x. r = Inr x \<and> k x w = (Inr y, w')"
  by (cases r) (auto simp: from_result_def kfail_def kbind_def)

text \<open>What an admission has established.\<close>

definition admitted ::
  "'f vine_env \<Rightarrow> string \<Rightarrow> string \<Rightarrow> bool \<Rightarrow> vine_world \<Rightarrow> session_spec \<Rightarrow> box_quota \<Rightarrow> user_spec \<Rightarrow> bool" where
  "admitted E box_name user_name check w spec q us \<longleftrightarrow>
     (\<exists>user nd. bt_lookup (vw_users w) user_name = Some user
        \<and> assert_allocable (ur_labels user) None user_name = None
        \<and> bt_lookup (vw_nodes w) box_name = Some nd
        \<and> assert_allocable (nd_labels nd) (Some box_name) (preferred_name user_name user) = None
        \<and> \<not> is_reserved (vw_now w) box_name (preferred_name user_name user) (vw_box_bindings w)
        \<and> find_result (is_affordable E (if check then nd_allocatable nd else nd_capacity nd))
             (quota_bindings_of (vw_now w) (preferred_name user_name user) (vw_quotas w) (vw_quota_bindings w)) = Inr (Some q)
        \<and> spec = \<lparr>ss_box_quota = Some q, ss_node_name = box_name, ss_node = nd,
             ss_persistence = is_persistent (nd_labels nd),
             ss_role = Some (role_bindings_of (vw_now w) (preferred_name user_name user) (vw_roles w) (vw_role_bindings w)),
             ss_user_name = preferred_name user_name user\<rparr>
        \<and> us = ur_spec user)"

lemma admit_Inr:
  assumes "admit E box_name user_name check w = (Inr (Inr (spec, q, us)), w')"
  shows "admitted E box_name user_name check w spec q us \<and> (\<exists>fs. w' = w\<lparr>vw_faults := fs\<rparr>)"
proof
  show "\<exists>fs. w' = w\<lparr>vw_faults := fs\<rparr>" by (rule reads_onlyD [OF reads_only_admit assms])
  show "admitted E box_name user_name check w spec q us"
    using assms unfolding admit_def Let_def admitted_def
    by (fastforce dest!: vread_bind from_result_bind split: option.splits if_splits)
qed

section \<open>Refusals\<close>

lemma admit_refuses: "admit E box_name user_name check w = (Inr (Inl a), w') \<Longrightarrow> \<exists>e. a = Refused e"
  unfolding admit_def Let_def
  by (fastforce simp: assert_allocable_def dest!: vread_bind from_result_bind
      split: option.splits if_splits allocation_state.splits)

lemma execute_refuses:
  assumes "\<And>spec q us. \<not> admitted E box_name user_name check w spec q us"
  shows "(\<exists>fs. snd (execute_with E box_name user_name check f w) = w\<lparr>vw_faults := fs\<rparr>)
    \<and> (\<forall>q us. fst (execute_with E box_name user_name check f w) \<noteq> Inr (Accept q us))"
proof (cases "admit E box_name user_name check w")
  case (Pair r w')
  then obtain fs where w': "w' = w\<lparr>vw_faults := fs\<rparr>" using reads_onlyD [OF reads_only_admit] by blast
  show ?thesis
  proof (cases r)
    case (Inl e)
    with Pair w' show ?thesis by (auto simp: execute_with_def kbind_def)
  next
    case (Inr x)
    show ?thesis
    proof (cases x)
      case (Inl a)
      with Pair Inr w' admit_refuses [of E box_name user_name check w a w'] show ?thesis
        by (auto simp: execute_with_def kbind_def)
    next
      case (Inr y)
      with Pair \<open>r = Inr x\<close> have False
        using admit_Inr [of E box_name user_name check w "fst y" "fst (snd y)" "snd (snd y)" w'] assms by auto
      then show ?thesis ..
    qed
  qed
qed

text \<open>A node that a user may log in to or out of: nobody is bound to it, or the user is.\<close>

definition free_for :: "labels \<Rightarrow> string \<Rightarrow> bool" where
  "free_for ls user_name \<longleftrightarrow>
     bt_lookup ls label_bind_status \<in> {None, Some ''false''}
     \<or> bt_lookup ls label_bind_by_user \<in> {None, Some user_name}"

lemma allocable_free: "assert_allocable ls box_name user_name = None \<Longrightarrow> free_for ls user_name"
  by (auto simp: assert_allocable_def is_allocable_def check_by_key_def opt_bind_def free_for_def
      split: option.splits if_splits)

text \<open>C28: Nobody can log in to a node that another user holds, nor log that user out: whatever calls fail,
  the request is not accepted and the nodes, users, boxes, namespaces and sessions stay as they are. Source:
  \<open>execute_with\<close> in \<open>vine/rbac/src/session.rs\<close>, \<open>is_allocable\<close> in \<open>vine/session/src/lib.rs\<close>.\<close>

theorem login_respects_holder:
  assumes "bt_lookup (vw_users w) user = Some u" and "bt_lookup (vw_nodes w) box = Some nd"
    and "bt_lookup (nd_labels nd) label_bind_status = Some ''true''"
    and "bt_lookup (nd_labels nd) label_bind_by_user = Some holder" and "holder \<noteq> preferred_name user u"
  shows "(\<exists>fs. snd (login E box user d w) = w\<lparr>vw_faults := fs\<rparr>)
    \<and> (\<exists>fs. snd (logout E box user w) = w\<lparr>vw_faults := fs\<rparr>)
    \<and> (\<forall>q us. fst (login E box user d w) \<noteq> Inr (Accept q us) \<and> fst (logout E box user w) \<noteq> Inr (Accept q us))"
proof -
  have no: "\<not> admitted E box user check w spec q us" for check spec q us
    using assms allocable_free [of "nd_labels nd" "Some box" "preferred_name user u"]
    by (auto simp: admitted_def free_for_def)
  show ?thesis
    using execute_refuses [of E box user True w, OF no] execute_refuses [of E box user False w, OF no]
    by (simp add: login_def logout_def)
qed

section \<open>Acceptance\<close>

lemma execute_accepts:
  assumes "execute_with E box_name user_name check f w = (Inr (Accept q us), w')"
  obtains spec fs where "admitted E box_name user_name check w spec q us"
    "f (user_namespace_with (ss_user_name spec)) spec (w\<lparr>vw_faults := fs\<rparr>) = (Inr (), w')"
proof -
  from assms obtain x w1 where x: "admit E box_name user_name check w = (Inr x, w1)"
    and k: "(case x of Inl answer \<Rightarrow> kret answer
       | Inr (spec, q, user) \<Rightarrow>
           kbind (vread (\<lambda>_. ())) (\<lambda>_.
           kbind (f (user_namespace_with (ss_user_name spec)) spec) (\<lambda>_. kret (Accept q user)))) w1 = (Inr (Accept q us), w')"
    by (auto simp: execute_with_def kbind_Inr)
  show ?thesis
  proof (cases x)
    case (Inl a)
    with x k admit_refuses [of E box_name user_name check w a w1] show ?thesis by auto
  next
    case (Inr y)
    obtain spec q' us' where y: "y = (spec, q', us')" by (cases y)
    with x Inr have adm: "admitted E box_name user_name check w spec q' us'" and "\<exists>fs. w1 = w\<lparr>vw_faults := fs\<rparr>"
      using admit_Inr [of E box_name user_name check w spec q' us' w1] by auto
    then obtain fs where w1: "w1 = w\<lparr>vw_faults := fs\<rparr>" by blast
    from k Inr y w1 obtain fs' where "kbind (f (user_namespace_with (ss_user_name spec)) spec)
        (\<lambda>_. kret (Accept q' us')) (w\<lparr>vw_faults := fs'\<rparr>) = (Inr (Accept q us), w')"
      by (auto dest!: vread_bind)
    then have "f (user_namespace_with (ss_user_name spec)) spec (w\<lparr>vw_faults := fs'\<rparr>) = (Inr (), w')"
      and "q' = q" "us' = us"
      by (auto simp: kbind_Inr)
    with adm that show ?thesis by blast
  qed
qed

lemma find_result_Some: "find_result f xs = Inr (Some x) \<Longrightarrow> x \<in> set xs \<and> f x = Inr True"
  by (induction xs) (auto split: if_splits)

lemma all_result_True: "all_result f xs = Inr True \<Longrightarrow> x \<in> set xs \<Longrightarrow> f x = Inr True"
  by (induction xs) (auto split: if_splits)

lemma affordable_limits:
  assumes "is_affordable E capacity q = Inr True" and "bq_limits q = Some limits" "(key, need) \<in> set limits"
    and "capacity = Some caps" "bt_lookup caps key = Some c"
  shows "\<exists>x y. parse_quantity E c = Inr (Some x) \<and> parse_quantity E need = Inr (Some y) \<and> ve_f64_ge E x y"
  using all_result_True [OF _ assms(3)] assms
  by (fastforce simp: is_affordable_def is_affordable_atomic_def opt_bind_def split: option.splits)

lemma binding_kept_iff: "binding_kept now e \<longleftrightarrow> (\<forall>t. e = Some t \<longrightarrow> t < now)"
  by (auto simp: binding_kept_def split: option.split)

text \<open>C29: What an accepted login has been checked for. The user is registered; the node belongs to the cluster
  and no other user is logged in to it. A box binding counts when it has no expiry date or when that date has
  passed (the filter of the code is the wrong way round): no binding to this box counts, or one of the user's
  does, so bindings that are not expired yet reserve nothing. A quota binding of the user that counts in the
  same sense names the granted quota, and each limit of that quota that the node states a free amount for is
  covered by it. Source: \<open>execute_with\<close> in \<open>vine/rbac/src/session.rs\<close>, \<open>is_affordable\<close> in \<open>node_selector.rs\<close>.\<close>

theorem accepted_login_is_authorised:
  assumes "login E box user d w = (Inr (Accept q us), w')"
  shows "\<exists>u nd. bt_lookup (vw_users w) user = Some u \<and> us = ur_spec u \<and> bt_lookup (vw_nodes w) box = Some nd
    \<and> (bt_lookup (nd_labels nd) label_bind_status \<in> {None, Some ''false''}
       \<or> bt_lookup (nd_labels nd) label_bind_by_user \<in> {None, Some (preferred_name user u)})
    \<and> ((\<forall>b \<in> set (vw_box_bindings w). bb_box b = box \<longrightarrow> (\<exists>t. bb_expired b = Some t \<and> vw_now w \<le> t))
       \<or> (\<exists>b \<in> set (vw_box_bindings w). bb_box b = box \<and> bb_user b = preferred_name user u
            \<and> (\<forall>t. bb_expired b = Some t \<longrightarrow> t < vw_now w)))
    \<and> (\<exists>b \<in> set (vw_quota_bindings w). qb_user b = preferred_name user u
         \<and> (\<forall>t. qb_expired b = Some t \<longrightarrow> t < vw_now w) \<and> bt_lookup (vw_quotas w) (qb_quota b) = Some q)
    \<and> (\<forall>limits key need caps c. bq_limits q = Some limits \<and> (key, need) \<in> set limits \<and> nd_allocatable nd = Some caps
         \<and> bt_lookup caps key = Some c \<longrightarrow>
         (\<exists>x y. parse_quantity E c = Inr (Some x) \<and> parse_quantity E need = Inr (Some y) \<and> ve_f64_ge E x y))"
proof -
  from assms obtain spec where "admitted E box user True w spec q us"
    unfolding login_def by (rule execute_accepts)
  then obtain u nd where *: "bt_lookup (vw_users w) user = Some u" "us = ur_spec u"
      "bt_lookup (vw_nodes w) box = Some nd" "assert_allocable (nd_labels nd) (Some box) (preferred_name user u) = None"
      "\<not> is_reserved (vw_now w) box (preferred_name user u) (vw_box_bindings w)"
    and q: "find_result (is_affordable E (nd_allocatable nd))
        (quota_bindings_of (vw_now w) (preferred_name user u) (vw_quotas w) (vw_quota_bindings w)) = Inr (Some q)"
    by (auto simp: admitted_def)
  have quota: "\<exists>b \<in> set (vw_quota_bindings w). qb_user b = preferred_name user u
      \<and> (\<forall>t. qb_expired b = Some t \<longrightarrow> t < vw_now w) \<and> bt_lookup (vw_quotas w) (qb_quota b) = Some q"
    using find_result_Some [OF q] by (auto simp: quota_bindings_of_def set_map_filter binding_kept_iff split: if_splits)
  have box: "(\<forall>b \<in> set (vw_box_bindings w). bb_box b = box \<longrightarrow> (\<exists>t. bb_expired b = Some t \<and> vw_now w \<le> t))
      \<or> (\<exists>b \<in> set (vw_box_bindings w). bb_box b = box \<and> bb_user b = preferred_name user u
            \<and> (\<forall>t. bb_expired b = Some t \<longrightarrow> t < vw_now w))"
    using *(5) unfolding is_reserved_def Let_def binding_kept_iff
    by (simp add: filter_empty_conv list_all_iff not_less) (metis not_less)
  have afford: "is_affordable E (nd_allocatable nd) q = Inr True" using find_result_Some [OF q] by simp
  show ?thesis
    by (rule exI [of _ u], rule exI [of _ nd])
      (use *(1-3) allocable_free [OF *(4), unfolded free_for_def] quota box affordable_limits [OF afford] in blast)
qed

section \<open>What the steps of a session change\<close>

text \<open>A part of the world that a handler leaves alone.\<close>

definition keeps :: "(vine_world \<Rightarrow> 'x) \<Rightarrow> 'a vine \<Rightarrow> bool" where
  "keeps f m \<longleftrightarrow> (\<forall>w. f (snd (m w)) = f w)"

named_theorems keeping \<open>introduction rules for handlers that keep a part of the world\<close>

lemma keeps_kret [keeping]: "keeps f (kret x)"
  by (simp add: keeps_def)

lemma keeps_kfail [keeping]: "keeps f (kfail e)"
  by (simp add: keeps_def kfail_def)

lemma keeps_kbind [keeping]: "keeps f m \<Longrightarrow> (\<And>x. keeps f (k x)) \<Longrightarrow> keeps f (kbind m k)"
  by (auto simp: keeps_def kbind_def split: prod.split sum.split) (metis snd_conv)+

lemma keeps_vapi:
  assumes "\<And>w fs. f (w\<lparr>vw_faults := fs\<rparr>) = f w" "\<And>w. f (snd (m w)) = f w"
  shows "keeps f (vapi m)"
  using assms by (auto simp: keeps_def vapi_def split: list.split bool.split)

lemma keeps_vread: "(\<And>w fs. f (w\<lparr>vw_faults := fs\<rparr>) = f w) \<Longrightarrow> keeps f (vread g)"
  unfolding vread_def by (rule keeps_vapi) auto

lemma keeps_if [keeping]: "keeps f m \<Longrightarrow> keeps f m' \<Longrightarrow> keeps f (if b then m else m')"
  by simp

lemma keeps_option [keeping]:
  "keeps f m \<Longrightarrow> (\<And>y. keeps f (k y)) \<Longrightarrow> keeps f (case x of None \<Rightarrow> m | Some y \<Rightarrow> k y)"
  by (cases x) auto

lemma keeps_prod [keeping]: "(\<And>a b. keeps f (k a b)) \<Longrightarrow> keeps f (case p of (a, b) \<Rightarrow> k a b)"
  by (cases p) auto

lemma keeps_Let [keeping]: "keeps f (k x) \<Longrightarrow> keeps f (Let x k)"
  by simp

lemma keeps_kmap [keeping]: "(\<And>x. keeps f (g x)) \<Longrightarrow> keeps f (kmap g xs)"
  by (induction xs) (auto intro!: keeping)

lemma keepsD: "keeps f m \<Longrightarrow> m w = (r, w') \<Longrightarrow> f w' = f w"
  unfolding keeps_def by (metis snd_conv)

text \<open>The shared volumes do not touch who is bound to what.\<close>

definition bindings_of :: "vine_world \<Rightarrow> int \<times> (string \<times> node_cr) list \<times> (string \<times> user_cr) list
    \<times> (string \<times> labels) list \<times> (string \<times> labels) list \<times> api_object list \<times> (string \<times> string) list" where
  "bindings_of w = (vw_now w, vw_nodes w, vw_users w, vw_boxes w, vw_namespaces w, vw_objects w, vw_pods w)"

lemma bindings_faults [simp]: "bindings_of (w\<lparr>vw_faults := fs\<rparr>) = bindings_of w"
  by (simp add: bindings_of_def)

lemmas keeps_bindings = keeps_vread [where f = bindings_of, OF bindings_faults]
  keeps_vapi [where f = bindings_of, OF bindings_faults]

lemma keeps_require [keeping]: "keeps f (require e x)"
  unfolding require_def by (intro keeping)

lemma storage_calls_keep [keeping]:
  "keeps bindings_of list_shared_claims" "keeps bindings_of (get_claim ns n)" "keeps bindings_of (create_claim ns n c)"
  "keeps bindings_of (get_volume n)" "keeps bindings_of (create_volume n v)" "keeps bindings_of (replace_volume n v)"
  "keeps bindings_of (get_secret ns n)" "keeps bindings_of (create_secret ns n s)"
  unfolding list_shared_claims_def get_claim_def create_claim_def get_volume_def
    create_volume_def replace_volume_def get_secret_def create_secret_def
  by (rule keeps_bindings; simp add: bindings_of_def)+

lemma volume_steps_keep [keeping]:
  "keeps bindings_of (release_pv n v)" "keeps bindings_of (retain_pv_on_delete n v)"
  "keeps bindings_of (get_or_create_user_level_cephfs_secret v)"
  unfolding release_pv_def retain_pv_on_delete_def get_or_create_user_level_cephfs_secret_def
  by (intro keeping)+

lemma clone_pv_keeps [keeping]: "keeps bindings_of (clone_pv ns n)"
  unfolding clone_pv_def by (intro keeping)

lemma clone_pvc_keeps [keeping]: "keeps bindings_of (clone_pvc ns p)"
  unfolding clone_pvc_def by (intro keeping)

lemma storage_keeps: "keeps bindings_of (get_or_create_shared_pvcs ns)"
  unfolding get_or_create_shared_pvcs_def by (intro keeping)

lemma vapi_cases:
  assumes "vapi m w = (r, w')"
  obtains fs where "r = Inl VApi" "w' = w\<lparr>vw_faults := fs\<rparr>" | fs where "m (w\<lparr>vw_faults := fs\<rparr>) = (r, w')"
proof (cases "vw_faults w")
  case Nil
  then have "w\<lparr>vw_faults := []\<rparr> = w" by simp
  with assms Nil that(2) [of "[]"] show ?thesis by (simp add: vapi_def)
next
  case (Cons b fs)
  with assms that(1) [of fs] that(2) [of fs] show ?thesis by (cases b) (simp_all add: vapi_def)
qed

lemma label_with_api_result:
  assumes "label_with_api E get put name spec u w = (r, w')"
  obtains fs where "w' = w\<lparr>vw_faults := fs\<rparr>" "r \<noteq> Inr ()"
  | fs ls where "r = Inr ()" "get (w\<lparr>vw_faults := fs\<rparr>) = Some ls"
    "w' = put (ve_apply E ''vine-session'' ls (get_label (vw_now w) (ss_node_name spec) u (is_persistent (nd_labels (ss_node spec)))))
      (w\<lparr>vw_faults := fs\<rparr>)"
  using assms [unfolded label_with_api_def]
proof (cases rule: vapi_cases)
  case (1 fs)
  with that(1) [of fs] show ?thesis by simp
next
  case (2 fs)
  with that(1) [of fs] that(2) [of fs] show ?thesis
    by (cases "get (w\<lparr>vw_faults := fs\<rparr>)") auto
qed
definition labelled :: "'f vine_env \<Rightarrow> int \<Rightarrow> session_spec \<Rightarrow> string option \<Rightarrow> labels \<Rightarrow> labels" where
  "labelled E now spec u ls =
     ve_apply E ''vine-session'' ls (get_label now (ss_node_name spec) u (is_persistent (nd_labels (ss_node spec))))"

lemma label_node_result:
  assumes "label_node E spec u w = (r, w')"
  obtains fs where "w' = w\<lparr>vw_faults := fs\<rparr>" "r \<noteq> Inr ()"
  | fs nd where "r = Inr ()" "bt_lookup (vw_nodes w) (ss_node_name spec) = Some nd"
    "w' = w\<lparr>vw_faults := fs, vw_nodes :=
       bt_insert (ss_node_name spec) (nd\<lparr>nd_labels := labelled E (vw_now w) spec u (nd_labels nd)\<rparr>) (vw_nodes w)\<rparr>"
  using assms [unfolded label_node_def]
proof (cases rule: label_with_api_result)
  case (2 fs ls)
  then show ?thesis
    by (cases "bt_lookup (vw_nodes w) (ss_node_name spec)")
      (auto simp: node_labels_def set_node_labels_def labelled_def intro: that(2) [of _ fs])
qed (rule that(1))

lemma label_user_result:
  assumes "label_user E spec create w = (r, w')"
  obtains fs where "w' = w\<lparr>vw_faults := fs\<rparr>" "r \<noteq> Inr ()"
  | fs x where "r = Inr ()" "bt_lookup (vw_users w) (ss_user_name spec) = Some x"
    "w' = w\<lparr>vw_faults := fs, vw_users :=
       bt_insert (ss_user_name spec)
         (x\<lparr>ur_labels := labelled E (vw_now w) spec (if create then Some (ss_user_name spec) else None) (ur_labels x)\<rparr>)
         (vw_users w)\<rparr>"
  using assms [unfolded label_user_def]
proof (cases rule: label_with_api_result)
  case (2 fs ls)
  then show ?thesis
    by (cases "bt_lookup (vw_users w) (ss_user_name spec)")
      (auto simp: user_labels_def set_user_labels_def labelled_def intro: that(2) [of _ fs])
qed (rule that(1))

text \<open>Nodes and objects, the part the invariant is about, and users and pods.\<close>

definition held :: "vine_world \<Rightarrow> (string \<times> node_cr) list \<times> api_object set" where
  "held w = (vw_nodes w, set (vw_objects w))"

definition owned :: "vine_world \<Rightarrow> int \<times> (string \<times> node_cr) list \<times> api_object set \<times> (string \<times> string) list" where
  "owned w = (vw_now w, vw_nodes w, set (vw_objects w), vw_pods w)"

lemma held_owned: "held w = (fst (snd (owned w)), fst (snd (snd (owned w))))"
  by (simp add: held_def owned_def)

lemma keeps_through: "keeps f m \<Longrightarrow> (\<And>w. g w = h (f w)) \<Longrightarrow> keeps g m"
  by (simp add: keeps_def)

lemma keeps_label:
  assumes "\<And>w fs. f (w\<lparr>vw_faults := fs\<rparr>) = f w" "\<And>w ls. f (put ls w) = f w"
  shows "keeps f (label_with_api E get put name spec u)"
  unfolding label_with_api_def by (rule keeps_vapi) (auto simp: assms split: option.split)

lemma middle_keeps:
  "keeps (\<lambda>w. (owned w, vw_users w)) (label_namespace E ns spec u)"
  "keeps (\<lambda>w. (owned w, vw_users w)) (try_label_box E spec u)"
  "keeps (\<lambda>w. (owned w, vw_users w)) (get_or_create_shared_pvcs ns)"
  "keeps owned (label_user E spec b)"
proof -
  show "keeps (\<lambda>w. (owned w, vw_users w)) (label_namespace E ns spec u)"
    unfolding label_namespace_def create_namespace_def vwrite_def
    by (intro keeping keeps_label keeps_vapi) (simp_all add: owned_def)
  show "keeps (\<lambda>w. (owned w, vw_users w)) (try_label_box E spec u)"
    unfolding try_label_box_def
    by (intro keeping keeps_label keeps_vread) (simp_all add: owned_def)
  show "keeps (\<lambda>w. (owned w, vw_users w)) (get_or_create_shared_pvcs ns)"
    by (rule keeps_through [OF storage_keeps,
          where h = "\<lambda>(now, ns, us, bs, ss, tt, ps). ((now, ns, set tt, ps), us)"]) (simp add: owned_def bindings_of_def)
  show "keeps owned (label_user E spec b)"
    unfolding label_user_def
    by (rule keeps_label) (simp_all add: owned_def set_user_labels_def split: option.split)
qed

lemma middle_keep_owned:
  "keeps owned (label_namespace E ns spec u)" "keeps owned (try_label_box E spec u)"
  "keeps owned (get_or_create_shared_pvcs ns)"
  by (rule keeps_through [OF middle_keeps(1), where h = fst] keeps_through [OF middle_keeps(2), where h = fst]
      keeps_through [OF middle_keeps(3), where h = fst]; simp)+

lemma vwrite_result:
  assumes "vwrite f w = (r, w')"
  obtains fs where "r = Inl VApi" "w' = w\<lparr>vw_faults := fs\<rparr>" | fs where "r = Inr ()" "w' = f (w\<lparr>vw_faults := fs\<rparr>)"
  using assms [unfolded vwrite_def]
proof (cases rule: vapi_cases)
  case (1 fs)
  with that(1) show ?thesis by blast
next
  case (2 fs)
  with that(2) [of fs] show ?thesis by simp
qed

definition relabelled :: "'f vine_env \<Rightarrow> session_spec \<Rightarrow> string option \<Rightarrow> node_cr \<Rightarrow> vine_world \<Rightarrow> (string \<times> node_cr) list" where
  "relabelled E spec u nd w =
     bt_insert (ss_node_name spec) (nd\<lparr>nd_labels := labelled E (vw_now w) spec u (nd_labels nd)\<rparr>) (vw_nodes w)"

section \<open>Templates\<close>

text \<open>What a template is loaded as, without the calls.\<close>

definition document_template ::
  "'f vine_env \<Rightarrow> bool \<Rightarrow> session_context \<Rightarrow> document \<Rightarrow> vine_error + object_template" where
  "document_template E use_prefix ctx d =
     rbind (prepare_document use_prefix ctx d) (\<lambda>(name, namespace, api_version, kind).
     rbind (find_resource E api_version kind) (\<lambda>ar.
       Inr \<lparr>ot_resource = ar, ot_immutable = is_immutable ar, ot_name = name, ot_namespace = namespace,
            ot_types = (api_version, kind)\<rparr>))"

definition session_templates :: "'f vine_env \<Rightarrow> string \<Rightarrow> session_spec \<Rightarrow> vine_error + object_template list" where
  "session_templates E ns spec =
     (case ve_render E template_session_filename (get_context ns spec) of
        None \<Rightarrow> Inl (VBail ''render'')
      | Some ds \<Rightarrow> traverse (document_template E False (get_context ns spec)) ds)"

text \<open>The objects of a session, and those of them that are deleted.\<close>

definition session_keys :: "'f vine_env \<Rightarrow> string \<Rightarrow> session_spec \<Rightarrow> api_object set" where
  "session_keys E ns spec = (case session_templates E ns spec of Inr ts \<Rightarrow> object_key ` set ts | Inl e \<Rightarrow> {})"

definition removed_keys :: "'f vine_env \<Rightarrow> string \<Rightarrow> session_spec \<Rightarrow> api_object set" where
  "removed_keys E ns spec =
     (case session_templates E ns spec of Inr ts \<Rightarrow> object_key ` {t \<in> set ts. \<not> is_claim t} | Inl e \<Rightarrow> {})"

lemma vread_result:
  assumes "vread f w = (r, w')"
  obtains fs where "r = Inl VApi" "w' = w\<lparr>vw_faults := fs\<rparr>"
  | fs where "r = Inr (f (w\<lparr>vw_faults := fs\<rparr>))" "w' = w\<lparr>vw_faults := fs\<rparr>"
  using assms [unfolded vread_def]
proof (cases rule: vapi_cases)
  case (1 fs)
  then show ?thesis by (rule that(1))
next
  case (2 fs)
  then have "r = Inr (f (w\<lparr>vw_faults := fs\<rparr>))" "w' = w\<lparr>vw_faults := fs\<rparr>" by auto
  then show ?thesis by (rule that(2))
qed

lemma from_result_Inr [simp]: "from_result r w = (Inr x, w') \<longleftrightarrow> r = Inr x \<and> w' = w"
  by (cases r) (auto simp: from_result_def kfail_def)

lemma reads_only_kmap [reading]: "(\<And>x. reads_only (g x)) \<Longrightarrow> reads_only (kmap g xs)"
  by (induction xs) (auto intro!: reading)

lemma kmap_results: "kmap g xs w = (Inr ys, w') \<Longrightarrow> list_all2 (\<lambda>x y. \<exists>v v'. g x v = (Inr y, v')) xs ys"
proof (induction xs arbitrary: w ys)
  case (Cons x xs)
  then obtain y ys' w1 where "g x w = (Inr y, w1)" "kmap g xs w1 = (Inr ys', w')" "ys = y # ys'"
    by (auto simp: kbind_Inr)
  with Cons.IH [of w1 ys'] show ?case by auto
qed simp

lemma load_document_Inr:
  assumes "load_document E use_prefix ctx d w = (Inr t, w')"
  shows "document_template E use_prefix ctx d = Inr t"
  using assms unfolding load_document_def document_template_def
  by (auto simp: kbind_Inr elim!: vread_result)

lemma reads_only_load [reading]: "reads_only (load_template E use_prefix file ctx)"
proof -
  have "reads_only (load_document E use_prefix ctx d)" for d
    unfolding load_document_def by (intro reading) (auto split: prod.split intro!: reading)
  then show ?thesis
    unfolding load_template_def by (intro reading) (auto simp: reads_only_def kfail_def same_faults)
qed

lemma load_session:
  assumes "load_template E False template_session_filename (get_context ns spec) w = (r, w')"
  shows "\<exists>fs. w' = w\<lparr>vw_faults := fs\<rparr>" and "r = Inr ts \<Longrightarrow> session_templates E ns spec = Inr ts"
proof -
  show "\<exists>fs. w' = w\<lparr>vw_faults := fs\<rparr>" by (rule reads_onlyD [OF reads_only_load assms])
  show "session_templates E ns spec = Inr ts" if "r = Inr ts"
    using assms that unfolding load_template_def session_templates_def
    by (auto simp: kfail_def traverse_Inr_iff split: option.splits
        elim!: list_all2_mono [OF kmap_results] dest: load_document_Inr)
qed

text \<open>Everything but the objects and the answers to come.\<close>

definition rest :: "vine_world \<Rightarrow> vine_world" where
  "rest w = w\<lparr>vw_objects := [], vw_faults := []\<rparr>"

lemma restD:
  assumes "rest w' = rest w"
  shows "vw_now w' = vw_now w" "vw_nodes w' = vw_nodes w" "vw_users w' = vw_users w" "vw_pods w' = vw_pods w"
  using assms by (cases w; cases w'; simp add: rest_def)+

lemma rest_updates [simp]: "rest (w\<lparr>vw_faults := fs\<rparr>) = rest w" "rest (w\<lparr>vw_objects := os\<rparr>) = rest w"
  by (simp_all add: rest_def)

lemma create_one:
  assumes "kbind (get_object t) (create_object t) w = (r, w')"
  shows "rest w' = rest w \<and> set (vw_objects w) \<subseteq> set (vw_objects w') \<and>
    set (vw_objects w') \<subseteq> insert (object_key t) (set (vw_objects w)) \<and>
    (\<forall>u. r = Inr u \<longrightarrow> set (vw_objects w') = insert (object_key t) (set (vw_objects w)))"
  using assms unfolding get_object_def create_object_def
  by (auto elim!: kbind_cases vread_result vwrite_result split: if_splits)

lemma delete_one:
  assumes "kbind (get_object t) (delete_object t) w = (r, w')"
  shows "rest w' = rest w \<and> set (vw_objects w') \<subseteq> set (vw_objects w) \<and>
    (\<forall>u. r = Inr u \<longrightarrow> set (vw_objects w') = set (vw_objects w) - (if is_claim t then {} else {object_key t}))"
  using assms unfolding get_object_def delete_object_def
  by (auto elim!: kbind_cases vread_result vwrite_result split: if_splits)

lemma create_all:
  "kmap (\<lambda>t. kbind (get_object t) (create_object t)) ts w = (r, w') \<Longrightarrow> rest w' = rest w \<and>
     set (vw_objects w) \<subseteq> set (vw_objects w') \<and> set (vw_objects w') \<subseteq> object_key ` set ts \<union> set (vw_objects w) \<and>
     (\<forall>us. r = Inr us \<longrightarrow> set (vw_objects w') = object_key ` set ts \<union> set (vw_objects w))"
proof (induction ts arbitrary: w w' r)
  case (Cons t ts)
  from Cons.prems [unfolded kmap.simps] show ?case
  proof (cases rule: kbind_cases)
    case (1 e)
    with create_one [OF 1(1)] show ?thesis by auto
  next
    case (2 u w1)
    note one = create_one [OF 2(1)]
    from 2(2) show ?thesis
    proof (cases rule: kbind_cases)
      case (1 e)
      with one Cons.IH [OF 1(1)] show ?thesis by auto
    next
      case (2 us w2)
      with one Cons.IH [OF 2(1)] show ?thesis by auto
    qed
  qed
qed auto

lemma delete_all:
  "kmap (\<lambda>t. kbind (get_object t) (delete_object t)) ts w = (r, w') \<Longrightarrow> rest w' = rest w \<and>
     set (vw_objects w') \<subseteq> set (vw_objects w) \<and>
     (\<forall>us. r = Inr us \<longrightarrow> set (vw_objects w') = set (vw_objects w) - object_key ` {t \<in> set ts. \<not> is_claim t})"
proof (induction ts arbitrary: w w' r)
  case (Cons t ts)
  from Cons.prems [unfolded kmap.simps] show ?case
  proof (cases rule: kbind_cases)
    case (1 e)
    with delete_one [OF 1(1)] show ?thesis by auto
  next
    case (2 u w1)
    note one = delete_one [OF 2(1)]
    from 2(2) show ?thesis
    proof (cases rule: kbind_cases)
      case (1 e)
      with one Cons.IH [OF 1(1)] show ?thesis by auto
    next
      case (2 us w2)
      with one Cons.IH [OF 2(1)] show ?thesis by (auto split: if_splits)
    qed
  qed
qed auto

lemma create_template_result:
  assumes "create_template E ns spec w = (r, w')"
  shows "rest w' = rest w \<and> set (vw_objects w) \<subseteq> set (vw_objects w') \<and>
    set (vw_objects w') \<subseteq> session_keys E ns spec \<union> set (vw_objects w) \<and>
    (r = Inr () \<longrightarrow> (\<exists>ts. session_templates E ns spec = Inr ts) \<and>
       set (vw_objects w') = session_keys E ns spec \<union> set (vw_objects w))"
  using assms [unfolded create_template_def create_named_def execute_template_def]
proof (cases rule: kbind_cases)
  case (1 e)
  with load_session(1) [OF 1(1)] show ?thesis by auto
next
  case (2 ts w1)
  from load_session [OF 2(1)] obtain fs where w1: "w1 = w\<lparr>vw_faults := fs\<rparr>" and ts: "session_templates E ns spec = Inr ts" by auto
  from 2(2) [unfolded for_objects_def] show ?thesis
    by (cases rule: kbind_cases) (use w1 ts in \<open>auto simp: session_keys_def dest!: create_all\<close>)
qed

lemma delete_template_result:
  assumes "delete_template E ns spec w = (r, w')"
  shows "rest w' = rest w \<and> set (vw_objects w') \<subseteq> set (vw_objects w) \<and>
    (r = Inr () \<longrightarrow> (\<exists>ts. session_templates E ns spec = Inr ts) \<and>
       set (vw_objects w') = set (vw_objects w) - removed_keys E ns spec)"
  using assms [unfolded delete_template_def delete_named_def execute_template_def]
proof (cases rule: kbind_cases)
  case (1 e)
  with load_session(1) [OF 1(1)] show ?thesis by auto
next
  case (2 ts w1)
  from load_session [OF 2(1)] obtain fs where w1: "w1 = w\<lparr>vw_faults := fs\<rparr>" and ts: "session_templates E ns spec = Inr ts" by auto
  from 2(2) [unfolded for_objects_def] show ?thesis
    by (cases rule: kbind_cases) (use w1 ts in \<open>auto simp: removed_keys_def dest!: delete_all\<close>)
qed

lemma create_session_held:
  assumes "create_session E ns spec w = (r, w')"
  shows "r \<noteq> Inr () \<and> held w' = held w
    \<or> (\<exists>nd. bt_lookup (vw_nodes w) (ss_node_name spec) = Some nd
         \<and> vw_nodes w' = relabelled E spec (Some (ss_user_name spec)) nd w
         \<and> set (vw_objects w) \<subseteq> set (vw_objects w') \<and> set (vw_objects w') \<subseteq> session_keys E ns spec \<union> set (vw_objects w)
         \<and> (r = Inr () \<longrightarrow> (\<exists>ts. session_templates E ns spec = Inr ts)
              \<and> set (vw_objects w') = session_keys E ns spec \<union> set (vw_objects w)))"
proof -
  let ?u = "Some (ss_user_name spec)"
  let ?rest = "kbind (label_namespace E ns spec ?u) (\<lambda>_. kbind (label_user E spec True) (\<lambda>_.
      kbind (try_label_box E spec ?u) (\<lambda>_. get_or_create_shared_pvcs ns)))"
  have seq: "create_session E ns spec = kbind (label_node E spec ?u) (\<lambda>_. kbind ?rest (\<lambda>_. create_template E ns spec))"
    by (simp add: create_session_def Let_def kbind_assoc)
  note eq = assms [unfolded seq]
  have keep: "keeps owned ?rest" by (intro keeping middle_keep_owned middle_keeps(4))
  from eq show ?thesis
  proof (cases rule: kbind_cases)
    case (1 e)
    from 1(1) show ?thesis by (cases rule: label_node_result) (use 1 in \<open>auto simp: held_def\<close>)
  next
    case (2 x w1)
    from 2(1) obtain fs nd where nd: "bt_lookup (vw_nodes w) (ss_node_name spec) = Some nd"
      and w1: "w1 = w\<lparr>vw_faults := fs, vw_nodes := relabelled E spec ?u nd w\<rparr>"
    proof (cases rule: label_node_result)
      case (2 fs nd)
      then show ?thesis by (intro that [of nd fs]) (simp_all add: relabelled_def)
    qed simp
    from 2(2) show ?thesis
    proof (cases rule: kbind_cases)
      case (1 e)
      with keepsD [OF keep 1(1)] nd w1 show ?thesis by (auto simp: owned_def)
    next
      case (2 y w2)
      from keepsD [OF keep 2(1)] w1
      have w2: "vw_nodes w2 = relabelled E spec ?u nd w" "set (vw_objects w2) = set (vw_objects w)"
        by (simp_all add: owned_def)
      from create_template_result [OF 2(2)] nd w2 show ?thesis by (auto dest: restD(2))
    qed
  qed
qed

lemma delete_session_held:
  assumes "delete_session E ns spec w = (r, w')"
  shows "r \<noteq> Inr () \<and> vw_nodes w' = vw_nodes w \<and> set (vw_objects w') \<subseteq> set (vw_objects w)
    \<or> r = Inr () \<and> (\<exists>nd. bt_lookup (vw_nodes w) (ss_node_name spec) = Some nd
         \<and> vw_nodes w' = relabelled E spec None nd w \<and> (\<exists>ts. session_templates E ns spec = Inr ts)
         \<and> set (vw_objects w') = set (vw_objects w) - removed_keys E ns spec)"
proof -
  let ?rest = "kbind (delete_pods ns) (\<lambda>_. kbind (try_label_box E spec None) (\<lambda>_. kbind (label_user E spec False) (\<lambda>_.
      label_namespace E ns spec None)))"
  let ?f = "\<lambda>w. (vw_now w, held w)"
  have seq: "delete_session E ns spec = kbind (delete_template E ns spec) (\<lambda>_. kbind ?rest (\<lambda>_. label_node E spec None))"
    by (simp add: delete_session_def kbind_assoc)
  note eq = assms [unfolded seq]
  have "keeps ?f m" if "keeps owned m" for m :: "unit vine"
    by (rule keeps_through [OF that, where h = "\<lambda>(now, ns, ss, ps). (now, ns, ss)"]) (simp add: owned_def held_def)
  then have keep: "keeps ?f ?rest"
    unfolding delete_pods_def vwrite_def
    by (intro keeping middle_keep_owned middle_keeps(4) keeps_vapi) (simp_all add: held_def middle_keep_owned middle_keeps(4))
  from eq show ?thesis
  proof (cases rule: kbind_cases)
    case (1 e)
    with delete_template_result [OF 1(1)] show ?thesis by (auto dest: restD(2))
  next
    case (2 x w1)
    from delete_template_result [OF 2(1)] have w1: "vw_now w1 = vw_now w" "vw_nodes w1 = vw_nodes w"
      "\<exists>ts. session_templates E ns spec = Inr ts" "set (vw_objects w1) = set (vw_objects w) - removed_keys E ns spec"
      by (auto dest: restD)
    from 2(2) show ?thesis
    proof (cases rule: kbind_cases)
      case (1 e)
      with keepsD [OF keep 1(1)] w1 show ?thesis by (auto simp: held_def)
    next
      case (2 y w2)
      from keepsD [OF keep 2(1)] w1 have w2: "vw_now w2 = vw_now w" "vw_nodes w2 = vw_nodes w"
        "set (vw_objects w2) = set (vw_objects w) - removed_keys E ns spec"
        by (simp_all add: held_def)
      from 2(2) show ?thesis
        by (cases rule: label_node_result) (use w1(3) w2 in \<open>auto simp: relabelled_def\<close>)
    qed
  qed
qed

section \<open>Every session has a holder\<close>

text \<open>
  An object stands for the session of a namespace when every rendering of the template for that namespace
  names it and it is no claim. (The objects that only some renderings name are left out: a session is ended
  by the node controller with a rendering that knows neither quota nor role.) Where such an object exists, a
  node is bound to the session; and a bound node names its user, the namespace of that user and itself.
\<close>

definition standing :: "'f vine_env \<Rightarrow> string \<Rightarrow> api_object \<Rightarrow> bool" where
  "standing E ns k \<longleftrightarrow> fst (snd (snd k)) = Some ns
     \<and> (\<forall>spec ts. session_templates E ns spec = Inr ts \<longrightarrow> k \<in> removed_keys E ns spec)"

text \<open>The documents of the template are made for the namespace it is rendered for.\<close>

definition lawful_template :: "'f vine_env \<Rightarrow> bool" where
  "lawful_template E \<longleftrightarrow>
     (\<forall>ns spec ts. session_templates E ns spec = Inr ts \<longrightarrow> (\<forall>t \<in> set ts. ot_namespace t = ns))"

lemma session_key_namespace:
  "lawful_template E \<Longrightarrow> k \<in> session_keys E ns spec \<Longrightarrow> fst (snd (snd k)) = Some ns' \<Longrightarrow> ns' = ns"
  unfolding lawful_template_def session_keys_def object_key_def
  by (auto split: sum.splits if_splits)

definition label_value :: "vine_world \<Rightarrow> string \<Rightarrow> string \<Rightarrow> string option" where
  "label_value w n key = opt_bind (node_labels n w) (\<lambda>ls. bt_lookup ls key)"

definition well_bound :: "string \<Rightarrow> labels \<Rightarrow> bool" where
  "well_bound n ls \<longleftrightarrow>
     bt_lookup ls label_bind_status \<in> {None, Some ''false''}
     \<or> (\<exists>u. bt_lookup ls label_bind_by_user = Some u
          \<and> bt_lookup ls label_bind_namespace = Some (user_namespace_with u)
          \<and> bt_lookup ls label_bind_node = Some n)"

definition holds :: "(string \<times> node_cr) list \<Rightarrow> string \<Rightarrow> bool" where
  "holds nodes ns \<longleftrightarrow>
     (\<exists>n nd. bt_lookup nodes n = Some nd \<and> bt_lookup (nd_labels nd) label_bind_status = Some ''true''
        \<and> bt_lookup (nd_labels nd) label_bind_namespace = Some ns)"

definition holders_ok :: "'f vine_env \<Rightarrow> vine_world \<Rightarrow> bool" where
  "holders_ok E w \<longleftrightarrow>
     (\<forall>n nd. bt_lookup (vw_nodes w) n = Some nd \<longrightarrow> well_bound n (nd_labels nd))
     \<and> (\<forall>ns. \<forall>k \<in> set (vw_objects w). standing E ns k \<longrightarrow> holds (vw_nodes w) ns)"

lemma namespace_inj: "user_namespace_with u = user_namespace_with u' \<longleftrightarrow> u = u'"
  by (simp add: user_namespace_with_def)

lemma labelled_some:
  assumes "lawful_apply E"
  shows "bt_lookup (labelled E now spec (Some u) ls) label_bind_status = Some ''true''"
    "bt_lookup (labelled E now spec (Some u) ls) label_bind_by_user = Some u"
    "bt_lookup (labelled E now spec (Some u) ls) label_bind_namespace = Some (user_namespace_with u)"
    "bt_lookup (labelled E now spec (Some u) ls) label_bind_node = Some (ss_node_name spec)"
  unfolding labelled_def
  by (rule lawful_apply_set [OF assms]; simp add: get_label_def label_defs show_bool_def)+

lemma labelled_none:
  assumes "lawful_apply E"
  shows "bt_lookup (labelled E now spec None ls) label_bind_status = Some ''false''"
  unfolding labelled_def
  by (rule lawful_apply_set [OF assms]) (simp add: get_label_def label_defs show_bool_def)

text \<open>A node that is free for a user holds no session but the user's.\<close>

lemma free_holds:
  assumes "well_bound n ls" "free_for ls u" "bt_lookup ls label_bind_status = Some ''true''"
    "bt_lookup ls label_bind_namespace = Some ns"
  shows "ns = user_namespace_with u"
  using assms by (auto simp: well_bound_def free_for_def)

lemma holds_relabelled:
  assumes nd: "bt_lookup (vw_nodes w) (ss_node_name spec) = Some nd"
    and "well_bound (ss_node_name spec) (nd_labels nd)" "free_for (nd_labels nd) v"
    and "holds (vw_nodes w) ns" "ns \<noteq> user_namespace_with v"
  shows "holds (relabelled E spec u nd w) ns"
proof -
  from assms(4) obtain m md where m: "bt_lookup (vw_nodes w) m = Some md"
      "bt_lookup (nd_labels md) label_bind_status = Some ''true''"
      "bt_lookup (nd_labels md) label_bind_namespace = Some ns"
    unfolding holds_def by blast
  have "m \<noteq> ss_node_name spec" using free_holds [OF assms(2,3)] m nd assms(5) by auto
  with m show ?thesis
    unfolding holds_def relabelled_def by (intro exI [of _ m] exI [of _ md]) (simp add: bt_lookup_insert)
qed

lemma relabelled_bound:
  assumes E: "lawful_apply E" and ok: "\<forall>n nd. bt_lookup (vw_nodes w) n = Some nd \<longrightarrow> well_bound n (nd_labels nd)"
  shows "\<forall>n nd'. bt_lookup (relabelled E spec u nd w) n = Some nd' \<longrightarrow> well_bound n (nd_labels nd')"
  using ok labelled_some [OF E, of "vw_now w" spec] labelled_none [OF E, of "vw_now w" spec]
  by (cases u) (auto simp: relabelled_def bt_lookup_insert well_bound_def split: if_splits)

lemma relabelled_holds:
  "lawful_apply E \<Longrightarrow> holds (relabelled E spec (Some v) nd w) (user_namespace_with v)"
  unfolding holds_def relabelled_def
  by (intro exI [of _ "ss_node_name spec"]
      exI [of _ "nd\<lparr>nd_labels := labelled E (vw_now w) spec (Some v) (nd_labels nd)\<rparr>"])
    (simp add: bt_lookup_insert labelled_some)

definition free_node :: "string \<Rightarrow> string \<Rightarrow> vine_world \<Rightarrow> bool" where
  "free_node n u w \<longleftrightarrow> (\<exists>nd. bt_lookup (vw_nodes w) n = Some nd \<and> free_for (nd_labels nd) u)"

lemma create_session_ok:
  assumes E: "lawful_apply E" "lawful_template E" and ok: "holders_ok E w"
    and free: "free_node (ss_node_name spec) (ss_user_name spec) w"
  shows "holders_ok E (snd (create_session E (user_namespace_with (ss_user_name spec)) spec w))
    \<and> free_node (ss_node_name spec) (ss_user_name spec) (snd (create_session E (user_namespace_with (ss_user_name spec)) spec w))"
proof (cases "create_session E (user_namespace_with (ss_user_name spec)) spec w")
  case (Pair r w')
  let ?v = "ss_user_name spec" and ?new = "session_keys E (user_namespace_with (ss_user_name spec)) spec"
  from free obtain nd where nd: "bt_lookup (vw_nodes w) (ss_node_name spec) = Some nd" "free_for (nd_labels nd) ?v"
    by (auto simp: free_node_def)
  have wb: "well_bound (ss_node_name spec) (nd_labels nd)" using ok nd by (auto simp: holders_ok_def)
  let ?nodes = "relabelled E spec (Some ?v) nd w"
  have all: "\<forall>n nd'. bt_lookup ?nodes n = Some nd' \<longrightarrow> well_bound n (nd_labels nd')"
    by (rule relabelled_bound [OF E(1)]) (use ok in \<open>simp add: holders_ok_def\<close>)
  have mine: "holds ?nodes (user_namespace_with ?v)" by (rule relabelled_holds [OF E(1)])
  have old: "holds ?nodes ns" if "k \<in> set (vw_objects w)" "standing E ns k" for ns k
    using ok holds_relabelled [OF nd(1) wb nd(2), of ns E "Some ?v"] mine that by (auto simp: holders_ok_def)
  have new: "holds ?nodes ns" if "k \<in> ?new" "standing E ns k" for ns k
    using session_key_namespace [OF E(2) that(1), of ns] that(2) mine by (simp add: standing_def)
  have free': "bt_lookup ?nodes (ss_node_name spec) = Some nd' \<Longrightarrow> free_for (nd_labels nd') ?v" for nd'
    using labelled_some(2) [OF E(1)] by (auto simp: relabelled_def bt_lookup_insert free_for_def)
  from create_session_held [OF Pair] nd(1) consider "held w' = held w"
    | "vw_nodes w' = ?nodes" "set (vw_objects w') \<subseteq> ?new \<union> set (vw_objects w)"
    by auto
  then show ?thesis
  proof cases
    case 1
    with ok free Pair show ?thesis by (simp add: held_def holders_ok_def free_node_def)
  next
    case 2
    have "holds ?nodes ns" if "k \<in> set (vw_objects w')" "standing E ns k" for ns k
      using 2(2) that old [of k ns] new [of k ns] by blast
    with 2(1) all Pair have "holders_ok E w'" by (auto simp: holders_ok_def)
    moreover have "free_node (ss_node_name spec) ?v w'"
      using 2(1) free' by (auto simp: free_node_def relabelled_def bt_lookup_insert)
    ultimately show ?thesis using Pair by simp
  qed
qed

lemma delete_session_ok:
  assumes E: "lawful_apply E" and ok: "holders_ok E w"
    and free: "free_node (ss_node_name spec) v w"
  shows "holders_ok E (snd (delete_session E (user_namespace_with v) spec w))"
proof (cases "delete_session E (user_namespace_with v) spec w")
  case (Pair r w')
  from free obtain nd where nd: "bt_lookup (vw_nodes w) (ss_node_name spec) = Some nd" "free_for (nd_labels nd) v"
    by (auto simp: free_node_def)
  have wb: "well_bound (ss_node_name spec) (nd_labels nd)" using ok nd by (auto simp: holders_ok_def)
  let ?nodes = "relabelled E spec None nd w" and ?gone = "removed_keys E (user_namespace_with v) spec"
  from delete_session_held [OF Pair] nd(1) consider "vw_nodes w' = vw_nodes w" "set (vw_objects w') \<subseteq> set (vw_objects w)"
    | ts where "vw_nodes w' = ?nodes" "session_templates E (user_namespace_with v) spec = Inr ts"
      "set (vw_objects w') = set (vw_objects w) - ?gone"
    by auto
  then show ?thesis
  proof cases
    case 1
    from ok have "holds (vw_nodes w) ns" if "k \<in> set (vw_objects w')" "standing E ns k" for ns k
      using that subsetD [OF 1(2) that(1)] unfolding holders_ok_def by blast
    with ok 1(1) Pair show ?thesis by (auto simp: holders_ok_def)
  next
    case 2
    have "\<forall>n nd'. bt_lookup ?nodes n = Some nd' \<longrightarrow> well_bound n (nd_labels nd')"
      by (rule relabelled_bound [OF E]) (use ok in \<open>simp add: holders_ok_def\<close>)
    moreover have "holds ?nodes ns" if "k \<in> set (vw_objects w')" "standing E ns k" for ns k
    proof (rule holds_relabelled [OF nd(1) wb nd(2)])
      show "holds (vw_nodes w) ns" using ok 2(3) that by (auto simp: holders_ok_def)
      show "ns \<noteq> user_namespace_with v" using 2(2,3) that by (auto simp: standing_def)
    qed
    ultimately show ?thesis using 2 Pair by (auto simp: holders_ok_def)
  qed
qed

text \<open>Answers to come do not matter.\<close>

lemma holders_faults [simp]: "holders_ok E (w\<lparr>vw_faults := fs\<rparr>) = holders_ok E w"
  by (simp add: holders_ok_def)

lemma free_node_faults [simp]: "free_node n u (w\<lparr>vw_faults := fs\<rparr>) = free_node n u w"
  by (simp add: free_node_def)

lemma reads_only_ok: "reads_only m \<Longrightarrow> holders_ok E w \<Longrightarrow> holders_ok E (snd (m w))"
  unfolding reads_only_def by (erule allE [of _ w]) (elim exE, simp)

lemma execute_ok:
  assumes ok: "holders_ok E w"
    and f: "\<And>spec fs. free_node (ss_node_name spec) (ss_user_name spec) w
      \<Longrightarrow> holders_ok E (snd (f (user_namespace_with (ss_user_name spec)) spec (w\<lparr>vw_faults := fs\<rparr>)))"
  shows "holders_ok E (snd (execute_with E box_name user_name check f w))"
  unfolding execute_with_def
proof (rule kbind_keeps)
  show "holders_ok E (snd (admit E box_name user_name check w))"
    by (rule reads_only_ok [OF reads_only_admit ok])
  fix x w1 assume x: "admit E box_name user_name check w = (Inr x, w1)" and ok1: "holders_ok E w1"
  show "holders_ok E (snd ((case x of Inl answer \<Rightarrow> kret answer
       | Inr (spec, q, user) \<Rightarrow>
           kbind (vread (\<lambda>_. ())) (\<lambda>_.
           kbind (f (user_namespace_with (ss_user_name spec)) spec) (\<lambda>_. kret (Accept q user)))) w1))"
  proof (cases x)
    case (Inl a)
    with ok1 show ?thesis by simp
  next
    case (Inr y)
    obtain spec q us where y: "y = (spec, q, us)" by (cases y)
    with x Inr have "admit E box_name user_name check w = (Inr (Inr (spec, q, us)), w1)" by simp
    from admit_Inr [OF this] obtain fs where w1: "w1 = w\<lparr>vw_faults := fs\<rparr>"
      and adm: "admitted E box_name user_name check w spec q us" by blast
    then have free: "free_node (ss_node_name spec) (ss_user_name spec) w"
      using allocable_free by (auto simp: admitted_def free_node_def)
    have "holders_ok E (snd (kbind (vread (\<lambda>_. ()))
        (\<lambda>_. kbind (f (user_namespace_with (ss_user_name spec)) spec) (\<lambda>_. kret (Accept q us))) w1))"
    proof (rule kbind_keeps)
      show "holders_ok E (snd (vread (\<lambda>_. ()) w1))"
        by (rule reads_only_ok [OF reads_only_vread ok1])
      fix u w2 assume w2: "vread (\<lambda>_. ()) w1 = (Inr u, w2)"
      obtain fs' where "w2 = w1\<lparr>vw_faults := fs'\<rparr>"
        using reads_onlyD [OF reads_only_vread w2] by blast
      then have w2': "w2 = w\<lparr>vw_faults := fs'\<rparr>" by (simp add: w1)
      have "holders_ok E (snd (f (user_namespace_with (ss_user_name spec)) spec w2))"
        unfolding w2' by (rule f [OF free])
      then show "holders_ok E (snd (kbind (f (user_namespace_with (ss_user_name spec)) spec) (\<lambda>_. kret (Accept q us)) w2))"
        by (rule kbind_keeps) simp
    qed
    with Inr y show ?thesis by simp
  qed
qed

lemma login_ok:
  assumes E: "lawful_apply E" "lawful_template E" and ok: "holders_ok E w"
  shows "holders_ok E (snd (login E box user d w))"
  unfolding login_def
proof (rule execute_ok [OF ok])
  fix spec :: session_spec and fs assume free: "free_node (ss_node_name spec) (ss_user_name spec) w"
  let ?ns = "user_namespace_with (ss_user_name spec)" and ?w = "w\<lparr>vw_faults := fs\<rparr>"
  have c: "holders_ok E (snd (create_session E ?ns spec ?w))
      \<and> free_node (ss_node_name spec) (ss_user_name spec) (snd (create_session E ?ns spec ?w))"
    by (rule create_session_ok [OF E]) (use ok free in simp_all)
  obtain r w1 where w1: "create_session E ?ns spec ?w = (r, w1)" by (cases "create_session E ?ns spec ?w")
  obtain r' w2 where w2: "delete_session E ?ns spec w1 = (r', w2)" by (cases "delete_session E ?ns spec w1")
  from c w1 have c1: "holders_ok E w1" "free_node (ss_node_name spec) (ss_user_name spec) w1" by simp_all
  from delete_session_ok [OF E(1) c1] w2 have "holders_ok E w2" by simp
  with c1(1) show "holders_ok E (snd (try_create E ?ns spec d ?w))"
    by (cases r; cases r') (simp_all add: try_create_def w1 w2)
qed

lemma logout_ok:
  "lawful_apply E \<Longrightarrow> holders_ok E w \<Longrightarrow> holders_ok E (snd (logout E box user w))"
  unfolding logout_def by (rule execute_ok) (auto intro: delete_session_ok)

text \<open>The node controller, and runs.\<close>

lemma logged_ok: "holders_ok E (snd (m w)) \<Longrightarrow> holders_ok E (snd (logged m w))"
  by (cases "m w") (auto simp: logged_def split: sum.split vine_error.split)

lemma reads_only_all_exist [reading]: "reads_only (all_exist ts)"
  by (induction ts) (simp_all only: all_exist.simps get_object_def reads_only_kret, intro reading)

lemma try_delete_ok:
  assumes E: "lawful_apply E" and ok: "holders_ok E w" and nd: "bt_lookup (vw_nodes w) n = Some nd"
    and u: "bt_lookup (nd_labels nd) label_bind_by_user = Some u"
  shows "holders_ok E (snd (try_delete_session E (user_namespace_with u) n nd w))"
proof (cases "rbind (get_session_ref E (nd_labels nd)) (\<lambda>r. rbind (assert_started (vw_now w) r) (\<lambda>_. Inr r))")
  case (Inl e)
  with ok show ?thesis by (simp add: try_delete_session_def)
next
  case (Inr r)
  then have user: "sr_user_name r = u"
    using u by (auto simp: get_session_ref_def Let_def split: option.splits if_splits)
  let ?spec = "\<lparr>ss_box_quota = None, ss_node_name = n, ss_node = nd,
      ss_persistence = is_persistent (nd_labels nd), ss_role = None, ss_user_name = sr_user_name r\<rparr>"
  let ?gone = "if is_ready_lately (vw_now w) nd then kbind (exists_template E (user_namespace_with u) ?spec) (\<lambda>b. kret (\<not> b)) else kret True"
  have gone: "reads_only ?gone" unfolding exists_template_def exists_named_def by (intro reading)
  have "holders_ok E (snd (kbind ?gone (\<lambda>gone. if gone
      then kbind (delete_session E (user_namespace_with u) ?spec) (\<lambda>_. kret (Some (sr_user_name r))) else kret None) w))"
  proof (rule kbind_keeps)
    show "holders_ok E (snd (?gone w))" by (rule reads_only_ok [OF gone ok])
    fix b w1 assume w1: "?gone w = (Inr b, w1)" and ok1: "holders_ok E w1"
    obtain fs where "w1 = w\<lparr>vw_faults := fs\<rparr>" using reads_onlyD [OF gone w1] by blast
    then have "free_node (ss_node_name ?spec) u w1"
      using nd u by (auto simp: free_node_def free_for_def)
    from delete_session_ok [OF E ok1 this]
    have "holders_ok E (snd (kbind (delete_session E (user_namespace_with u) ?spec) (\<lambda>_. kret (Some (sr_user_name r))) w1))"
      by (rule kbind_keeps) simp
    with ok1 show "holders_ok E (snd ((if b
      then kbind (delete_session E (user_namespace_with u) ?spec) (\<lambda>_. kret (Some (sr_user_name r))) else kret None) w1))"
      by simp
  qed
  with Inr show ?thesis by (simp add: try_delete_session_def Let_def)
qed

lemma reconcile_node_ok:
  assumes E: "lawful_apply E" and ok: "holders_ok E w" and nd: "bt_lookup (vw_nodes w) n = Some nd"
  shows "holders_ok E (snd (reconcile_node E n nd w))"
proof (cases "bt_lookup (nd_labels nd) label_bind_by_user")
  case None
  with ok show ?thesis by (simp add: reconcile_node_def)
next
  case (Some u)
  obtain r w1 where w1: "vread (\<lambda>_. ()) w = (r, w1)" by (cases "vread (\<lambda>_. ()) w")
  obtain fs where fs: "w1 = w\<lparr>vw_faults := fs\<rparr>" using reads_onlyD [OF reads_only_vread w1] by blast
  have ok1: "holders_ok E w1" using ok by (simp add: fs)
  have "bt_lookup (vw_nodes w1) n = Some nd" using nd by (simp add: fs)
  from logged_ok [of E "try_delete_session E (user_namespace_with u) n nd" w1, OF try_delete_ok [OF E ok1 this Some]]
  have "holders_ok E (snd (kbind (logged (try_delete_session E (user_namespace_with u) n nd)) (\<lambda>_. kret (RequeueAfter session_fallback)) w1))"
    by (rule kbind_keeps) simp
  with ok ok1 w1 Some show ?thesis
    by (cases r) (simp_all add: reconcile_node_def)
qed

fun no_autologin :: "vine_event \<Rightarrow> bool" where
  "no_autologin (EvBinding i) = False"
| "no_autologin ev = True"

lemma vine_step_ok:
  assumes "lawful_apply E" "lawful_template E" "holders_ok E w" "no_autologin ev"
  shows "holders_ok E (vine_step E ev w)"
proof (cases ev)
  case (EvNode n)
  with assms reconcile_node_ok show ?thesis
    by (auto simp: vine_step_def split: option.split)
next
  case (EvTick d)
  with assms(3) show ?thesis by (simp add: vine_step_def holders_ok_def)
qed (use assms login_ok logout_ok in \<open>auto simp: vine_step_def\<close>)

lemma vine_run_ok:
  "lawful_apply E \<Longrightarrow> lawful_template E \<Longrightarrow> holders_ok E w \<Longrightarrow> list_all no_autologin evs \<Longrightarrow> holders_ok E (vine_run E evs w)"
  unfolding vine_run_def by (induction evs arbitrary: w) (auto intro: vine_step_ok)

section \<open>A sample cluster\<close>

text \<open>Labels applied as a merge patch, and whole numbers for quantities.\<close>

definition merge_labels :: "labels \<Rightarrow> (string \<times> string option) list \<Rightarrow> labels" where
  "merge_labels ls ps =
     foldr (\<lambda>(k, v) m. case v of Some x \<Rightarrow> bt_insert k x m | None \<Rightarrow> bt_remove k m) ps ls"

text \<open>A part of \<open>user-session.yaml.j2\<close>: a config map, the deployment of noVNC, and a claim where the quota is known.\<close>

definition sample_document :: "string \<Rightarrow> string \<Rightarrow> string \<Rightarrow> string \<Rightarrow> document" where
  "sample_document api_version kind name ns =
     \<lparr>dc_types = Some (api_version, kind), dc_name = Some name, dc_namespace = Some ns\<rparr>"

definition sample_render :: "string \<Rightarrow> session_context \<Rightarrow> document list option" where
  "sample_render file ctx = Some
     ([sample_document ''v1'' ''ConfigMap'' ''desktop'' (sx_namespace ctx),
       sample_document ''apps/v1'' ''Deployment'' ''novnc'' (sx_namespace ctx)]
      @ (if ss_box_quota (sx_spec ctx) = None then []
         else [sample_document ''v1'' ''PersistentVolumeClaim'' ''home'' (sx_namespace ctx)]))"

definition sample_discover :: "string \<Rightarrow> string option \<Rightarrow> api_resource list option" where
  "sample_discover g v = Some
     (if g = ''apps'' then [\<lparr>ar_group = g, ar_kind = ''Deployment'', ar_namespaced = True\<rparr>]
      else [\<lparr>ar_group = g, ar_kind = ''ConfigMap'', ar_namespaced = True\<rparr>,
            \<lparr>ar_group = g, ar_kind = ''PersistentVolumeClaim'', ar_namespaced = True\<rparr>])"

definition sample_env :: "nat vine_env" where
  "sample_env = \<lparr>ve_apply = \<lambda>_. merge_labels, ve_from_millis = \<lambda>n. Some (uint n),
     ve_render = sample_render, ve_discover = sample_discover,
     ve_f64_parse = parse_usize, ve_f64_scale = (*), ve_f64_ge = (\<ge>)\<rparr>"

lemma bt_lookup_remove_other: "k \<noteq> k' \<Longrightarrow> bt_lookup (bt_remove k m) k' = bt_lookup m k'"
  by (induction k m rule: bt_remove.induct) auto

lemma sample_lawful: "lawful_apply sample_env"
proof -
  have "(map_of ps k = None \<longrightarrow> bt_lookup (merge_labels ls ps) k = bt_lookup ls k)
      \<and> (\<forall>v. map_of ps k = Some (Some v) \<longrightarrow> bt_lookup (merge_labels ls ps) k = Some v)" for ls ps k
    by (induction ps) (auto simp: merge_labels_def bt_lookup_insert bt_lookup_remove_other split: option.split)
  then show ?thesis
    by (auto simp: lawful_apply_def sample_env_def split: option.split)
qed

lemmas template_eval = prepare_document_def find_resource_def api_group_version_def is_immutable_def sample_discover_def
  sample_document_def get_context_def

lemma sample_templates:
  "session_templates sample_env ns spec = Inr
     ([\<lparr>ot_resource = \<lparr>ar_group = [], ar_kind = ''ConfigMap'', ar_namespaced = True\<rparr>, ot_immutable = False,
        ot_name = ''desktop'', ot_namespace = ns, ot_types = (''v1'', ''ConfigMap'')\<rparr>,
       \<lparr>ot_resource = \<lparr>ar_group = ''apps'', ar_kind = ''Deployment'', ar_namespaced = True\<rparr>, ot_immutable = False,
        ot_name = ''novnc'', ot_namespace = ns, ot_types = (''apps/v1'', ''Deployment'')\<rparr>]
      @ (if ss_box_quota spec = None then []
         else [\<lparr>ot_resource = \<lparr>ar_group = [], ar_kind = ''PersistentVolumeClaim'', ar_namespaced = True\<rparr>,
           ot_immutable = False, ot_name = ''home'', ot_namespace = ns, ot_types = (''v1'', ''PersistentVolumeClaim'')\<rparr>]))"
  by (simp add: session_templates_def sample_env_def sample_render_def document_template_def template_eval)

lemma sample_lawful_template: "lawful_template sample_env"
  by (auto simp: lawful_template_def sample_templates split: if_splits)

definition sample_user :: "string \<Rightarrow> user_cr" where
  "sample_user name = \<lparr>ur_spec = \<lparr>us_alias = None, us_name = name\<rparr>, ur_labels = []\<rparr>"

definition sample_node :: node_cr where
  "sample_node = \<lparr>nd_labels = [], nd_spec = None, nd_conditions = None,
     nd_allocatable = Some [(''cpu'', ''8'')], nd_capacity = Some [(''cpu'', ''8'')]\<rparr>"

definition sample_world :: vine_world where
  "sample_world =
     \<lparr>vw_now = 0, vw_nodes = [(''n1'', sample_node), (''n2'', sample_node)],
      vw_users = [(''ann'', sample_user ''Ann''), (''bob'', sample_user ''Bob'')],
      vw_boxes = [], vw_namespaces = [], vw_roles = [], vw_role_bindings = [], vw_box_bindings = [],
      vw_quotas = [(''q'', \<lparr>bq_limits = Some [(''cpu'', ''4'')]\<rparr>)],
      vw_quota_bindings = [\<lparr>qb_user = ''ann'', qb_quota = ''q'', qb_expired = None\<rparr>,
                           \<lparr>qb_user = ''bob'', qb_quota = ''q'', qb_expired = None\<rparr>],
      vw_objects = [], vw_pods = [], vw_claims = [], vw_volumes = [], vw_secrets = [], vw_faults = []\<rparr>"

lemma sample_ok: "holders_ok sample_env sample_world"
  by (auto simp: holders_ok_def sample_world_def sample_node_def well_bound_def split: if_splits)


lemmas vine_eval = kbind_def vread_def vwrite_def vapi_def from_result_def kfail_def Let_def opt_bind_def require_def

lemma sample_affords: "is_affordable sample_env (Some [(''cpu'', ''8'')]) \<lparr>bq_limits = Some [(''cpu'', ''4'')]\<rparr> = Inr True"
  by (simp add: is_affordable_def is_affordable_atomic_def opt_bind_def parse_quantity_def quantity_units_def trim_def
      is_space_def ends_with_def sample_env_def parse_usize_def parse_unsigned_def is_digit_def digits_value_def)

lemma sample_apply: "ve_apply sample_env m = merge_labels"
  by (simp add: sample_env_def)

lemma sample_selectors: "ve_render sample_env = sample_render" "ve_discover sample_env = sample_discover"
  by (simp_all add: sample_env_def)

lemmas session_eval = vine_eval clock_def sample_apply merge_labels_def
  assert_allocable_def is_allocable_def check_by_key_def preferred_name_def is_reserved_def quota_bindings_of_def
  List.map_filter_simps binding_kept_def sample_affords label_node_def label_with_api_def node_labels_def
  set_node_labels_def label_namespace_def create_namespace_def label_user_def user_labels_def set_user_labels_def
  try_label_box_def get_or_create_shared_pvcs_def list_shared_claims_def get_label_def
  sample_selectors sample_render_def template_eval create_template_def create_named_def execute_template_def
  load_template_def load_document_def for_objects_def get_object_def create_object_def object_key_def
  is_persistent_def show_bool_def user_namespace_with_def sample_user_def sample_node_def sample_world_def

lemma sample_login:
  "fst (login sample_env ''n1'' ''ann'' False sample_world) = Inr (Accept \<lparr>bq_limits = Some [(''cpu'', ''4'')]\<rparr> \<lparr>us_alias = None, us_name = ''Ann''\<rparr>)"
  by (simp add: login_def try_create_def create_session_def execute_with_def admit_def session_eval)

section \<open>Sessions\<close>

text \<open>C27: Whatever requests come in, in whatever order, and whatever calls of the API fail in the middle of
  one: where an object stands that every rendering of the session template names (claims apart), a node is
  bound to its session, and a bound node names its user, the namespace of that user and itself. So the
  controller finds every session that is to be ended. Assumed: the server's apply sets the labels it is given,
  the documents of the template lie in the session's namespace, requests are handled one after the other, and
  the autologin controller does not run. Source: \<open>SessionManager::create\<close>, \<open>delete\<close>, \<open>try_create\<close> and
  \<open>try_delete\<close> in \<open>vine/session/src/lib.rs\<close>, \<open>execute_with\<close> in \<open>vine/rbac/src/session.rs\<close>.\<close>

theorem sessions_have_holders:
  assumes "lawful_apply E" and "lawful_template E" and "holders_ok E w" and "list_all no_autologin evs"
  shows "holders_ok E (vine_run E evs w)"
  by (rule vine_run_ok [OF assms])

theorem sessions_have_holders_witness:
  "holders_ok sample_env (vine_run sample_env [EvLogin ''n1'' ''ann'' False, EvAnswers [False, True], EvLogout ''n1'' ''ann'', EvNode ''n1''] sample_world)"
  by (rule sessions_have_holders [OF sample_lawful sample_lawful_template sample_ok]) simp

lemma template_keeps: "keeps rest (create_template E ns spec)" "keeps rest (delete_template E ns spec)"
  unfolding keeps_def by (metis prod.collapse create_template_result) (metis prod.collapse delete_template_result)

lemma create_session_users:
  assumes "create_session E ns spec w = (Inr (), w')"
  shows "\<exists>x. bt_lookup (vw_users w) (ss_user_name spec) = Some x
    \<and> vw_users w' = bt_insert (ss_user_name spec)
        (x\<lparr>ur_labels := labelled E (vw_now w) spec (Some (ss_user_name spec)) (ur_labels x)\<rparr>) (vw_users w)"
proof -
  let ?u = "Some (ss_user_name spec)" and ?f = "\<lambda>w. (vw_now w, vw_users w)"
  let ?first = "kbind (label_node E spec ?u) (\<lambda>_. label_namespace E ns spec ?u)"
  let ?last = "kbind (try_label_box E spec ?u) (\<lambda>_. kbind (get_or_create_shared_pvcs ns) (\<lambda>_. create_template E ns spec))"
  have "create_session E ns spec = kbind ?first (\<lambda>_. kbind (label_user E spec True) (\<lambda>_. ?last))"
    by (simp add: create_session_def Let_def kbind_assoc)
  note eq = assms [unfolded this kbind_Inr]
  have mid: "keeps ?f m" if "keeps (\<lambda>w. (owned w, vw_users w)) m" for m :: "unit vine"
    by (rule keeps_through [OF that, where h = "\<lambda>(o', us). (fst o', us)"]) (simp add: owned_def)
  have "keeps ?f (label_node E spec ?u)"
    unfolding label_node_def by (rule keeps_label) (simp_all add: set_node_labels_def split: option.split)
  then have first: "keeps ?f ?first"
    by (rule keeps_kbind) (rule mid, rule middle_keeps(1))
  have "keeps ?f (create_template E ns spec)"
    by (rule keeps_through [OF template_keeps(1), where h = "\<lambda>w. (vw_now w, vw_users w)"]) (simp add: rest_def)
  then have last: "keeps ?f ?last"
    by (intro keeps_kbind mid [OF middle_keeps(2)] mid [OF middle_keeps(3)])
  from eq obtain w1 w2 where w1: "?first w = (Inr (), w1)" and w2: "label_user E spec True w1 = (Inr (), w2)"
    and w': "?last w2 = (Inr (), w')"
    by auto
  from keepsD [OF first w1] keepsD [OF last w'] have f: "vw_now w1 = vw_now w" "vw_users w1 = vw_users w" "vw_users w' = vw_users w2"
    by simp_all
  from w2 show ?thesis
    by (cases rule: label_user_result) (use f in auto)
qed

lemma admitted_spec:
  assumes "admitted E box user check w spec q us" and "bt_lookup (vw_users w) user = Some u"
  obtains nd role where "bt_lookup (vw_nodes w) box = Some nd"
    and "spec = \<lparr>ss_box_quota = Some q, ss_node_name = box, ss_node = nd, ss_persistence = is_persistent (nd_labels nd),
      ss_role = Some role, ss_user_name = preferred_name user u\<rparr>"
  using assms by (auto simp: admitted_def)

lemma try_create_Inr: "try_create E ns spec d w = (Inr (), w') \<Longrightarrow> create_session E ns spec w = (Inr (), w')"
  by (auto simp: try_create_def split: prod.splits sum.splits if_splits)

text \<open>C30: An accepted login binds what it says: afterwards the node refers to the session of this user in the
  namespace of this user, every object exists that the session template names when it is rendered for this node,
  as it was, this user and the quota of the answer, and the user refers to the node. Source:
  \<open>SessionManager::create\<close> and \<open>get_label\<close> in \<open>vine/session/src/lib.rs\<close>, \<open>get_session_ref\<close> in
  \<open>ark/api/src/lib.rs\<close>.\<close>

theorem accepted_login_binds:
  assumes "lawful_apply E" and "login E box user d w = (Inr (Accept q us), w')" and "bt_lookup (vw_users w) user = Some u"
  shows "(\<exists>ls r. node_labels box w' = Some ls \<and> get_session_ref E ls = Inr r \<and> sr_node_name r = box
        \<and> sr_user_name r = preferred_name user u \<and> sr_namespace r = user_namespace user u)
    \<and> (\<exists>nd role ts. bt_lookup (vw_nodes w) box = Some nd
        \<and> session_templates E (user_namespace user u)
            \<lparr>ss_box_quota = Some q, ss_node_name = box, ss_node = nd, ss_persistence = is_persistent (nd_labels nd),
             ss_role = Some role, ss_user_name = preferred_name user u\<rparr> = Inr ts
        \<and> object_key ` set ts \<subseteq> set (vw_objects w'))
    \<and> (\<exists>ls. user_labels (preferred_name user u) w' = Some ls \<and> current_box ls = Some box)"
proof -
  from assms(2) obtain spec fs where adm: "admitted E box user True w spec q us"
    and c: "try_create E (user_namespace_with (ss_user_name spec)) spec d (w\<lparr>vw_faults := fs\<rparr>) = (Inr (), w')"
    unfolding login_def by (rule execute_accepts)
  from adm assms(3) have spec: "ss_user_name spec = preferred_name user u" "ss_node_name spec = box" "ss_box_quota spec = Some q"
    by (auto simp: admitted_def)
  note lab = labelled_some [OF assms(1), of _ spec "ss_user_name spec"]
  note c' = try_create_Inr [OF c]
  from create_session_held [OF c'] spec obtain nd ts where
    held: "vw_nodes w' = relabelled E spec (Some (ss_user_name spec)) nd (w\<lparr>vw_faults := fs\<rparr>)"
      "session_templates E (user_namespace_with (ss_user_name spec)) spec = Inr ts"
      "set (vw_objects w') = session_keys E (user_namespace_with (ss_user_name spec)) spec \<union> set (vw_objects w)"
    by auto
  have node: "\<exists>ls r. node_labels box w' = Some ls \<and> get_session_ref E ls = Inr r \<and> sr_node_name r = box
        \<and> sr_user_name r = preferred_name user u \<and> sr_namespace r = user_namespace user u"
    using held(1) lab spec
    by (auto simp: node_labels_def relabelled_def bt_lookup_insert get_session_ref_def Let_def user_namespace_def)
  have "\<exists>ls. user_labels (preferred_name user u) w' = Some ls \<and> current_box ls = Some box"
    using create_session_users [OF c'] lab spec
    by (auto simp: user_labels_def bt_lookup_insert current_box_def)
  moreover have "\<exists>nd role ts. bt_lookup (vw_nodes w) box = Some nd
        \<and> session_templates E (user_namespace user u)
            \<lparr>ss_box_quota = Some q, ss_node_name = box, ss_node = nd, ss_persistence = is_persistent (nd_labels nd),
             ss_role = Some role, ss_user_name = preferred_name user u\<rparr> = Inr ts
        \<and> object_key ` set ts \<subseteq> set (vw_objects w')"
  proof (rule admitted_spec [OF adm assms(3)])
    fix n role
    assume n: "bt_lookup (vw_nodes w) box = Some n"
      and s: "spec = \<lparr>ss_box_quota = Some q, ss_node_name = box, ss_node = n, ss_persistence = is_persistent (nd_labels n),
        ss_role = Some role, ss_user_name = preferred_name user u\<rparr>"
    show ?thesis
      by (intro exI [of _ n] exI [of _ role] exI [of _ ts])
        (use n held(2,3) in \<open>auto simp: s user_namespace_def session_keys_def\<close>)
  qed
  ultimately show ?thesis using node by simp
qed

theorem accepted_login_binds_witness:
  "(\<exists>ls r. node_labels ''n1'' (snd (login sample_env ''n1'' ''ann'' False sample_world)) = Some ls
        \<and> get_session_ref sample_env ls = Inr r \<and> sr_node_name r = ''n1'' \<and> sr_user_name r = ''ann''
        \<and> sr_namespace r = ''vine-session-ann'')
    \<and> (\<exists>nd role ts. bt_lookup (vw_nodes sample_world) ''n1'' = Some nd
        \<and> session_templates sample_env ''vine-session-ann''
            \<lparr>ss_box_quota = Some \<lparr>bq_limits = Some [(''cpu'', ''4'')]\<rparr>, ss_node_name = ''n1'', ss_node = nd,
             ss_persistence = is_persistent (nd_labels nd), ss_role = Some role, ss_user_name = ''ann''\<rparr> = Inr ts
        \<and> object_key ` set ts \<subseteq> set (vw_objects (snd (login sample_env ''n1'' ''ann'' False sample_world))))
    \<and> (\<exists>ls. user_labels ''ann'' (snd (login sample_env ''n1'' ''ann'' False sample_world)) = Some ls
          \<and> current_box ls = Some ''n1'')"
proof -
  have "login sample_env ''n1'' ''ann'' False sample_world
      = (Inr (Accept \<lparr>bq_limits = Some [(''cpu'', ''4'')]\<rparr> \<lparr>us_alias = None, us_name = ''Ann''\<rparr>),
         snd (login sample_env ''n1'' ''ann'' False sample_world))"
    using sample_login by (metis prod.collapse)
  moreover have "bt_lookup (vw_users sample_world) ''ann'' = Some (sample_user ''Ann'')"
    by (simp add: sample_world_def)
  moreover have "preferred_name ''ann'' (sample_user ''Ann'') = ''ann''" "user_namespace ''ann'' (sample_user ''Ann'') = ''vine-session-ann''"
    by (simp_all add: preferred_name_def sample_user_def user_namespace_def user_namespace_with_def)
  ultimately show ?thesis
    using accepted_login_binds [OF sample_lawful, of "''n1''" "''ann''" False sample_world _ _ _ "sample_user ''Ann''"]
    by metis
qed

lemma delete_session_users:
  assumes "delete_session E ns spec w = (Inr (), w')"
  shows "(\<exists>x. bt_lookup (vw_users w) (ss_user_name spec) = Some x
      \<and> vw_users w' = bt_insert (ss_user_name spec) (x\<lparr>ur_labels := labelled E (vw_now w) spec None (ur_labels x)\<rparr>) (vw_users w))
    \<and> (ns, ''desktop'') \<notin> set (vw_pods w')"
proof -
  let ?f = "\<lambda>w. (vw_now w, vw_users w)" and ?p = "\<lambda>w. (vw_pods w)"
  let ?last = "kbind (label_namespace E ns spec None) (\<lambda>_. label_node E spec None)"
  have eq: "delete_session E ns spec = kbind (delete_template E ns spec) (\<lambda>_. kbind (delete_pods ns) (\<lambda>_.
      kbind (try_label_box E spec None) (\<lambda>_. kbind (label_user E spec False) (\<lambda>_. ?last))))"
    by (simp add: delete_session_def)
  from assms [unfolded eq kbind_Inr] obtain w1 w2 w3 w4 where
    w1: "delete_template E ns spec w = (Inr (), w1)" and w2: "delete_pods ns w1 = (Inr (), w2)"
    and w3: "try_label_box E spec None w2 = (Inr (), w3)" and w4: "label_user E spec False w3 = (Inr (), w4)"
    and w': "?last w4 = (Inr (), w')"
    by (auto simp: kbind_Inr)
  have mid: "keeps ?f m" if "keeps (\<lambda>w. (owned w, vw_users w)) m" for m :: "unit vine"
    by (rule keeps_through [OF that, where h = "\<lambda>(o', us). (fst o', us)"]) (simp add: owned_def)
  have pods: "keeps ?p m" if "keeps owned m" for m :: "unit vine"
    by (rule keeps_through [OF that, where h = "\<lambda>(now, ns, ss, ps). ps"]) (simp add: owned_def)
  have node: "keeps ?f (label_node E spec None)" "keeps ?p (label_node E spec None)"
    unfolding label_node_def by (rule keeps_label; simp add: set_node_labels_def split: option.split)+
  have last: "keeps ?f ?last" "keeps ?p ?last"
    by (rule keeps_kbind, rule mid, rule middle_keeps, rule node)
       (rule keeps_kbind, rule pods, rule middle_keep_owned, rule node)
  have "keeps ?f (delete_template E ns spec)"
    by (rule keeps_through [OF template_keeps(2), where h = "\<lambda>w. (vw_now w, vw_users w)"]) (simp add: rest_def)
  note dt = this
  have dp: "keeps ?f (delete_pods ns)"
    unfolding delete_pods_def vwrite_def by (rule keeps_vapi; simp)
  have f: "vw_now w3 = vw_now w" "vw_users w3 = vw_users w" "vw_users w' = vw_users w4"
    using keepsD [OF dt w1] keepsD [OF dp w2] keepsD [OF mid [OF middle_keeps(2)] w3] keepsD [OF last(1) w']
    by auto
  have users: "\<exists>x. bt_lookup (vw_users w) (ss_user_name spec) = Some x
      \<and> vw_users w' = bt_insert (ss_user_name spec) (x\<lparr>ur_labels := labelled E (vw_now w) spec None (ur_labels x)\<rparr>) (vw_users w)"
    using w4 by (cases rule: label_user_result) (use f in auto)
  have "(ns, ''desktop'') \<notin> set (vw_pods w2)"
    using w2 [unfolded delete_pods_def] by (cases rule: vwrite_result) auto
  with keepsD [OF pods [OF middle_keep_owned(2)] w3] keepsD [OF pods [OF middle_keeps(4)] w4] keepsD [OF last(2) w'] users
  show ?thesis by simp
qed

text \<open>C31: An accepted logout frees the node and takes down the session: the node is free for everybody, the user
  refers to no node, and the desktop pods of the namespace of the user are gone. So is every object that the session
  template names when it is rendered for this node, as it was, this user and the quota of the answer, except that
  persistent volume claims stay. No other object is deleted: what an earlier rendering with another quota or
  persistence has made and this one does not name stays too. Source: \<open>SessionManager::delete\<close> in
  \<open>vine/session/src/lib.rs\<close>, \<open>delete_named\<close> and \<open>try_delete\<close> in \<open>dash/provider/src/client/job.rs\<close>.\<close>

theorem accepted_logout_frees:
  assumes "lawful_apply E" and "logout E box user w = (Inr (Accept q us), w')" and "bt_lookup (vw_users w) user = Some u"
  shows "(\<exists>ls. node_labels box w' = Some ls \<and> (\<forall>v. is_allocable ls (Some box) v = NotAllocated))
    \<and> (user_namespace user u, ''desktop'') \<notin> set (vw_pods w')
    \<and> (\<exists>ls. user_labels (preferred_name user u) w' = Some ls \<and> current_box ls = None)
    \<and> (\<exists>nd role ts. bt_lookup (vw_nodes w) box = Some nd
        \<and> session_templates E (user_namespace user u)
            \<lparr>ss_box_quota = Some q, ss_node_name = box, ss_node = nd, ss_persistence = is_persistent (nd_labels nd),
             ss_role = Some role, ss_user_name = preferred_name user u\<rparr> = Inr ts
        \<and> set (vw_objects w') = set (vw_objects w)
            - object_key ` {t \<in> set ts. ot_types t \<noteq> (''v1'', ''PersistentVolumeClaim'')})"
proof -
  from assms(2) obtain spec fs where adm: "admitted E box user False w spec q us"
    and c: "delete_session E (user_namespace_with (ss_user_name spec)) spec (w\<lparr>vw_faults := fs\<rparr>) = (Inr (), w')"
    unfolding logout_def by (rule execute_accepts)
  from adm assms(3) have spec: "ss_user_name spec = preferred_name user u" "ss_node_name spec = box" "ss_box_quota spec = Some q"
    by (auto simp: admitted_def)
  note lab = labelled_none [OF assms(1), of _ spec]
  from delete_session_held [OF c] spec obtain nd ts where
    held: "vw_nodes w' = relabelled E spec None nd (w\<lparr>vw_faults := fs\<rparr>)"
      "session_templates E (user_namespace_with (ss_user_name spec)) spec = Inr ts"
      "set (vw_objects w') = set (vw_objects w) - removed_keys E (user_namespace_with (ss_user_name spec)) spec"
    by auto
  have "\<exists>ls. node_labels box w' = Some ls \<and> (\<forall>v. is_allocable ls (Some box) v = NotAllocated)"
    using held(1) lab spec
    by (auto simp: node_labels_def relabelled_def bt_lookup_insert is_allocable_def check_by_key_def opt_bind_def)
  moreover have "\<exists>ls. user_labels (preferred_name user u) w' = Some ls \<and> current_box ls = None"
    using delete_session_users [OF c] lab spec
    by (auto simp: user_labels_def bt_lookup_insert current_box_def)
  moreover have "\<exists>nd role ts. bt_lookup (vw_nodes w) box = Some nd
        \<and> session_templates E (user_namespace user u)
            \<lparr>ss_box_quota = Some q, ss_node_name = box, ss_node = nd, ss_persistence = is_persistent (nd_labels nd),
             ss_role = Some role, ss_user_name = preferred_name user u\<rparr> = Inr ts
        \<and> set (vw_objects w') = set (vw_objects w)
            - object_key ` {t \<in> set ts. ot_types t \<noteq> (''v1'', ''PersistentVolumeClaim'')}"
  proof (rule admitted_spec [OF adm assms(3)])
    fix n role
    assume n: "bt_lookup (vw_nodes w) box = Some n"
      and s: "spec = \<lparr>ss_box_quota = Some q, ss_node_name = box, ss_node = n, ss_persistence = is_persistent (nd_labels n),
        ss_role = Some role, ss_user_name = preferred_name user u\<rparr>"
    show ?thesis
      by (intro exI [of _ n] exI [of _ role] exI [of _ ts])
        (use n held(2,3) in \<open>simp add: s user_namespace_def removed_keys_def is_claim_def\<close>)
  qed
  ultimately show ?thesis
    using delete_session_users [OF c] spec by (simp add: user_namespace_def)
qed

lemma sample_logout:
  "fst (logout sample_env ''n1'' ''ann'' sample_world)
    = Inr (Accept \<lparr>bq_limits = Some [(''cpu'', ''4'')]\<rparr> \<lparr>us_alias = None, us_name = ''Ann''\<rparr>)"
  by (simp add: logout_def delete_session_def delete_template_def delete_named_def delete_object_def is_claim_def
      delete_pods_def execute_with_def admit_def session_eval)

theorem accepted_logout_frees_witness:
  "(\<exists>ls. node_labels ''n1'' (snd (logout sample_env ''n1'' ''ann'' sample_world)) = Some ls
        \<and> (\<forall>v. is_allocable ls (Some ''n1'') v = NotAllocated))
    \<and> (''vine-session-ann'', ''desktop'') \<notin> set (vw_pods (snd (logout sample_env ''n1'' ''ann'' sample_world)))
    \<and> (\<exists>ls. user_labels ''ann'' (snd (logout sample_env ''n1'' ''ann'' sample_world)) = Some ls \<and> current_box ls = None)
    \<and> (\<exists>nd role ts. bt_lookup (vw_nodes sample_world) ''n1'' = Some nd
        \<and> session_templates sample_env ''vine-session-ann''
            \<lparr>ss_box_quota = Some \<lparr>bq_limits = Some [(''cpu'', ''4'')]\<rparr>, ss_node_name = ''n1'', ss_node = nd,
             ss_persistence = is_persistent (nd_labels nd), ss_role = Some role, ss_user_name = ''ann''\<rparr> = Inr ts
        \<and> set (vw_objects (snd (logout sample_env ''n1'' ''ann'' sample_world))) = set (vw_objects sample_world)
            - object_key ` {t \<in> set ts. ot_types t \<noteq> (''v1'', ''PersistentVolumeClaim'')})"
proof -
  have l: "logout sample_env ''n1'' ''ann'' sample_world
      = (Inr (Accept \<lparr>bq_limits = Some [(''cpu'', ''4'')]\<rparr> \<lparr>us_alias = None, us_name = ''Ann''\<rparr>),
         snd (logout sample_env ''n1'' ''ann'' sample_world))"
    using sample_logout by (metis prod.collapse)
  have u: "bt_lookup (vw_users sample_world) ''ann'' = Some (sample_user ''Ann'')"
    by (simp add: sample_world_def)
  have "preferred_name ''ann'' (sample_user ''Ann'') = ''ann''" "user_namespace ''ann'' (sample_user ''Ann'') = ''vine-session-ann''"
    by (simp_all add: preferred_name_def sample_user_def user_namespace_def user_namespace_with_def)
  note names = this
  from accepted_logout_frees [OF sample_lawful l u] show ?thesis unfolding names .
qed

text \<open>A node that Bob holds, with an autologin binding of Ann.\<close>

definition bound_labels :: labels where
  "bound_labels = bt_of_list
     [(label_bind_by_user, ''bob''), (label_bind_namespace, ''vine-session-bob''), (label_bind_node, ''n1''),
      (label_bind_status, ''true'')]"

definition held_world :: vine_world where
  "held_world = sample_world\<lparr>vw_nodes := [(''n1'', sample_node\<lparr>nd_labels := bound_labels\<rparr>)],
     vw_objects := [([], ''ConfigMap'', Some ''vine-session-bob'', ''desktop'')],
     vw_box_bindings := [\<lparr>bb_user = ''ann'', bb_box = ''n1'', bb_autologin = True, bb_expired = None\<rparr>]\<rparr>"

theorem login_respects_holder_witness:
  "(\<exists>fs. snd (login sample_env ''n1'' ''ann'' True held_world) = held_world\<lparr>vw_faults := fs\<rparr>)
    \<and> (\<exists>fs. snd (logout sample_env ''n1'' ''ann'' held_world) = held_world\<lparr>vw_faults := fs\<rparr>)
    \<and> (\<forall>q us. fst (login sample_env ''n1'' ''ann'' True held_world) \<noteq> Inr (Accept q us)
         \<and> fst (logout sample_env ''n1'' ''ann'' held_world) \<noteq> Inr (Accept q us))"
proof (rule login_respects_holder)
  show "bt_lookup (vw_users held_world) ''ann'' = Some (sample_user ''Ann'')"
    by (simp add: held_world_def sample_world_def)
  show "bt_lookup (vw_nodes held_world) ''n1'' = Some (sample_node\<lparr>nd_labels := bound_labels\<rparr>)"
    by (simp add: held_world_def)
  show "bt_lookup (nd_labels (sample_node\<lparr>nd_labels := bound_labels\<rparr>)) label_bind_status = Some ''true''"
    "bt_lookup (nd_labels (sample_node\<lparr>nd_labels := bound_labels\<rparr>)) label_bind_by_user = Some ''bob''"
    by (simp_all add: bound_labels_def bt_lookup_of_list label_defs)
  show "''bob'' \<noteq> preferred_name ''ann'' (sample_user ''Ann'')"
    by (simp add: preferred_name_def sample_user_def)
qed

theorem accepted_login_is_authorised_witness:
  "\<exists>u nd. bt_lookup (vw_users sample_world) ''ann'' = Some u \<and> \<lparr>us_alias = None, us_name = ''Ann''\<rparr> = ur_spec u
    \<and> bt_lookup (vw_nodes sample_world) ''n1'' = Some nd
    \<and> (\<exists>b \<in> set (vw_quota_bindings sample_world). qb_user b = preferred_name ''ann'' u
         \<and> bt_lookup (vw_quotas sample_world) (qb_quota b) = Some \<lparr>bq_limits = Some [(''cpu'', ''4'')]\<rparr>)"
proof -
  have "login sample_env ''n1'' ''ann'' False sample_world
      = (Inr (Accept \<lparr>bq_limits = Some [(''cpu'', ''4'')]\<rparr> \<lparr>us_alias = None, us_name = ''Ann''\<rparr>),
         snd (login sample_env ''n1'' ''ann'' False sample_world))"
    using sample_login by (metis prod.collapse)
  from accepted_login_is_authorised [OF this] show ?thesis
    by - (elim exE conjE bexE, intro exI conjI, assumption+, intro bexI conjI, assumption+)
qed

lemma sample_removed:
  "removed_keys sample_env ns spec = {([], ''ConfigMap'', Some ns, ''desktop''), (''apps'', ''Deployment'', Some ns, ''novnc'')}"
proof -
  have "{t. (t = a \<or> t = b) \<and> P t} = {a, b}" if "P a" "P b" for a b :: object_template and P
    using that by auto
  then show ?thesis
    by (cases "ss_box_quota spec") (simp_all add: removed_keys_def sample_templates is_claim_def object_key_def conj_disj_distribR Collect_disj_eq Collect_conv_if)
qed

lemma sample_standing:
  "standing sample_env ns k \<longleftrightarrow>
     k \<in> {([], ''ConfigMap'', Some ns, ''desktop''), (''apps'', ''Deployment'', Some ns, ''novnc'')}"
  by (auto simp: standing_def sample_removed sample_templates)

lemma held_world_ok: "holders_ok sample_env held_world"
  by (auto simp: holders_ok_def held_world_def well_bound_def holds_def bound_labels_def bt_lookup_of_list label_defs
      user_namespace_with_def sample_standing split: if_splits)

lemma taken_over:
  "([], ''ConfigMap'', Some ''vine-session-bob'', ''desktop'') \<in> set (vw_objects (vine_step sample_env (EvBinding 0) held_world))
   \<and> (\<exists>nd. vw_nodes (vine_step sample_env (EvBinding 0) held_world) = [(''n1'', nd)]
        \<and> bt_lookup (nd_labels nd) label_bind_by_user = Some ''ann''
        \<and> bt_lookup (nd_labels nd) label_bind_namespace = Some ''vine-session-ann'')"
  by (simp add: vine_step_def held_world_def reconcile_binding_def enable_autologin_def update_node_autologin_def
      bound_labels_def bt_of_list_def label_defs login_def execute_with_def admit_def logged_def
      try_create_def create_session_def session_eval)

text \<open>The autologin controller takes a node away from a user who is logged in: it writes the user of the
  binding into the label that \<open>is_allocable\<close> compares, so that the login that follows finds the node its own.
  The session of the other user keeps running, and no node is bound to it any more: the invariant of the
  other events is lost. Source: \<open>enable_autologin\<close> and \<open>update_node_autologin\<close> in
  \<open>vine/operator/src/ctx/user_box_binding.rs\<close>.\<close>

theorem autologin_takes_over:
  "holders_ok sample_env held_world
   \<and> label_value held_world ''n1'' label_bind_by_user = Some ''bob''
   \<and> label_value (vine_step sample_env (EvBinding 0) held_world) ''n1'' label_bind_by_user = Some ''ann''
   \<and> ([], ''ConfigMap'', Some ''vine-session-bob'', ''desktop'') \<in> set (vw_objects (vine_step sample_env (EvBinding 0) held_world))
   \<and> \<not> holders_ok sample_env (vine_step sample_env (EvBinding 0) held_world)"
proof -
  have "label_value held_world ''n1'' label_bind_by_user = Some ''bob''"
    by (simp add: label_value_def node_labels_def held_world_def opt_bind_def bound_labels_def bt_lookup_of_list label_defs)
  moreover have "standing sample_env ''vine-session-bob'' ([], ''ConfigMap'', Some ''vine-session-bob'', ''desktop'')"
    by (simp add: sample_standing)
  moreover from taken_over have "\<not> holds (vw_nodes (vine_step sample_env (EvBinding 0) held_world)) ''vine-session-bob''"
    by (auto simp: holds_def split: if_splits)
  ultimately show ?thesis
    using held_world_ok taken_over
    by (auto simp: label_value_def node_labels_def opt_bind_def holders_ok_def)
qed

end
