(* ===== verification/Vine_Access.thy ===== *)
theory Vine_Access
  imports Vine_Correct
begin

text \<open>Who may do what in Vine: the node a log in reports, the roles a binding gives, the namespaces a session
  of the API may use, and the primary keys that the tokens' payloads are turned into
  (\<open>vine/rbac/src/auth.rs\<close>, \<open>vine/rbac/src/session.rs\<close>, \<open>vine/rbac/src/node_selector.rs\<close>,
  \<open>vine/api/src/user_auth.rs\<close>).\<close>

section \<open>What the checks miss\<close>

lemma user_on_no_other_node: "assert_allocable ls None user \<noteq> Some (Refused (AlreadyLoggedInByNode n))"
  by (auto simp: assert_allocable_def is_allocable_def check_by_key_def opt_bind_def split: option.splits)

lemma node_is_no_other: "well_bound box ls \<Longrightarrow> assert_allocable ls (Some box) user \<noteq> Some (Refused (AlreadyLoggedInByNode n))"
  by (auto simp: well_bound_def assert_allocable_def is_allocable_def check_by_key_def opt_bind_def
      split: option.splits if_splits)

lemma admit_answer:
  assumes "admit E box user check w = (Inr (Inl (Refused (AlreadyLoggedInByNode n))), w')"
  shows "\<exists>nd v. bt_lookup (vw_nodes w) box = Some nd
    \<and> assert_allocable (nd_labels nd) (Some box) v = Some (Refused (AlreadyLoggedInByNode n))"
  using assms unfolding admit_def Let_def
  by (fastforce simp: user_on_no_other_node dest!: vread_bind from_result_bind split: option.splits if_splits)

text \<open>A node names itself, so the comparison with the node a user is bound to never fails; the labels of the
  user are compared with no node at all.\<close>

lemma login_never_reports_other_node:
  assumes "holders_ok E w"
  shows "fst (login E box user d w) \<noteq> Inr (Refused (AlreadyLoggedInByNode n))"
proof
  assume *: "fst (login E box user d w) = Inr (Refused (AlreadyLoggedInByNode n))"
  obtain x w1 where x: "admit E box user True w = (x, w1)" by (cases "admit E box user True w")
  have "x = Inr (Inl (Refused (AlreadyLoggedInByNode n)))"
  proof (cases x)
    case (Inl e)
    with * x show ?thesis by (simp add: login_def execute_with_def kbind_def)
  next
    case (Inr y)
    show ?thesis
    proof (cases y)
      case (Inl a)
      with * x Inr show ?thesis by (simp add: login_def execute_with_def)
    next
      case r: (Inr z)
      with * x Inr show ?thesis
        by (auto simp: login_def execute_with_def kbind_def split: prod.splits sum.splits)
    qed
  qed
  with x admit_answer obtain nd v where "bt_lookup (vw_nodes w) box = Some nd"
    and "assert_allocable (nd_labels nd) (Some box) v = Some (Refused (AlreadyLoggedInByNode n))"
    by metis
  moreover from this(1) assms have "well_bound box (nd_labels nd)" by (simp add: holders_ok_def)
  ultimately show False using node_is_no_other by blast
qed

text \<open>Two characters are cut off whatever the unit, so a quantity in thousandths loses its last digit.\<close>

lemma trim_digits: "list_all is_digit s \<Longrightarrow> trim (s @ ''m'') = s @ ''m''"
proof -
  assume s: "list_all is_digit s"
  have "\<not> is_space c" if "is_digit c" for c
    using that by (auto simp: is_digit_def is_space_def)
  with s have "dropWhile is_space (s @ ''m'') = s @ ''m''"
    by (cases s) (auto simp: is_space_def)
  then show ?thesis by (simp add: trim_def is_space_def)
qed

lemma milli_quantity_loses_digit:
  assumes "list_all is_digit s" "s \<noteq> []"
  shows "parse_quantity E (s @ ''m'') = Inr (map_option (\<lambda>v. ve_f64_scale E v 1) (ve_f64_parse E (butlast s)))"
proof -
  have "take (length (s @ ''m'') - 2) (s @ ''m'') = butlast s"
    using assms(2) by (simp add: butlast_conv_take)
  moreover have "find (\<lambda>(p, _). ends_with (s @ ''m'') p) quantity_units = Some (''m'', 1)"
    by (simp add: quantity_units_def ends_with_def)
  ultimately show ?thesis
    using assms by (simp add: parse_quantity_def Let_def trim_digits Suc_le_eq)
qed

section \<open>Roles and namespaces\<close>

lemma role_or_admin: "ro_admin (foldl role_or r rs) \<longleftrightarrow> ro_admin r \<or> (\<exists>x \<in> set rs. ro_admin x)"
  by (induction rs arbitrary: r) (auto simp: role_or_def)

lemma sum_roles_admin: "ro_admin (sum_roles rs) \<longleftrightarrow> (\<exists>r \<in> set rs. ro_admin r)"
  by (cases rs) (auto simp: sum_roles_def user_role_default_def role_or_admin)

definition admin_binding :: "int \<Rightarrow> string \<Rightarrow> (string \<times> user_role) list \<Rightarrow> user_role_binding \<Rightarrow> bool" where
  "admin_binding now user roles b \<longleftrightarrow>
     rb_user b = user \<and> binding_kept now (rb_expired b)
     \<and> (case bt_lookup roles (rb_role b) of None \<Rightarrow> False | Some r \<Rightarrow> ro_admin r)"

lemma role_bindings_admin:
  "ro_admin (role_bindings_of now user roles bs) \<longleftrightarrow> (\<exists>b \<in> set bs. admin_binding now user roles b)"
  by (auto simp: role_bindings_of_def sum_roles_admin set_map_filter admin_binding_def split: option.splits if_splits)

lemma list_or_empty_bind:
  assumes "kbind (list_or_empty f) k w = (Inr y, w')"
  shows "\<exists>fs xs. (xs = [] \<or> xs = f (w\<lparr>vw_faults := fs\<rparr>)) \<and> k xs (w\<lparr>vw_faults := fs\<rparr>) = (Inr y, w')"
proof -
  obtain r w1 where r: "vread f w = (r, w1)" by (cases "vread f w")
  then have "(\<exists>fs. w1 = w\<lparr>vw_faults := fs\<rparr>) \<and> (r = Inl VApi \<or> r = Inr (f w1))"
    unfolding vread_def by (cases rule: vapi_cases) auto
  then obtain fs where fs: "w1 = w\<lparr>vw_faults := fs\<rparr>" "r = Inl VApi \<or> r = Inr (f w1)" by blast
  with r assms show ?thesis
    by (intro exI [of _ fs]) (auto simp: list_or_empty_def attempt_def kbind_def)
qed

lemma attempt_bind:
  assumes "kbind (attempt (vread f)) k w = (Inr y, w')"
  shows "\<exists>fs x. (x = None \<or> x = Some (f (w\<lparr>vw_faults := fs\<rparr>))) \<and> k x (w\<lparr>vw_faults := fs\<rparr>) = (Inr y, w')"
proof -
  obtain r w1 where r: "vread f w = (r, w1)" by (cases "vread f w")
  then have "(\<exists>fs. w1 = w\<lparr>vw_faults := fs\<rparr>) \<and> (r = Inl VApi \<or> r = Inr (f w1))"
    unfolding vread_def by (cases rule: vapi_cases) auto
  then obtain fs where fs: "w1 = w\<lparr>vw_faults := fs\<rparr>" "r = Inl VApi \<or> r = Inr (f w1)" by blast
  with r assms show ?thesis
    by (intro exI [of _ fs]) (auto simp: attempt_def kbind_def)
qed

lemma get_user_role_bind:
  assumes "kbind (get_user_role name u now) k w = (Inr y, w')"
  shows "\<exists>fs role. (ro_admin role \<longrightarrow> (\<exists>b \<in> set (vw_role_bindings w). admin_binding now (preferred_name name u) (vw_roles w) b))
    \<and> k role (w\<lparr>vw_faults := fs\<rparr>) = (Inr y, w')"
proof -
  from list_or_empty_bind [OF assms [unfolded get_user_role_def kbind_assoc]] obtain fs roles
    where roles: "roles = [] \<or> roles = vw_roles w"
      and k: "kbind (list_or_empty vw_role_bindings) (\<lambda>bs. kbind (kret (role_bindings_of now (preferred_name name u) roles bs)) k)
        (w\<lparr>vw_faults := fs\<rparr>) = (Inr y, w')"
    by auto
  from list_or_empty_bind [OF k] obtain fs' bs where bs: "bs = [] \<or> bs = vw_role_bindings w"
      and k': "k (role_bindings_of now (preferred_name name u) roles bs) (w\<lparr>vw_faults := fs'\<rparr>) = (Inr y, w')"
    by (auto simp: kbind_def)
  have "ro_admin (role_bindings_of now (preferred_name name u) roles bs)
      \<longrightarrow> (\<exists>b \<in> set (vw_role_bindings w). admin_binding now (preferred_name name u) (vw_roles w) b)"
    using roles bs by (auto simp: role_bindings_admin admin_binding_def)
  with k' show ?thesis by blast
qed
lemma foreign_check:
  "check_user_namespace n name u role = Inr m \<Longrightarrow> m \<noteq> user_namespace name u \<Longrightarrow> ro_admin role"
  "get_user_namespace r name u role = Inr m \<Longrightarrow> m \<noteq> user_namespace name u \<Longrightarrow> ro_admin role"
  by (auto simp: get_user_namespace_def check_user_namespace_def split: option.splits if_splits)

lemma foreign_namespace_binding:
  assumes "from_request A r w = (Inr (Inr s), w')"
  shows "\<exists>key u. get_user_name A r = Inr key \<and> bt_lookup (vw_users w) key = Some u \<and> se_user s = (key, u)
    \<and> se_user_name s = preferred_name key u
    \<and> (\<forall>n s'. (s' = s \<or> namespaced n s = Inr s') \<and> se_namespace s' \<noteq> user_namespace key u
         \<longrightarrow> (\<exists>b \<in> set (vw_role_bindings w). admin_binding (vw_now w) (preferred_name key u) (vw_roles w) b))"
proof -
  obtain token key where tok: "get_user_token r = Inr token" "get_user_name_of_token A token = Inr key"
    using assms by (cases "get_user_token r"; cases "get_user_name_of_token A (projr (get_user_token r))")
      (auto simp: from_request_def)
  from assms tok obtain u role where u: "bt_lookup (vw_users w) key = Some u"
    and role: "ro_admin role \<longrightarrow> (\<exists>b \<in> set (vw_role_bindings w). admin_binding (vw_now w) (preferred_name key u) (vw_roles w) b)"
    and ns: "get_user_namespace r key u role = Inr (se_namespace s)"
    and s: "se_user s = (key, u)" "se_user_name s = preferred_name key u" "se_role s = role"
    unfolding from_request_def Let_def opt_bind_def
    by (fastforce dest!: attempt_bind get_user_role_bind list_or_empty_bind from_result_bind split: option.splits sum.splits if_splits)
  have "ro_admin role" if "s' = s \<or> namespaced n s = Inr s'" "se_namespace s' \<noteq> user_namespace key u" for n s'
    using that foreign_check(2) [OF ns] foreign_check(1) [of n key u role "se_namespace s'"] s
    by (auto simp: namespaced_def)
  moreover have "get_user_name A r = Inr key" using tok by (simp add: get_user_name_def)
  ultimately show ?thesis using u s role by blast
qed

lemma admin_binding_iff:
  "admin_binding now user roles b \<longleftrightarrow> rb_user b = user \<and> (\<forall>t. rb_expired b = Some t \<longrightarrow> t < now)
     \<and> (\<exists>role. bt_lookup roles (rb_role b) = Some role \<and> ro_admin role)"
  by (auto simp: admin_binding_def binding_kept_iff split: option.splits)

text \<open>C32: A session is for the user the token names, and only the user's own namespace is open to it unless
  a role binding makes the user an admin that has no expiry date or whose date has already passed (the filter
  of the code is the wrong way round, so a dated binding makes an admin only after it has expired). This holds
  for the namespace of the request header and for every later change of the namespace; a failed listing of
  roles or bindings makes nobody an admin. Source: \<open>from_request_with_timestamp\<close>, \<open>check_user_namespace\<close>,
  \<open>get_user_role\<close> and \<open>namespaced\<close> in \<open>vine/rbac/src/auth.rs\<close>.\<close>

theorem foreign_namespace_needs_admin:
  assumes "from_request A r w = (Inr (Inr s), w')"
  shows "\<exists>key u. get_user_name A r = Inr key \<and> bt_lookup (vw_users w) key = Some u \<and> se_user s = (key, u)
    \<and> se_user_name s = preferred_name key u
    \<and> (\<forall>n s'. (s' = s \<or> namespaced n s = Inr s') \<and> se_namespace s' \<noteq> user_namespace key u
         \<longrightarrow> (\<exists>b \<in> set (vw_role_bindings w). rb_user b = preferred_name key u
               \<and> (\<forall>t. rb_expired b = Some t \<longrightarrow> t < vw_now w)
               \<and> (\<exists>role. bt_lookup (vw_roles w) (rb_role b) = Some role \<and> ro_admin role)))"
  by (rule foreign_namespace_binding [OF assms, unfolded admin_binding_iff])

definition sample_auth :: auth_env where
  "sample_auth = \<lparr>ae_decode = \<lambda>p. Some \<lparr>ap_id = None, ap_email = [], ap_name = None, ap_username = p, ap_roles = []\<rparr>,
     ae_email = \<lambda>_. None, ae_lower = \<lambda>s. s\<rparr>"

definition sample_request :: http_request where
  "sample_request = \<lparr>rq_authorization = Some (Some ''Bearer h.ann.s''), rq_namespace = Some (Some ''vine-session-bob'')\<rparr>"

definition admin_world :: vine_world where
  "admin_world = sample_world\<lparr>vw_nodes := [], vw_users := [(''name-ann'', sample_user ''Ann'')],
     vw_roles := [(''root'', \<lparr>ro_admin = True, ro_dev = False, ro_ops = False\<rparr>)],
     vw_role_bindings := [\<lparr>rb_user = ''name-ann'', rb_role = ''root'', rb_expired = None\<rparr>]\<rparr>"

lemma sample_token: "get_user_token sample_request = Inr ''h.ann.s''" "get_user_name_of_token sample_auth ''h.ann.s'' = Inr ''name-ann''"
    "rq_namespace sample_request = Some (Some ''vine-session-bob'')"
  by (simp_all add: sample_request_def get_user_token_def get_user_name_of_token_def sample_auth_def primary_key_def
      encode_key_def replace_char_def)

lemma sample_session:
  "from_request sample_auth sample_request admin_world
    = (Inr (Inr \<lparr>se_box_bindings = [], se_box_name = None, se_box_quota_bindings = [], se_namespace = ''vine-session-bob'',
         se_token = Some ''h.ann.s'', se_role = \<lparr>ro_admin = True, ro_dev = False, ro_ops = False\<rparr>,
         se_user = (''name-ann'', sample_user ''Ann''), se_user_name = ''name-ann''\<rparr>), admin_world)"
  by (simp add: from_request_def sample_token admin_world_def attempt_def list_or_empty_def get_user_role_def
      role_bindings_of_def sum_roles_def get_user_namespace_def check_user_namespace_def
      ready_boxes_def session_box_bindings_def session_quota_bindings_def current_box_def session_eval)

theorem foreign_namespace_needs_admin_witness:
  "\<exists>b \<in> set (vw_role_bindings admin_world). admin_binding (vw_now admin_world) ''name-ann'' (vw_roles admin_world) b"
proof -
  let ?s = "\<lparr>se_box_bindings = [], se_box_name = None, se_box_quota_bindings = [], se_namespace = ''vine-session-bob'',
         se_token = Some ''h.ann.s'', se_role = \<lparr>ro_admin = True, ro_dev = False, ro_ops = False\<rparr>,
         se_user = (''name-ann'', sample_user ''Ann''), se_user_name = ''name-ann''\<rparr>"
  have own: "preferred_name ''name-ann'' (sample_user ''Ann'') = ''name-ann''"
    "se_namespace ?s \<noteq> user_namespace ''name-ann'' (sample_user ''Ann'')"
    by (simp_all add: user_namespace_def user_namespace_with_def preferred_name_def sample_user_def)
  obtain key u where u: "se_user ?s = (key, u)"
    and b: "\<forall>n s'. (s' = ?s \<or> namespaced n ?s = Inr s') \<and> se_namespace s' \<noteq> user_namespace key u
         \<longrightarrow> (\<exists>b \<in> set (vw_role_bindings admin_world). rb_user b = preferred_name key u
               \<and> (\<forall>t. rb_expired b = Some t \<longrightarrow> t < vw_now admin_world)
               \<and> (\<exists>role. bt_lookup (vw_roles admin_world) (rb_role b) = Some role \<and> ro_admin role))"
    using foreign_namespace_needs_admin [OF sample_session] by (elim exE conjE) (rule that)
  from u have "key = ''name-ann''" "u = sample_user ''Ann''" by simp_all
  with b [rule_format, of ?s None] own show ?thesis by (simp add: admin_binding_iff)
qed

section \<open>Primary keys\<close>

definition key_code :: "char \<Rightarrow> string" where
  "key_code c = (if c = CHR ''-'' then ''-s-'' else if c = CHR ''.'' then ''-d-''
     else if c = CHR ''@'' then ''-at-'' else if c = CHR ''_'' then ''-u-'' else [c])"

lemma replace_char_append [simp]: "replace_char c r (s @ t) = replace_char c r s @ replace_char c r t"
  by (simp add: replace_char_def)

lemma encode_key_codes: "encode_key A s = concat (map key_code (ae_lower A s))"
proof -
  have "replace_char CHR ''_'' ''-u-'' (replace_char CHR ''@'' ''-at-''
       (replace_char CHR ''.'' ''-d-'' (replace_char CHR ''-'' ''-s-'' t))) = concat (map key_code t)" for t
    by (induction t) (auto simp: replace_char_def key_code_def)
  then show ?thesis by (simp add: encode_key_def)
qed

text \<open>The code is a prefix code: a text can be read back from its encoding.\<close>

lemma key_code_prefix: "key_code c @ s = key_code d @ t \<Longrightarrow> c = d \<and> s = t"
  by (auto simp: key_code_def split: if_splits)

lemma key_codes_inj: "concat (map key_code s) = concat (map key_code t) \<Longrightarrow> s = t"
proof (induction s arbitrary: t)
  case Nil
  then show ?case by (cases t) (auto simp: key_code_def split: if_splits)
next
  case (Cons c s)
  show ?case
  proof (cases t)
    case Nil
    with Cons.prems show ?thesis by (auto simp: key_code_def split: if_splits)
  next
    case (Cons d t')
    with Cons.prems have "key_code c @ concat (map key_code s) = key_code d @ concat (map key_code t')" by simp
    from key_code_prefix [OF this] Cons.IH Cons show ?thesis by blast
  qed
qed

text \<open>C33: two tokens get the same primary key only when they name the same thing: both by user name, both by
  mail address or both by identifier, and these are equal up to case. Encoding the special characters loses
  nothing, and the prefix keeps the three kinds apart. Source: \<open>UserAuthPayload::primary_key\<close> in
  \<open>vine/api/src/user_auth.rs\<close>.\<close>

theorem primary_keys_separate_users:
  assumes "primary_key A p = Some k" and "primary_key A q = Some k"
  shows "\<exists>s t. ae_lower A s = ae_lower A t
    \<and> (ap_username p = s \<and> ap_username q = t \<and> s \<noteq> [] \<and> t \<noteq> []
       \<or> ap_username p = [] \<and> ap_username q = [] \<and> ae_email A (ap_email p) = Some s \<and> ae_email A (ap_email q) = Some t
       \<or> ap_username p = [] \<and> ap_username q = [] \<and> ae_email A (ap_email p) = None \<and> ae_email A (ap_email q) = None
         \<and> ap_id p = Some s \<and> ap_id q = Some t)"
  using assms
  by (auto simp: primary_key_def encode_key_codes dest!: key_codes_inj split: if_splits option.splits) metis+

theorem primary_keys_separate_users_witness:
  "\<exists>s t. ae_lower sample_auth s = ae_lower sample_auth t \<and> s = ''a_b'' \<and> t = ''a_b''"
proof -
  let ?p = "\<lparr>ap_id = None, ap_email = [], ap_name = None, ap_username = ''a_b'', ap_roles = []\<rparr>"
  have "primary_key sample_auth ?p = Some ''name-a-u-b''"
    by (simp add: primary_key_def sample_auth_def encode_key_def replace_char_def)
  from primary_keys_separate_users [OF this this] show ?thesis by auto
qed

end
