(* ===== verification/Vine_Share.thy ===== *)
theory Vine_Share
  imports Vine_Storage
begin

text \<open>What the sharing of volumes (\<open>vine/storage/src/lib.rs\<close>) does to the claims, volumes and secrets of the
  cluster, whatever calls of the API fail.\<close>

section \<open>Specification\<close>

text \<open>A volume that is released or retained keeps its data: only its reference to a claim may go, and only
  its reclaim policy may become \<open>Retain\<close>.\<close>

definition spec_kept :: "pv_spec \<Rightarrow> pv_spec \<Rightarrow> bool" where
  "spec_kept s s' \<longleftrightarrow>
     s'\<lparr>ps_claim_ref := ps_claim_ref s, ps_reclaim_policy := ps_reclaim_policy s\<rparr> = s
     \<and> ps_claim_ref s' \<in> {ps_claim_ref s, None} \<and> ps_reclaim_policy s' \<in> {ps_reclaim_policy s, Some ''Retain''}"

definition volume_kept :: "pvolume \<Rightarrow> pvolume \<Rightarrow> bool" where
  "volume_kept v v' \<longleftrightarrow>
     pv_annotations v' = pv_annotations v \<and> pv_labels v' = pv_labels v
     \<and> rel_option spec_kept (pv_spec v) (pv_spec v')"

text \<open>A volume that survives its claims.\<close>

definition retained :: "pvolume \<Rightarrow> bool" where
  "retained v \<longleftrightarrow> (\<exists>s. pv_spec v = Some s \<and> ps_claim_ref s = None \<and> ps_reclaim_policy s = Some ''Retain'')"

definition backed :: "vine_world \<Rightarrow> pclaim \<Rightarrow> bool" where
  "backed w c \<longleftrightarrow> (\<exists>n. opt_bind (pm_spec c) pc_volume_name = Some n \<and> bt_lookup (vw_volumes w) n \<noteq> None)"

definition shares :: "string \<Rightarrow> vine_world \<Rightarrow> vine_world \<Rightarrow> bool" where
  "shares ns w w' \<longleftrightarrow>
     (\<forall>k c. bt_lookup (vw_claims w) k = Some c \<longrightarrow> bt_lookup (vw_claims w') k = Some c) \<and>
     (\<forall>k c. bt_lookup (vw_claims w) k = None \<and> bt_lookup (vw_claims w') k = Some c \<longrightarrow> fst k = ns \<and> backed w' c) \<and>
     (\<forall>k s. bt_lookup (vw_secrets w) k = Some s \<longrightarrow> bt_lookup (vw_secrets w') k = Some s) \<and>
     (\<forall>n v. bt_lookup (vw_volumes w) n = Some v \<longrightarrow> (\<exists>v'. bt_lookup (vw_volumes w') n = Some v' \<and> volume_kept v v')) \<and>
     (\<forall>n v. bt_lookup (vw_volumes w) n = None \<and> bt_lookup (vw_volumes w') n = Some v \<longrightarrow>
        (\<exists>m. n = m @ ''-'' @ ns) \<and> retained v)"

lemma spec_kept_refl [simp]: "spec_kept s s"
  by (simp add: spec_kept_def)

lemma spec_kept_trans: "spec_kept s t \<Longrightarrow> spec_kept t u \<Longrightarrow> spec_kept s u"
  unfolding spec_kept_def by (cases s; cases t; cases u) auto

lemma spec_kept_release [simp]: "spec_kept s (s\<lparr>ps_claim_ref := None\<rparr>)"
  by (simp add: spec_kept_def)

lemma spec_kept_retain [simp]: "spec_kept s (s\<lparr>ps_reclaim_policy := Some ''Retain''\<rparr>)"
  by (simp add: spec_kept_def)

lemma volume_kept_refl [simp, intro]: "volume_kept v v"
  by (simp add: volume_kept_def option.rel_refl)

lemma volume_kept_trans: "volume_kept u v \<Longrightarrow> volume_kept v w \<Longrightarrow> volume_kept u w"
  unfolding volume_kept_def
  by (cases "pv_spec u"; cases "pv_spec v"; cases "pv_spec w") (auto intro: spec_kept_trans)

lemma volume_kept_retained: "volume_kept v v' \<Longrightarrow> retained v \<Longrightarrow> retained v'"
  unfolding volume_kept_def retained_def spec_kept_def by (cases "pv_spec v'") auto

lemma shares_refl [simp]: "shares ns w w"
  unfolding shares_def by auto

lemma shares_faults [simp]: "shares ns w0 (w\<lparr>vw_faults := fs\<rparr>) = shares ns w0 w"
  by (simp add: shares_def backed_def)

text \<open>The three changes that are made.\<close>

lemma shares_volume:
  assumes "shares ns w0 w" and "bt_lookup (vw_volumes w0) n = Some a"
  obtains v where "bt_lookup (vw_volumes w) n = Some v" and "volume_kept a v"
  using assms unfolding shares_def by blast

lemma shares_volumesI:
  assumes "shares ns w0 w" and "vw_claims w' = vw_claims w" and "vw_secrets w' = vw_secrets w"
    and "\<And>c. backed w c \<Longrightarrow> backed w' c"
    and "\<And>n a. bt_lookup (vw_volumes w0) n = Some a \<Longrightarrow> \<exists>b. bt_lookup (vw_volumes w') n = Some b \<and> volume_kept a b"
    and "\<And>n b. bt_lookup (vw_volumes w0) n = None \<Longrightarrow> bt_lookup (vw_volumes w') n = Some b
      \<Longrightarrow> (\<exists>m. n = m @ ''-'' @ ns) \<and> retained b"
  shows "shares ns w0 w'"
  using assms(1) unfolding shares_def assms(2,3)
  by (intro conjI) (use assms(4-6) in \<open>simp_all del: split_paired_All\<close>, blast)

lemma shares_replace:
  assumes "shares ns w0 w" and v: "bt_lookup (vw_volumes w) name = Some v" and kept: "volume_kept v v'"
  shows "shares ns w0 (w\<lparr>vw_volumes := bt_insert name v' (vw_volumes w)\<rparr>)" (is "shares ns w0 ?w")
proof -
  have 1: "backed w c \<Longrightarrow> backed ?w c" for c by (auto simp: backed_def bt_lookup_insert)
  have 2: "\<exists>b'. bt_lookup (vw_volumes ?w) n = Some b' \<and> volume_kept a b'"
    if "bt_lookup (vw_volumes w0) n = Some a" for n a
    by (rule shares_volume [OF assms(1) that])
      (use v in \<open>cases "n = name"; auto simp: bt_lookup_insert intro: volume_kept_trans [OF _ kept]\<close>)
  have 3: "(\<exists>m. n = m @ ''-'' @ ns) \<and> retained b"
    if "bt_lookup (vw_volumes w0) n = None" "bt_lookup (vw_volumes ?w) n = Some b" for n b
    using that assms(1) v kept volume_kept_retained [OF kept] unfolding shares_def
    by (cases "n = name") (auto simp: bt_lookup_insert)
  show ?thesis by (rule shares_volumesI [OF assms(1) _ _ 1 2 3]) simp_all
qed

lemma shares_new_volume:
  assumes "shares ns w0 w" and v: "bt_lookup (vw_volumes w) (m @ ''-'' @ ns) = None" and "retained v'"
  shows "shares ns w0 (w\<lparr>vw_volumes := bt_insert (m @ ''-'' @ ns) v' (vw_volumes w)\<rparr>)" (is "shares ns w0 ?w")
proof -
  have 1: "backed w c \<Longrightarrow> backed ?w c" for c by (auto simp: backed_def bt_lookup_insert)
  have 2: "\<exists>b'. bt_lookup (vw_volumes ?w) n = Some b' \<and> volume_kept a b'"
    if "bt_lookup (vw_volumes w0) n = Some a" for n a
    by (rule shares_volume [OF assms(1) that]) (use v in \<open>cases "n = m @ ''-'' @ ns"; auto simp: bt_lookup_insert\<close>)
  have 3: "(\<exists>m. n = m @ ''-'' @ ns) \<and> retained b"
    if "bt_lookup (vw_volumes w0) n = None" "bt_lookup (vw_volumes ?w) n = Some b" for n b
    using that assms unfolding shares_def by (auto simp: bt_lookup_insert split: if_splits)
  show ?thesis by (rule shares_volumesI [OF assms(1) _ _ 1 2 3]) simp_all
qed

lemma shares_new_claim:
  assumes "shares ns w0 w" and "bt_lookup (vw_claims w) (ns, name) = None" and "backed w c"
  shows "shares ns w0 (w\<lparr>vw_claims := bt_insert (ns, name) c (vw_claims w)\<rparr>)"
  using assms unfolding shares_def backed_def by (auto simp: bt_lookup_insert split: if_splits)

lemma shares_new_secret:
  assumes "shares ns w0 w" and "bt_lookup (vw_secrets w) k = None"
  shows "shares ns w0 (w\<lparr>vw_secrets := bt_insert k s (vw_secrets w)\<rparr>)"
  using assms unfolding shares_def backed_def by (auto simp: bt_lookup_insert)

section \<open>The handlers\<close>

named_theorems sharing \<open>rules for handlers that share volumes\<close>

text \<open>A handler that keeps to the specification, from a world in which \<open>P\<close> holds to one with \<open>Q\<close>.\<close>

definition sharing_to :: "string \<Rightarrow> (vine_world \<Rightarrow> bool) \<Rightarrow> 'a vine \<Rightarrow> ('a \<Rightarrow> vine_world \<Rightarrow> bool) \<Rightarrow> bool" where
  "sharing_to ns P m Q \<longleftrightarrow>
     (\<forall>w0 w. shares ns w0 w \<and> P w \<longrightarrow>
        shares ns w0 (snd (m w)) \<and> (case fst (m w) of Inl _ \<Rightarrow> True | Inr x \<Rightarrow> Q x (snd (m w))))"

lemma sharing_to_kret [sharing]: "(\<And>w. P w \<Longrightarrow> Q x w) \<Longrightarrow> sharing_to ns P (kret x) Q"
  by (simp add: sharing_to_def)

lemma sharing_to_kfail [sharing]: "sharing_to ns P (kfail e) Q"
  by (simp add: sharing_to_def kfail_def)

lemma sharing_to_kbind [sharing]:
  "sharing_to ns P m R \<Longrightarrow> (\<And>x. sharing_to ns (R x) (f x) Q) \<Longrightarrow> sharing_to ns P (kbind m f) Q"
  unfolding sharing_to_def kbind_def by (fastforce split: prod.split sum.split)

lemma sharing_to_weaken:
  "sharing_to ns P' m Q' \<Longrightarrow> (\<And>w. P w \<Longrightarrow> P' w) \<Longrightarrow> (\<And>x w. Q' x w \<Longrightarrow> Q x w) \<Longrightarrow> sharing_to ns P m Q"
  unfolding sharing_to_def by (fastforce split: sum.splits)

lemma sharing_to_vapi:
  assumes "ignores_answers P" and "sharing_to ns P m Q"
  shows "sharing_to ns P (vapi m) Q"
  using assms unfolding sharing_to_def vapi_def ignores_answers_def by (auto split: list.split bool.split)

lemma sharing_to_vread:
  assumes "ignores_answers P" and "\<And>w. P w \<Longrightarrow> Q (f w) w"
  shows "sharing_to ns P (vread f) Q"
  unfolding vread_def by (rule sharing_to_vapi [OF assms(1)]) (use assms(2) in \<open>simp add: sharing_to_def\<close>)

lemma sharing_to_require [sharing]:
  "(\<And>a w. x = Some a \<Longrightarrow> P w \<Longrightarrow> Q a w) \<Longrightarrow> sharing_to ns P (require e x) Q"
  unfolding require_def by (cases x) (auto intro!: sharing)

lemma sharing_to_if: "sharing_to ns P m Q \<Longrightarrow> sharing_to ns P m' Q \<Longrightarrow> sharing_to ns P (if b then m else m') Q"
  by simp

lemma sharing_to_pure: "(c \<Longrightarrow> sharing_to ns P m Q) \<Longrightarrow> sharing_to ns (\<lambda>w. c \<and> P w) m Q"
  unfolding sharing_to_def by auto

lemma ignores_simple [simp, intro]:
  "ignores_answers (\<lambda>w. True)"
  "ignores_answers (\<lambda>w. g (vw_volumes w) (vw_claims w))"
  by (simp_all add: ignores_answers_def)

subsection \<open>Volumes\<close>

lemma replace_volume_sharing:
  assumes "volume_kept v v'"
  shows "sharing_to ns (\<lambda>w. bt_lookup (vw_volumes w) name = Some v) (kbind (replace_volume name v') (\<lambda>_. kret v'))
    (\<lambda>u w. u = v' \<and> bt_lookup (vw_volumes w) name = Some v')"
proof -
  have "sharing_to ns (\<lambda>w. bt_lookup (vw_volumes w) name = Some v) (replace_volume name v')
    (\<lambda>_ w. bt_lookup (vw_volumes w) name = Some v')"
    unfolding replace_volume_def
    by (rule sharing_to_vapi) (simp_all add: ignores_answers_def sharing_to_def bt_lookup_insert shares_replace assms)
  then show ?thesis by (rule sharing_to_kbind) (rule sharing_to_kret, simp)
qed

lemma release_pv_sharing:
  "sharing_to ns (\<lambda>w. bt_lookup (vw_volumes w) name = Some v) (release_pv name v)
     (\<lambda>_ w. bt_lookup (vw_volumes w) name \<noteq> None)"
proof -
  have replace: "sharing_to ns (\<lambda>w. bt_lookup (vw_volumes w) name = Some v) (kbind (replace_volume name v') (\<lambda>_. kret v'))
     (\<lambda>_ w. bt_lookup (vw_volumes w) name \<noteq> None)" if "volume_kept v v'" for v'
    by (rule sharing_to_weaken [OF replace_volume_sharing [OF that]]) simp_all
  show ?thesis
  proof (cases "pv_spec v")
    case None
    with replace [of v] show ?thesis by (simp add: release_pv_def)
  next
    case (Some s)
    then have "volume_kept v (v\<lparr>pv_spec := Some (s\<lparr>ps_claim_ref := None\<rparr>)\<rparr>)" by (simp add: volume_kept_def)
    from replace [OF this] show ?thesis
      unfolding release_pv_def Let_def Some option.case
      by (intro sharing_to_if) (rule sharing_to_kret, simp)
  qed
qed

lemma retain_pv_sharing:
  "sharing_to ns (\<lambda>w. bt_lookup (vw_volumes w) name = Some v) (retain_pv_on_delete name v)
     (\<lambda>v' w. \<forall>s. pv_spec v' = Some s \<longrightarrow> ps_reclaim_policy s = Some ''Retain'')"
proof (cases "pv_spec v")
  case None
  then show ?thesis
    by (simp add: retain_pv_on_delete_def) (rule sharing_to_weaken [OF replace_volume_sharing], simp_all)
next
  case (Some s)
  then have "volume_kept v (v\<lparr>pv_spec := Some (s\<lparr>ps_reclaim_policy := Some ''Retain''\<rparr>)\<rparr>)"
    by (simp add: volume_kept_def)
  from sharing_to_weaken [OF replace_volume_sharing [OF this]] Some show ?thesis
    by (cases "ps_reclaim_policy s = Some ''Retain''") (simp_all add: retain_pv_on_delete_def Let_def sharing_to_kret)
qed

lemma sharing_to_when: "(c \<Longrightarrow> sharing_to ns (\<lambda>_. True) m Q) \<Longrightarrow> sharing_to ns (\<lambda>_. c) m Q"
  unfolding sharing_to_def by auto

lemma get_volume_sharing:
  "sharing_to ns (\<lambda>_. True) (get_volume n) (\<lambda>found w. bt_lookup (vw_volumes w) n = found)"
  unfolding get_volume_def by (rule sharing_to_vread) simp_all

lemma create_volume_sharing:
  assumes "retained v"
  shows "sharing_to ns (\<lambda>_. True) (create_volume (m @ ''-'' @ ns) v)
    (\<lambda>_ w. bt_lookup (vw_volumes w) (m @ ''-'' @ ns) \<noteq> None)"
  unfolding create_volume_def
  by (rule sharing_to_vapi [OF ignores_simple(1)])
    (use assms in \<open>simp add: sharing_to_def bt_lookup_insert shares_new_volume [simplified]\<close>)

text \<open>A volume of which the secret is found has a specification.\<close>

lemma secret_sharing:
  "sharing_to ns (\<lambda>_. True) (get_or_create_user_level_cephfs_secret v) (\<lambda>_ _. pv_spec v \<noteq> None)"
proof -
  have create: "sharing_to ns (\<lambda>_. True) (create_secret k name s) (\<lambda>_ _. True)" for k name s
    unfolding create_secret_def
    by (rule sharing_to_vapi [OF ignores_simple(1)]) (simp add: sharing_to_def shares_new_secret)
  have get: "sharing_to ns (\<lambda>_. True) (get_secret k name) (\<lambda>_ _. True)" for k name
    unfolding get_secret_def by (rule sharing_to_vread) simp_all
  have spec: "secret_namespace v = Some k \<Longrightarrow> pv_spec v \<noteq> None" for k
    by (auto simp: secret_namespace_def opt_bind_def split: option.splits)
  show ?thesis
  proof (cases "secret_namespace v")
    case None
    then show ?thesis
      by (simp add: get_or_create_user_level_cephfs_secret_def require_def sharing_to_def kbind_def kfail_def)
  next
    case (Some k)
    from spec [OF Some] show ?thesis
      unfolding get_or_create_user_level_cephfs_secret_def
      by (auto split: option.split intro!: sharing_to_kfail sharing_to_kret get create sharing_to_require
          sharing_to_kbind [where R = "\<lambda>_ _. True"])
  qed
qed

lemma cloned_pv_retained:
  "pv_spec v = Some s \<Longrightarrow> ps_reclaim_policy s = Some ''Retain'' \<Longrightarrow> retained (cloned_pv ns ref v)"
  by (simp add: retained_def cloned_pv_def unwrap_or_def Let_def)

lemma clone_pv_sharing:
  "sharing_to ns (\<lambda>_. True) (clone_pv ns source) (\<lambda>n w. bt_lookup (vw_volumes w) n \<noteq> None)"
proof -
  let ?target = "source @ ''-'' @ ns"
  have found: "sharing_to ns (\<lambda>w. bt_lookup (vw_volumes w) ?target = Some v)
      (kbind (release_pv ?target v) (\<lambda>_. kret ?target)) (\<lambda>n w. bt_lookup (vw_volumes w) n \<noteq> None)" for v
    by (rule sharing_to_kbind [OF release_pv_sharing]) (rule sharing_to_kret)
  have copy: "sharing_to ns (\<lambda>_. pv_spec v \<noteq> None)
      (kbind (create_volume ?target (cloned_pv ns ref v)) (\<lambda>_. kret ?target)) (\<lambda>n w. bt_lookup (vw_volumes w) n \<noteq> None)"
    if "\<forall>s. pv_spec v = Some s \<longrightarrow> ps_reclaim_policy s = Some ''Retain''" for v ref
  proof (cases "pv_spec v")
    case None
    then show ?thesis by (simp add: sharing_to_def)
  next
    case (Some s)
    with that have "retained (cloned_pv ns ref v)" by (simp add: cloned_pv_retained)
    from create_volume_sharing [OF this]
    have "sharing_to ns (\<lambda>_. pv_spec v \<noteq> None) (create_volume ?target (cloned_pv ns ref v))
      (\<lambda>_ w. bt_lookup (vw_volumes w) ?target \<noteq> None)"
      by (rule sharing_to_weaken) simp_all
    then show ?thesis by (rule sharing_to_kbind) (rule sharing_to_kret)
  qed
  have fresh: "sharing_to ns (\<lambda>w. bt_lookup (vw_volumes w) source = Some v)
      (kbind (retain_pv_on_delete source v) (\<lambda>v'. kbind (get_or_create_user_level_cephfs_secret v') (\<lambda>ref.
       kbind (create_volume ?target (cloned_pv ns ref v')) (\<lambda>_. kret ?target))))
      (\<lambda>n w. bt_lookup (vw_volumes w) n \<noteq> None)" for v
  proof (rule sharing_to_kbind [OF retain_pv_sharing])
    fix v'
    let ?rest = "kbind (get_or_create_user_level_cephfs_secret v') (\<lambda>ref.
       kbind (create_volume ?target (cloned_pv ns ref v')) (\<lambda>_. kret ?target))"
    show "sharing_to ns (\<lambda>w. \<forall>s. pv_spec v' = Some s \<longrightarrow> ps_reclaim_policy s = Some ''Retain'') ?rest
      (\<lambda>n w. bt_lookup (vw_volumes w) n \<noteq> None)"
      using sharing_to_kbind [OF secret_sharing copy] by (rule sharing_to_when)
  qed
  have source: "sharing_to ns (\<lambda>w. bt_lookup (vw_volumes w) ?target = None) (get_volume source)
      (\<lambda>f w. bt_lookup (vw_volumes w) source = f)"
    by (rule sharing_to_weaken [OF get_volume_sharing]) simp_all
  have require: "sharing_to ns (\<lambda>w. bt_lookup (vw_volumes w) source = f) (require e f)
      (\<lambda>v w. bt_lookup (vw_volumes w) source = Some v)" for e f
    by (rule sharing_to_require) simp
  show ?thesis
    unfolding clone_pv_def Let_def
  proof (rule sharing_to_kbind [OF get_volume_sharing])
    fix result
    show "sharing_to ns (\<lambda>w. bt_lookup (vw_volumes w) ?target = result)
      (case result of Some v \<Rightarrow> kbind (release_pv ?target v) (\<lambda>_. kret ?target)
       | None \<Rightarrow> kbind (get_volume source) (\<lambda>f. kbind (require (VBail ''failed to find a shared PV'') f) (\<lambda>v.
           kbind (retain_pv_on_delete source v) (\<lambda>v'. kbind (get_or_create_user_level_cephfs_secret v') (\<lambda>ref.
             kbind (create_volume ?target (cloned_pv ns ref v')) (\<lambda>_. kret ?target))))))
      (\<lambda>n w. bt_lookup (vw_volumes w) n \<noteq> None)"
      by (cases result) (simp_all only: option.case found sharing_to_kbind [OF source sharing_to_kbind [OF require fresh]])
  qed
qed

subsection \<open>Claims\<close>

definition claimed :: "string \<Rightarrow> string \<Rightarrow> vine_world \<Rightarrow> bool" where
  "claimed ns name w \<longleftrightarrow> bt_lookup (vw_claims w) (ns, name) \<noteq> None"

lemma create_claim_sharing:
  "sharing_to ns (\<lambda>w. backed w c) (create_claim ns name c) (\<lambda>_ w. claimed ns name w)"
  unfolding create_claim_def
  by (rule sharing_to_vapi) (simp_all add: ignores_answers_def sharing_to_def backed_def claimed_def bt_lookup_insert
      shares_new_claim)

lemma clone_pvc_sharing:
  "sharing_to ns (\<lambda>_. True) (clone_pvc ns (name, c)) (\<lambda>_ w. claimed ns name w)"
proof -
  have get: "sharing_to ns (\<lambda>_. True) (get_claim ns name) (\<lambda>f w. bt_lookup (vw_claims w) (ns, name) = f)"
    unfolding get_claim_def by (rule sharing_to_vread) simp_all
  have volume: "sharing_to ns (\<lambda>_. True) (clone_pv ns source) (\<lambda>n w. backed w (cloned_pvc n c))" for source
    by (rule sharing_to_weaken [OF clone_pv_sharing]) (simp_all add: backed_def cloned_pvc_def opt_bind_def Let_def)
  show ?thesis
    unfolding clone_pvc_def prod.case
  proof (rule sharing_to_kbind [OF get])
    fix result
    show "sharing_to ns (\<lambda>w. bt_lookup (vw_claims w) (ns, name) = result)
      (case result of Some _ \<Rightarrow> kret ()
       | None \<Rightarrow> kbind (require (VBail ''shared PVC is not ready'') (opt_bind (pm_spec c) pc_volume_name)) (\<lambda>pv_name.
           kbind (clone_pv ns pv_name) (\<lambda>volume. create_claim ns name (cloned_pvc volume c))))
      (\<lambda>_ w. claimed ns name w)"
    proof (cases result)
      case None
      show ?thesis
        unfolding None option.case
        by (rule sharing_to_kbind [OF sharing_to_require sharing_to_kbind [OF volume create_claim_sharing]]) simp
    next
      case (Some v)
      then show ?thesis by (auto simp: claimed_def intro!: sharing_to_kret)
    qed
  qed
qed

text \<open>A claim that is there stays.\<close>

lemma claimed_stays: "shares ns w w' \<Longrightarrow> claimed ns' name w \<Longrightarrow> claimed ns' name w'"
  unfolding shares_def claimed_def by auto

lemma sharing_to_frame:
  assumes "sharing_to ns P m Q" and "\<And>w w'. shares ns w w' \<Longrightarrow> I w \<Longrightarrow> I w'"
  shows "sharing_to ns (\<lambda>w. P w \<and> I w) m (\<lambda>x w. Q x w \<and> I w)"
  unfolding sharing_to_def
proof (intro allI impI)
  fix w0 w
  assume *: "shares ns w0 w \<and> P w \<and> I w"
  from assms(1) * have 1: "shares ns w0 (snd (m w))" "case fst (m w) of Inl _ \<Rightarrow> True | Inr x \<Rightarrow> Q x (snd (m w))"
    unfolding sharing_to_def by blast+
  from assms(1) * shares_refl have "shares ns w (snd (m w))" unfolding sharing_to_def by blast
  with * have "I (snd (m w))" by (blast intro: assms(2))
  with 1 show "shares ns w0 (snd (m w))
      \<and> (case fst (m w) of Inl _ \<Rightarrow> True | Inr x \<Rightarrow> Q x (snd (m w)) \<and> I (snd (m w)))"
    by (cases "fst (m w)") simp_all
qed

lemma clone_pvcs_sharing:
  "sharing_to ns (\<lambda>w. \<forall>n \<in> N. claimed ns n w) (kmap (clone_pvc ns) cs)
     (\<lambda>_ w. \<forall>n \<in> N \<union> fst ` set cs. claimed ns n w)"
proof (induction cs arbitrary: N)
  case Nil
  show ?case unfolding kmap.simps by (rule sharing_to_kret) simp
next
  case (Cons p cs)
  obtain name c where p: "p = (name, c)" by (cases p)
  have one: "sharing_to ns (\<lambda>w. \<forall>n \<in> N. claimed ns n w) (clone_pvc ns p)
      (\<lambda>_ w. \<forall>n \<in> insert name N. claimed ns n w)"
    unfolding p
  proof (rule sharing_to_weaken [OF sharing_to_frame [OF clone_pvc_sharing]])
    show "\<forall>n \<in> N. claimed ns n w \<Longrightarrow> shares ns w w' \<Longrightarrow> \<forall>n \<in> N. claimed ns n w'" for w w'
      by (blast intro: claimed_stays)
  qed simp_all
  show ?case
    unfolding kmap.simps
    by (rule sharing_to_kbind [OF one sharing_to_kbind [OF Cons.IH]]) (rule sharing_to_kret, simp add: p)
qed

section \<open>Properties\<close>

definition shared_claims :: "vine_world \<Rightarrow> (string \<times> pclaim) list" where
  "shared_claims w =
     List.map_filter (\<lambda>((ns, name), c).
         if ns = namespace_shared
           \<and> (case pm_labels c of None \<Rightarrow> False | Some ls \<Rightarrow> bt_lookup ls ''vine.ulagbulag.io/shared'' = Some ''true'')
         then Some (name, c) else None) (vw_claims w)"

lemma in_shared_claims:
  "((namespace_shared, name), c) \<in> set (vw_claims w) \<Longrightarrow> pm_labels c = Some ls
    \<Longrightarrow> bt_lookup ls ''vine.ulagbulag.io/shared'' = Some ''true'' \<Longrightarrow> (name, c) \<in> set (shared_claims w)"
  unfolding shared_claims_def List.map_filter_def set_map set_filter o_def
  by (rule image_eqI [where x = "((namespace_shared, name), c)"]) simp_all

lemma all_shared:
  "sharing_to ns (\<lambda>v. vw_claims v = vw_claims w) (get_or_create_shared_pvcs ns)
     (\<lambda>_ v. \<forall>n \<in> fst ` set (shared_claims w). claimed ns n v)"
proof -
  have list: "sharing_to ns (\<lambda>v. vw_claims v = vw_claims w) list_shared_claims (\<lambda>cs _. cs = shared_claims w)"
    unfolding list_shared_claims_def by (rule sharing_to_vread) (simp_all add: ignores_answers_def shared_claims_def)
  have "sharing_to ns (\<lambda>_. True) (kbind (kmap (clone_pvc ns) cs) (\<lambda>_. kret ()))
      (\<lambda>_ v. \<forall>n \<in> fst ` set cs. claimed ns n v)" for cs
  proof (rule sharing_to_kbind)
    show "sharing_to ns (\<lambda>_. True) (kmap (clone_pvc ns) cs) (\<lambda>_ v. \<forall>n \<in> fst ` set cs. claimed ns n v)"
      by (rule sharing_to_weaken [OF clone_pvcs_sharing [of ns "{}" cs]]) simp_all
  qed (rule sharing_to_kret)
  then have clone: "sharing_to ns (\<lambda>_. cs = shared_claims w) (kbind (kmap (clone_pvc ns) cs) (\<lambda>_. kret ()))
      (\<lambda>_ v. \<forall>n \<in> fst ` set (shared_claims w). claimed ns n v)" for cs
    using sharing_to_when [of "cs = shared_claims w"] by fastforce
  show ?thesis unfolding get_or_create_shared_pvcs_def by (rule sharing_to_kbind [OF list clone])
qed

lemma sharing_result:
  assumes "get_or_create_shared_pvcs ns w = (r, w')"
  shows "shares ns w w'" and "r = Inr () \<Longrightarrow> (name, c) \<in> set (shared_claims w) \<Longrightarrow> claimed ns name w'"
proof -
  have "shares ns w w' \<and> (case r of Inl _ \<Rightarrow> True | Inr _ \<Rightarrow> \<forall>n \<in> fst ` set (shared_claims w). claimed ns n w')"
    using all_shared [of ns w, unfolded sharing_to_def, THEN spec, THEN spec, of w w] assms
    by (simp split: sum.splits)
  then show "shares ns w w'" and "r = Inr () \<Longrightarrow> (name, c) \<in> set (shared_claims w) \<Longrightarrow> claimed ns name w'"
    by (auto split: sum.splits)
qed

text \<open>C34: Sharing the volumes of the guest namespace loses nothing, whatever call of the API fails: every claim
  and every secret of the cluster stays as it is, and a volume keeps its data, since at most its claim reference
  is dropped and its reclaim policy set to \<open>Retain\<close>. New claims are made in the namespace of the user only, on
  volumes that exist; new volumes are named after that namespace and survive their claims. Source:
  \<open>get_or_create_shared_pvcs\<close>, \<open>clone_pvc\<close> and \<open>clone_pv\<close> in \<open>vine/storage/src/lib.rs\<close>.\<close>

theorem sharing_keeps_data:
  assumes "get_or_create_shared_pvcs ns w = (r, w')"
  shows "shares ns w w'"
  by (rule sharing_result(1) [OF assms])

definition share_world :: "bool list \<Rightarrow> vine_world" where
  "share_world faults =
     \<lparr>vw_now = 0, vw_nodes = [], vw_users = [], vw_boxes = [], vw_namespaces = [], vw_roles = [], vw_role_bindings = [],
      vw_box_bindings = [], vw_quotas = [], vw_quota_bindings = [], vw_objects = [], vw_pods = [],
      vw_claims = [((''vine-guest'', ''data''),
        \<lparr>pm_annotations = None, pm_labels = Some [(''vine.ulagbulag.io/shared'', ''true'')],
         pm_spec = Some \<lparr>pc_access_modes = None, pc_resources = None, pc_storage_class = None, pc_volume_mode = None,
           pc_volume_name = Some ''pv''\<rparr>\<rparr>)],
      vw_volumes = [(''pv'',
        \<lparr>pv_annotations = Some [(''pv.kubernetes.io/provisioned-by'', ''rook.cephfs.csi.ceph.com'')], pv_labels = None,
         pv_spec = Some (default_pv_spec\<lparr>ps_csi := Some (default_csi\<lparr>cs_expand_secret := Some (None, Some ''rook'')\<rparr>),
           ps_reclaim_policy := Some ''Delete''\<rparr>)\<rparr>)],
      vw_secrets = [((''rook'', ''rook-csi-cephfs-node''),
        \<lparr>sc_annotations = None, sc_labels = None, sc_data = Some [(''adminID'', ''i''), (''adminKey'', ''k'')], sc_type = None\<rparr>)],
      vw_faults = faults\<rparr>"

theorem sharing_keeps_data_witness:
  "shares ''ann'' (share_world [False, False, False, False, True])
     (snd (get_or_create_shared_pvcs ''ann'' (share_world [False, False, False, False, True])))"
  by (rule sharing_keeps_data [OF prod.collapse [symmetric]])

text \<open>When the sharing succeeds, every claim of the guest namespace with the label \<open>shared\<close> has a claim of the
  same name in the namespace of the user. Source: \<open>get_or_create_shared_pvcs\<close> and \<open>clone_pvc\<close> in
  \<open>vine/storage/src/lib.rs\<close>.\<close>

theorem shared_claims_are_cloned:
  assumes "get_or_create_shared_pvcs ns w = (Inr (), w')" and "((''vine-guest'', name), c) \<in> set (vw_claims w)"
    and "pm_labels c = Some ls" and "bt_lookup ls ''vine.ulagbulag.io/shared'' = Some ''true''"
  shows "\<exists>c'. bt_lookup (vw_claims w') (ns, name) = Some c'"
  using sharing_result(2) [OF assms(1) refl in_shared_claims [OF assms(2) [folded namespace_shared_def] assms(3,4)]]
  by (simp add: claimed_def)

lemma share_world_ok: "fst (get_or_create_shared_pvcs ''ann'' (share_world [])) = Inr ()"
  by (simp add: share_world_def get_or_create_shared_pvcs_def list_shared_claims_def List.map_filter_def
      namespace_shared_def clone_pvc_def get_claim_def vread_def vapi_def require_def clone_pv_def Let_def get_volume_def
      retain_pv_on_delete_def replace_volume_def get_or_create_user_level_cephfs_secret_def is_cephfs_def
      secret_namespace_def secret_user_name_def secret_data_def opt_bind_def ends_with_def get_secret_def
      create_secret_def create_volume_def create_claim_def default_pv_spec_def default_csi_def kbind_def)

theorem shared_claims_are_cloned_witness:
  "\<exists>c. bt_lookup (vw_claims (snd (get_or_create_shared_pvcs ''ann'' (share_world [])))) (''ann'', ''data'') = Some c"
proof -
  have "get_or_create_shared_pvcs ''ann'' (share_world [])
    = (Inr (), snd (get_or_create_shared_pvcs ''ann'' (share_world [])))"
    using share_world_ok by (metis prod.collapse)
  from shared_claims_are_cloned [OF this, of "''data''"] show ?thesis by (simp add: share_world_def)
qed

end
