(* ===== verification/Ops_Kube.thy ===== *)
theory Ops_Kube imports Kube_Monad Dash_Fields "HOL-Library.Multiset" begin

text \<open>
  The custom resources of \<open>crates/dash/operator\<close> (\<open>dash/api/src/storage/mod.rs\<close>,
  \<open>model_storage_binding.rs\<close>, \<open>model_claim.rs\<close>), the world of Kubernetes objects they live in, and what a
  controller does to an object of any kind (\<open>ark/core/k8s/src/manager.rs\<close>). Every call may fail: the world
  carries the answers to come, and a failed call changes nothing. One namespace is modelled.
\<close>

section \<open>Storages\<close>

text \<open>Of the specification of a store only what the operator reads is kept; the rest is a text.\<close>

datatype db_spec = DbBorrowed string | DbOwned
datatype bucket_spec = ObBorrowed string | ObCloned string | ObOwned string
datatype storage_kind = StDatabase db_spec | StKubernetes | StObject bucket_spec
datatype storage_tag = TagDatabase | TagKubernetes | TagObject

fun object_is_unique :: "bucket_spec \<Rightarrow> bool" where
  "object_is_unique (ObBorrowed _) = False"
| "object_is_unique (ObCloned _) = True"
| "object_is_unique (ObOwned _) = True"

fun is_unique :: "storage_kind \<Rightarrow> bool" where
  "is_unique (StDatabase _) = False"
| "is_unique StKubernetes = True"
| "is_unique (StObject spec) = object_is_unique spec"

fun to_tag :: "storage_kind \<Rightarrow> storage_tag" where
  "to_tag (StDatabase _) = TagDatabase"
| "to_tag StKubernetes = TagKubernetes"
| "to_tag (StObject _) = TagObject"

record storage_spec =
  sp_kind :: storage_kind
  sp_default :: bool

datatype storage_state = StPending | StReady | StDeleting

record storage_status =
  ss_state :: storage_state
  ss_kind :: "storage_kind option"
  ss_total_quota :: "nat option"

text \<open>Resource requirements: the requests and the rest.\<close>

record resources =
  rs_requests :: "(string \<times> string) list option"
  rs_rest :: string

section \<open>Bindings and claims\<close>

datatype sync_pull = PullAlways | PullOnCreate | PullNever
datatype sync_push = PushAlways | PushOnDelete | PushNever

record sync_policy =
  sy_pull :: sync_pull
  sy_push :: sync_push

definition sync_is_none :: "sync_policy \<Rightarrow> bool" where
  "sync_is_none p \<longleftrightarrow> sy_pull p = PullNever \<and> sy_push p = PushNever"

datatype binding_storage = BCloned string "string option" string sync_policy | BOwned string

fun bs_source :: "binding_storage \<Rightarrow> (string \<times> sync_policy) option" where
  "bs_source (BCloned source _ _ p) = Some (source, p)"
| "bs_source (BOwned _) = None"

fun bs_source_binding_name :: "binding_storage \<Rightarrow> string option" where
  "bs_source_binding_name (BCloned _ name _ _) = name"
| "bs_source_binding_name (BOwned _) = None"

fun bs_sync_policy :: "binding_storage \<Rightarrow> sync_policy option" where
  "bs_sync_policy (BCloned _ _ _ p) = Some p"
| "bs_sync_policy (BOwned _) = None"

fun bs_target :: "binding_storage \<Rightarrow> string" where
  "bs_target (BCloned _ _ target _) = target"
| "bs_target (BOwned target) = target"

datatype binding_deletion = BDelete | BRetain

record binding_spec =
  bi_deletion :: binding_deletion
  bi_model :: string
  bi_resources :: "resources option"
  bi_storage :: binding_storage

datatype binding_state = BPending | BReady | BDeleting

record 'f binding_status =
  bt_state :: binding_state
  bt_deletion :: binding_deletion
  bt_model :: "'f model_spec option"
  bt_model_name :: "string option"
  bt_resources :: "resources option"
  bt_source :: "storage_spec option"
  bt_source_binding_name :: "string option"
  bt_source_name :: "string option"
  bt_source_uid :: "string option"
  bt_sync :: "sync_policy option"
  bt_target :: "storage_spec option"
  bt_target_name :: "string option"
  bt_target_uid :: "string option"

datatype claim_binding = Balanced | LowestCopy | LowestLatency
datatype claim_deletion = ClDelete | ClRetain

text \<open>The affinity of a claim is not read.\<close>

record claim_spec =
  cl_allow_replacement :: bool
  cl_binding :: claim_binding
  cl_deletion :: claim_deletion
  cl_resources :: "resources option"
  cl_storage :: "storage_tag option"
  cl_storage_name :: "string option"

definition default_claim :: claim_spec where
  "default_claim = \<lparr>cl_allow_replacement = True, cl_binding = LowestCopy, cl_deletion = ClRetain, cl_resources = None,
     cl_storage = None, cl_storage_name = None\<rparr>"

record claim_status =
  cs_state :: claim_state
  cs_resources :: "resources option"
  cs_storage :: "storage_tag option"
  cs_storage_name :: "string option"

section \<open>Objects and the world\<close>

record meta =
  md_uid :: "string option"
  md_finalizers :: "string list"
  md_deleting :: bool
  md_labels :: "(string \<times> string) list"

record 'f model_obj =
  mo_meta :: meta
  mo_spec :: "'f model_spec"
  mo_status :: "'f model_status option"

record storage_obj =
  so_meta :: meta
  so_spec :: storage_spec
  so_status :: "storage_status option"

record 'f binding_obj =
  bo_meta :: meta
  bo_spec :: binding_spec
  bo_status :: "'f binding_status option"

record claim_obj =
  co_meta :: meta
  co_spec :: claim_spec
  co_status :: "claim_status option"

record owner_reference =
  or_kind :: string
  or_name :: string
  or_uid :: string

text \<open>What the operator asks of the stores, in the order it asks. A bucket is named by its storage, the storage
  it is synchronised with, and the model; the request to make one carries the binding that owns it.\<close>

datatype storage_call =
    Provision string
  | UpdateTable db_spec string
  | DeleteTable db_spec string
  | CreateBucket string "string option" string string "nat option"
  | DeleteBucket string "string option" string
  | UnsyncBucket string "string option" string

record 'f ops_world =
  ow_models :: "(string \<times> 'f model_obj) list"
  ow_storages :: "(string \<times> storage_obj) list"
  ow_bindings :: "(string \<times> 'f binding_obj) list"
  ow_claims :: "(string \<times> claim_obj) list"
  ow_calls :: "storage_call list"
  ow_owner_patches :: "(string \<times> owner_reference list) list"
  ow_uids :: nat
  ow_faults :: "bool list"

datatype ops_error = OApi | OMissing string | OExists string | OBail string | ODash dash_error | OPanic

type_synonym ('f, 'a) ops = "('f ops_world, ops_error, 'a) api"

definition ocall :: "('f, 'a) ops \<Rightarrow> ('f, 'a) ops" where
  "ocall m w =
     (case ow_faults w of
        [] \<Rightarrow> m w
      | False # fs \<Rightarrow> m (w\<lparr>ow_faults := fs\<rparr>)
      | True # fs \<Rightarrow> (Inl OApi, w\<lparr>ow_faults := fs\<rparr>))"

definition oread :: "('f ops_world \<Rightarrow> ops_error + 'a) \<Rightarrow> ('f, 'a) ops" where
  "oread f = ocall (\<lambda>w. (f w, w))"

text \<open>A call of a store: it is on record even if it fails.\<close>

definition storage_request :: "storage_call \<Rightarrow> ('f, unit) ops" where
  "storage_request c w = ocall (kret ()) (w\<lparr>ow_calls := ow_calls w @ [c]\<rparr>)"

section \<open>Custom resources of any kind\<close>

text \<open>Where the objects of a kind are kept and where their metadata are.\<close>

record ('w, 'o) crd =
  crd_list :: "'w \<Rightarrow> (string \<times> 'o) list"
  crd_put :: "(string \<times> 'o) list \<Rightarrow> 'w \<Rightarrow> 'w"
  crd_meta :: "'o \<Rightarrow> meta"
  crd_set_meta :: "meta \<Rightarrow> 'o \<Rightarrow> 'o"

definition model_crds :: "('f ops_world, 'f model_obj) crd" where
  "model_crds = \<lparr>crd_list = ow_models, crd_put = (\<lambda>m w. w\<lparr>ow_models := m\<rparr>),
     crd_meta = mo_meta, crd_set_meta = (\<lambda>d x. x\<lparr>mo_meta := d\<rparr>)\<rparr>"

definition storage_crds :: "('f ops_world, storage_obj) crd" where
  "storage_crds = \<lparr>crd_list = ow_storages, crd_put = (\<lambda>m w. w\<lparr>ow_storages := m\<rparr>),
     crd_meta = so_meta, crd_set_meta = (\<lambda>d x. x\<lparr>so_meta := d\<rparr>)\<rparr>"

definition binding_crds :: "('f ops_world, 'f binding_obj) crd" where
  "binding_crds = \<lparr>crd_list = ow_bindings, crd_put = (\<lambda>m w. w\<lparr>ow_bindings := m\<rparr>),
     crd_meta = bo_meta, crd_set_meta = (\<lambda>d x. x\<lparr>bo_meta := d\<rparr>)\<rparr>"

definition claim_crds :: "('f ops_world, claim_obj) crd" where
  "claim_crds = \<lparr>crd_list = ow_claims, crd_put = (\<lambda>m w. w\<lparr>ow_claims := m\<rparr>),
     crd_meta = co_meta, crd_set_meta = (\<lambda>d x. x\<lparr>co_meta := d\<rparr>)\<rparr>"

text \<open>Kubernetes: an object that is being deleted goes when its last finalizer is removed; deleting an object
  without finalizers removes it, any other is only marked. Deletion in the foreground adds a finalizer of
  its own, until the dependents are gone.\<close>

definition settle :: "('w, 'o) crd \<Rightarrow> string \<Rightarrow> 'o \<Rightarrow> 'w \<Rightarrow> 'w" where
  "settle K name x w =
     (if md_deleting (crd_meta K x) \<and> md_finalizers (crd_meta K x) = []
      then crd_put K (bt_remove name (crd_list K w)) w
      else crd_put K (bt_insert name x (crd_list K w)) w)"

definition patch_obj :: "('f ops_world, 'o) crd \<Rightarrow> string \<Rightarrow> ('o \<Rightarrow> 'o) \<Rightarrow> ('f, unit) ops" where
  "patch_obj K name f = ocall (\<lambda>w.
     case bt_lookup (crd_list K w) name of
       None \<Rightarrow> (Inl (OMissing name), w)
     | Some x \<Rightarrow> (Inr (), settle K name (f x) w))"

definition map_meta :: "('w, 'o) crd \<Rightarrow> (meta \<Rightarrow> meta) \<Rightarrow> 'o \<Rightarrow> 'o" where
  "map_meta K f x = crd_set_meta K (f (crd_meta K x)) x"

definition delete_obj :: "('f ops_world, 'o) crd \<Rightarrow> string \<Rightarrow> ('f, unit) ops" where
  "delete_obj K name = patch_obj K name (map_meta K (md_deleting_update (\<lambda>_. True)))"

definition delete_foreground :: "('f ops_world, 'o) crd \<Rightarrow> string \<Rightarrow> ('f, unit) ops" where
  "delete_foreground K name = patch_obj K name (map_meta K (\<lambda>d.
     d\<lparr>md_deleting := True, md_finalizers := List.insert ''foregroundDeletion'' (md_finalizers d)\<rparr>))"

definition create_obj ::
  "('f ops_world, 'o) crd \<Rightarrow> (nat \<Rightarrow> string) \<Rightarrow> string \<Rightarrow> 'o \<Rightarrow> ('f, 'o) ops" where
  "create_obj K uid name x = ocall (\<lambda>w.
     if bt_lookup (crd_list K w) name \<noteq> None then (Inl (OExists name), w)
     else (let x' = map_meta K (\<lambda>d. d\<lparr>md_uid := Some (uid (ow_uids w))\<rparr>) x in
           (Inr x', crd_put K (bt_insert name x' (crd_list K w)) (w\<lparr>ow_uids := Suc (ow_uids w)\<rparr>))))"

section \<open>Controllers of any kind\<close>

datatype ctl_action = CtlRequeue nat | CtlAwait

text \<open>Outcomes are logged and the object is looked at again; only a panic is not caught.\<close>

definition or_requeue :: "nat \<Rightarrow> ctl_action \<Rightarrow> ('f, 'a) ops \<Rightarrow> ('f, ctl_action) ops" where
  "or_requeue fallback done m w =
     (case m w of
        (Inl OPanic, w') \<Rightarrow> (Inl OPanic, w')
      | (Inl _, w') \<Rightarrow> (Inr (CtlRequeue fallback), w')
      | (Inr _, w') \<Rightarrow> (Inr done, w'))"

definition attempt_else :: "('f, 'b) ops \<Rightarrow> ('a \<Rightarrow> ('f, 'b) ops) \<Rightarrow> ('f, 'a) ops \<Rightarrow> ('f, 'b) ops" where
  "attempt_else failed next m w =
     (case m w of
        (Inl OPanic, w') \<Rightarrow> (Inl OPanic, w')
      | (Inl _, w') \<Rightarrow> failed w'
      | (Inr x, w') \<Rightarrow> next x w')"

definition add_finalizer :: "('f ops_world, 'o) crd \<Rightarrow> string \<Rightarrow> string \<Rightarrow> ('f, unit) ops" where
  "add_finalizer K finalizer name = patch_obj K name (map_meta K (\<lambda>d. d\<lparr>md_finalizers := [finalizer]\<rparr>))"

definition remove_finalizer :: "('f ops_world, 'o) crd \<Rightarrow> string \<Rightarrow> ('f, unit) ops" where
  "remove_finalizer K name = patch_obj K name (map_meta K (\<lambda>d. d\<lparr>md_finalizers := []\<rparr>))"

definition add_finalizer_or_requeue ::
  "('f ops_world, 'o) crd \<Rightarrow> nat \<Rightarrow> string \<Rightarrow> string \<Rightarrow> ('f, ctl_action) ops" where
  "add_finalizer_or_requeue K fallback finalizer name = or_requeue fallback CtlAwait (add_finalizer K finalizer name)"

definition remove_finalizer_or_requeue :: "('f ops_world, 'o) crd \<Rightarrow> nat \<Rightarrow> string \<Rightarrow> ('f, ctl_action) ops" where
  "remove_finalizer_or_requeue K fallback name = or_requeue fallback CtlAwait (remove_finalizer K name)"

text \<open>The patch of owner references is sent as it is written; what the server makes of it is outside.\<close>

definition patch_owners :: "string \<Rightarrow> owner_reference list \<Rightarrow> ('f, unit) ops" where
  "patch_owners name refs = ocall (\<lambda>w. (Inr (), w\<lparr>ow_owner_patches := ow_owner_patches w @ [(name, refs)]\<rparr>))"

section \<open>What is outside\<close>

text \<open>
  A merge patch of a status merges the JSON objects inside it, so what is stored may keep parts of the old
  status: \<open>oe_merge_*\<close>. \<open>oe_apply_null\<close> is what applying a null value leaves of the field.
  \<open>oe_capacity\<close> is the answer of an object store after the requests so far, \<open>oe_order\<close> the order in which
  concurrent requests end. \<open>oe_load_def\<close> finds the schema of a custom resource definition.
\<close>

record capacity =
  cp_capacity :: nat
  cp_usage :: nat

record ('n, 'f) ops_env =
  oe_numbers :: "('n, 'f) numbers"
  oe_snake :: "string \<Rightarrow> string"
  oe_load_def :: "string \<Rightarrow> dash_error + ('n, 'f) json_schema option"
  oe_merge_storage :: "storage_status option \<Rightarrow> storage_status \<Rightarrow> storage_status"
  oe_merge_binding :: "'f binding_status option \<Rightarrow> 'f binding_status \<Rightarrow> 'f binding_status"
  oe_merge_claim :: "claim_status option \<Rightarrow> claim_status \<Rightarrow> claim_status"
  oe_apply_null :: "string option \<Rightarrow> string option"
  oe_bytes :: "string \<Rightarrow> nat option"
  oe_capacity :: "storage_call list \<Rightarrow> string \<Rightarrow> string option \<Rightarrow> capacity"
  oe_order :: "nat \<Rightarrow> nat list"
  oe_uid :: "nat \<Rightarrow> string"

text \<open>Documented: a merge patch takes the values of a first status as they are, changes nothing of an object that
  is merged with itself, and always takes over a value that is not an object; requests that run concurrently all end.\<close>

definition lawful_env :: "('n, 'f) ops_env \<Rightarrow> bool" where
  "lawful_env E \<longleftrightarrow>
     (\<forall>s. oe_merge_storage E None s = s) \<and> (\<forall>s. oe_merge_binding E None s = s) \<and> (\<forall>s. oe_merge_claim E None s = s)
     \<and> (\<forall>old s. ss_state (oe_merge_storage E old s) = ss_state s \<and> (ss_kind s = None \<longrightarrow> ss_kind (oe_merge_storage E old s) = None))
     \<and> (\<forall>old s. ss_kind s = ss_kind old \<longrightarrow> ss_kind (oe_merge_storage E (Some old) s) = ss_kind s)
     \<and> (\<forall>old s. bt_state (oe_merge_binding E old s) = bt_state s)
     \<and> (\<forall>old s. cs_state (oe_merge_claim E old s) = cs_state s
          \<and> cs_storage (oe_merge_claim E old s) = cs_storage s \<and> cs_storage_name (oe_merge_claim E old s) = cs_storage_name s)
     \<and> (\<forall>n. mset (oe_order E n) = mset [0..<n])"

end
