(* ===== verification/Ops_Storage.thy ===== *)
theory Ops_Storage imports Ops_Kube begin

text \<open>
  Loading and changing objects (\<open>crates/dash/provider/src/storage/kubernetes.rs\<close>), and how the operator validates
  storages and binds models to them (\<open>dash/operator/src/validator/storage.rs\<close>). What a store itself does is a
  request on record (\<open>storage_call\<close>).
\<close>

section \<open>Models\<close>

definition model_crd_of :: "string \<Rightarrow> 'f model_obj \<Rightarrow> 'f model_crd" where
  "model_crd_of name m = \<lparr>mc_name = name, mc_spec = mo_spec m, mc_status = mo_status m\<rparr>"

definition model_ready :: "string \<Rightarrow> 'f model_obj \<Rightarrow> ops_error + 'f model_obj" where
  "model_ready name m =
     (case mo_status m of
        None \<Rightarrow> Inl (OBail name)
      | Some s \<Rightarrow> if ms_state s = MReady \<and> ms_fields s \<noteq> None then Inr m else Inl (OBail name))"

definition try_load_model :: "string \<Rightarrow> ('f, 'f model_obj option) ops" where
  "try_load_model name = oread (\<lambda>w.
     case bt_lookup (ow_models w) name of
       None \<Rightarrow> Inr None
     | Some m \<Rightarrow> (case model_ready name m of Inl e \<Rightarrow> Inl e | Inr m \<Rightarrow> Inr (Some m)))"

definition load_model :: "string \<Rightarrow> ('f, 'f model_obj) ops" where
  "load_model name = kbind (try_load_model name) (\<lambda>m.
     case m of None \<Rightarrow> kfail (OBail name) | Some m \<Rightarrow> kret m)"

text \<open>The same as the argument of the validator of models.\<close>

definition model_in :: "'f ops_world \<Rightarrow> string \<Rightarrow> dash_error + 'f model_crd" where
  "model_in w name =
     (case bt_lookup (ow_models w) name of
        None \<Rightarrow> Inl (StorageError name)
      | Some m \<Rightarrow> (case model_ready name m of Inl _ \<Rightarrow> Inl (StorageError name) | Inr m \<Rightarrow> Inr (model_crd_of name m)))"

definition dynamic_model :: "string \<Rightarrow> string \<Rightarrow> 'f model_obj" where
  "dynamic_model field_manager name =
     \<lparr>mo_meta = \<lparr>md_uid = None, md_finalizers = [], md_deleting = False,
        md_labels = [(''dash.ulagbulag.io/claimed-by'', name), (''dash.ulagbulag.io/managed-by'', field_manager)]\<rparr>,
      mo_spec = MDynamic, mo_status = None\<rparr>"

definition load_model_or_create_as_dynamic :: "('n, 'f) ops_env \<Rightarrow> string \<Rightarrow> string \<Rightarrow> ('f, 'f model_obj) ops" where
  "load_model_or_create_as_dynamic E field_manager name =
     kbind (try_load_model name) (\<lambda>m.
       case m of
         Some m \<Rightarrow> kret m
       | None \<Rightarrow> create_obj model_crds (oe_uid E) name (dynamic_model field_manager name))"

section \<open>Bindings\<close>

definition binding_is_ready :: "'f binding_obj \<Rightarrow> bool" where
  "binding_is_ready b = (case bo_status b of None \<Rightarrow> False | Some s \<Rightarrow> bt_state s = BReady)"

definition ready_bindings :: "'f ops_world \<Rightarrow> (string \<times> 'f binding_obj) list" where
  "ready_bindings w = filter (\<lambda>(_, b). binding_is_ready b) (ow_bindings w)"

definition bindings_of_model :: "string \<Rightarrow> 'f ops_world \<Rightarrow> (string \<times> meta \<times> 'f binding_status) list" where
  "bindings_of_model model w = List.map_filter (\<lambda>(n, b).
     if bi_model (bo_spec b) = model then map_option (\<lambda>s. (n, bo_meta b, s)) (bo_status b) else None) (ready_bindings w)"

definition load_model_storage_bindings :: "string \<Rightarrow> ('f, (string \<times> meta \<times> 'f binding_status) list) ops" where
  "load_model_storage_bindings model = oread (\<lambda>w. Inr (bindings_of_model model w))"

definition uses_storage :: "string \<Rightarrow> binding_storage \<Rightarrow> bool" where
  "uses_storage name s \<longleftrightarrow> map_option fst (bs_source s) = Some name \<or> bs_target s = name"

definition load_model_storage_bindings_by_storage :: "string \<Rightarrow> ('f, 'f binding_status list) ops" where
  "load_model_storage_bindings_by_storage name = oread (\<lambda>w.
     Inr (List.map_filter (\<lambda>(_, b). if uses_storage name (bi_storage (bo_spec b)) then bo_status b else None)
       (ready_bindings w)))"

definition create_model_storage_binding ::
  "('n, 'f) ops_env \<Rightarrow> string \<Rightarrow> string \<Rightarrow> binding_storage \<Rightarrow> resources option \<Rightarrow> binding_deletion
    \<Rightarrow> ('f, 'f binding_obj) ops"
where
  "create_model_storage_binding E field_manager model storage resources deletion =
     create_obj binding_crds (oe_uid E) model
       \<lparr>bo_meta = \<lparr>md_uid = None, md_finalizers = [], md_deleting = False,
          md_labels = [(''dash.ulagbulag.io/managed-by'', field_manager)]\<rparr>,
        bo_spec = \<lparr>bi_deletion = deletion, bi_model = model, bi_resources = resources, bi_storage = storage\<rparr>,
        bo_status = None\<rparr>"

text \<open>The deletions run concurrently in the code; here one after the other.\<close>

definition delete_model_storage_binding_by_model :: "string \<Rightarrow> ('f, unit) ops" where
  "delete_model_storage_binding_by_model model =
     kbind (oread (\<lambda>w. Inr (map fst (filter (\<lambda>(_, b). bi_model (bo_spec b) = model) (ready_bindings w))))) (\<lambda>names.
     kbind (kmap (delete_obj binding_crds) names) (\<lambda>_. kret ()))"

definition delete_model_by_name :: "string \<Rightarrow> ('f, unit) ops" where
  "delete_model_by_name name =
     kbind (try_load_model name) (\<lambda>m.
       case m of
         None \<Rightarrow> kret ()
       | Some _ \<Rightarrow>
           kbind (delete_model_storage_binding_by_model name) (\<lambda>_. delete_foreground model_crds name))"

section \<open>Claims and storages\<close>

definition claim_in :: "'f ops_world \<Rightarrow> string \<Rightarrow> dash_error + claim_state option option" where
  "claim_in w name =
     (case bt_lookup (ow_claims w) name of
        None \<Rightarrow> Inr None
      | Some c \<Rightarrow>
          (case co_status c of
             Some s \<Rightarrow> if cs_state s \<in> {CReady, CDeleting} then Inr (Some (Some (cs_state s))) else Inl (StorageError name)
           | None \<Rightarrow> Inl (StorageError name)))"

definition load_model_storage :: "string \<Rightarrow> ('f, storage_obj) ops" where
  "load_model_storage name = oread (\<lambda>w.
     case bt_lookup (ow_storages w) name of
       None \<Rightarrow> Inl (OMissing name)
     | Some s \<Rightarrow>
         (case so_status s of
            Some t \<Rightarrow> if ss_state t = StReady then Inr s else Inl (OBail name)
          | None \<Rightarrow> Inl (OBail name)))"

definition storages_by :: "(storage_kind \<Rightarrow> bool) \<Rightarrow> 'f ops_world \<Rightarrow> (string \<times> storage_obj) list" where
  "storages_by P w = filter (\<lambda>(_, s).
     case opt_bind (so_status s) ss_kind of None \<Rightarrow> False | Some k \<Rightarrow> P k) (ow_storages w)"

definition load_model_storages_by :: "(storage_kind \<Rightarrow> bool) \<Rightarrow> ('f, (string \<times> storage_obj) list) ops" where
  "load_model_storages_by P = oread (\<lambda>w. Inr (storages_by P w))"

section \<open>Validating a storage\<close>

definition validate_model_storage_conflict :: "string \<Rightarrow> storage_tag \<Rightarrow> ('f, unit) ops" where
  "validate_model_storage_conflict name tag =
     kbind (load_model_storages_by (\<lambda>k. is_unique k \<and> tag = to_tag k)) (\<lambda>conflicted.
       if conflicted = [] then kret () else kfail (OBail name))"

text \<open>Connecting to a database is a call; the client of an object store sets the store up.\<close>

definition connect :: "('f, unit) ops" where
  "connect = oread (\<lambda>_. Inr ())"

definition validate_model_storage :: "('n, 'f) ops_env \<Rightarrow> string \<Rightarrow> storage_spec \<Rightarrow> ('f, nat option) ops" where
  "validate_model_storage E name spec =
     kbind (if is_unique (sp_kind spec) then validate_model_storage_conflict name (to_tag (sp_kind spec)) else kret ()) (\<lambda>_.
       case sp_kind spec of
         StDatabase _ \<Rightarrow> kbind connect (\<lambda>_. kret None)
       | StKubernetes \<Rightarrow> kret None
       | StObject _ \<Rightarrow>
           kbind (storage_request (Provision name)) (\<lambda>_.
             oread (\<lambda>w. Inr (Some (cp_capacity (oe_capacity E (ow_calls w) name None))))))"

definition delete_storage :: "string \<Rightarrow> ('f, unit) ops" where
  "delete_storage name =
     kbind (load_model_storage_bindings_by_storage name) (\<lambda>bindings.
       if bindings = [] then kret () else kfail (OBail ''storage is binded''))"

section \<open>Binding a model to a storage\<close>

record storage_source =
  sx_name :: string
  sx_storage :: storage_spec
  sx_sync :: sync_policy

text \<open>\<open>ModelStorageBindingStorageSpec\<close>\<close>

record bound_storage =
  bd_source :: "storage_source option"
  bd_source_binding_name :: "string option"
  bd_target :: storage_spec
  bd_target_name :: string

definition assert_source_is_none :: "storage_source option \<Rightarrow> string \<Rightarrow> ops_error + unit" where
  "assert_source_is_none source name = (if source \<noteq> None then Inl (OBail name) else Inr ())"

definition assert_source_is_same :: "storage_source option \<Rightarrow> storage_tag \<Rightarrow> string \<Rightarrow> ops_error + unit" where
  "assert_source_is_same source tag name =
     (case source of
        None \<Rightarrow> Inr ()
      | Some s \<Rightarrow> if to_tag (sp_kind (sx_storage s)) = tag then Inr () else Inl (OBail name))"

definition from_sum :: "ops_error + 'a \<Rightarrow> ('f, 'a) ops" where
  "from_sum r = (case r of Inl e \<Rightarrow> kfail e | Inr x \<Rightarrow> kret x)"

definition is_custom_resource :: "'f model_spec \<Rightarrow> bool" where
  "is_custom_resource spec = (case spec of MCustomResourceDefinitionRef _ \<Rightarrow> True | _ \<Rightarrow> False)"

definition quota_of :: "('n, 'f) ops_env \<Rightarrow> resources option \<Rightarrow> nat option" where
  "quota_of E r = opt_bind r (\<lambda>r. opt_bind (rs_requests r) (\<lambda>q. opt_bind (bt_lookup q ''storage'') (oe_bytes E)))"

definition bind_model ::
  "('n, 'f) ops_env \<Rightarrow> string \<Rightarrow> 'f binding_obj \<Rightarrow> bound_storage \<Rightarrow> string \<Rightarrow> 'f model_spec \<Rightarrow> ('f, unit) ops" where
  "bind_model E binding_name binding storage model_name model =
     (case sp_kind (bd_target storage) of
        StDatabase spec \<Rightarrow>
          kbind (from_sum (assert_source_is_none (bd_source storage) ''Database'')) (\<lambda>_.
          kbind connect (\<lambda>_. storage_request (UpdateTable spec model_name)))
      | StKubernetes \<Rightarrow>
          kbind (from_sum (assert_source_is_none (bd_source storage) ''Kubernetes'')) (\<lambda>_.
            if is_custom_resource model then kret () else kfail (OBail ''kubernetes storage can only used for CRDs''))
      | StObject _ \<Rightarrow>
          kbind (from_sum (assert_source_is_same (bd_source storage) TagObject ''ObjectStorage'')) (\<lambda>_.
            case md_uid (bo_meta binding) of
              None \<Rightarrow> kfail (OBail binding_name)
            | Some _ \<Rightarrow>
                kbind connect (\<lambda>_.
                  storage_request (CreateBucket (bd_target_name storage) (map_option sx_name (bd_source storage))
                    model_name binding_name (quota_of E (bi_resources (bo_spec binding)))))))"

definition unbind_model ::
  "bound_storage \<Rightarrow> string \<Rightarrow> 'f model_spec \<Rightarrow> binding_deletion \<Rightarrow> ('f, unit) ops" where
  "unbind_model storage model_name model deletion =
     (case sp_kind (bd_target storage) of
        StDatabase spec \<Rightarrow>
          kbind (from_sum (assert_source_is_same (bd_source storage) TagDatabase ''Database'')) (\<lambda>_.
            case deletion of
              BDelete \<Rightarrow> kbind connect (\<lambda>_. storage_request (DeleteTable spec model_name))
            | BRetain \<Rightarrow> kret ())
      | StKubernetes \<Rightarrow>
          kbind (from_sum (assert_source_is_same (bd_source storage) TagKubernetes ''Kubernetes'')) (\<lambda>_.
            case deletion of
              BDelete \<Rightarrow>
                if is_custom_resource model then kret () else kfail (OBail ''kubernetes storage can only used for CRDs'')
            | BRetain \<Rightarrow> kret ())
      | StObject _ \<Rightarrow>
          kbind (from_sum (assert_source_is_same (bd_source storage) TagObject ''ObjectStorage'')) (\<lambda>_.
          kbind connect (\<lambda>_.
            let source = map_option sx_name (bd_source storage) in
            case deletion of
              BDelete \<Rightarrow> storage_request (DeleteBucket (bd_target_name storage) source model_name)
            | BRetain \<Rightarrow> storage_request (UnsyncBucket (bd_target_name storage) source model_name))))"

end
