(* ===== verification/Ops_Control.thy ===== *)
theory Ops_Control imports Ops_Storage begin

text \<open>
  The controllers of models, storages, bindings and claims (\<open>crates/dash/operator/src/ctx\<close>) with the
  validators they call. A controller is given an object as it is and returns when to look at it again. Each
  handler is one step; a run interleaves the handlers with what users do.
\<close>

section \<open>Picking a storage for a claim\<close>

definition available :: "capacity \<Rightarrow> nat" where
  "available c = (if cp_usage c \<le> cp_capacity c then cp_capacity c - cp_usage c else 0)"

text \<open>Only object stores tell their capacity; a store that does not answer has none.\<close>

definition get_capacity :: "('n, 'f) ops_env \<Rightarrow> string \<Rightarrow> string \<Rightarrow> storage_kind \<Rightarrow> ('f, capacity option) ops" where
  "get_capacity E model name kind =
     (case kind of
        StObject _ \<Rightarrow>
          attempt_else (kret None) (\<lambda>c. kret (Some c)) (oread (\<lambda>w. Inr (oe_capacity E (ow_calls w) name (Some model))))
      | _ \<Rightarrow> kret None)"

text \<open>The traffic is asked for and not used.\<close>

definition get_traffic :: "storage_kind \<Rightarrow> ('f, unit) ops" where
  "get_traffic kind =
     (case kind of
        StObject _ \<Rightarrow> attempt_else (kret ()) kret (oread (\<lambda>_. Inr ()))
      | _ \<Rightarrow> kret ())"

definition measure_storage ::
  "('n, 'f) ops_env \<Rightarrow> string \<Rightarrow> string \<times> storage_kind \<Rightarrow> ('f, string \<times> capacity option) ops" where
  "measure_storage E model = (\<lambda>(name, kind).
     kbind (get_capacity E model name kind) (\<lambda>c. kbind (get_traffic kind) (\<lambda>_. kret (name, c))))"

definition is_affordable_storage :: "nat option \<Rightarrow> string \<times> capacity option \<Rightarrow> bool" where
  "is_affordable_storage quota = (\<lambda>(_, c).
     case quota of
       None \<Rightarrow> True
     | Some q \<Rightarrow> (case c of None \<Rightarrow> False | Some c \<Rightarrow> q \<le> available c))"

text \<open>\<open>Iterator::max_by_key\<close>: the last of the greatest.\<close>

fun max_by_key :: "('a \<Rightarrow> nat) \<Rightarrow> 'a list \<Rightarrow> 'a option" where
  "max_by_key key [] = None"
| "max_by_key key (x # xs) =
     (case max_by_key key xs of None \<Rightarrow> Some x | Some y \<Rightarrow> if key x \<le> key y then Some y else Some x)"

definition reorder :: "nat list \<Rightarrow> 'a list \<Rightarrow> 'a list" where
  "reorder order xs = map ((!) xs) order"

definition best_storage :: "nat option \<Rightarrow> (string \<times> capacity option) list \<Rightarrow> string option" where
  "best_storage quota xs =
     map_option fst (max_by_key (\<lambda>(_, c). case c of None \<Rightarrow> 0 | Some c \<Rightarrow> available c)
       (filter (\<lambda>(_, c). c \<noteq> None) (filter (is_affordable_storage quota) xs)))"

definition optimize_model_storage_binding ::
  "('n, 'f) ops_env \<Rightarrow> string \<Rightarrow> claim_binding \<Rightarrow> string \<Rightarrow> storage_tag option \<Rightarrow> resources option
    \<Rightarrow> binding_deletion \<Rightarrow> ('f, 'f binding_obj option) ops"
where
  "optimize_model_storage_binding E field_manager policy model storage resources deletion =
     kbind (load_model_storages_by (\<lambda>k. case storage of None \<Rightarrow> True | Some t \<Rightarrow> t = to_tag k)) (\<lambda>crs.
     kbind (kmap (measure_storage E model)
         (List.map_filter (\<lambda>(n, s). map_option (\<lambda>k. (n, k)) (opt_bind (so_status s) ss_kind)) crs)) (\<lambda>measured.
       let storages = reorder (oe_order E (length measured)) measured in
       case policy of
         Balanced \<Rightarrow> kfail (OBail ''Unimplemented yet (Balanced)!'')
       | LowestLatency \<Rightarrow> kfail (OBail ''Unimplemented yet (LowestLatency)!'')
       | LowestCopy \<Rightarrow>
           (case best_storage (quota_of E resources) storages of
              None \<Rightarrow> kret None
            | Some target \<Rightarrow>
                kbind (create_model_storage_binding E field_manager model (BOwned target) resources deletion) (\<lambda>b.
                  kret (Some b)))))"

section \<open>Claims\<close>

record claim_update =
  cu_status :: claim_status
  cu_owners :: "owner_reference list option"

definition to_owner_reference :: "string \<Rightarrow> meta \<Rightarrow> ops_error + owner_reference" where
  "to_owner_reference name d =
     (case md_uid d of
        None \<Rightarrow> Inl (OBail name)
      | Some uid \<Rightarrow> Inr \<lparr>or_kind = ''ModelStorageBinding'', or_name = name, or_uid = uid\<rparr>)"

definition deletion_of_claim :: "claim_deletion \<Rightarrow> binding_deletion" where
  "deletion_of_claim d = (case d of ClDelete \<Rightarrow> BDelete | ClRetain \<Rightarrow> BRetain)"

definition validate_model_claim ::
  "('n, 'f) ops_env \<Rightarrow> string \<Rightarrow> string \<Rightarrow> claim_spec \<Rightarrow> ('f, claim_update) ops" where
  "validate_model_claim E field_manager name spec =
     kbind (load_model_or_create_as_dynamic E field_manager name) (\<lambda>_.
     kbind (load_model_storage_bindings name) (\<lambda>bindings.
       let status = \<lparr>cs_state = CReady, cs_resources = cl_resources spec, cs_storage = cl_storage spec, cs_storage_name = None\<rparr> in
       if bindings \<noteq> [] then
         kbind (from_sum (traverse (\<lambda>(n, d, _). to_owner_reference n d) bindings)) (\<lambda>owners.
           kret \<lparr>cu_status = status, cu_owners = Some owners\<rparr>)
       else
         kbind (optimize_model_storage_binding E field_manager (cl_binding spec) name (cl_storage spec)
                  (cl_resources spec) (deletion_of_claim (cl_deletion spec))) (\<lambda>binding.
           case binding of
             None \<Rightarrow> kfail (OBail ''failed to find suitable model storage'')
           | Some b \<Rightarrow>
               kbind (from_sum (to_owner_reference name (bo_meta b))) (\<lambda>owner.
                 kret \<lparr>cu_status = status\<lparr>cs_storage_name := Some (bs_target (bi_storage (bo_spec b)))\<rparr>,
                       cu_owners = Some [owner]\<rparr>))))"

definition validate_model_claim_replacement :: "('f, claim_update option) ops" where
  "validate_model_claim_replacement = kfail (OBail ''Unimplemented yet!'')"

definition replace_claim :: "('f, claim_update option) ops" where
  "replace_claim = kfail (OBail ''Unimplemented yet!'')"

definition delete_claim :: "string \<Rightarrow> claim_spec \<Rightarrow> ('f, unit) ops" where
  "delete_claim name spec = (case cl_deletion spec of ClDelete \<Rightarrow> delete_model_by_name name | ClRetain \<Rightarrow> kret ())"

definition claim_is_changed :: "claim_spec \<Rightarrow> claim_status \<Rightarrow> bool" where
  "claim_is_changed spec seen =
     (case (cs_storage_name seen, cl_storage_name spec) of
        (Some before, Some after) \<Rightarrow>
          (cs_resources seen, cs_storage seen, before) = (cl_resources spec, cl_storage spec, after)
      | (Some _, None) \<Rightarrow> True
      | (None, Some _) \<Rightarrow> True
      | (None, None) \<Rightarrow> False)"

definition update_claim ::
  "('n, 'f) ops_env \<Rightarrow> string \<Rightarrow> string \<Rightarrow> claim_spec \<Rightarrow> claim_status \<Rightarrow> ('f, claim_update option) ops" where
  "update_claim E field_manager name spec seen =
     (if \<not> claim_is_changed spec seen then kret None
      else if \<not> cl_allow_replacement spec then
        kbind (delete_model_storage_binding_by_model name) (\<lambda>_.
        kbind (validate_model_claim E field_manager name spec) (\<lambda>u. kret (Some u)))
      else replace_claim)"

definition operator_name :: string where
  "operator_name = ''dash-operator''"

definition update_claim_fields :: "('n, 'f) ops_env \<Rightarrow> string \<Rightarrow> claim_update \<Rightarrow> ('f, unit) ops" where
  "update_claim_fields E name u =
     kbind (patch_obj claim_crds name (\<lambda>c. c\<lparr>co_status := Some (oe_merge_claim E (co_status c) (cu_status u))\<rparr>)) (\<lambda>_.
     kbind (patch_obj claim_crds name (\<lambda>c. c\<lparr>co_spec := (co_spec c)\<lparr>cl_storage_name :=
        (case cs_storage_name (cu_status u) of
           Some s \<Rightarrow> Some s
         | None \<Rightarrow> oe_apply_null E (cl_storage_name (co_spec c)))\<rparr>\<rparr>)) (\<lambda>_.
       case cu_owners u of None \<Rightarrow> kret () | Some owners \<Rightarrow> patch_owners name owners))"

definition claim_finalizer :: string where
  "claim_finalizer = ''dash.ulagbulag.io/finalizer-model-claims''"

definition claim_fallback :: nat where
  "claim_fallback = 30"

definition update_claim_or_requeue :: "('n, 'f) ops_env \<Rightarrow> string \<Rightarrow> claim_update \<Rightarrow> ('f, ctl_action) ops" where
  "update_claim_or_requeue E name u = or_requeue claim_fallback (CtlRequeue claim_fallback) (update_claim_fields E name u)"

definition reconcile_claim :: "('n, 'f) ops_env \<Rightarrow> string \<Rightarrow> claim_obj \<Rightarrow> ('f, ctl_action) ops" where
  "reconcile_claim E name c =
     (let again = kret (CtlRequeue claim_fallback);
          state = (case co_status c of None \<Rightarrow> CPending | Some s \<Rightarrow> cs_state s) in
      if md_deleting (co_meta c) \<and> (case co_status c of None \<Rightarrow> True | Some s \<Rightarrow> cs_state s \<noteq> CDeleting) then
        update_claim_or_requeue E name
          \<lparr>cu_status = \<lparr>cs_state = CDeleting, cs_resources = opt_bind (co_status c) cs_resources,
             cs_storage = opt_bind (co_status c) cs_storage, cs_storage_name = opt_bind (co_status c) cs_storage_name\<rparr>,
           cu_owners = None\<rparr>
      else if claim_finalizer \<notin> set (md_finalizers (co_meta c)) then
        add_finalizer_or_requeue claim_crds claim_fallback claim_finalizer name
      else
        case state of
          CPending \<Rightarrow>
            attempt_else again (update_claim_or_requeue E name) (validate_model_claim E operator_name name (co_spec c))
        | CReady \<Rightarrow>
            (case co_status c of
               None \<Rightarrow> kfail OPanic
             | Some seen \<Rightarrow>
                 attempt_else again (\<lambda>u. case u of Some u \<Rightarrow> update_claim_or_requeue E name u | None \<Rightarrow> kret CtlAwait)
                   (update_claim E operator_name name (co_spec c) seen))
        | CReplacing \<Rightarrow>
            attempt_else again (\<lambda>u. case u of Some u \<Rightarrow> update_claim_or_requeue E name u | None \<Rightarrow> again)
              validate_model_claim_replacement
        | CDeleting \<Rightarrow>
            attempt_else again (\<lambda>_. remove_finalizer_or_requeue claim_crds claim_fallback name)
              (delete_claim name (co_spec c)))"

section \<open>Bindings\<close>

text \<open>\<open>State\<close> and \<open>Context\<close>\<close>

record bind_state =
  bx_source :: "storage_source option"
  bx_source_binding_name :: "string option"
  bx_source_uid :: "string option"
  bx_target :: storage_spec
  bx_target_name :: string
  bx_target_uid :: string

record 'f bind_context =
  bc_model_name :: string
  bc_model_uid :: "string option"
  bc_model :: "'f model_spec"
  bc_state :: bind_state

record 'f binding_update =
  bu_status :: "'f binding_status"
  bu_owners :: "owner_reference list option"

definition bound_storage_of :: "bind_state \<Rightarrow> bound_storage" where
  "bound_storage_of s = \<lparr>bd_source = bx_source s, bd_source_binding_name = bx_source_binding_name s,
     bd_target = bx_target s, bd_target_name = bx_target_name s\<rparr>"

definition load_context :: "binding_spec \<Rightarrow> ('f, 'f bind_context) ops" where
  "load_context spec =
     kbind (load_model (bi_model spec)) (\<lambda>model.
     kbind (case bs_source (bi_storage spec) of
              None \<Rightarrow> kret None
            | Some (source, _) \<Rightarrow> kbind (load_model_storage source) (\<lambda>s. kret (Some s))) (\<lambda>source.
     kbind (load_model_storage (bs_target (bi_storage spec))) (\<lambda>target.
       case md_uid (so_meta target) of
         None \<Rightarrow> kfail (OBail (bs_target (bi_storage spec)))
       | Some uid \<Rightarrow>
           kret \<lparr>bc_model_name = bi_model spec, bc_model_uid = md_uid (mo_meta model), bc_model = mo_spec model,
             bc_state = \<lparr>bx_source = opt_bind (bs_source (bi_storage spec)) (\<lambda>(n, p).
                  map_option (\<lambda>s. \<lparr>sx_name = n, sx_storage = so_spec s, sx_sync = p\<rparr>) source),
                bx_source_binding_name = bs_source_binding_name (bi_storage spec),
                bx_source_uid = opt_bind source (\<lambda>s. md_uid (so_meta s)),
                bx_target = so_spec target, bx_target_name = bs_target (bi_storage spec), bx_target_uid = uid\<rparr>\<rparr>)))"

definition binding_owners :: "string \<Rightarrow> bind_state \<Rightarrow> string \<Rightarrow> owner_reference list" where
  "binding_owners model_uid s model_name =
     [\<lparr>or_kind = ''Model'', or_name = model_name, or_uid = model_uid\<rparr>,
      \<lparr>or_kind = ''ModelStorage'', or_name = bx_target_name s, or_uid = bx_target_uid s\<rparr>]
     @ (case (bx_source s, bx_source_uid s) of
          (Some x, Some uid) \<Rightarrow> [\<lparr>or_kind = ''ModelStorage'', or_name = sx_name x, or_uid = uid\<rparr>]
        | _ \<Rightarrow> [])"

definition validate_binding_with ::
  "('n, 'f) ops_env \<Rightarrow> 'f bind_context \<Rightarrow> string \<Rightarrow> 'f binding_obj \<Rightarrow> ('f, 'f binding_update) ops" where
  "validate_binding_with E ctx name b =
     (let s = bc_state ctx in
      kbind (bind_model E name b (bound_storage_of s) (bc_model_name ctx) (bc_model ctx)) (\<lambda>_.
        case bc_model_uid ctx of
          None \<Rightarrow> kfail (OBail (bc_model_name ctx))
        | Some uid \<Rightarrow>
            kret \<lparr>bu_status =
               \<lparr>bt_state = BReady, bt_deletion = bi_deletion (bo_spec b), bt_model = Some (bc_model ctx),
                bt_model_name = Some (bc_model_name ctx), bt_resources = bi_resources (bo_spec b),
                bt_source = map_option sx_storage (bx_source s), bt_source_binding_name = bx_source_binding_name s,
                bt_source_name = map_option sx_name (bx_source s), bt_source_uid = bx_source_uid s,
                bt_sync = map_option sx_sync (bx_source s), bt_target = Some (bx_target s),
                bt_target_name = Some (bx_target_name s), bt_target_uid = Some (bx_target_uid s)\<rparr>,
              bu_owners = Some (binding_owners uid s (bc_model_name ctx))\<rparr>))"

definition validate_model_storage_binding ::
  "('n, 'f) ops_env \<Rightarrow> string \<Rightarrow> 'f binding_obj \<Rightarrow> ('f, 'f binding_update) ops" where
  "validate_model_storage_binding E name b =
     kbind (load_context (bo_spec b)) (\<lambda>ctx. validate_binding_with E ctx name b)"

definition delete_binding_with :: "'f bind_context \<Rightarrow> binding_spec \<Rightarrow> ('f, unit) ops" where
  "delete_binding_with ctx spec =
     unbind_model (bound_storage_of (bc_state ctx)) (bc_model_name ctx) (bc_model ctx) (bi_deletion spec)"

text \<open>When the context cannot be loaded, nothing is unbound and the binding goes all the same.\<close>

definition delete_binding :: "binding_spec \<Rightarrow> ('f, unit) ops" where
  "delete_binding spec = attempt_else (kret ()) (\<lambda>ctx. delete_binding_with ctx spec) (load_context spec)"

definition last_bind_state :: "'f binding_status \<Rightarrow> ops_error + bind_state" where
  "last_bind_state t =
     (case (bt_target t, bt_target_name t) of
        (Some target, Some name) \<Rightarrow>
          Inr \<lparr>bx_source = (case (bt_source t, bt_source_name t, bt_sync t) of
                   (Some s, Some n, Some p) \<Rightarrow> Some \<lparr>sx_name = n, sx_storage = s, sx_sync = p\<rparr>
                 | _ \<Rightarrow> None),
               bx_source_binding_name = bt_source_binding_name t, bx_source_uid = bt_source_uid t,
               bx_target = target, bx_target_name = name,
               bx_target_uid = (case bt_target_uid t of None \<Rightarrow> [] | Some u \<Rightarrow> u)\<rparr>
      | _ \<Rightarrow> Inl OPanic)"

definition update_binding ::
  "('n, 'f) ops_env \<Rightarrow> string \<Rightarrow> 'f binding_obj \<Rightarrow> 'f binding_status \<Rightarrow> ('f, 'f binding_update option) ops" where
  "update_binding E name b seen =
     kbind (load_context (bo_spec b)) (\<lambda>ctx.
       if bt_model seen \<noteq> Some (bc_model ctx) then kfail (OBail ''model should be immutable'')
       else
         kbind (from_sum (last_bind_state seen)) (\<lambda>before.
           if before = bc_state ctx then kret None
           else
             kbind (delete_binding_with
                 \<lparr>bc_model_name = (case bt_model_name seen of None \<Rightarrow> [] | Some n \<Rightarrow> n), bc_model_uid = None,
                  bc_model = bc_model ctx, bc_state = before\<rparr> (bo_spec b)) (\<lambda>_.
             kbind (validate_binding_with E ctx name b) (\<lambda>u. kret (Some u)))))"

definition binding_fallback_secs :: nat where
  "binding_fallback_secs = 10"

definition binding_finalizer :: string where
  "binding_finalizer = ''dash.ulagbulag.io/finalizer-model-storage-bindings''"

definition update_binding_state :: "('n, 'f) ops_env \<Rightarrow> string \<Rightarrow> 'f binding_update \<Rightarrow> ('f, unit) ops" where
  "update_binding_state E name u =
     kbind (patch_obj binding_crds name (\<lambda>b. b\<lparr>bo_status := Some (oe_merge_binding E (bo_status b) (bu_status u))\<rparr>)) (\<lambda>_.
       case bu_owners u of None \<Rightarrow> kret () | Some owners \<Rightarrow> patch_owners name owners)"

definition update_binding_or_requeue :: "('n, 'f) ops_env \<Rightarrow> string \<Rightarrow> 'f binding_update \<Rightarrow> ('f, ctl_action) ops" where
  "update_binding_or_requeue E name u =
     or_requeue binding_fallback_secs (CtlRequeue binding_fallback_secs) (update_binding_state E name u)"

text \<open>The status written when a binding is marked for deletion: the last one, in another state.\<close>

definition deleting_status :: "'f binding_obj \<Rightarrow> 'f binding_status" where
  "deleting_status b =
     (case bo_status b of
        Some t \<Rightarrow> t\<lparr>bt_state := BDeleting\<rparr>
      | None \<Rightarrow>
          \<lparr>bt_state = BDeleting, bt_deletion = bi_deletion (bo_spec b), bt_model = None, bt_model_name = None,
           bt_resources = None, bt_source = None, bt_source_binding_name = None, bt_source_name = None,
           bt_source_uid = None, bt_sync = None, bt_target = None, bt_target_name = None, bt_target_uid = None\<rparr>)"

definition reconcile_storage_binding :: "('n, 'f) ops_env \<Rightarrow> string \<Rightarrow> 'f binding_obj \<Rightarrow> ('f, ctl_action) ops" where
  "reconcile_storage_binding E name b =
     (let again = kret (CtlRequeue binding_fallback_secs);
          state = (case bo_status b of None \<Rightarrow> BPending | Some s \<Rightarrow> bt_state s) in
      if md_deleting (bo_meta b) \<and> (case bo_status b of None \<Rightarrow> True | Some s \<Rightarrow> bt_state s \<noteq> BDeleting) then
        update_binding_or_requeue E name \<lparr>bu_status = deleting_status b, bu_owners = None\<rparr>
      else if binding_finalizer \<notin> set (md_finalizers (bo_meta b)) then
        add_finalizer_or_requeue binding_crds binding_fallback_secs binding_finalizer name
      else
        case state of
          BPending \<Rightarrow> attempt_else again (update_binding_or_requeue E name) (validate_model_storage_binding E name b)
        | BReady \<Rightarrow>
            (case bo_status b of
               None \<Rightarrow> kfail OPanic
             | Some seen \<Rightarrow>
                 attempt_else again (\<lambda>u. case u of Some u \<Rightarrow> update_binding_or_requeue E name u | None \<Rightarrow> kret CtlAwait)
                   (update_binding E name b seen))
        | BDeleting \<Rightarrow>
            attempt_else again (\<lambda>_. remove_finalizer_or_requeue binding_crds binding_fallback_secs name)
              (delete_binding (bo_spec b)))"

section \<open>Models and storages\<close>

definition model_finalizer :: string where
  "model_finalizer = ''dash.ulagbulag.io/finalizer-models''"

definition model_fallback :: nat where
  "model_fallback = 30"

definition update_model_fields :: "string \<Rightarrow> 'f native_field list option \<Rightarrow> model_state \<Rightarrow> ('f, unit) ops" where
  "update_model_fields name fs state =
     patch_obj model_crds name (\<lambda>m. m\<lparr>mo_status := Some \<lparr>ms_state = state, ms_fields = fs\<rparr>\<rparr>)"

definition update_model_or_requeue ::
  "string \<Rightarrow> 'f native_field list option \<Rightarrow> model_state \<Rightarrow> ('f, ctl_action) ops" where
  "update_model_or_requeue name fs state =
     or_requeue model_fallback (CtlRequeue model_fallback) (update_model_fields name fs state)"

text \<open>The reads of a validation are one call: they change nothing, and any of them that fails fails it.\<close>

definition validate_model_call :: "('n, 'f) ops_env \<Rightarrow> 'f model_spec \<Rightarrow> ('f, 'f native_field list) ops" where
  "validate_model_call E spec = oread (\<lambda>w.
     case validate_model (oe_numbers E) (oe_snake E) (model_in w) (oe_load_def E) spec of
       Inl e \<Rightarrow> Inl (ODash e)
     | Inr fs \<Rightarrow> Inr fs)"

definition delete_model_call :: "string \<Rightarrow> 'f model_obj \<Rightarrow> ('f, unit) ops" where
  "delete_model_call name m = oread (\<lambda>w.
     case delete_model (\<lambda>n. Inr (bindings_of_model n w)) (claim_in w) (model_crd_of name m) of
       Inl e \<Rightarrow> Inl (ODash e)
     | Inr _ \<Rightarrow> Inr ())"

definition reconcile_model :: "('n, 'f) ops_env \<Rightarrow> string \<Rightarrow> 'f model_obj \<Rightarrow> ('f, ctl_action) ops" where
  "reconcile_model E name m =
     (let again = kret (CtlRequeue model_fallback);
          state = (case mo_status m of None \<Rightarrow> MPending | Some s \<Rightarrow> ms_state s) in
      if md_deleting (mo_meta m) \<and> (case mo_status m of None \<Rightarrow> True | Some s \<Rightarrow> ms_state s \<noteq> MDeleting) then
        update_model_or_requeue name (opt_bind (mo_status m) ms_fields) MDeleting
      else if model_finalizer \<notin> set (md_finalizers (mo_meta m)) then
        add_finalizer_or_requeue model_crds model_fallback model_finalizer name
      else
        case state of
          MPending \<Rightarrow>
            attempt_else again (\<lambda>fs. update_model_or_requeue name (Some fs) MReady) (validate_model_call E (mo_spec m))
        | MReady \<Rightarrow> kret CtlAwait
        | MDeleting \<Rightarrow>
            attempt_else again (\<lambda>_. remove_finalizer_or_requeue model_crds model_fallback name) (delete_model_call name m))"

definition storage_finalizer :: string where
  "storage_finalizer = ''dash.ulagbulag.io/finalizer-model-storages''"

definition storage_fallback :: nat where
  "storage_fallback = 30"

definition update_storage_state ::
  "('n, 'f) ops_env \<Rightarrow> string \<Rightarrow> storage_kind option \<Rightarrow> storage_state \<Rightarrow> nat option \<Rightarrow> ('f, unit) ops" where
  "update_storage_state E name kind state quota =
     patch_obj storage_crds name (\<lambda>s. s\<lparr>so_status :=
       Some (oe_merge_storage E (so_status s) \<lparr>ss_state = state, ss_kind = kind, ss_total_quota = quota\<rparr>)\<rparr>)"

definition update_storage_or_requeue ::
  "('n, 'f) ops_env \<Rightarrow> string \<Rightarrow> storage_kind option \<Rightarrow> storage_state \<Rightarrow> nat option \<Rightarrow> ('f, ctl_action) ops" where
  "update_storage_or_requeue E name kind state quota =
     or_requeue storage_fallback (CtlRequeue storage_fallback) (update_storage_state E name kind state quota)"

definition reconcile_storage :: "('n, 'f) ops_env \<Rightarrow> string \<Rightarrow> storage_obj \<Rightarrow> ('f, ctl_action) ops" where
  "reconcile_storage E name s =
     (let again = kret (CtlRequeue storage_fallback);
          state = (case so_status s of None \<Rightarrow> StPending | Some t \<Rightarrow> ss_state t) in
      if md_deleting (so_meta s) \<and> (case so_status s of None \<Rightarrow> True | Some t \<Rightarrow> ss_state t \<noteq> StDeleting) then
        update_storage_or_requeue E name (opt_bind (so_status s) ss_kind) StDeleting None
      else if storage_finalizer \<notin> set (md_finalizers (so_meta s)) then
        add_finalizer_or_requeue storage_crds storage_fallback storage_finalizer name
      else
        case state of
          StPending \<Rightarrow>
            attempt_else again (\<lambda>quota. update_storage_or_requeue E name (Some (sp_kind (so_spec s))) StReady quota)
              (validate_model_storage E name (so_spec s))
        | StReady \<Rightarrow> kret CtlAwait
        | StDeleting \<Rightarrow>
            attempt_else again (\<lambda>_. remove_finalizer_or_requeue storage_crds storage_fallback name) (delete_storage name))"

section \<open>Runs\<close>

datatype 'f ops_event =
    EvNewModel string "'f model_spec"
  | EvNewStorage string storage_spec
  | EvNewBinding string binding_spec
  | EvNewClaim string claim_spec
  | EvEditBinding string binding_spec
  | EvDropModel string
  | EvDropStorage string
  | EvDropBinding string
  | EvDropClaim string
  | EvModel string
  | EvStorage string
  | EvStorageBinding string
  | EvClaim string
  | EvOpsAnswers "bool list"

definition fresh_meta :: meta where
  "fresh_meta = \<lparr>md_uid = None, md_finalizers = [], md_deleting = False, md_labels = []\<rparr>"

definition on_object :: "('f ops_world, 'o) crd \<Rightarrow> string \<Rightarrow> ('o \<Rightarrow> ('f, 'a) ops) \<Rightarrow> 'f ops_world \<Rightarrow> 'f ops_world" where
  "on_object K name f w = (case bt_lookup (crd_list K w) name of None \<Rightarrow> w | Some x \<Rightarrow> snd (f x w))"

definition ops_step :: "('n, 'f) ops_env \<Rightarrow> 'f ops_event \<Rightarrow> 'f ops_world \<Rightarrow> 'f ops_world" where
  "ops_step E ev w =
     (case ev of
        EvNewModel n s \<Rightarrow> snd (create_obj model_crds (oe_uid E) n \<lparr>mo_meta = fresh_meta, mo_spec = s, mo_status = None\<rparr> w)
      | EvNewStorage n s \<Rightarrow> snd (create_obj storage_crds (oe_uid E) n \<lparr>so_meta = fresh_meta, so_spec = s, so_status = None\<rparr> w)
      | EvNewBinding n s \<Rightarrow> snd (create_obj binding_crds (oe_uid E) n \<lparr>bo_meta = fresh_meta, bo_spec = s, bo_status = None\<rparr> w)
      | EvNewClaim n s \<Rightarrow> snd (create_obj claim_crds (oe_uid E) n \<lparr>co_meta = fresh_meta, co_spec = s, co_status = None\<rparr> w)
      | EvEditBinding n s \<Rightarrow> snd (patch_obj binding_crds n (\<lambda>b. b\<lparr>bo_spec := s\<rparr>) w)
      | EvDropModel n \<Rightarrow> snd (delete_obj model_crds n w)
      | EvDropStorage n \<Rightarrow> snd (delete_obj storage_crds n w)
      | EvDropBinding n \<Rightarrow> snd (delete_obj binding_crds n w)
      | EvDropClaim n \<Rightarrow> snd (delete_obj claim_crds n w)
      | EvModel n \<Rightarrow> on_object model_crds n (reconcile_model E n) w
      | EvStorage n \<Rightarrow> on_object storage_crds n (reconcile_storage E n) w
      | EvStorageBinding n \<Rightarrow> on_object binding_crds n (reconcile_storage_binding E n) w
      | EvClaim n \<Rightarrow> on_object claim_crds n (reconcile_claim E n) w
      | EvOpsAnswers fs \<Rightarrow> w\<lparr>ow_faults := fs\<rparr>)"

definition ops_run :: "('n, 'f) ops_env \<Rightarrow> 'f ops_event list \<Rightarrow> 'f ops_world \<Rightarrow> 'f ops_world" where
  "ops_run E evs w = foldl (\<lambda>w ev. ops_step E ev w) w evs"

end
