(* ===== verification/Ops_Effect.thy ===== *)
theory Ops_Effect imports Ops_Control begin

text \<open>
  What the calls of the operator's handlers may change, whatever the answers are: the cases of a patch and of a
  creation, once for all kinds of objects (\<open>object_kind\<close>), and for each handler the lists it leaves alone.
\<close>

section \<open>What a call does to the world\<close>

named_theorems ops_keeps

text \<open>A call uses up one answer.\<close>

definition answered :: "'f ops_world \<Rightarrow> 'f ops_world" where
  "answered w = w\<lparr>ow_faults := tl (ow_faults w)\<rparr>"

lemma answered_simps [simp]:
  "ow_models (answered w) = ow_models w" "ow_storages (answered w) = ow_storages w"
  "ow_bindings (answered w) = ow_bindings w" "ow_claims (answered w) = ow_claims w"
  "ow_calls (answered w) = ow_calls w" "ow_uids (answered w) = ow_uids w"
  "ow_faults (answered w) = tl (ow_faults w)"
  by (simp_all add: answered_def)

lemma answered_quiet [simp]: "ow_faults w = [] \<Longrightarrow> answered w = w"
  by (simp add: answered_def)

lemma ocall_eq:
  "ocall m w = (if ow_faults w \<noteq> [] \<and> hd (ow_faults w) then (Inl OApi, answered w) else m (answered w))"
  by (cases "ow_faults w"; cases w) (auto simp: ocall_def answered_def split: bool.split)

lemma oread_snd [simp]: "snd (oread f w) = answered w"
  by (simp add: oread_def ocall_eq)

lemma oread_Inr: "oread f w = (Inr x, w') \<Longrightarrow> w' = answered w \<and> f w' = Inr x"
  by (auto simp: oread_def ocall_eq split: if_splits)

lemma oread_quiet [simp]: "ow_faults w = [] \<Longrightarrow> oread f w = (f w, w)"
  by (simp add: oread_def ocall_eq)

lemma storage_request_snd [simp]: "snd (storage_request c w) = answered (w\<lparr>ow_calls := ow_calls w @ [c]\<rparr>)"
  by (simp add: storage_request_def ocall_eq)

lemma storage_request_quiet [simp]:
  "ow_faults w = [] \<Longrightarrow> storage_request c w = (Inr (), w\<lparr>ow_calls := ow_calls w @ [c]\<rparr>)"
  by (simp add: storage_request_def ocall_eq)

lemma patch_owners_cases:
  obtains ps where "snd (patch_owners name refs w) = answered w\<lparr>ow_owner_patches := ps\<rparr>"
proof -
  have "snd (patch_owners name refs w) \<in> range (\<lambda>ps. answered w\<lparr>ow_owner_patches := ps\<rparr>)"
    using rangeI [of "\<lambda>ps. answered w\<lparr>ow_owner_patches := ps\<rparr>" "ow_owner_patches (answered w)"]
    by (simp add: patch_owners_def ocall_eq)
  then show thesis using that by blast
qed

lemma patch_obj_snd:
  "snd (patch_obj K name f w) = answered w \<or>
   (\<exists>x. bt_lookup (crd_list K (answered w)) name = Some x
      \<and> snd (patch_obj K name f w) = settle K name (f x) (answered w))"
  by (simp add: patch_obj_def ocall_eq split: option.split)

lemma patch_obj_cases:
  obtains "snd (patch_obj K name f w) = answered w"
  | x where "bt_lookup (crd_list K (answered w)) name = Some x"
      "snd (patch_obj K name f w) = settle K name (f x) (answered w)"
  using patch_obj_snd [of K name f w] by blast

lemma create_obj_snd:
  "snd (create_obj K uid name x w) = answered w \<or>
   (bt_lookup (crd_list K (answered w)) name = None \<and>
    (\<exists>u. snd (create_obj K uid name x w) = crd_put K (bt_insert name
         (map_meta K (\<lambda>d. d\<lparr>md_uid := Some u\<rparr>) x) (crd_list K (answered w)))
         (answered w\<lparr>ow_uids := Suc (ow_uids (answered w))\<rparr>)))"
  by (cases "bt_lookup (crd_list K (answered w)) name") (auto simp: create_obj_def ocall_eq Let_def)

lemma create_obj_cases:
  obtains "snd (create_obj K uid name x w) = answered w"
  | u where "bt_lookup (crd_list K (answered w)) name = None"
      "snd (create_obj K uid name x w) = crd_put K (bt_insert name
         (map_meta K (\<lambda>d. d\<lparr>md_uid := Some u\<rparr>) x) (crd_list K (answered w)))
         (answered w\<lparr>ow_uids := Suc (ow_uids (answered w))\<rparr>)"
  using create_obj_snd [of K uid name x w] by blast

lemma or_requeue_snd [simp]: "snd (or_requeue fallback d m w) = snd (m w)"
  by (auto simp: or_requeue_def split: prod.split sum.split ops_error.split)

lemma attempt_else_keeps:
  assumes "I (snd (m w))" and "\<And>w'. I w' \<Longrightarrow> I (snd (failed w'))"
    and "\<And>x w'. m w = (Inr x, w') \<Longrightarrow> I w' \<Longrightarrow> I (snd (next x w'))"
  shows "I (snd (attempt_else failed next m w))"
  using assms by (auto simp: attempt_else_def split: prod.split sum.split ops_error.split)

lemma kmap_keeps:
  assumes "I w" and "\<And>x w. x \<in> set xs \<Longrightarrow> I w \<Longrightarrow> I (snd (f x w))"
  shows "I (snd (kmap f xs w))"
  using assms
proof (induction xs arbitrary: w)
  case (Cons x xs)
  show ?case
    by (auto intro!: kbind_keeps [of I] Cons)
qed simp

lemma from_sum_snd [simp]: "snd (from_sum r w) = w"
  by (simp add: from_sum_def kfail_def split: sum.split)

lemma from_sum_Inr: "from_sum r w = (Inr x, w') \<Longrightarrow> w' = w \<and> r = Inr x"
  by (auto simp: from_sum_def kfail_def split: sum.splits)

lemma kfail_snd [simp]: "snd (kfail e w) = w"
  by (simp add: kfail_def)

section \<open>Kinds of objects\<close>

definition gone :: "meta \<Rightarrow> bool" where
  "gone d \<longleftrightarrow> md_deleting d \<and> md_finalizers d = []"

locale object_kind =
  fixes K :: "('f ops_world, 'o) crd"
  assumes list_put [simp]: "crd_list K (crd_put K m w) = m"
    and list_answered [simp]: "crd_list K (answered w) = crd_list K w"
    and list_uids [simp]: "crd_list K (w\<lparr>ow_uids := u\<rparr>) = crd_list K w"
    and meta_set [simp]: "crd_meta K (crd_set_meta K d x) = d"
begin

lemma lookup_settle:
  assumes "bt_wf (crd_list K w)"
  shows "bt_lookup (crd_list K (settle K name x w)) name' =
    (if name' = name then if gone (crd_meta K x) then None else Some x else bt_lookup (crd_list K w) name')"
  using assms by (simp add: settle_def gone_def bt_lookup_insert bt_lookup_remove)

lemma wf_settle: "bt_wf (crd_list K w) \<Longrightarrow> bt_wf (crd_list K (settle K name x w))"
  by (simp add: settle_def)

lemma wf_patch: "bt_wf (crd_list K w) \<Longrightarrow> bt_wf (crd_list K (snd (patch_obj K name f w)))"
  by (cases rule: patch_obj_cases [of K name f w]) (simp_all add: wf_settle)

lemma wf_create: "bt_wf (crd_list K w) \<Longrightarrow> bt_wf (crd_list K (snd (create_obj K uid name x w)))"
  by (cases rule: create_obj_cases [of K uid name x w]) simp_all

text \<open>An object is created as it would be patched in.\<close>

lemma create_settles:
  assumes "\<not> md_deleting (crd_meta K x)"
  obtains "snd (create_obj K uid name x w) = answered w"
  | u where "bt_lookup (crd_list K w) name = None"
      "snd (create_obj K uid name x w) = settle K name (map_meta K (\<lambda>d. d\<lparr>md_uid := Some u\<rparr>) x)
         (answered w\<lparr>ow_uids := Suc (ow_uids w)\<rparr>)"
  using assms by (cases rule: create_obj_cases [of K uid name x w]) (auto simp: settle_def map_meta_def)

text \<open>A patch that leaves a finalizer leaves the object.\<close>

lemma lookup_patch:
  assumes "bt_wf (crd_list K w)"
    and "bt_lookup (crd_list K (snd (patch_obj K name f w))) name' = r"
  obtains "r = bt_lookup (crd_list K w) name'"
  | x where "name' = name" "bt_lookup (crd_list K w) name = Some x"
      "r = (if gone (crd_meta K (f x)) then None else Some (f x))"
  using assms by (cases rule: patch_obj_cases [of K name f w]) (auto simp: lookup_settle split: if_splits)

lemma lookup_create:
  assumes "bt_lookup (crd_list K (snd (create_obj K uid name x w))) name' = r"
  obtains "r = bt_lookup (crd_list K w) name'"
  | u where "name' = name" "bt_lookup (crd_list K w) name = None"
      "r = Some (map_meta K (\<lambda>d. d\<lparr>md_uid := Some u\<rparr>) x)"
  using assms by (cases rule: create_obj_cases [of K uid name x w]) (auto simp: bt_lookup_insert split: if_splits)

end

interpretation models: object_kind model_crds
  by unfold_locales (simp_all add: model_crds_def)

interpretation storages: object_kind storage_crds
  by unfold_locales (simp_all add: storage_crds_def)

interpretation bindings: object_kind binding_crds
  by unfold_locales (simp_all add: binding_crds_def)

interpretation claims: object_kind claim_crds
  by unfold_locales (simp_all add: claim_crds_def)

lemma crd_simps [simp]:
  "crd_list model_crds = ow_models" "crd_put model_crds m w = w\<lparr>ow_models := m\<rparr>"
  "crd_meta model_crds = mo_meta" "crd_set_meta model_crds d mo = mo\<lparr>mo_meta := d\<rparr>"
  "crd_list storage_crds = ow_storages" "crd_put storage_crds s w = w\<lparr>ow_storages := s\<rparr>"
  "crd_meta storage_crds = so_meta" "crd_set_meta storage_crds d so = so\<lparr>so_meta := d\<rparr>"
  "crd_list binding_crds = ow_bindings" "crd_put binding_crds b w = w\<lparr>ow_bindings := b\<rparr>"
  "crd_meta binding_crds = bo_meta" "crd_set_meta binding_crds d bo = bo\<lparr>bo_meta := d\<rparr>"
  "crd_list claim_crds = ow_claims" "crd_put claim_crds c w = w\<lparr>ow_claims := c\<rparr>"
  "crd_meta claim_crds = co_meta" "crd_set_meta claim_crds d co = co\<lparr>co_meta := d\<rparr>"
  by (simp_all add: model_crds_def storage_crds_def binding_crds_def claim_crds_def)

section \<open>What a handler leaves alone\<close>

definition okeeps :: "('f ops_world \<Rightarrow> bool) \<Rightarrow> ('f, 'a) ops \<Rightarrow> bool" where
  "okeeps I m \<longleftrightarrow> (\<forall>w. I w \<longrightarrow> I (snd (m w)))"

lemma okeepsI: "(\<And>w. I w \<Longrightarrow> I (snd (m w))) \<Longrightarrow> okeeps I m"
  by (simp add: okeeps_def)

lemma okeepsD: "okeeps I m \<Longrightarrow> I w \<Longrightarrow> I (snd (m w))"
  by (simp add: okeeps_def)

lemma okeeps_pure [ops_keeps]: "okeeps I (kret x)" "okeeps I (kfail e)" "okeeps I (from_sum r)" "okeeps I (Pair e')"
  by (simp_all add: okeeps_def)

lemma okeeps_kbind [ops_keeps]: "okeeps I m \<Longrightarrow> (\<And>x. okeeps I (f x)) \<Longrightarrow> okeeps I (kbind m f)"
  by (auto simp: okeeps_def intro: kbind_keeps [of I])

lemma okeeps_kmap [ops_keeps]: "(\<And>x. okeeps I (f x)) \<Longrightarrow> okeeps I (kmap f xs)"
  by (auto simp: okeeps_def intro: kmap_keeps [of I])

lemma okeeps_attempt [ops_keeps]:
  "okeeps I m \<Longrightarrow> okeeps I failed \<Longrightarrow> (\<And>x. okeeps I (next x)) \<Longrightarrow> okeeps I (attempt_else failed next m)"
  unfolding okeeps_def by (intro allI impI attempt_else_keeps [of I]) blast+

lemma okeeps_or_requeue [ops_keeps]: "okeeps I m \<Longrightarrow> okeeps I (or_requeue fallback d m)"
  by (simp add: okeeps_def)

lemma okeeps_oread [ops_keeps]: "(\<And>w. I w \<Longrightarrow> I (answered w)) \<Longrightarrow> okeeps I (oread f)"
  by (simp add: okeeps_def)

lemma okeeps_request [ops_keeps]:
  "(\<And>w. I w \<Longrightarrow> I (answered w)) \<Longrightarrow> (\<And>w. I w \<Longrightarrow> I (w\<lparr>ow_calls := ow_calls w @ [c]\<rparr>)) \<Longrightarrow> okeeps I (storage_request c)"
  by (simp add: okeeps_def)

lemma okeeps_owners [ops_keeps]:
  assumes "\<And>w. I w \<Longrightarrow> I (answered w)" and "\<And>w ps. I w \<Longrightarrow> I (w\<lparr>ow_owner_patches := ps\<rparr>)"
  shows "okeeps I (patch_owners name refs)"
proof (rule okeepsI)
  fix w assume "I w"
  then show "I (snd (patch_owners name refs w))"
    using assms by (cases rule: patch_owners_cases [of name refs w]) simp
qed

lemma okeeps_patch:
  assumes "\<And>w. I w \<Longrightarrow> I (answered w)"
    and "\<And>w x. I w \<Longrightarrow> bt_lookup (crd_list K w) name = Some x \<Longrightarrow> I (settle K name (f x) w)"
  shows "okeeps I (patch_obj K name f)"
proof (rule okeepsI)
  fix w assume "I w"
  then show "I (snd (patch_obj K name f w))"
    using assms by (cases rule: patch_obj_cases [of K name f w]) simp_all
qed

lemma okeeps_patch_frame [ops_keeps]:
  "(\<And>w. I w \<Longrightarrow> I (answered w)) \<Longrightarrow> (\<And>w m. I w \<Longrightarrow> I (crd_put K m w)) \<Longrightarrow> okeeps I (patch_obj K name f)"
  by (rule okeeps_patch) (simp_all add: settle_def)

lemma okeeps_create_frame [ops_keeps]:
  assumes "\<And>w. I w \<Longrightarrow> I (answered w)" and "\<And>w m. I w \<Longrightarrow> I (crd_put K m w)"
    and "\<And>w u. I w \<Longrightarrow> I (w\<lparr>ow_uids := u\<rparr>)"
  shows "okeeps I (create_obj K uid name x)"
proof (rule okeepsI)
  fix w assume "I w"
  then show "I (snd (create_obj K uid name x w))"
    using assms by (cases rule: create_obj_cases [of K uid name x w]) simp_all
qed

lemmas ctl_defs = delete_obj_def delete_foreground_def add_finalizer_def remove_finalizer_def
  add_finalizer_or_requeue_def remove_finalizer_or_requeue_def

lemma reconcile_model_keeps:
  assumes "\<And>w. I w \<Longrightarrow> I (answered w)" and "\<And>w m. I w \<Longrightarrow> I (w\<lparr>ow_models := m\<rparr>)"
  shows "okeeps I (reconcile_model E n m)"
  unfolding reconcile_model_def update_model_or_requeue_def update_model_fields_def validate_model_call_def
    delete_model_call_def ctl_defs Let_def
  by (auto intro!: ops_keeps simp: assms split: model_state.split)

lemma reconcile_storage_keeps:
  assumes "\<And>w. I w \<Longrightarrow> I (answered w)" and "\<And>w m. I w \<Longrightarrow> I (w\<lparr>ow_storages := m\<rparr>)"
    and "\<And>w c. I w \<Longrightarrow> I (w\<lparr>ow_calls := c\<rparr>)"
  shows "okeeps I (reconcile_storage E n s)"
  unfolding reconcile_storage_def update_storage_or_requeue_def update_storage_state_def validate_model_storage_def
    validate_model_storage_conflict_def load_model_storages_by_def delete_storage_def connect_def
    load_model_storage_bindings_by_storage_def ctl_defs Let_def
  by (auto intro!: ops_keeps simp: assms split: storage_state.split storage_kind.split)

lemmas load_context_defs = load_context_def load_model_def try_load_model_def load_model_storage_def
lemmas bind_defs = bind_model_def connect_def validate_binding_with_def validate_model_storage_binding_def
lemmas unbind_defs = unbind_model_def delete_binding_with_def delete_binding_def

lemma load_context_keeps:
  assumes "\<And>w. I w \<Longrightarrow> I (answered w)"
  shows "okeeps I (load_context spec)"
  unfolding load_context_defs by (auto intro!: ops_keeps simp: assms split: option.split prod.split)

lemma binding_calls_keep:
  assumes "\<And>w. I w \<Longrightarrow> I (answered w)" and "\<And>w c. I w \<Longrightarrow> I (w\<lparr>ow_calls := c\<rparr>)"
  shows "okeeps I (validate_binding_with E ctx n b)" "okeeps I (delete_binding_with ctx spec)"
  unfolding bind_defs unbind_defs Let_def
  by (auto intro!: ops_keeps simp: assms split: storage_kind.split option.split binding_deletion.split)

lemma update_binding_keeps:
  assumes "\<And>w. I w \<Longrightarrow> I (answered w)" and "\<And>w c. I w \<Longrightarrow> I (w\<lparr>ow_calls := c\<rparr>)"
  shows "okeeps I (update_binding E n b t)"
  unfolding update_binding_def
  by (auto intro!: ops_keeps load_context_keeps binding_calls_keep simp: assms)

lemma reconcile_storage_binding_keeps:
  assumes "\<And>w. I w \<Longrightarrow> I (answered w)" and "\<And>w m. I w \<Longrightarrow> I (w\<lparr>ow_bindings := m\<rparr>)"
    and "\<And>w c. I w \<Longrightarrow> I (w\<lparr>ow_calls := c\<rparr>)" and "\<And>w p. I w \<Longrightarrow> I (w\<lparr>ow_owner_patches := p\<rparr>)"
  shows "okeeps I (reconcile_storage_binding E n b)"
  unfolding reconcile_storage_binding_def update_binding_or_requeue_def update_binding_state_def
    validate_model_storage_binding_def delete_binding_def ctl_defs Let_def
  by (auto intro!: ops_keeps load_context_keeps binding_calls_keep update_binding_keeps simp: assms
      split: binding_state.split option.split)

lemma optimizer_keeps:
  assumes "\<And>w. I w \<Longrightarrow> I (answered w)"
    and "\<And>n x. bo_status x = None \<Longrightarrow> \<not> md_deleting (bo_meta x) \<Longrightarrow> okeeps I (create_obj binding_crds (oe_uid E) n x)"
  shows "okeeps I (optimize_model_storage_binding E fm policy model storage resources deletion)"
  unfolding optimize_model_storage_binding_def load_model_storages_by_def measure_storage_def get_capacity_def
    get_traffic_def create_model_storage_binding_def Let_def
  by (auto intro!: ops_keeps assms(2) simp: assms(1) split: claim_binding.split option.split storage_kind.split)

lemma validate_model_claim_keeps:
  assumes "\<And>w. I w \<Longrightarrow> I (answered w)"
    and "\<And>n. okeeps I (create_obj model_crds (oe_uid E) n (dynamic_model fm n))"
    and "\<And>n x. bo_status x = None \<Longrightarrow> \<not> md_deleting (bo_meta x) \<Longrightarrow> okeeps I (create_obj binding_crds (oe_uid E) n x)"
  shows "okeeps I (validate_model_claim E fm n spec)"
  unfolding validate_model_claim_def load_model_or_create_as_dynamic_def try_load_model_def
    load_model_storage_bindings_def Let_def
  by (auto intro!: ops_keeps optimizer_keeps assms(2,3) simp: assms(1) split: option.split)

lemma unbind_model_keeps:
  assumes "\<And>w. I w \<Longrightarrow> I (answered w)" and "\<And>n. okeeps I (delete_obj binding_crds n)"
  shows "okeeps I (delete_model_storage_binding_by_model model)"
  unfolding delete_model_storage_binding_by_model_def by (auto intro!: ops_keeps assms(2) simp: assms(1))

lemma reconcile_claim_keeps:
  assumes "\<And>w. I w \<Longrightarrow> I (answered w)"
    and "\<And>w m. I w \<Longrightarrow> I (w\<lparr>ow_claims := m\<rparr>)" and "\<And>w p. I w \<Longrightarrow> I (w\<lparr>ow_owner_patches := p\<rparr>)"
    and "\<And>n. okeeps I (create_obj model_crds (oe_uid E) n (dynamic_model operator_name n))"
    and "\<And>n x. bo_status x = None \<Longrightarrow> \<not> md_deleting (bo_meta x) \<Longrightarrow> okeeps I (create_obj binding_crds (oe_uid E) n x)"
    and "\<And>n. okeeps I (delete_obj binding_crds n)" and "\<And>n. okeeps I (delete_foreground model_crds n)"
  shows "okeeps I (reconcile_claim E n c)"
proof -
  have fields: "okeeps I (update_claim_or_requeue E n u)" for u
    unfolding update_claim_or_requeue_def update_claim_fields_def
    by (auto intro!: ops_keeps simp: assms(1-3) split: option.split)
  have update: "okeeps I (update_claim E operator_name n spec t)" for spec t
    unfolding update_claim_def replace_claim_def
    by (auto intro!: ops_keeps validate_model_claim_keeps unbind_model_keeps assms(4-6) simp: assms(1))
  have delete: "okeeps I (delete_claim n spec)" for spec
    unfolding delete_claim_def delete_model_by_name_def try_load_model_def
    by (auto intro!: ops_keeps unbind_model_keeps assms(6,7) simp: assms(1) split: claim_deletion.split option.split)
  show ?thesis
    unfolding reconcile_claim_def Let_def validate_model_claim_replacement_def add_finalizer_or_requeue_def
      remove_finalizer_or_requeue_def add_finalizer_def remove_finalizer_def
    by (auto intro!: ops_keeps fields update delete validate_model_claim_keeps assms(4,5) simp: assms(1-3)
        split: claim_state.split option.split)
qed

lemma on_object_keeps: "(\<And>x. okeeps I (f x)) \<Longrightarrow> I w \<Longrightarrow> I (on_object K n f w)"
  by (auto simp: on_object_def okeeps_def split: option.split)

end
