(* ===== verification/Ops_Correct.thy ===== *)
theory Ops_Correct imports Ops_Effect begin

text \<open>
  What holds of storages, models and bindings at any time: storages that must be alone are alone, a binding that is
  ready rests on objects that stay, and stores are only asked for what a binding allows.
\<close>

section \<open>Storages that must be alone\<close>

text \<open>One storage of a kind that must be alone, whatever happens to it later.\<close>

definition storage_kind_of :: "storage_obj \<Rightarrow> storage_kind option" where
  "storage_kind_of s = opt_bind (so_status s) ss_kind"

definition unique_kinds :: "'f ops_world \<Rightarrow> bool" where
  "unique_kinds w \<longleftrightarrow> bt_wf (ow_storages w)
     \<and> (\<forall>n s t. bt_lookup (ow_storages w) n = Some s \<longrightarrow> so_status s = Some t \<longrightarrow> ss_state t \<noteq> StPending)
     \<and> (\<forall>n s n' s' k k'. bt_lookup (ow_storages w) n = Some s \<longrightarrow> bt_lookup (ow_storages w) n' = Some s'
         \<longrightarrow> storage_kind_of s = Some k \<longrightarrow> storage_kind_of s' = Some k' \<longrightarrow> is_unique k \<longrightarrow> is_unique k'
         \<longrightarrow> to_tag k = to_tag k' \<longrightarrow> n = n')"

lemma unique_kinds_cong [simp]:
  "unique_kinds (answered w) = unique_kinds w" "unique_kinds (w\<lparr>ow_models := a\<rparr>) = unique_kinds w"
  "unique_kinds (w\<lparr>ow_bindings := b\<rparr>) = unique_kinds w" "unique_kinds (w\<lparr>ow_claims := c\<rparr>) = unique_kinds w"
  "unique_kinds (w\<lparr>ow_calls := d\<rparr>) = unique_kinds w" "unique_kinds (w\<lparr>ow_owner_patches := p\<rparr>) = unique_kinds w"
  "unique_kinds (w\<lparr>ow_uids := u\<rparr>) = unique_kinds w" "unique_kinds (w\<lparr>ow_faults := fs\<rparr>) = unique_kinds w"
  by (simp_all add: unique_kinds_def)

text \<open>A change of one storage keeps the kinds apart when its own kind stays, goes, or meets no other.\<close>

lemma unique_kinds_change:
  assumes "unique_kinds w" and "bt_wf S"
    and "\<And>n'. bt_lookup S n' = (if n' = n then r else bt_lookup (ow_storages w) n')"
    and "\<And>s t. r = Some s \<Longrightarrow> so_status s = Some t \<Longrightarrow> ss_state t \<noteq> StPending"
    and "\<And>s k. r = Some s \<Longrightarrow> storage_kind_of s = Some k \<Longrightarrow> is_unique k
      \<Longrightarrow> (\<exists>x. bt_lookup (ow_storages w) n = Some x \<and> storage_kind_of x = Some k)
        \<or> (\<forall>n' s' k'. bt_lookup (ow_storages w) n' = Some s' \<longrightarrow> storage_kind_of s' = Some k' \<longrightarrow> is_unique k'
             \<longrightarrow> to_tag k \<noteq> to_tag k')"
  shows "unique_kinds (w\<lparr>ow_storages := S\<rparr>)"
proof -
  have other: False
    if "r = Some s" "n' \<noteq> n" "bt_lookup (ow_storages w) n' = Some s'" "storage_kind_of s = Some k"
      "storage_kind_of s' = Some k'" "is_unique k" "is_unique k'" "to_tag k = to_tag k'" for s n' s' k k'
    using assms(5) [OF that(1,4,6)] assms(1) that unfolding unique_kinds_def by metis
  have "n1 = n2"
    if "bt_lookup S n1 = Some s1" "bt_lookup S n2 = Some s2" "storage_kind_of s1 = Some k1" "storage_kind_of s2 = Some k2"
      "is_unique k1" "is_unique k2" "to_tag k1 = to_tag k2" for n1 s1 n2 s2 k1 k2
  proof (cases "n1 = n \<or> n2 = n")
    case True
    then show ?thesis
      using that other [of s1 n2 s2 k1 k2] other [of s2 n1 s1 k2 k1] unfolding assms(3) by (auto split: if_splits)
  next
    case False
    then show ?thesis
      using that assms(1) unfolding unique_kinds_def assms(3) by metis
  qed
  moreover have "ss_state t \<noteq> StPending" if "bt_lookup S n1 = Some s" "so_status s = Some t" for n1 s t
    using that assms(1,4) unfolding unique_kinds_def assms(3) by (metis option.inject)
  ultimately show ?thesis
    using assms(2) unfolding unique_kinds_def by (simp; metis)
qed

lemma unique_kinds_settle:
  assumes "unique_kinds w"
    and "\<And>t. so_status s = Some t \<Longrightarrow> ss_state t \<noteq> StPending"
    and "\<And>k. storage_kind_of s = Some k \<Longrightarrow> is_unique k
      \<Longrightarrow> (\<exists>x. bt_lookup (ow_storages w) n = Some x \<and> storage_kind_of x = Some k)
        \<or> (\<forall>n' s' k'. bt_lookup (ow_storages w) n' = Some s' \<longrightarrow> storage_kind_of s' = Some k' \<longrightarrow> is_unique k'
             \<longrightarrow> to_tag k \<noteq> to_tag k')"
  shows "unique_kinds (settle storage_crds n s w)"
proof -
  have wf: "bt_wf (ow_storages w)"
    using assms(1) by (simp add: unique_kinds_def)
  let ?S = "ow_storages (settle storage_crds n s w)"
  have "unique_kinds (w\<lparr>ow_storages := ?S\<rparr>)"
  proof (rule unique_kinds_change [OF assms(1)])
    show "bt_wf ?S"
      using storages.wf_settle [of w n s] wf by simp
    show "bt_lookup ?S n' = (if n' = n then if gone (so_meta s) then None else Some s
        else bt_lookup (ow_storages w) n')" for n'
      using storages.lookup_settle [of w n s n'] wf by simp
  qed (use assms(2,3) in \<open>auto split: if_splits\<close>)
  moreover have "w\<lparr>ow_storages := ?S\<rparr> = settle storage_crds n s w"
    by (simp add: settle_def)
  ultimately show ?thesis
    by (simp only:)
qed

lemma unique_kinds_patch:
  assumes "unique_kinds w"
    and "\<And>x t. bt_lookup (ow_storages w) n = Some x \<Longrightarrow> so_status (f x) = Some t \<Longrightarrow> ss_state t \<noteq> StPending"
    and "\<And>x k. bt_lookup (ow_storages w) n = Some x \<Longrightarrow> storage_kind_of (f x) = Some k \<Longrightarrow> is_unique k
      \<Longrightarrow> storage_kind_of x = Some k
        \<or> (\<forall>n' s' k'. bt_lookup (ow_storages w) n' = Some s' \<longrightarrow> storage_kind_of s' = Some k' \<longrightarrow> is_unique k'
             \<longrightarrow> to_tag k \<noteq> to_tag k')"
  shows "unique_kinds (snd (patch_obj storage_crds n f w))"
proof (cases rule: patch_obj_cases [of storage_crds n f w])
  case 1
  then show ?thesis
    using assms(1) by simp
next
  case (2 x)
  have x: "bt_lookup (ow_storages w) n = Some x"
    using 2(1) by simp
  show ?thesis
    unfolding 2(2)
  proof (rule unique_kinds_settle)
    fix k assume "storage_kind_of (f x) = Some k" "is_unique k"
    from assms(3) [OF x this] x
    show "(\<exists>x. bt_lookup (ow_storages (answered w)) n = Some x \<and> storage_kind_of x = Some k)
        \<or> (\<forall>n' s' k'. bt_lookup (ow_storages (answered w)) n' = Some s' \<longrightarrow> storage_kind_of s' = Some k'
             \<longrightarrow> is_unique k' \<longrightarrow> to_tag k \<noteq> to_tag k')"
      by simp
  qed (use assms(1) assms(2) [OF x] in simp_all)
qed

text \<open>A patch of the metadata.\<close>

lemma unique_kinds_meta: "unique_kinds w \<Longrightarrow> unique_kinds (snd (patch_obj storage_crds n (map_meta storage_crds d) w))"
  by (rule unique_kinds_patch) (auto simp: map_meta_def unique_kinds_def storage_kind_of_def)

lemma storage_validated:
  assumes "validate_model_storage E n spec w = (Inr q, w')"
  shows "ow_storages w' = ow_storages w"
    and "is_unique (sp_kind spec) \<Longrightarrow> bt_lookup (ow_storages w) n' = Some s' \<Longrightarrow> storage_kind_of s' = Some k'
      \<Longrightarrow> is_unique k' \<Longrightarrow> to_tag (sp_kind spec) \<noteq> to_tag k'"
proof -
  let ?I = "\<lambda>v. ow_storages v = ow_storages w"
  have "okeeps ?I (validate_model_storage E n spec)"
    unfolding validate_model_storage_def validate_model_storage_conflict_def load_model_storages_by_def connect_def
    by (auto intro!: ops_keeps split: storage_kind.split)
  from okeepsD [OF this, of w] show "ow_storages w' = ow_storages w"
    using assms by simp
  assume k: "is_unique (sp_kind spec)" "bt_lookup (ow_storages w) n' = Some s'" "storage_kind_of s' = Some k'"
    "is_unique k'"
  have "storages_by (\<lambda>k. is_unique k \<and> to_tag (sp_kind spec) = to_tag k) w = []"
    using assms k(1) unfolding validate_model_storage_def validate_model_storage_conflict_def load_model_storages_by_def
    by (auto simp: kbind_Inr kfail_def storages_by_def split: if_splits dest!: oread_Inr)
  moreover have "(n', s') \<in> set (ow_storages w)"
    using k(2) by (simp add: bt_lookup_def map_of_SomeD)
  ultimately show "to_tag (sp_kind spec) \<noteq> to_tag k'"
    using k(3,4) by (fastforce simp: storages_by_def filter_empty_conv storage_kind_of_def)
qed

lemma reconcile_storage_unique:
  assumes "lawful_env E" and "unique_kinds w" and "bt_lookup (ow_storages w) n = Some s"
  shows "unique_kinds (snd (reconcile_storage E n s w))"
proof -
  have mark: "unique_kinds (snd (update_storage_or_requeue E n (opt_bind (so_status s) ss_kind) StDeleting None w))"
    unfolding update_storage_or_requeue_def or_requeue_snd update_storage_state_def
    using assms by (intro unique_kinds_patch)
      (auto simp: lawful_env_def storage_kind_of_def opt_bind_def split: option.splits)
  have ready: "unique_kinds (snd (update_storage_or_requeue E n (Some (sp_kind (so_spec s))) StReady q w'))"
    if "unique_kinds w'" "validate_model_storage E n (so_spec s) w = (Inr q, w')" "so_status s = None" for q w'
    unfolding update_storage_or_requeue_def or_requeue_snd update_storage_state_def
    using assms storage_validated [OF that(2)] that(1,3) by (intro unique_kinds_patch)
      (auto simp: lawful_env_def storage_kind_of_def opt_bind_def)
  have pending: "so_status s = None" if "(case so_status s of None \<Rightarrow> StPending | Some t \<Rightarrow> ss_state t) = StPending"
    using that assms(2,3) by (auto simp: unique_kinds_def split: option.splits)
  have valid: "unique_kinds (snd (validate_model_storage E n (so_spec s) w))"
    unfolding validate_model_storage_def validate_model_storage_conflict_def load_model_storages_by_def connect_def
    by (rule okeepsD [of unique_kinds, OF _ assms(2)], auto intro!: ops_keeps split: storage_kind.split)
  have deleted: "unique_kinds (snd (delete_storage n w))"
    unfolding delete_storage_def load_model_storage_bindings_by_storage_def
    by (rule okeepsD [of unique_kinds, OF _ assms(2)], auto intro!: ops_keeps)
  show ?thesis
    unfolding reconcile_storage_def Let_def
    using mark valid deleted ready pending assms(2)
    by (auto intro!: attempt_else_keeps [of unique_kinds] simp: unique_kinds_meta ctl_defs split: storage_state.split)
qed

lemma ops_step_unique:
  assumes "lawful_env E" and "unique_kinds w"
  shows "unique_kinds (ops_step E ev w)"
proof -
  have new: "unique_kinds (snd (create_obj storage_crds u n \<lparr>so_meta = d, so_spec = s, so_status = None\<rparr> w))" for u n d s
  proof (cases rule: create_obj_cases [of storage_crds u n "\<lparr>so_meta = d, so_spec = s, so_status = None\<rparr>" w])
    case (2 v)
    let ?x = "\<lparr>so_meta = d\<lparr>md_uid := Some v\<rparr>, so_spec = s, so_status = None\<rparr>"
    have "unique_kinds (w\<lparr>ow_storages := bt_insert n ?x (ow_storages w)\<rparr>)"
      using assms(2) by (intro unique_kinds_change [where n = n and r = "Some ?x"])
        (auto simp: bt_lookup_insert storage_kind_of_def opt_bind_def unique_kinds_def)
    then show ?thesis
      unfolding 2(2) by (simp add: unique_kinds_def map_meta_def)
  qed (simp add: assms(2))
  have stores: "unique_kinds (on_object storage_crds n (reconcile_storage E n) w)" for n
    using reconcile_storage_unique [OF assms] assms(2) by (auto simp: on_object_def split: option.split)
  note keeps = on_object_keeps [of unique_kinds, OF _ assms(2)] okeepsD [of unique_kinds, OF _ assms(2)]
  show ?thesis
    by (cases ev)
      (auto simp: ops_step_def new stores assms(2) delete_obj_def unique_kinds_meta delete_foreground_def
        intro!: keeps reconcile_model_keeps reconcile_storage_binding_keeps reconcile_claim_keeps ops_keeps)
qed

section \<open>Objects that a binding rests on\<close>

definition guarded :: "('w, 'o) crd \<Rightarrow> string \<Rightarrow> 'w \<Rightarrow> string \<Rightarrow> bool" where
  "guarded K finalizer w n \<longleftrightarrow>
     (case bt_lookup (crd_list K w) n of None \<Rightarrow> False | Some x \<Rightarrow> finalizer \<in> set (md_finalizers (crd_meta K x)))"

context object_kind begin

lemma guarded_settle:
  assumes "bt_wf (crd_list K w)" and "guarded K finalizer w n'"
    and "n' = n \<Longrightarrow> finalizer \<in> set (md_finalizers (crd_meta K y))"
  shows "guarded K finalizer (settle K n y w) n'"
  using assms by (auto simp: guarded_def lookup_settle gone_def split: if_splits)

end

definition storages_of :: "binding_storage \<Rightarrow> string list" where
  "storages_of s = bs_target s # (case bs_source s of None \<Rightarrow> [] | Some (n, _) \<Rightarrow> [n])"

definition supported :: "'f ops_world \<Rightarrow> binding_spec \<Rightarrow> bool" where
  "supported w spec \<longleftrightarrow> guarded model_crds model_finalizer w (bi_model spec)
     \<and> list_all (guarded storage_crds storage_finalizer w) (storages_of (bi_storage spec))"

definition model_sound :: "'f model_obj \<Rightarrow> bool" where
  "model_sound m \<longleftrightarrow> (case mo_status m of None \<Rightarrow> True
     | Some t \<Rightarrow> ms_state t = MReady \<longrightarrow> model_finalizer \<in> set (md_finalizers (mo_meta m)))"

definition storage_sound :: "storage_obj \<Rightarrow> bool" where
  "storage_sound s \<longleftrightarrow> (case so_status s of None \<Rightarrow> True
     | Some t \<Rightarrow> ss_state t = StReady \<longrightarrow> storage_finalizer \<in> set (md_finalizers (so_meta s)))"

definition well_backed :: "'f ops_world \<Rightarrow> bool" where
  "well_backed w \<longleftrightarrow> bt_wf (ow_models w) \<and> bt_wf (ow_storages w) \<and> bt_wf (ow_bindings w)
     \<and> (\<forall>n m. bt_lookup (ow_models w) n = Some m \<longrightarrow> model_sound m)
     \<and> (\<forall>n s. bt_lookup (ow_storages w) n = Some s \<longrightarrow> storage_sound s)
     \<and> (\<forall>n b. bt_lookup (ow_bindings w) n = Some b \<longrightarrow> binding_is_ready b \<longrightarrow> supported w (bo_spec b))"

definition rests_on :: "(binding_spec \<Rightarrow> bool) \<Rightarrow> 'f ops_world \<Rightarrow> bool" where
  "rests_on P w \<longleftrightarrow> (\<exists>n b. bt_lookup (ow_bindings w) n = Some b \<and> binding_is_ready b \<and> P (bo_spec b))"

lemma guarded_cong:
  "ow_models w' = ow_models w \<Longrightarrow> guarded model_crds f w' = guarded model_crds f w"
  "ow_storages w' = ow_storages w \<Longrightarrow> guarded storage_crds f w' = guarded storage_crds f w"
  by (simp_all add: guarded_def fun_eq_iff)

lemma supported_cong:
  "ow_models w' = ow_models w \<Longrightarrow> ow_storages w' = ow_storages w \<Longrightarrow> supported w' spec = supported w spec"
  by (simp add: supported_def guarded_cong [of w' w])

lemma backed_cong:
  "ow_models w' = ow_models w \<Longrightarrow> ow_storages w' = ow_storages w \<Longrightarrow> ow_bindings w' = ow_bindings w
    \<Longrightarrow> well_backed w' = well_backed w"
  by (simp add: well_backed_def supported_cong [of w' w])

lemma backed_frame [simp]:
  "well_backed (answered w) = well_backed w" "well_backed (w\<lparr>ow_claims := c\<rparr>) = well_backed w" "well_backed (w\<lparr>ow_calls := d\<rparr>) = well_backed w"
  "well_backed (w\<lparr>ow_uids := u\<rparr>) = well_backed w" "well_backed (w\<lparr>ow_owner_patches := p\<rparr>) = well_backed w"
  "well_backed (w\<lparr>ow_faults := fs\<rparr>) = well_backed w"
  by (rule backed_cong; simp)+

lemma supported_guarded:
  assumes "supported w spec"
    and "guarded model_crds model_finalizer w (bi_model spec) \<Longrightarrow> guarded model_crds model_finalizer w' (bi_model spec)"
    and "\<And>n. n \<in> set (storages_of (bi_storage spec)) \<Longrightarrow> guarded storage_crds storage_finalizer w n
      \<Longrightarrow> guarded storage_crds storage_finalizer w' n"
  shows "supported w' spec"
  using assms by (auto simp: supported_def list_all_iff)

text \<open>A model may change as long as it stays sound and keeps its finalizer while a binding rests on it.\<close>

lemma backed_settle_model:
  assumes w: "well_backed w" and "model_sound m"
    and keep: "guarded model_crds model_finalizer w n \<Longrightarrow> rests_on (\<lambda>s. bi_model s = n) w
      \<Longrightarrow> model_finalizer \<in> set (md_finalizers (mo_meta m))"
  shows "well_backed (settle model_crds n m w)"
proof -
  let ?w = "settle model_crds n m w"
  have same: "ow_storages ?w = ow_storages w" "ow_bindings ?w = ow_bindings w"
    by (simp_all add: settle_def)
  have wf: "bt_wf (ow_models w)"
    using w by (simp add: well_backed_def)
  have "supported ?w (bo_spec b)" if b: "bt_lookup (ow_bindings w) k = Some b" "binding_is_ready b" for k b
  proof (rule supported_guarded)
    show s: "supported w (bo_spec b)"
      using w b by (simp add: well_backed_def)
    show "guarded model_crds model_finalizer ?w (bi_model (bo_spec b))"
    proof (rule models.guarded_settle)
      show "guarded model_crds model_finalizer w (bi_model (bo_spec b))"
        using s by (simp add: supported_def)
      then show "model_finalizer \<in> set (md_finalizers (crd_meta model_crds m))" if "bi_model (bo_spec b) = n"
        using keep b that by (auto simp: rests_on_def)
    qed (simp add: wf)
  qed (simp add: guarded_cong(2) [OF same(1)])
  then show ?thesis
    using w assms(2) same models.wf_settle [of w n m] models.lookup_settle [of w n m]
    by (auto simp: well_backed_def wf split: if_splits)
qed

lemma backed_settle_storage:
  assumes w: "well_backed w" and "storage_sound m"
    and keep: "guarded storage_crds storage_finalizer w n \<Longrightarrow> rests_on (\<lambda>s. n \<in> set (storages_of (bi_storage s))) w
      \<Longrightarrow> storage_finalizer \<in> set (md_finalizers (so_meta m))"
  shows "well_backed (settle storage_crds n m w)"
proof -
  let ?w = "settle storage_crds n m w"
  have same: "ow_models ?w = ow_models w" "ow_bindings ?w = ow_bindings w"
    by (simp_all add: settle_def)
  have wf: "bt_wf (ow_storages w)"
    using w by (simp add: well_backed_def)
  have "supported ?w (bo_spec b)" if b: "bt_lookup (ow_bindings w) k = Some b" "binding_is_ready b" for k b
  proof (rule supported_guarded)
    show s: "supported w (bo_spec b)"
      using w b by (simp add: well_backed_def)
    fix n' assume n': "n' \<in> set (storages_of (bi_storage (bo_spec b)))" "guarded storage_crds storage_finalizer w n'"
    show "guarded storage_crds storage_finalizer ?w n'"
    proof (rule storages.guarded_settle)
      show "storage_finalizer \<in> set (md_finalizers (crd_meta storage_crds m))" if "n' = n"
        using keep b that n' by (auto simp: rests_on_def)
    qed (simp_all add: wf n')
  qed (simp add: guarded_cong(1) [OF same(1)])
  then show ?thesis
    using w assms(2) same storages.wf_settle [of w n m] storages.lookup_settle [of w n m]
    by (auto simp: well_backed_def wf split: if_splits)
qed

lemma backed_settle_binding:
  assumes w: "well_backed w" and "binding_is_ready b \<Longrightarrow> supported w (bo_spec b)"
  shows "well_backed (settle binding_crds n b w)"
proof -
  let ?w = "settle binding_crds n b w"
  have same: "ow_models ?w = ow_models w" "ow_storages ?w = ow_storages w"
    by (simp_all add: settle_def)
  have wf: "bt_wf (ow_bindings w)"
    using w by (simp add: well_backed_def)
  show ?thesis
    using w assms(2) same bindings.wf_settle [of w n b] bindings.lookup_settle [of w n b]
    by (auto simp: well_backed_def wf supported_cong [OF same] split: if_splits)
qed

lemma well_backedD:
  assumes "well_backed w"
  shows "bt_lookup (ow_models w) n = Some m \<Longrightarrow> model_sound m"
    and "bt_lookup (ow_storages w) n = Some s \<Longrightarrow> storage_sound s"
    and "bt_lookup (ow_bindings w) n = Some b \<Longrightarrow> binding_is_ready b \<Longrightarrow> supported w (bo_spec b)"
  using assms by (simp_all add: well_backed_def)

lemma backed_patch_model:
  assumes "well_backed w"
    and "\<And>x. bt_lookup (ow_models w) n = Some x \<Longrightarrow> model_sound (f x)"
    and "\<And>x. bt_lookup (ow_models w) n = Some x \<Longrightarrow> model_finalizer \<in> set (md_finalizers (mo_meta x))
      \<Longrightarrow> rests_on (\<lambda>s. bi_model s = n) w \<Longrightarrow> model_finalizer \<in> set (md_finalizers (mo_meta (f x)))"
  shows "well_backed (snd (patch_obj model_crds n f w))"
proof (cases rule: patch_obj_cases [of model_crds n f w])
  case (2 x)
  have x: "bt_lookup (ow_models w) n = Some x"
    using 2(1) by simp
  show ?thesis
    unfolding 2(2) using assms(1) assms(2,3) [OF x] x
    by (intro backed_settle_model) (simp_all add: guarded_def rests_on_def)
qed (simp add: assms(1))

lemma backed_patch_storage:
  assumes "well_backed w"
    and "\<And>x. bt_lookup (ow_storages w) n = Some x \<Longrightarrow> storage_sound (f x)"
    and "\<And>x. bt_lookup (ow_storages w) n = Some x \<Longrightarrow> storage_finalizer \<in> set (md_finalizers (so_meta x))
      \<Longrightarrow> rests_on (\<lambda>s. n \<in> set (storages_of (bi_storage s))) w \<Longrightarrow> storage_finalizer \<in> set (md_finalizers (so_meta (f x)))"
  shows "well_backed (snd (patch_obj storage_crds n f w))"
proof (cases rule: patch_obj_cases [of storage_crds n f w])
  case (2 x)
  have x: "bt_lookup (ow_storages w) n = Some x"
    using 2(1) by simp
  show ?thesis
    unfolding 2(2) using assms(1) assms(2,3) [OF x] x
    by (intro backed_settle_storage) (simp_all add: guarded_def rests_on_def)
qed (simp add: assms(1))

lemma backed_patch_binding:
  assumes "well_backed w"
    and "\<And>x. bt_lookup (ow_bindings w) n = Some x \<Longrightarrow> binding_is_ready (f x) \<Longrightarrow> supported w (bo_spec (f x))"
  shows "well_backed (snd (patch_obj binding_crds n f w))"
proof (cases rule: patch_obj_cases [of binding_crds n f w])
  case (2 x)
  have x: "bt_lookup (ow_bindings w) n = Some x"
    using 2(1) by simp
  show ?thesis
    unfolding 2(2) using assms(1) assms(2) [OF x]
    by (intro backed_settle_binding) (simp_all add: supported_cong [of "answered w" w])
qed (simp add: assms(1))

text \<open>Creating an object without a status breaks nothing.\<close>

lemma backed_create_model:
  assumes "well_backed w" and "mo_status m = None" and "\<not> md_deleting (mo_meta m)"
  shows "well_backed (snd (create_obj model_crds u n m w))"
proof (rule models.create_settles [of m u n w])
  fix v
  assume new: "bt_lookup (crd_list model_crds w) n = None"
    and made: "snd (create_obj model_crds u n m w) = settle model_crds n (map_meta model_crds (\<lambda>d. d\<lparr>md_uid := Some v\<rparr>) m)
      (answered w\<lparr>ow_uids := Suc (ow_uids w)\<rparr>)"
  show ?thesis
    unfolding made using assms new
    by (intro backed_settle_model) (simp_all add: guarded_def model_sound_def map_meta_def)
qed (simp_all add: assms)

lemma backed_create_storage:
  assumes "well_backed w" and "so_status s = None" and "\<not> md_deleting (so_meta s)"
  shows "well_backed (snd (create_obj storage_crds u n s w))"
proof (rule storages.create_settles [of s u n w])
  fix v
  assume new: "bt_lookup (crd_list storage_crds w) n = None"
    and made: "snd (create_obj storage_crds u n s w) = settle storage_crds n (map_meta storage_crds (\<lambda>d. d\<lparr>md_uid := Some v\<rparr>) s)
      (answered w\<lparr>ow_uids := Suc (ow_uids w)\<rparr>)"
  show ?thesis
    unfolding made using assms new
    by (intro backed_settle_storage) (simp_all add: guarded_def storage_sound_def map_meta_def)
qed (simp_all add: assms)

lemma backed_create_binding:
  assumes "well_backed w" and "bo_status b = None" and "\<not> md_deleting (bo_meta b)"
  shows "well_backed (snd (create_obj binding_crds u n b w))"
proof (rule bindings.create_settles [of b u n w])
  fix v
  assume new: "bt_lookup (crd_list binding_crds w) n = None"
    and made: "snd (create_obj binding_crds u n b w) = settle binding_crds n (map_meta binding_crds (\<lambda>d. d\<lparr>md_uid := Some v\<rparr>) b)
      (answered w\<lparr>ow_uids := Suc (ow_uids w)\<rparr>)"
  show ?thesis
    unfolding made using assms new
    by (intro backed_settle_binding) (simp_all add: binding_is_ready_def map_meta_def)
qed (simp_all add: assms)

text \<open>Nor does a change of metadata that removes no finalizer.\<close>

lemma backed_meta:
  assumes "well_backed w"
  shows "(\<And>d. set (md_finalizers d) \<subseteq> set (md_finalizers (g d))) \<Longrightarrow> well_backed (snd (patch_obj model_crds n (map_meta model_crds g) w))"
    and "(\<And>d. set (md_finalizers d) \<subseteq> set (md_finalizers (g d))) \<Longrightarrow> well_backed (snd (patch_obj storage_crds n (map_meta storage_crds g) w))"
    and "well_backed (snd (patch_obj binding_crds n (map_meta binding_crds g) w))"
proof -
  note sound = well_backedD [OF assms]
  show "well_backed (snd (patch_obj model_crds n (map_meta model_crds g) w))"
    if "\<And>d. set (md_finalizers d) \<subseteq> set (md_finalizers (g d))"
    using assms sound(1) that
    by (intro backed_patch_model) (force simp: map_meta_def model_sound_def split: option.splits)+
  show "well_backed (snd (patch_obj storage_crds n (map_meta storage_crds g) w))"
    if "\<And>d. set (md_finalizers d) \<subseteq> set (md_finalizers (g d))"
    using assms sound(2) that
    by (intro backed_patch_storage) (force simp: map_meta_def storage_sound_def split: option.splits)+
  show "well_backed (snd (patch_obj binding_crds n (map_meta binding_crds g) w))"
    using assms sound(3) by (intro backed_patch_binding) (simp_all add: map_meta_def binding_is_ready_def)
qed

lemma backed_add_finalizer:
  assumes "well_backed w"
  shows "well_backed (snd (add_finalizer model_crds model_finalizer n w))"
    and "well_backed (snd (add_finalizer storage_crds storage_finalizer n w))"
    and "well_backed (snd (add_finalizer binding_crds f n w))"
  unfolding add_finalizer_def using assms
  by (auto intro!: backed_patch_model backed_patch_storage backed_meta(3)
    simp: map_meta_def model_sound_def storage_sound_def split: option.split)

lemma model_ready_Inr: "model_ready n m = Inr m' \<Longrightarrow> m' = m \<and> (\<exists>t. mo_status m = Some t \<and> ms_state t = MReady)"
  by (auto simp: model_ready_def split: option.splits if_splits)

lemma try_load_model_Inr:
  assumes "try_load_model n w = (Inr (Some m), w')"
  shows "w' = answered w \<and> bt_lookup (ow_models w) n = Some m \<and> (\<exists>t. mo_status m = Some t \<and> ms_state t = MReady)"
  using oread_Inr [OF assms [unfolded try_load_model_def]]
  by (auto split: option.splits sum.splits dest: model_ready_Inr)

lemma load_model_Inr:
  assumes "load_model n w = (Inr m, w')"
  shows "w' = answered w \<and> bt_lookup (ow_models w) n = Some m \<and> (\<exists>t. mo_status m = Some t \<and> ms_state t = MReady)"
proof -
  obtain r w1 where r: "try_load_model n w = (Inr r, w1)" "(case r of None \<Rightarrow> kfail (OBail n) | Some m \<Rightarrow> kret m) w1 = (Inr m, w')"
    using assms unfolding load_model_def kbind_Inr by blast
  then show ?thesis
    using try_load_model_Inr [of n w m w1] by (cases r) (simp_all add: kfail_def)
qed

lemma load_storage_Inr:
  assumes "load_model_storage n w = (Inr s, w')"
  shows "w' = answered w \<and> bt_lookup (ow_storages w) n = Some s \<and> (\<exists>t. so_status s = Some t \<and> ss_state t = StReady)"
  using assms unfolding load_model_storage_def
  by (auto split: option.splits if_splits dest!: oread_Inr)

lemma model_guarded: "load_model n w = (Inr m, w') \<Longrightarrow> well_backed w \<Longrightarrow> guarded model_crds model_finalizer w n"
  using load_model_Inr [of n w m w'] well_backedD(1) [of w n m] by (auto simp: guarded_def model_sound_def)

lemma storage_guarded: "load_model_storage n w = (Inr s, w') \<Longrightarrow> well_backed w \<Longrightarrow> guarded storage_crds storage_finalizer w n"
  using load_storage_Inr [of n w s w'] well_backedD(2) [of w n s] by (auto simp: guarded_def storage_sound_def)

lemma load_context_supported:
  assumes "load_context spec w = (Inr ctx, w')" and "well_backed w"
  shows "supported w spec"
proof -
  obtain m w1 source w2 target w3 where m: "load_model (bi_model spec) w = (Inr m, w1)"
    and source: "(case bs_source (bi_storage spec) of None \<Rightarrow> kret None
        | Some (source, _) \<Rightarrow> kbind (load_model_storage source) (\<lambda>s. kret (Some s))) w1 = (Inr source, w2)"
    and target: "load_model_storage (bs_target (bi_storage spec)) w2 = (Inr target, w3)"
    using assms(1) [unfolded load_context_def kbind_Inr] by (elim exE conjE) (rule that)
  have w1: "w1 = answered w"
    using load_model_Inr [OF m] by simp
  have "list_all (guarded storage_crds storage_finalizer w) (storages_of (bi_storage spec))"
  proof (cases "bs_source (bi_storage spec)")
    case None
    then have "w2 = w1"
      using source by simp
    then show ?thesis
      using storage_guarded [OF target] assms(2) None
      by (simp add: storages_of_def w1 guarded_cong(2) [of "answered w" w])
  next
    case (Some p)
    obtain name q where p: "p = (name, q)"
      by (cases p)
    obtain s where s: "load_model_storage name w1 = (Inr s, w2)"
      using source Some p by (auto simp: kbind_Inr)
    have w2: "w2 = answered w1"
      using load_storage_Inr [OF s] by simp
    show ?thesis
      using storage_guarded [OF s] storage_guarded [OF target] assms(2) Some p
      by (simp add: storages_of_def w1 w2 guarded_cong(2) [of "answered w" w] guarded_cong(2) [of "answered (answered w)" w])
  qed
  then show ?thesis
    using model_guarded [OF m assms(2)] by (simp add: supported_def)
qed

text \<open>What the calls before the status of a binding is written leave as it is.\<close>

definition same_objects :: "'f ops_world \<Rightarrow> 'f ops_world \<Rightarrow> bool" where
  "same_objects w w' \<longleftrightarrow> ow_models w' = ow_models w \<and> ow_storages w' = ow_storages w
     \<and> ow_bindings w' = ow_bindings w \<and> ow_claims w' = ow_claims w"

lemma same_objects_keeps:
  "okeeps (same_objects w) (load_context spec)"
  "okeeps (same_objects w) (validate_binding_with E ctx n b)"
  "okeeps (same_objects w) (delete_binding_with ctx spec)"
  "okeeps (same_objects w) (update_binding E n b t)"
  by (auto intro!: load_context_keeps binding_calls_keep update_binding_keeps simp: same_objects_def)

lemma same_objects_by: "okeeps (same_objects w) m \<Longrightarrow> m w = (r, w') \<Longrightarrow> same_objects w w'"
  using okeepsD [of "same_objects w" m w] by (simp add: same_objects_def)

lemma same_objects_backed: "same_objects w w' \<Longrightarrow> well_backed w' = well_backed w"
  by (intro backed_cong) (auto simp: same_objects_def)

lemma binding_validated:
  assumes "validate_model_storage_binding E n b w = (Inr u, w')" and "well_backed w"
  shows "same_objects w w' \<and> supported w (bo_spec b)"
proof -
  have "okeeps (same_objects w) (validate_model_storage_binding E n b)"
    unfolding validate_model_storage_binding_def by (intro ops_keeps same_objects_keeps)
  moreover obtain ctx w1 where "load_context (bo_spec b) w = (Inr ctx, w1)"
    using assms(1) by (auto simp: validate_model_storage_binding_def kbind_Inr)
  ultimately show ?thesis
    using assms same_objects_by load_context_supported by blast
qed

lemma binding_updated:
  assumes "update_binding E n b t w = (Inr u, w')" and "well_backed w"
  shows "same_objects w w' \<and> supported w (bo_spec b)"
proof -
  obtain ctx w1 where "load_context (bo_spec b) w = (Inr ctx, w1)"
    using assms(1) by (auto simp: update_binding_def kbind_Inr)
  then show ?thesis
    using assms same_objects_by [OF same_objects_keeps(4)] load_context_supported by blast
qed

lemma update_binding_state_backed:
  assumes "lawful_env E" and "well_backed w"
    and "\<And>x. bt_lookup (ow_bindings w) n = Some x \<Longrightarrow> bt_state (bu_status u) = BReady \<Longrightarrow> supported w (bo_spec x)"
  shows "well_backed (snd (update_binding_or_requeue E n u w))"
proof -
  have "well_backed (snd (patch_obj binding_crds n (\<lambda>b. b\<lparr>bo_status := Some (oe_merge_binding E (bo_status b) (bu_status u))\<rparr>) w))"
    using assms by (intro backed_patch_binding) (auto simp: binding_is_ready_def lawful_env_def)
  moreover have "okeeps well_backed (case bu_owners u of None \<Rightarrow> kret () | Some owners \<Rightarrow> patch_owners n owners)"
    by (auto intro!: ops_keeps split: option.split)
  ultimately show ?thesis
    unfolding update_binding_or_requeue_def or_requeue_snd update_binding_state_def
    by (auto intro!: kbind_keeps [of well_backed] dest: okeepsD)
qed

lemma reconcile_storage_binding_backed:
  assumes "lawful_env E" and "well_backed w" and b: "bt_lookup (ow_bindings w) n = Some b"
  shows "well_backed (snd (reconcile_storage_binding E n b w))"
proof -
  note keeps = okeepsD [of well_backed, OF _ assms(2)]
  have mark: "well_backed (snd (update_binding_or_requeue E n \<lparr>bu_status = deleting_status b, bu_owners = None\<rparr> w))"
    using assms by (intro update_binding_state_backed) (simp_all add: deleting_status_def split: option.splits)
  have ready: "well_backed (snd (update_binding_or_requeue E n u w'))" if "same_objects w w' \<and> supported w (bo_spec b)" for u w'
    using assms that same_objects_backed [of w w'] supported_cong [of w' w]
    by (intro update_binding_state_backed) (auto simp: same_objects_def)
  note validated = ready [OF binding_validated [OF _ assms(2)]]
  note updated = ready [OF binding_updated [OF _ assms(2)]]
  have finish: "well_backed (snd (remove_finalizer binding_crds n w'))" if "well_backed w'" for w'
    unfolding remove_finalizer_def using that by (rule backed_meta)
  have valid: "well_backed (snd (validate_model_storage_binding E n b w))"
    unfolding validate_model_storage_binding_def
    by (rule keeps) (auto intro!: ops_keeps load_context_keeps binding_calls_keep)
  have update: "well_backed (snd (update_binding E n b t w))" for t
    by (rule keeps) (auto intro!: update_binding_keeps)
  have delete: "well_backed (snd (delete_binding (bo_spec b) w))"
    unfolding delete_binding_def by (rule keeps) (auto intro!: ops_keeps load_context_keeps binding_calls_keep)
  show ?thesis
    unfolding reconcile_storage_binding_def Let_def add_finalizer_or_requeue_def remove_finalizer_or_requeue_def
    using mark validated updated finish valid update delete assms(2) backed_add_finalizer(3) [OF assms(2)]
    by (auto intro!: attempt_else_keeps [of well_backed] split: binding_state.split option.split)
qed

lemma free_of_bindings:
  assumes "bindings_of_model n w = []"
  shows "\<not> rests_on (\<lambda>s. bi_model s = n) w"
proof
  assume "rests_on (\<lambda>s. bi_model s = n) w"
  then obtain k b t where b: "bt_lookup (ow_bindings w) k = Some b" "bo_status b = Some t" "bt_state t = BReady"
    "bi_model (bo_spec b) = n"
    by (auto simp: rests_on_def binding_is_ready_def split: option.splits)
  then have "(k, b) \<in> set (ready_bindings w)"
    by (simp add: ready_bindings_def bt_lookup_def map_of_SomeD binding_is_ready_def)
  then have "(k, bo_meta b, t) \<in> set (bindings_of_model n w)"
    using b by (force simp: bindings_of_model_def set_map_filter)
  then show False
    using assms by simp
qed

lemma uses_storage_iff: "uses_storage n s \<longleftrightarrow> n \<in> set (storages_of s)"
  by (cases s) (auto simp: uses_storage_def storages_of_def)

lemma free_of_storage:
  assumes "load_model_storage_bindings_by_storage n w = (Inr [], w')"
  shows "\<not> rests_on (\<lambda>s. n \<in> set (storages_of (bi_storage s))) w"
proof
  assume "rests_on (\<lambda>s. n \<in> set (storages_of (bi_storage s))) w"
  then obtain k b t where b: "bt_lookup (ow_bindings w) k = Some b" "bo_status b = Some t" "bt_state t = BReady"
    "uses_storage n (bi_storage (bo_spec b))"
    by (auto simp: rests_on_def binding_is_ready_def uses_storage_iff split: option.splits)
  then have "(k, b) \<in> set (ready_bindings w)"
    by (simp add: ready_bindings_def bt_lookup_def map_of_SomeD binding_is_ready_def)
  then have "t \<in> set (List.map_filter (\<lambda>(_, b). if uses_storage n (bi_storage (bo_spec b)) then bo_status b else None)
      (ready_bindings w))"
    using b by (force simp: set_map_filter)
  moreover have "List.map_filter (\<lambda>(_, b). if uses_storage n (bi_storage (bo_spec b)) then bo_status b else None)
      (ready_bindings w) = []"
    using oread_Inr [OF assms [unfolded load_model_storage_bindings_by_storage_def]] by (auto simp: ready_bindings_def)
  ultimately show False
    by simp
qed

lemma update_model_backed:
  assumes "well_backed w" and "state = MReady \<Longrightarrow> guarded model_crds model_finalizer w n"
  shows "well_backed (snd (update_model_or_requeue n fs state w))"
  unfolding update_model_or_requeue_def or_requeue_snd update_model_fields_def
  using assms by (intro backed_patch_model) (auto simp: model_sound_def guarded_def)

lemma update_storage_backed:
  assumes "lawful_env E" and "well_backed w" and "state = StReady \<Longrightarrow> guarded storage_crds storage_finalizer w n"
  shows "well_backed (snd (update_storage_or_requeue E n k state q w))"
  unfolding update_storage_or_requeue_def or_requeue_snd update_storage_state_def
  using assms by (intro backed_patch_storage) (auto simp: storage_sound_def guarded_def lawful_env_def)

text \<open>The last finalizer goes when nothing that is ready rests on the object any more.\<close>

lemma model_freed:
  assumes "delete_model_call n m w = (Inr u, w')"
  shows "w' = answered w \<and> \<not> rests_on (\<lambda>s. bi_model s = n) w"
proof -
  have "w' = answered w" "bindings_of_model n w' = []"
    using oread_Inr [OF assms [unfolded delete_model_call_def]]
    by (auto simp: delete_model_def assert_empty_bindings_def model_crd_of_def split: sum.splits if_splits)
  then show ?thesis
    using free_of_bindings [of n w'] by (simp add: rests_on_def)
qed

lemma storage_freed:
  assumes "delete_storage n w = (Inr u, w')"
  shows "w' = answered w \<and> \<not> rests_on (\<lambda>s. n \<in> set (storages_of (bi_storage s))) w"
proof -
  have loaded: "load_model_storage_bindings_by_storage n w = (Inr [], w')"
    using assms by (auto simp: delete_storage_def kbind_Inr kfail_def split: if_splits)
  then show ?thesis
    using free_of_storage [OF loaded] oread_Inr [OF loaded [unfolded load_model_storage_bindings_by_storage_def]] by simp
qed

lemma reconcile_model_backed:
  assumes "well_backed w" and m: "bt_lookup (ow_models w) n = Some m"
  shows "well_backed (snd (reconcile_model E n m w))"
proof -
  let ?state = "case mo_status m of None \<Rightarrow> MPending | Some s \<Rightarrow> ms_state s"
  have mark: "well_backed (snd (update_model_or_requeue n fs MDeleting w))" for fs
    using assms(1) by (rule update_model_backed) simp
  have valid: "well_backed (snd (validate_model_call E (mo_spec m) w))" "well_backed (snd (delete_model_call n m w))"
    by (simp_all add: validate_model_call_def delete_model_call_def assms)
  have ready: "well_backed (snd (update_model_or_requeue n (Some fs) MReady w'))"
    if "validate_model_call E (mo_spec m) w = (Inr fs, w')" "model_finalizer \<in> set (md_finalizers (mo_meta m))" for fs w'
    using oread_Inr [OF that(1) [unfolded validate_model_call_def]] that(2) assms
    by (intro update_model_backed) (auto simp: guarded_def)
  have finish: "well_backed (snd (remove_finalizer model_crds n w'))"
    if "delete_model_call n m w = (Inr u, w')" "?state = MDeleting" for u w'
    unfolding remove_finalizer_def using model_freed [OF that(1)] assms that(2)
    by (intro backed_patch_model) (auto simp: map_meta_def model_sound_def rests_on_def split: option.splits)
  show ?thesis
    unfolding reconcile_model_def Let_def add_finalizer_or_requeue_def remove_finalizer_or_requeue_def
    using ready finish valid assms(1) backed_add_finalizer(1) [OF assms(1)] mark
    by (auto intro!: attempt_else_keeps [of well_backed] split: model_state.split)
qed

lemma reconcile_storage_backed:
  assumes "lawful_env E" and "well_backed w" and s: "bt_lookup (ow_storages w) n = Some s"
  shows "well_backed (snd (reconcile_storage E n s w))"
proof -
  let ?state = "case so_status s of None \<Rightarrow> StPending | Some s \<Rightarrow> ss_state s"
  have mark: "well_backed (snd (update_storage_or_requeue E n k StDeleting q w))" for k q
    using assms(1,2) by (rule update_storage_backed) simp
  have valid: "well_backed (snd (validate_model_storage E n (so_spec s) w))"
    unfolding validate_model_storage_def validate_model_storage_conflict_def load_model_storages_by_def connect_def
    by (rule okeepsD [of well_backed, OF _ assms(2)], auto intro!: ops_keeps split: storage_kind.split)
  have deleted: "well_backed (snd (delete_storage n w))"
    unfolding delete_storage_def load_model_storage_bindings_by_storage_def
    by (rule okeepsD [of well_backed, OF _ assms(2)], auto intro!: ops_keeps)
  have ready: "well_backed (snd (update_storage_or_requeue E n k StReady q w'))"
    if "validate_model_storage E n (so_spec s) w = (Inr q, w')" "well_backed w'"
      "storage_finalizer \<in> set (md_finalizers (so_meta s))" for k q w'
    using storage_validated(1) [OF that(1)] that(2,3) assms
    by (intro update_storage_backed) (auto simp: guarded_def)
  have finish: "well_backed (snd (remove_finalizer storage_crds n w'))"
    if "delete_storage n w = (Inr u, w')" "?state = StDeleting" for u w'
    unfolding remove_finalizer_def using storage_freed [OF that(1)] assms that(2)
    by (intro backed_patch_storage) (auto simp: map_meta_def storage_sound_def rests_on_def split: option.splits)
  show ?thesis
    unfolding reconcile_storage_def Let_def add_finalizer_or_requeue_def remove_finalizer_or_requeue_def
    using ready finish valid deleted assms(2) backed_add_finalizer(2) [OF assms(2)] mark
    by (auto intro!: attempt_else_keeps [of well_backed] split: storage_state.split)
qed

lemma reconcile_claim_backed: "okeeps well_backed (reconcile_claim E n c)"
  by (intro reconcile_claim_keeps okeepsI)
    (auto intro!: backed_create_model backed_create_binding backed_meta simp: dynamic_model_def delete_obj_def delete_foreground_def)

text \<open>A user who edits a binding leaves its model and its storages.\<close>

fun keeps_target :: "'f ops_world \<Rightarrow> 'f ops_event \<Rightarrow> bool" where
  "keeps_target w (EvEditBinding n s) \<longleftrightarrow>
     (case bt_lookup (ow_bindings w) n of
        None \<Rightarrow> True
      | Some b \<Rightarrow> bi_model s = bi_model (bo_spec b) \<and> bi_storage s = bi_storage (bo_spec b))"
| "keeps_target w _ \<longleftrightarrow> True"

fun keeps_targets :: "('n, 'f) ops_env \<Rightarrow> 'f ops_world \<Rightarrow> 'f ops_event list \<Rightarrow> bool" where
  "keeps_targets E w [] \<longleftrightarrow> True"
| "keeps_targets E w (ev # evs) \<longleftrightarrow> keeps_target w ev \<and> keeps_targets E (ops_step E ev w) evs"

lemma ops_step_backed:
  assumes "lawful_env E" and "well_backed w" and "keeps_target w ev"
  shows "well_backed (ops_step E ev w)"
proof (cases ev)
  case (EvEditBinding n s)
  have "supported w s" if "bt_lookup (ow_bindings w) n = Some b" "binding_is_ready b" for b
    using well_backedD(3) [OF assms(2) that] assms(3) that(1) by (simp add: EvEditBinding supported_def)
  then show ?thesis
    using assms(2) by (auto simp: ops_step_def EvEditBinding binding_is_ready_def intro!: backed_patch_binding)
qed (use assms in \<open>auto simp: ops_step_def on_object_def delete_obj_def fresh_meta_def
    intro!: backed_create_model backed_create_storage backed_create_binding backed_meta reconcile_model_backed
      reconcile_storage_backed reconcile_storage_binding_backed
      okeepsD [of well_backed, OF reconcile_claim_backed] okeepsD [of well_backed, OF okeeps_patch_frame]
      okeepsD [of well_backed, OF okeeps_create_frame] split: option.split\<close>)

lemma ops_run_backed:
  assumes "lawful_env E" and "well_backed w" and "keeps_targets E w evs"
  shows "well_backed (ops_run E evs w)"
  using assms(2,3)
proof (induction evs arbitrary: w)
  case (Cons ev evs)
  then show ?case
    using ops_step_backed [OF assms(1)] by (simp add: ops_run_def)
qed (simp add: ops_run_def)

section \<open>What is asked of the stores\<close>


definition calls_since :: "storage_call list \<Rightarrow> (storage_call \<Rightarrow> bool) \<Rightarrow> 'f ops_world \<Rightarrow> bool" where
  "calls_since old P w \<longleftrightarrow> (\<exists>new. ow_calls w = old @ new \<and> list_all P new)"

lemma calls_since_frame [simp]:
  "calls_since old P (answered w) = calls_since old P w" "calls_since old P (w\<lparr>ow_models := a\<rparr>) = calls_since old P w"
  "calls_since old P (w\<lparr>ow_storages := b\<rparr>) = calls_since old P w" "calls_since old P (w\<lparr>ow_bindings := c\<rparr>) = calls_since old P w"
  "calls_since old P (w\<lparr>ow_claims := d\<rparr>) = calls_since old P w" "calls_since old P (w\<lparr>ow_uids := u\<rparr>) = calls_since old P w"
  "calls_since old P (w\<lparr>ow_owner_patches := p\<rparr>) = calls_since old P w" "calls_since old P (w\<lparr>ow_faults := fs\<rparr>) = calls_since old P w"
  by (simp_all add: calls_since_def)

lemma calls_since_refl [simp]: "calls_since (ow_calls w) P w"
  by (simp add: calls_since_def)

lemma calls_since_request: "P c \<Longrightarrow> calls_since old P w \<Longrightarrow> calls_since old P (w\<lparr>ow_calls := ow_calls w @ [c]\<rparr>)"
  by (auto simp: calls_since_def)

lemma request_keeps [ops_keeps]: "P c \<Longrightarrow> okeeps (calls_since old P) (storage_request c)"
  by (rule okeeps_request) (simp_all add: calls_since_request)





lemma patch_calls [simp]:
  "ow_calls (snd (patch_obj model_crds n f w)) = ow_calls w" "ow_calls (snd (patch_obj storage_crds n g w)) = ow_calls w"
  "ow_calls (snd (patch_obj binding_crds n h w)) = ow_calls w" "ow_calls (snd (patch_obj claim_crds n k w)) = ow_calls w"
  by (rule okeepsD [of "\<lambda>v. ow_calls v = ow_calls w"]; simp add: okeeps_patch_frame)+

lemma create_calls [simp]:
  "ow_calls (snd (create_obj model_crds u n m w)) = ow_calls w" "ow_calls (snd (create_obj storage_crds u n s w)) = ow_calls w"
  "ow_calls (snd (create_obj binding_crds u n b w)) = ow_calls w" "ow_calls (snd (create_obj claim_crds u n c w)) = ow_calls w"
  by (rule okeepsD [of "\<lambda>v. ow_calls v = ow_calls w"]; simp add: okeeps_create_frame)+


section \<open>A model in use stays\<close>

definition kept_model :: "string \<Rightarrow> 'f ops_world \<Rightarrow> bool" where
  "kept_model n w \<longleftrightarrow> bt_wf (ow_models w) \<and> guarded model_crds model_finalizer w n"

lemma kept_model_frame [simp]:
  "kept_model n (answered w) = kept_model n w" "kept_model n (w\<lparr>ow_storages := s\<rparr>) = kept_model n w"
  "kept_model n (w\<lparr>ow_bindings := b\<rparr>) = kept_model n w" "kept_model n (w\<lparr>ow_claims := c\<rparr>) = kept_model n w"
  "kept_model n (w\<lparr>ow_calls := d\<rparr>) = kept_model n w" "kept_model n (w\<lparr>ow_uids := u\<rparr>) = kept_model n w"
  "kept_model n (w\<lparr>ow_owner_patches := p\<rparr>) = kept_model n w" "kept_model n (w\<lparr>ow_faults := fs\<rparr>) = kept_model n w"
  by (simp_all add: kept_model_def guarded_def)

lemma kept_model_settle:
  "kept_model n w \<Longrightarrow> (n' = n \<Longrightarrow> model_finalizer \<in> set (md_finalizers (mo_meta m))) \<Longrightarrow> kept_model n (settle model_crds n' m w)"
  using models.wf_settle [of w n' m] models.guarded_settle [of w model_finalizer n n' m] by (simp add: kept_model_def)

lemma kept_model_patch:
  assumes "n' = n \<Longrightarrow> (\<And>x. model_finalizer \<in> set (md_finalizers (mo_meta x)) \<Longrightarrow> model_finalizer \<in> set (md_finalizers (mo_meta (f x))))"
  shows "okeeps (kept_model n) (patch_obj model_crds n' f)"
proof (rule okeeps_patch)
  fix w :: "'a ops_world" and x
  assume w: "kept_model n w" "bt_lookup (crd_list model_crds w) n' = Some x"
  then show "kept_model n (settle model_crds n' (f x) w)"
    using assms by (intro kept_model_settle) (auto simp: kept_model_def guarded_def)
qed simp

lemma kept_model_create: "\<not> md_deleting (mo_meta m) \<Longrightarrow> okeeps (kept_model n) (create_obj model_crds u n' m)"
proof (rule okeepsI)
  fix w :: "'a ops_world"
  assume "\<not> md_deleting (mo_meta m)" and w: "kept_model n w"
  then show "kept_model n (snd (create_obj model_crds u n' m w))"
  proof (cases "bt_lookup (ow_models w) n'")
    case None
    then have "n' \<noteq> n"
      using w by (auto simp: kept_model_def guarded_def)
    show ?thesis
      by (rule models.create_settles [of m u n' w]) (use \<open>\<not> md_deleting (mo_meta m)\<close> w \<open>n' \<noteq> n\<close> in \<open>simp_all add: kept_model_settle\<close>)
  next
    case (Some x)
    show ?thesis
      by (rule models.create_settles [of m u n' w]) (use \<open>\<not> md_deleting (mo_meta m)\<close> w Some in simp_all)
  qed
qed

lemma kept_by_other: "n' \<noteq> n \<Longrightarrow> okeeps (kept_model n) (reconcile_model E n' m)"
  unfolding reconcile_model_def update_model_or_requeue_def update_model_fields_def validate_model_call_def
    delete_model_call_def ctl_defs Let_def
  by (auto intro!: kept_model_patch okeeps_pure okeeps_attempt okeeps_or_requeue okeeps_oread split: model_state.split)

lemma kept_by_itself:
  assumes w: "kept_model n w" and "bt_lookup (ow_models w) n = Some m"
    and refused: "\<And>u w'. delete_model_call n m w \<noteq> (Inr u, w')"
  shows "kept_model n (snd (reconcile_model E n m w))"
proof -
  have status: "kept_model n (snd (update_model_or_requeue n fs state v))" if "kept_model n v" for fs state v
    unfolding update_model_or_requeue_def or_requeue_snd update_model_fields_def
    by (rule okeepsD [OF kept_model_patch that]) simp
  have add: "kept_model n (snd (add_finalizer model_crds model_finalizer n w))"
    unfolding add_finalizer_def by (rule okeepsD [OF kept_model_patch w]) (simp add: map_meta_def)
  have valid: "kept_model n (snd (validate_model_call E (mo_spec m) w))" "kept_model n (snd (delete_model_call n m w))"
    by (simp_all add: validate_model_call_def delete_model_call_def w)
  have finish: "kept_model n (snd (remove_finalizer model_crds n w'))" if "delete_model_call n m w = (Inr u, w')" for u w'
    using refused that by blast
  show ?thesis
    unfolding reconcile_model_def Let_def add_finalizer_or_requeue_def remove_finalizer_or_requeue_def
    using status add valid w finish by (auto intro!: attempt_else_keeps [of "kept_model n"] split: model_state.split)
qed

lemma claims_freed:
  assumes "delete_model_call n m w = (Inr u, w')" and "bt_lookup (ow_claims w) n = Some c"
  shows "map_option cs_state (co_status c) = Some CDeleting"
proof -
  obtain r where "w' = answered w" "claim_in w' n = Inr r" "r \<noteq> Some (Some CReady)"
    using oread_Inr [OF assms(1) [unfolded delete_model_call_def]]
    by (auto simp: delete_model_def assert_empty_claims_def model_crd_of_def split: sum.splits if_splits)
  then show ?thesis
    using assms(2) by (auto simp: claim_in_def split: if_splits option.splits)
qed

lemma kept_in_step:
  assumes "kept_model n w" and "ev \<noteq> EvModel n"
  shows "kept_model n (ops_step E ev w)"
proof (cases ev)
  case (EvModel n')
  then show ?thesis
    using assms by (simp add: ops_step_def on_object_keeps kept_by_other)
next
  case (EvClaim n')
  have "okeeps (kept_model n) (reconcile_claim E n' c)" for c
    by (intro reconcile_claim_keeps)
      (simp_all add: delete_obj_def delete_foreground_def okeeps_patch_frame okeeps_create_frame kept_model_create
        dynamic_model_def kept_model_patch map_meta_def)
  then show ?thesis
    using assms by (simp add: EvClaim ops_step_def on_object_keeps)
qed (use assms in \<open>simp_all add: ops_step_def delete_obj_def on_object_keeps reconcile_storage_keeps
  reconcile_storage_binding_keeps okeepsD [OF kept_model_create] okeepsD [OF kept_model_patch] okeepsD [OF okeeps_patch_frame]
  okeepsD [OF okeeps_create_frame] fresh_meta_def map_meta_def\<close>)

section \<open>Properties\<close>

definition no_objects :: "bool list \<Rightarrow> 'f ops_world" where
  "no_objects fs = \<lparr>ow_models = [], ow_storages = [], ow_bindings = [], ow_claims = [], ow_calls = [], ow_owner_patches = [],
     ow_uids = 0, ow_faults = fs\<rparr>"

lemma ops_run_unique: "lawful_env E \<Longrightarrow> unique_kinds w \<Longrightarrow> unique_kinds (ops_run E evs w)"
  by (induction evs arbitrary: w) (simp_all add: ops_run_def ops_step_unique)

lemma no_objects_invariants [simp]: "unique_kinds (no_objects fs)" "well_backed (no_objects fs)"
  by (simp_all add: unique_kinds_def well_backed_def no_objects_def)

lemma unique_filter_le_1:
  assumes "distinct (map fst xs)" and "\<And>x y. x \<in> set xs \<Longrightarrow> y \<in> set xs \<Longrightarrow> P x \<Longrightarrow> P y \<Longrightarrow> fst x = fst y"
  shows "length (filter P xs) \<le> 1"
proof (cases "filter P xs" rule: remdups_adj.cases)
  case (3 x y zs)
  have "x \<in> set (filter P xs)" "y \<in> set (filter P xs)"
    unfolding 3 by simp_all
  then have "fst x = fst y"
    using assms(2) by simp
  moreover have "distinct (map fst (x # y # zs))"
    using distinct_map_filter [OF assms(1), of P] unfolding 3 .
  ultimately show ?thesis
    by simp
qed simp_all

lemma unique_kinds_storages:
  assumes "unique_kinds w"
  shows "length (storages_by (\<lambda>k. is_unique k \<and> to_tag k = tag) w) \<le> 1"
  unfolding storages_by_def
proof (rule unique_filter_le_1)
  have wf: "bt_wf (ow_storages w)"
    using assms by (simp add: unique_kinds_def)
  then show "distinct (map fst (ow_storages w))"
    by (rule bt_wf_distinct)
  fix x y :: "string \<times> storage_obj"
  obtain n s n' s' where xy: "x = (n, s)" "y = (n', s')"
    by (cases x, cases y)
  assume "x \<in> set (ow_storages w)" "y \<in> set (ow_storages w)"
    and "case x of (_, s) \<Rightarrow> case opt_bind (so_status s) ss_kind of None \<Rightarrow> False | Some k \<Rightarrow> is_unique k \<and> to_tag k = tag"
    and "case y of (_, s) \<Rightarrow> case opt_bind (so_status s) ss_kind of None \<Rightarrow> False | Some k \<Rightarrow> is_unique k \<and> to_tag k = tag"
  then obtain k k' where "bt_lookup (ow_storages w) n = Some s" "bt_lookup (ow_storages w) n' = Some s'"
    "storage_kind_of s = Some k" "storage_kind_of s' = Some k'" "is_unique k" "is_unique k'" "to_tag k = to_tag k'"
    by (auto simp: xy bt_lookup_Some_iff [OF wf] storage_kind_of_def split: option.splits)
  then show "fst x = fst y"
    using assms unfolding unique_kinds_def xy fst_conv by blast
qed

text \<open>C38: At any time at most one storage of each kind that must be alone (the Kubernetes API, and an object store that
  is not borrowed) has been accepted, whatever users and controllers do and whichever calls fail: a storage is
  validated only when none of its kind is on record, and its kind stays on record while it is being deleted.\<close>

theorem unique_storages_stay_alone:
  assumes "lawful_env E"
  shows "length (storages_by (\<lambda>k. is_unique k \<and> to_tag k = tag) (ops_run E evs (no_objects fs))) \<le> 1"
  using assms by (intro unique_kinds_storages ops_run_unique) simp_all

text \<open>C35: A binding that is ready rests on objects that exist: its model and its storages are there and have the
  finalizers that let the operator refuse to let them go, at any time of any run in which users do not point a
  binding at another model or another storage.\<close>

theorem ready_bindings_are_backed:
  assumes "lawful_env E" and "keeps_targets E (no_objects fs) evs"
    and "bt_lookup (ow_bindings (ops_run E evs (no_objects fs))) n = Some b" and "binding_is_ready b"
  shows "guarded model_crds model_finalizer (ops_run E evs (no_objects fs)) (bi_model (bo_spec b))
    \<and> list_all (guarded storage_crds storage_finalizer (ops_run E evs (no_objects fs))) (storages_of (bi_storage (bo_spec b)))"
  using well_backedD(3) [OF ops_run_backed [OF assms(1) _ assms(2)] assms(3,4)] by (simp add: supported_def)

text \<open>C37: A model that has its finalizer leaves the world in one way only: its own controller has found that no binding
  that is ready names it and that its claim, if there is one, is being deleted.\<close>

theorem bound_model_is_kept:
  assumes "bt_wf (ow_models w)" and "guarded model_crds model_finalizer w n"
    and "\<not> guarded model_crds model_finalizer (ops_step E ev w) n"
  shows "ev = EvModel n \<and> \<not> rests_on (\<lambda>s. bi_model s = n) w
    \<and> (case bt_lookup (ow_claims w) n of None \<Rightarrow> True | Some c \<Rightarrow> map_option cs_state (co_status c) = Some CDeleting)"
proof -
  have w: "kept_model n w" "\<not> kept_model n (ops_step E ev w)"
    using assms by (simp_all add: kept_model_def)
  then have ev: "ev = EvModel n"
    using kept_in_step by blast
  obtain m where m: "bt_lookup (ow_models w) n = Some m"
    using assms(2) by (auto simp: guarded_def split: option.splits)
  then obtain u w' where freed: "delete_model_call n m w = (Inr u, w')"
    using w(2) kept_by_itself [OF w(1) m, of E] by (auto simp: ev ops_step_def on_object_def)
  then show ?thesis
    using model_freed [OF freed] claims_freed [OF freed] by (auto simp: ev split: option.split)
qed


section \<open>A concrete run\<close>

definition demo_env :: "(int, int) ops_env" where
  "demo_env = \<lparr>oe_numbers = int_numbers, oe_snake = id, oe_load_def = (\<lambda>_. Inr None), oe_merge_storage = (\<lambda>_ s. s),
     oe_merge_binding = (\<lambda>_ s. s), oe_merge_claim = (\<lambda>_ s. s), oe_apply_null = (\<lambda>s. s), oe_bytes = (\<lambda>_. Some 10),
     oe_capacity = (\<lambda>_ _ _. \<lparr>cp_capacity = 30, cp_usage = 5\<rparr>), oe_order = (\<lambda>n. [0..<n]), oe_uid = (\<lambda>n. ''u'')\<rparr>"

lemma demo_env_lawful: "lawful_env demo_env"
  by (simp add: lawful_env_def demo_env_def)

definition demo_binding :: binding_spec where
  "demo_binding = \<lparr>bi_deletion = BDelete, bi_model = ''m'', bi_resources = None, bi_storage = BOwned ''s''\<rparr>"

definition demo_events :: "int ops_event list" where
  "demo_events =
     [EvNewStorage ''s'' \<lparr>sp_kind = StObject (ObOwned ''x''), sp_default = False\<rparr>, EvStorage ''s'', EvStorage ''s'',
      EvNewModel ''m'' MDynamic, EvModel ''m'', EvModel ''m'',
      EvNewBinding ''b'' demo_binding, EvStorageBinding ''b'', EvStorageBinding ''b'']"

definition demo_world :: "int ops_world" where
  "demo_world = ops_run demo_env demo_events (no_objects [])"

lemma demo_binding_ready: "map_option (\<lambda>b. (binding_is_ready b, bo_spec b)) (bt_lookup (ow_bindings demo_world) ''b'') = Some (True, demo_binding)"
  by code_simp

lemma demo_targets: "keeps_targets demo_env (no_objects []) demo_events"
  by code_simp


lemma demo_unique: "length (storages_by (\<lambda>k. is_unique k \<and> to_tag k = TagObject) demo_world) = 1"
  by code_simp

lemma unique_storages_stay_alone_witness:
  "length (storages_by (\<lambda>k. is_unique k \<and> to_tag k = TagObject) demo_world) = 1
   \<and> length (storages_by (\<lambda>k. is_unique k \<and> to_tag k = TagKubernetes) demo_world) \<le> 1"
  using unique_storages_stay_alone [OF demo_env_lawful, of TagKubernetes demo_events "[]"] demo_unique
  by (simp add: demo_world_def)

lemma ready_bindings_are_backed_witness:
  "guarded model_crds model_finalizer demo_world ''m'' \<and> guarded storage_crds storage_finalizer demo_world ''s''"
proof -
  obtain b where "bt_lookup (ow_bindings demo_world) ''b'' = Some b" "binding_is_ready b" "bo_spec b = demo_binding"
    using demo_binding_ready by auto
  then show ?thesis
    using ready_bindings_are_backed [OF demo_env_lawful demo_targets, of "''b''" b]
    by (simp add: demo_world_def demo_binding_def storages_of_def)
qed

definition demo_dropped :: "int ops_world" where
  "demo_dropped = ops_run demo_env [EvNewModel ''m'' MDynamic, EvModel ''m'', EvModel ''m'', EvDropModel ''m'', EvModel ''m''] (no_objects [])"

lemma demo_dropped_facts:
  "ow_models (ops_step demo_env (EvModel ''m'') demo_dropped) = []"
  "map fst (ow_models demo_dropped) = [''m'']"
  "guarded model_crds model_finalizer demo_dropped ''m''"
  by code_simp+

lemma bound_model_is_kept_witness:
  "ow_models (ops_step demo_env (EvModel ''m'') demo_dropped) = [] \<and> \<not> rests_on (\<lambda>s. bi_model s = ''m'') demo_dropped"
proof -
  have "bt_wf (ow_models demo_dropped)"
    using demo_dropped_facts(2) by (simp add: bt_wf_def)
  moreover have "\<not> guarded model_crds model_finalizer (ops_step demo_env (EvModel ''m'') demo_dropped) ''m''"
    by (simp add: guarded_def demo_dropped_facts(1))
  ultimately show ?thesis
    using bound_model_is_kept [OF _ demo_dropped_facts(3)] demo_dropped_facts(1) by blast
qed



text \<open>A second binding of the model to the same storage is dropped before it has been accepted: it deletes the bucket
  that the first binding made and still uses.\<close>

definition demo_pending :: "int ops_event list" where
  "demo_pending = demo_events @ [EvNewBinding ''p'' demo_binding, EvStorageBinding ''p'', EvDropBinding ''p'',
     EvStorageBinding ''p'', EvStorageBinding ''p'']"

lemma pending_binding_deletes_bucket:
  "(\<lambda>w. (map_option binding_is_ready (bt_lookup (ow_bindings w) ''b''), ow_calls w))
     (ops_run demo_env demo_pending (no_objects []))
   = (Some True, [Provision ''s'', CreateBucket ''s'' None ''m'' ''b'' None, DeleteBucket ''s'' None ''m''])"
  by code_simp

end
