(* ===== verification/Ops_Claim.thy ===== *)
theory Ops_Claim imports Ops_Correct begin

text \<open>
  What a claim gets and keeps when every call is answered: the choice of its storage
  (\<open>dash/operator/src/optimizer/model_claim/mod.rs\<close>) and what becomes of a claim that has been served.
\<close>

section \<open>Calls that are answered\<close>


lemma quiet_create:
  "ow_faults w = [] \<Longrightarrow> bt_lookup (crd_list K w) n = None \<Longrightarrow> create_obj K u n x w =
     (let y = map_meta K (\<lambda>d. d\<lparr>md_uid := Some (u (ow_uids w))\<rparr>) x in
      (Inr y, crd_put K (bt_insert n y (crd_list K w)) (w\<lparr>ow_uids := Suc (ow_uids w)\<rparr>)))"
  by (simp add: create_obj_def ocall_eq)

lemma quiet_create_exists:
  "ow_faults w = [] \<Longrightarrow> bt_lookup (crd_list K w) n = Some y \<Longrightarrow> create_obj K u n x w = (Inl (OExists n), w)"
  by (simp add: create_obj_def ocall_eq)

lemma quiet_owners:
  "ow_faults w = [] \<Longrightarrow> patch_owners n refs w = (Inr (), w\<lparr>ow_owner_patches := ow_owner_patches w @ [(n, refs)]\<rparr>)"
  by (simp add: patch_owners_def ocall_eq)

lemma quiet_kmap:
  "(\<And>x. x \<in> set xs \<Longrightarrow> f x w = (Inr (g x), w)) \<Longrightarrow> kmap f xs w = (Inr (map g xs), w)"
  by (induction xs) simp_all

lemma attempt_Inr: "m w = (Inr x, w') \<Longrightarrow> attempt_else failed next m w = next x w'"
  by (simp add: attempt_else_def)

lemma attempt_Inl: "m w = (Inl e, w') \<Longrightarrow> e \<noteq> OPanic \<Longrightarrow> attempt_else failed next m w = failed w'"
  by (auto simp: attempt_else_def split: ops_error.split)

lemma or_requeue_Inr: "m w = (Inr x, w') \<Longrightarrow> or_requeue fallback d m w = (Inr d, w')"
  by (simp add: or_requeue_def)

section \<open>The storage of a claim\<close>

lemma max_by_key_None [simp]: "max_by_key key xs = None \<longleftrightarrow> xs = []"
  by (cases xs) (auto split: option.split)

lemma max_by_key_Some: "max_by_key key xs = Some x \<Longrightarrow> x \<in> set xs \<and> (\<forall>y \<in> set xs. key y \<le> key x)"
proof (induction xs arbitrary: x)
  case (Cons a xs)
  show ?case
  proof (cases "max_by_key key xs")
    case (Some y)
    then show ?thesis
      using Cons.IH [OF Some] Cons.prems by (auto split: if_splits)
  qed (use Cons.prems in simp)
qed simp

lemma set_reorder:
  assumes "mset order = mset [0..<length xs]"
  shows "set (reorder order xs) = set xs"
proof -
  have "set order = {0..<length xs}"
    using arg_cong [OF assms, of set_mset] by simp
  then show ?thesis
    using nth_image [of "length xs" xs] by (simp add: reorder_def)
qed

text \<open>The storages a claim may have, and the room the object stores say they have.\<close>

definition may_use :: "storage_tag option \<Rightarrow> 'f ops_world \<Rightarrow> string \<Rightarrow> bool" where
  "may_use tag w n \<longleftrightarrow> (\<exists>s spec. (n, s) \<in> set (ow_storages w) \<and> storage_kind_of s = Some (StObject spec)
     \<and> (tag = None \<or> tag = Some TagObject))"

definition room :: "('n, 'f) ops_env \<Rightarrow> 'f ops_world \<Rightarrow> string \<Rightarrow> string \<Rightarrow> nat" where
  "room E w model n = available (oe_capacity E (ow_calls w) n (Some model))"

definition fits :: "('n, 'f) ops_env \<Rightarrow> 'f ops_world \<Rightarrow> string \<Rightarrow> storage_tag option \<Rightarrow> resources option \<Rightarrow> string \<Rightarrow> bool" where
  "fits E w model tag res n \<longleftrightarrow> may_use tag w n \<and> (\<forall>q. quota_of E res = Some q \<longrightarrow> q \<le> room E w model n)"

definition measure_of :: "('n, 'f) ops_env \<Rightarrow> 'f ops_world \<Rightarrow> string \<Rightarrow> string \<times> storage_kind \<Rightarrow> string \<times> capacity option" where
  "measure_of E w model = (\<lambda>(n, k).
     (n, case k of StObject _ \<Rightarrow> Some (oe_capacity E (ow_calls w) n (Some model)) | _ \<Rightarrow> None))"

definition candidates :: "'f ops_world \<Rightarrow> storage_tag option \<Rightarrow> (string \<times> storage_kind) list" where
  "candidates w tag = List.map_filter (\<lambda>(n, s). map_option (\<lambda>k. (n, k)) (opt_bind (so_status s) ss_kind))
     (storages_by (\<lambda>k. case tag of None \<Rightarrow> True | Some t \<Rightarrow> t = to_tag k) w)"

definition measured :: "('n, 'f) ops_env \<Rightarrow> 'f ops_world \<Rightarrow> string \<Rightarrow> storage_tag option \<Rightarrow> (string \<times> capacity option) list" where
  "measured E w model tag = map (measure_of E w model) (candidates w tag)"

definition best_for ::
  "('n, 'f) ops_env \<Rightarrow> 'f ops_world \<Rightarrow> string \<Rightarrow> storage_tag option \<Rightarrow> resources option \<Rightarrow> string option"
where
  "best_for E w model tag res =
     best_storage (quota_of E res) (reorder (oe_order E (length (measured E w model tag))) (measured E w model tag))"

lemma quiet_optimize:
  assumes "ow_faults w = []"
  shows "optimize_model_storage_binding E fm LowestCopy model tag res deletion w =
    (case best_for E w model tag res of
       None \<Rightarrow> (Inr None, w)
     | Some target \<Rightarrow> kbind (create_model_storage_binding E fm model (BOwned target) res deletion) (\<lambda>b. kret (Some b)) w)"
proof -
  have m: "measure_storage E model x w = (Inr (measure_of E w model x), w)" for x
    using assms by (auto simp: measure_of_def measure_storage_def get_capacity_def get_traffic_def attempt_else_def kbind_def
      split: prod.split storage_kind.split)
  have "kmap (measure_storage E model) xs w = (Inr (map (measure_of E w model) xs), w)" for xs
    by (rule quiet_kmap) (rule m)
  then show ?thesis
    unfolding optimize_model_storage_binding_def load_model_storages_by_def
    using assms by (simp add: kbind_def measured_def candidates_def best_for_def split: option.split)
qed

lemma in_candidates:
  "(n, k) \<in> set (candidates w tag) \<longleftrightarrow>
     (\<exists>s. (n, s) \<in> set (ow_storages w) \<and> storage_kind_of s = Some k \<and> (tag = None \<or> tag = Some (to_tag k)))"
proof -
  have "(n, k) \<in> set (candidates w tag) \<longleftrightarrow> (\<exists>s. (n, s) \<in> set (ow_storages w) \<and> storage_kind_of s = Some k
      \<and> (case tag of None \<Rightarrow> True | Some t \<Rightarrow> t = to_tag k))"
    by (auto simp: candidates_def set_map_filter storages_by_def storage_kind_of_def)
  then show ?thesis
    by (cases tag) auto
qed

lemma set_measured:
  "(n, Some c) \<in> set (measured E w model tag) \<longleftrightarrow> may_use tag w n \<and> c = oe_capacity E (ow_calls w) n (Some model)"
proof -
  have "(n, Some c) \<in> set (measured E w model tag) \<longleftrightarrow>
      (\<exists>spec. (n, StObject spec) \<in> set (candidates w tag)) \<and> c = oe_capacity E (ow_calls w) n (Some model)"
    by (force simp: measured_def measure_of_def split: storage_kind.splits)
  then show ?thesis
    by (auto simp: in_candidates may_use_def)
qed

lemma best_storage_correct:
  assumes "lawful_env E"
  shows "case best_for E w model tag res of None \<Rightarrow> \<forall>n. \<not> fits E w model tag res n
    | Some target \<Rightarrow> fits E w model tag res target \<and> (\<forall>n. fits E w model tag res n \<longrightarrow> room E w model n \<le> room E w model target)"
proof -
  let ?xs = "reorder (oe_order E (length (measured E w model tag))) (measured E w model tag)"
  let ?key = "\<lambda>(_ :: string, c). case c of None \<Rightarrow> 0 | Some c \<Rightarrow> available c"
  define ys where "ys = filter (\<lambda>(_, c). c \<noteq> None) (filter (is_affordable_storage (quota_of E res)) ?xs)"
  have "set ?xs = set (measured E w model tag)"
    using assms(1) by (intro set_reorder) (simp add: lawful_env_def)
  then have ys: "(n, c) \<in> set ys \<longleftrightarrow> fits E w model tag res n \<and> c = Some (oe_capacity E (ow_calls w) n (Some model))" for n c
    by (cases c) (auto simp: ys_def set_measured is_affordable_storage_def fits_def room_def split: option.splits)
  have best: "best_for E w model tag res = map_option fst (max_by_key ?key ys)"
    by (simp add: best_for_def best_storage_def ys_def)
  show ?thesis
  proof (cases "max_by_key ?key ys")
    case None
    then have "\<not> fits E w model tag res n" for n
      using ys [of n "Some (oe_capacity E (ow_calls w) n (Some model))"] by simp
    then show ?thesis
      using None by (simp add: best)
  next
    case (Some x)
    obtain n c where x: "x = (n, c)"
      by (cases x)
    have n: "fits E w model tag res n" "c = Some (oe_capacity E (ow_calls w) n (Some model))"
      using max_by_key_Some [OF Some] ys by (simp_all add: x)
    moreover have "room E w model n' \<le> room E w model n" if "fits E w model tag res n'" for n'
    proof -
      have "(n', Some (oe_capacity E (ow_calls w) n' (Some model))) \<in> set ys"
        using that by (simp add: ys)
      then have "?key (n', Some (oe_capacity E (ow_calls w) n' (Some model))) \<le> ?key x"
        using max_by_key_Some [OF Some] by blast
      then show ?thesis
        by (simp add: x n(2) room_def)
    qed
    ultimately show ?thesis
      by (simp add: best Some x)
  qed
qed

section \<open>A claim that has what it asks for\<close>



definition doomed :: "string \<Rightarrow> 'f ops_world \<Rightarrow> bool" where
  "doomed k w \<longleftrightarrow> bt_wf (ow_bindings w)
     \<and> (\<exists>b. bt_lookup (ow_bindings w) k = Some b \<and> md_deleting (bo_meta b) \<and> md_finalizers (bo_meta b) \<noteq> [])"


lemma doomed_frame [simp]:
  "doomed k (answered w) = doomed k w" "doomed k (w\<lparr>ow_models := s\<rparr>) = doomed k w"
  "doomed k (w\<lparr>ow_claims := c\<rparr>) = doomed k w" "doomed k (w\<lparr>ow_uids := u\<rparr>) = doomed k w"
  "doomed k (w\<lparr>ow_owner_patches := p\<rparr>) = doomed k w"
  by (simp_all add: doomed_def)







section \<open>Properties\<close>

lemma claim_takes_lowest_copy:
  assumes "lawful_env E" and "ow_faults w = []"
  shows "case optimize_model_storage_binding E fm LowestCopy model tag res deletion w of
      (Inr None, w') \<Rightarrow> w' = w \<and> (\<forall>n. \<not> fits E w model tag res n)
    | (Inr (Some b), w') \<Rightarrow> bt_lookup (ow_bindings w') model = Some b
        \<and> (\<exists>target. bo_spec b = \<lparr>bi_deletion = deletion, bi_model = model, bi_resources = res, bi_storage = BOwned target\<rparr>
            \<and> fits E w model tag res target \<and> (\<forall>n. fits E w model tag res n \<longrightarrow> room E w model n \<le> room E w model target))
    | (Inl e, w') \<Rightarrow> w' = w \<and> bt_lookup (ow_bindings w) model \<noteq> None"
proof (cases "best_for E w model tag res")
  case None
  then show ?thesis
    using best_storage_correct [OF assms(1), of w model tag res] by (simp add: quiet_optimize [OF assms(2)])
next
  case (Some target)
  have best: "fits E w model tag res target \<and> (\<forall>n. fits E w model tag res n \<longrightarrow> room E w model n \<le> room E w model target)"
    using best_storage_correct [OF assms(1), of w model tag res] Some by simp
  show ?thesis
  proof (cases "bt_lookup (ow_bindings w) model")
    case None
    then show ?thesis
      using best assms(2) by (simp add: quiet_optimize [OF assms(2)] Some create_model_storage_binding_def
        kbind_def quiet_create Let_def map_meta_def bt_lookup_insert)
  next
    case (Some b)
    then show ?thesis
      using \<open>best_for E w model tag res = Some target\<close> assms(2)
      by (simp add: quiet_optimize [OF assms(2)] create_model_storage_binding_def kbind_def quiet_create_exists)
  qed
qed

lemma quiet_unimplemented:
  assumes "ow_faults w = []"
  shows "optimize_model_storage_binding E fm Balanced model tag res deletion w = (Inl (OBail ''Unimplemented yet (Balanced)!''), w)"
    and "optimize_model_storage_binding E fm LowestLatency model tag res deletion w = (Inl (OBail ''Unimplemented yet (LowestLatency)!''), w)"
proof -
  have "measure_storage E model x w = (Inr (measure_of E w model x), w)" for x
    using assms by (auto simp: measure_of_def measure_storage_def get_capacity_def get_traffic_def attempt_else_def kbind_def
      split: prod.split storage_kind.split)
  then have "kmap (measure_storage E model) xs w = (Inr (map (measure_of E w model) xs), w)" for xs
    by (rule quiet_kmap)
  then show "optimize_model_storage_binding E fm Balanced model tag res deletion w = (Inl (OBail ''Unimplemented yet (Balanced)!''), w)"
    "optimize_model_storage_binding E fm LowestLatency model tag res deletion w = (Inl (OBail ''Unimplemented yet (LowestLatency)!''), w)"
    unfolding optimize_model_storage_binding_def load_model_storages_by_def
    using assms by (simp_all add: kbind_def kfail_def)
qed

text \<open>C39: What storage a claim gets when every call is answered. Under the policy of the lowest copy, the binding that
  is made points at an object store of the kind asked for whose capacity leaves room for the quota, and none
  that fits has more room, in whatever order the stores answered; no binding is made only when none fits, or,
  as an error, when a binding of that name exists already. Under the other two policies (balanced and lowest
  latency, which are not implemented) there is always an error and nothing changes.\<close>

theorem claim_takes_roomiest_storage:
  assumes "lawful_env E" and "ow_faults w = []"
  shows "if policy = LowestCopy then
      (case optimize_model_storage_binding E fm policy model tag res deletion w of
         (Inr None, w') \<Rightarrow> w' = w \<and> (\<forall>n. \<not> fits E w model tag res n)
       | (Inr (Some b), w') \<Rightarrow> bt_lookup (ow_bindings w') model = Some b
           \<and> (\<exists>target. bo_spec b = \<lparr>bi_deletion = deletion, bi_model = model, bi_resources = res, bi_storage = BOwned target\<rparr>
               \<and> fits E w model tag res target \<and> (\<forall>n. fits E w model tag res n \<longrightarrow> room E w model n \<le> room E w model target))
       | (Inl e, w') \<Rightarrow> w' = w \<and> bt_lookup (ow_bindings w) model \<noteq> None)
    else \<exists>msg. optimize_model_storage_binding E fm policy model tag res deletion w = (Inl (OBail msg), w)"
  using claim_takes_lowest_copy [OF assms, where fm = fm and model = model and tag = tag and res = res and deletion = deletion]
    quiet_unimplemented [OF assms(2), where E = E and fm = fm and model = model and tag = tag and res = res and deletion = deletion]
  by (cases policy) simp_all

definition demo_storage :: "int ops_event list" where
  "demo_storage = [EvNewStorage ''s'' \<lparr>sp_kind = StObject (ObOwned ''x''), sp_default = False\<rparr>, EvStorage ''s'', EvStorage ''s'']"

definition demo_stored :: "int ops_world" where
  "demo_stored = ops_run demo_env demo_storage (no_objects [])"

lemma demo_optimized:
  "map_option (bs_target \<circ> bi_storage \<circ> bo_spec)
     (case fst (optimize_model_storage_binding demo_env ''f'' LowestCopy ''q'' (Some TagObject) None BDelete demo_stored) of
        Inl _ \<Rightarrow> None | Inr b \<Rightarrow> b) = Some ''s''"
  "ow_faults demo_stored = []"
  by code_simp+

lemma claim_takes_roomiest_storage_witness:
  "fits demo_env demo_stored ''q'' (Some TagObject) None ''s''"
  using claim_takes_roomiest_storage [OF demo_env_lawful demo_optimized(2), where policy = LowestCopy and fm = "''f''" and model = "''q''"
      and tag = "Some TagObject" and res = None and deletion = BDelete]
    demo_optimized(1) by (auto split: prod.splits sum.splits option.splits)

definition demo_claim :: claim_spec where
  "demo_claim = default_claim\<lparr>cl_allow_replacement := False, cl_deletion := ClDelete\<rparr>"

definition demo_claimed :: "int ops_world" where
  "demo_claimed = ops_run demo_env
     ([EvNewClaim ''c'' demo_claim, EvClaim ''c'', EvClaim ''c'', EvModel ''c'', EvModel ''c'',
       EvStorageBinding ''c'', EvStorageBinding ''c''] :: int ops_event list) demo_stored"

text \<open>A run in which the bucket of a claim is deleted because the claim has it.\<close>

lemma demo_bucket_lost:
  "ow_calls (ops_run demo_env [EvClaim ''c'', EvStorageBinding ''c'', EvStorageBinding ''c''] demo_claimed)
   = [Provision ''s'', CreateBucket ''s'' None ''c'' ''c'' None, DeleteBucket ''s'' None ''c'']"
  by code_simp

text \<open>A run in which the claim is dropped with the policy to delete its data, and the bucket stays: the model is being
  deleted before the binding is looked at, so the binding can no longer load it and goes without a word.\<close>

lemma demo_bucket_leaked:
  "(\<lambda>w. (ow_bindings w, map_option (bi_deletion \<circ> bo_spec) (bt_lookup (ow_bindings demo_claimed) ''c''), ow_calls w))
     (ops_run demo_env [EvDropClaim ''c'', EvClaim ''c'', EvClaim ''c'', EvModel ''c'', EvStorageBinding ''c'', EvStorageBinding ''c'']
       demo_claimed)
   = ([], Some BDelete, [Provision ''s'', CreateBucket ''s'' None ''c'' ''c'' None])"
  by code_simp




end
