(* ===== verification/Spec2Isabelle.thy ===== *)
theory Spec2Isabelle imports Main Ark_Prelude Dep_Graph Dep_Merge Lang_Correct Graph_Meta Graph_Db Resource_Db Dep_Solver Kiss_Correct Dash_Correct Dash_Wire Vine_Access Vine_Share Ops_Claim begin

text \<open>
  A model of the core of OpenARK (\<open>crates/\<close>), in Isabelle/HOL.

  OpenARK manages clusters of machines. Its \<open>kubegraph\<close> crates keep a graph of resources (nodes and
  edges in data frames), run small annotation programs over it and plan which programs to run in which
  order. The development models that core, from the source, one theory per component.

  \<^bold>\<open>Theories\<close>
  \<^item> \<open>Ark_Prelude\<close>: results (\<open>Result\<close> is a sum with the error on the left, \<open>rbind\<close> is the question mark),
    \<open>traverse\<close> and \<open>fold_result\<close>, the \<open>BTreeMap\<close> as a sorted association list (\<open>bt_insert\<close>, \<open>bt_remove\<close>,
    \<open>bt_lookup\<close>) and the locale \<open>keyed_store\<close> of its laws.
  \<^item> \<open>Dep_Graph\<close> (\<open>kubegraph/dependency/graph/src/lib.rs\<close>): the search for a chain of functions that turns
    the features at hand into the features asked for. \<open>seed_loop\<close>, \<open>expand_loop\<close> and \<open>visit_loop\<close> are the
    three loops of \<open>Graph::build_pipeline\<close>; the visit loop ends because no path visits a node twice.
  \<^item> \<open>Dep_Merge\<close> (\<open>dependency/graph/src/merge.rs\<close>): the trie of reversed pipelines and its disaggregation
    into outputs that link to each other, in the order of the code's work stack.
  \<^item> \<open>Lang_Syntax\<close> (\<open>kubegraph/api/src/vm.rs\<close>, \<open>parser/src/lib.rs\<close>): syntax trees, statements, values and
    the constant folding. \<open>Lang_Compile\<close>, \<open>Lang_Exec\<close> (\<open>kubegraph/vm/lazy/src/lib.rs\<close>): the compiler
    (\<open>impl_execute\<close>) and the executor (\<open>impl_call\<close>). \<open>Lang_Frame\<close> (\<open>kubegraph/api/src/frame\<close>): data frames
    and slices. \<open>Lang_Correct\<close>: what compiling and running a script means.
  \<^item> \<open>Graph_Meta\<close> (\<open>kubegraph/api/src/graph\<close>): scopes, filters, metadata, edge sets and \<open>petgraph\<close> graphs.
  \<^item> \<open>Graph_Db\<close> (\<open>kubegraph/graph/memory\<close>, \<open>graph/local\<close>, \<open>vm/local/src/graph.rs\<close>): the graph stores, with
    the locale \<open>graph_db\<close> for their interface.
  \<^item> \<open>Resource_Db\<close> (\<open>vm/local/src/resource.rs\<close>): connectors, functions and problems, with update flags.
  \<^item> \<open>Dep_Solver\<close> (\<open>dependency/solver/src/lib.rs\<close>, \<open>vm/lazy/src/function.rs\<close>): functions compiled to nodes of
    the search, one pipeline per graph, the merged pipelines run from the last to the first.
  \<^item> \<open>Kiss_Box\<close> (\<open>kiss/api/src/box.rs\<close>), \<open>Kiss_Cluster\<close> (\<open>kiss/ansible/src/cluster.rs\<close>), \<open>Kiss_Job\<close>
    (\<open>kiss/ansible/src/lib.rs\<close>) and \<open>Kiss_Operator\<close> (\<open>kiss/operator\<close>, \<open>kiss/monitor\<close>, \<open>kiss/gateway\<close>): the
    provisioner of bare machines. A handler is a function of the type \<open>kube\<close>: it passes the world of
    Kubernetes objects along, stops at the first failed call, and any call may fail (\<open>wd_faults\<close>). A run
    is a list of events (\<open>run_events\<close>). The table \<open>operator_move\<close> specifies the operator; the locale
    \<open>job_invariant\<close> carries an invariant of the jobs through every handler. \<open>Kiss_Correct\<close> holds the properties.
  \<^item> \<open>Dash_Name\<close> (\<open>dash/api/src/model.rs\<close>, names and their regular expressions, run by derivatives),
    \<open>Dash_Model\<close> (\<open>dash/api/src/model.rs\<close>: kinds of fields and models), \<open>Dash_Json\<close>
    (\<open>serde_json\<close> values, assertions of \<open>dash/provider/src/lib.rs\<close>), \<open>Dash_Fields\<close>
    (\<open>dash/operator/src/validator/model.rs\<close>: the parser \<open>ModelFieldsParser\<close> and its \<open>finalize\<close>) and
    \<open>Dash_Input\<close> (\<open>dash/provider/src/input.rs\<close>: \<open>InputTemplate\<close> and \<open>ItemTemplate\<close>): user-defined models,
    their validation and the JSON values that are built to fit them. The mutable reference \<open>get_field\<close>
    returns is the value with the function that puts a new one in its place. \<open>Dash_Focus\<close> shows an update that
    names every field from the root equal to a recursion over the value of one field, \<open>Dash_Conform\<close>
    says when a value conforms to a model, and \<open>Dash_Correct\<close> holds the properties. \<open>Dash_Wire\<close> writes a field to
    JSON and reads it back, by the names and defaults of the \<open>serde\<close> attributes in \<open>dash/api/src/model.rs\<close>.
  \<^item> \<open>Ark_Text\<close> (numbers and texts of the Rust library: \<open>parse\<close>, \<open>to_string\<close>, \<open>trim\<close>, \<open>split\<close>) and
    \<open>Kube_Monad\<close> (handlers over the Kubernetes API, with the triples \<open>kvalid\<close>) are shared by the parts.
  \<^item> \<open>Vine_Kube\<close> (\<open>vine/api\<close>: users, roles, bindings, the world \<open>vine_world\<close> and its calls), \<open>Vine_Storage\<close>
    (\<open>vine/storage\<close>: shared volumes), \<open>Vine_Template\<close> (\<open>dash/provider/src/client/job.rs\<close>: the objects of a
    template, made and deleted one by one, but for the claims of volumes, which stay), \<open>Vine_Session\<close> (\<open>vine/session\<close> and \<open>ark/api\<close>: the labels that say who
    holds a node, \<open>SessionManager\<close>), \<open>Vine_Login\<close> (\<open>vine/rbac\<close>: quotas, login, logout; \<open>vine/operator\<close>: the two
    controllers) and \<open>Vine_Auth\<close> (\<open>vine/rbac/src/auth.rs\<close>: requests, their users and namespaces): desktop
    sessions on the machines. A run is a list of events (\<open>vine_run\<close>), each handled as one step whose calls may
    fail at any point. \<open>Vine_Correct\<close> holds what login, logout and the controllers guarantee, with the
    invariant \<open>holders_ok\<close>; \<open>Vine_Access\<close> what roles, namespaces and primary keys allow; \<open>Vine_Share\<close> that
    sharing volumes loses no data (\<open>shares\<close>).
  \<^item> \<open>Ops_Kube\<close> (\<open>dash/api/src/storage\<close>, \<open>model_storage_binding.rs\<close>, \<open>model_claim.rs\<close>, \<open>ark/core/k8s/src/manager.rs\<close>:
    storages, bindings, claims, the world \<open>ops_world\<close> and the record \<open>crd\<close> of a kind of object), \<open>Ops_Storage\<close>
    (\<open>dash/provider/src/storage/kubernetes.rs\<close>, \<open>dash/operator/src/validator/storage.rs\<close>: loading, binding and
    unbinding) and \<open>Ops_Control\<close> (\<open>dash/operator\<close>: the four controllers, the other validators and the optimizer):
    where the data of the models are kept. Requests to a store are a list (\<open>ow_calls\<close>); a run is a list of
    events (\<open>ops_run\<close>). \<open>Ops_Effect\<close> says what each handler leaves alone (\<open>okeeps\<close>), with the locale \<open>object_kind\<close>
    for the four kinds of objects; \<open>Ops_Correct\<close> holds the invariants of storages, models and bindings (\<open>unique_kinds\<close>,
    \<open>well_backed\<close>); \<open>Ops_Claim\<close> what a claim gets, and what becomes of it.

  \<^bold>\<open>What is outside\<close>
  The data-frame library \<open>polars\<close> is the record \<open>polars\<close> of the operations the code calls, and the floating
  point numbers are the record \<open>arith\<close>; nothing is assumed about either. The JSON encoding of the local
  store is the record \<open>codec\<close>, assumed to decode what it encoded. JSON numbers and their conversions are
  the record \<open>numbers\<close>, whose laws (\<open>lawful\<close>) are a total order and that an integer is read back as itself
  (\<open>wire_numbers\<close>: so is a floating point number that has a JSON number); dates, addresses and the case of names are the record \<open>formats\<close>. The server-side apply
  of labels, the arithmetic of quantities, the range of instants, the rendering of templates and the list of API
  kinds are the record \<open>vine_env\<close>; \<open>lawful_template\<close> says that the documents
  of a session are made for the namespace it is rendered for, and \<open>lawful_apply\<close>
  says that the server sets the labels that are given with a value and leaves alone those that are not named
  (each field manager of the code always names the same ones), and nothing about those given as null. The
  decoding of tokens and of mail addresses is the record \<open>auth_env\<close>. How the server merges a status into the old one,
  the answers of the stores and the order of concurrent answers are the record \<open>ops_env\<close>; \<open>lawful_env\<close> says that a
  merge takes a first status as it is, changes nothing of an object merged with itself and takes over what is not
  an object, and that every concurrent request ends. Identifiers stand for themselves where
  the code shares references.

  Asynchronous calls are modelled as sequential ones. For the graph stores of \<open>kubegraph\<close> the reason is in the code:
  each operation holds its lock for its whole body. The controllers of \<open>kiss\<close>, \<open>vine\<close> and \<open>dash\<close> hold no lock, and
  \<open>kube\<close> runs several reconciliations at a time: that a handler is one step is an assumption here, and the
  properties of runs hold for runs of such steps only (\<open>one_control_plane_joins\<close>, \<open>one_job_per_machine\<close>,
  \<open>boxes_stay_well_formed\<close>, \<open>fresh_machine_reaches_running\<close>, \<open>sessions_have_holders\<close>, \<open>ready_bindings_are_backed\<close>,
  \<open>unique_storages_stay_alone\<close>). Within a handler every call may fail, so a handler may stop after any of its calls.

  \<^bold>\<open>Fuel and termination\<close>
  \<open>visit_loop\<close> and \<open>disaggregate\<close> are total functions with a measure. The row iterator
  \<open>collect_rows\<close> is a partial function, because it does not end on a frame without columns. The recursions
  of the input templates over models have a depth, which stands for the stack, and fail with
  \<open>StackOverflow\<close> when it is used up: \<open>fill_default\<close> never does at \<open>depth_needed\<close> (\<open>defaults_terminate\<close>),
  except for a root that names itself, where no depth is enough. \<open>input_update\<close> may follow references
  from item to item for ever, since the storage is outside.

  \<^bold>\<open>Not modelled\<close>
  The grammar of the parser (generated code), serialisation other than that of the fields of models, display, the connectors, the market and the
  services around them (I/O on third-party crates), the stores themselves, the pipes, the services and the
  controllers of functions, tasks and jobs of \<open>dash\<close>, the remote shells and web routes of \<open>vine\<close>, the crate \<open>straw\<close> and the command line
  and the controller wrapper of \<open>ark\<close>.
\<close>

end
